(* ===== verification/Go_Prelude.thy ===== *)
theory Go_Prelude
  imports
    Complex_Main
    "HOL-Library.Char_ord"
    "HOL-Library.List_Lexorder"
    "HOL-Library.AList"
    "HOL-Library.Word"
begin

text \<open>
  Prelude of the arcmux development: the fragment of Go that the modelled packages use.

  \<^item> Go strings are byte sequences (\<open>string\<close>, a list of \<open>char\<close>); UTF-8 decoding and encoding
    follow the language's conversion rules between \<open>string\<close> and \<open>[]rune\<close>, and the functions
    of package \<open>strings\<close> that the code calls are defined on bytes.
  \<^item> \<open>time.Time\<close> is an integer instant in nanoseconds whose zero value is \<open>0\<close>.
  \<^item> \<open>uint64\<close> is a 64-bit word.
  \<^item> An \<open>error\<close> result is an option, a fallible result is a sum, and an operation on shared
    state is a function to the new state together with such a sum. The state is returned on the
    error exits too, because Go keeps what was written before an error.
\<close>

named_theorems op_rules \<open>Hoare rules for stateful operations\<close>
named_theorems op_defs \<open>the combinators of stateful operations\<close>

type_synonym time = int
type_synonym u64 = "64 word"
type_synonym rune = nat
type_synonym ('e, 'a) result = "'e + 'a"
type_synonym ('s, 'e, 'a) op = "'s \<Rightarrow> 's \<times> ('e + 'a)"

abbreviation IsZero :: "time \<Rightarrow> bool" where
  "IsZero t \<equiv> t = 0"

section \<open>Checks that return the first error\<close>

fun first_err :: "'e option list \<Rightarrow> 'e option" where
  "first_err [] = None"
| "first_err (None # es) = first_err es"
| "first_err (Some e # es) = Some e"

definition fail_if :: "bool \<Rightarrow> 'e \<Rightarrow> 'e option" where
  "fail_if b e = (if b then Some e else None)"

lemma fail_if_eval [simp]: "fail_if False e = None" "fail_if True e = Some e"
  by (simp_all add: fail_if_def)

lemma fail_if_None [simp]: "fail_if b e = None \<longleftrightarrow> \<not> b"
  by (simp add: fail_if_def)

lemma fail_if_Some [simp]: "fail_if b e = Some e' \<longleftrightarrow> b \<and> e' = e"
  by (auto simp: fail_if_def)

lemma first_err_Cons [simp]:
  "first_err (x # es) = None \<longleftrightarrow> x = None \<and> first_err es = None"
  by (cases x) auto

lemma first_err_None: "first_err es = None \<longleftrightarrow> (\<forall>x \<in> set es. x = None)"
  by (induction es) auto

lemma first_err_append: "first_err (xs @ ys) = (case first_err xs of None \<Rightarrow> first_err ys | Some e \<Rightarrow> Some e)"
  by (induction xs rule: first_err.induct) auto

section \<open>Stateful operations with error exits\<close>

definition ret_op :: "'a \<Rightarrow> ('s, 'e, 'a) op" where
  "ret_op x = (\<lambda>s. (s, Inr x))"

definition fail_op :: "'e \<Rightarrow> ('s, 'e, 'a) op" where
  "fail_op e = (\<lambda>s. (s, Inl e))"

definition bind_op :: "('s, 'e, 'a) op \<Rightarrow> ('a \<Rightarrow> ('s, 'e, 'b) op) \<Rightarrow> ('s, 'e, 'b) op" where
  "bind_op m k = (\<lambda>s. case m s of (s', Inl e) \<Rightarrow> (s', Inl e) | (s', Inr x) \<Rightarrow> k x s')"

definition seq_op :: "('s, 'e, unit) op \<Rightarrow> ('s, 'e, 'b) op \<Rightarrow> ('s, 'e, 'b) op" where
  "seq_op m k = bind_op m (\<lambda>_. k)"

definition check_op :: "'e option \<Rightarrow> ('s, 'e, unit) op" where
  "check_op r = (\<lambda>s. case r of None \<Rightarrow> (s, Inr ()) | Some e \<Rightarrow> (s, Inl e))"

definition lift_op :: "('e, 'a) result \<Rightarrow> ('s, 'e, 'a) op" where
  "lift_op r = (\<lambda>s. (s, r))"

definition get_op :: "('s \<Rightarrow> 'a) \<Rightarrow> ('s, 'e, 'a) op" where
  "get_op f = (\<lambda>s. (s, Inr (f s)))"

definition read_op :: "('s \<Rightarrow> ('e, 'a) result) \<Rightarrow> ('s, 'e, 'a) op" where
  "read_op f = (\<lambda>s. (s, f s))"

definition mod_op :: "('s \<Rightarrow> 's) \<Rightarrow> ('s, 'e, unit) op" where
  "mod_op f = (\<lambda>s. (f s, Inr ()))"

text \<open>A \<open>for range\<close> loop whose body returns on the first error.\<close>

primrec for_op :: "'a list \<Rightarrow> ('a \<Rightarrow> ('s, 'e, unit) op) \<Rightarrow> ('s, 'e, unit) op" where
  "for_op [] body = ret_op ()"
| "for_op (x # xs) body = seq_op (body x) (for_op xs body)"

lemmas op_combinators [op_defs] =
  ret_op_def fail_op_def bind_op_def seq_op_def check_op_def lift_op_def get_op_def read_op_def
  mod_op_def

text \<open>
  Total-correctness triples with two exits: from a state in \<open>P\<close>, a normal return establishes
  \<open>Q\<close> and an error return establishes \<open>E\<close>.
\<close>

definition triple_op ::
  "('s \<Rightarrow> bool) \<Rightarrow> ('s, 'e, 'a) op \<Rightarrow> ('a \<Rightarrow> 's \<Rightarrow> bool) \<Rightarrow> ('e \<Rightarrow> 's \<Rightarrow> bool) \<Rightarrow> bool" where
  "triple_op P m Q E \<longleftrightarrow>
     (\<forall>s. P s \<longrightarrow> (case m s of (s', Inr x) \<Rightarrow> Q x s' | (s', Inl e) \<Rightarrow> E e s'))"

definition keeps_op :: "('s \<Rightarrow> bool) \<Rightarrow> ('s, 'e, 'a) op \<Rightarrow> bool" where
  "keeps_op P m \<longleftrightarrow> triple_op P m (\<lambda>_. P) (\<lambda>_. P)"

lemma triple_opI:
  assumes "\<And>s s' x. P s \<Longrightarrow> m s = (s', Inr x) \<Longrightarrow> Q x s'"
    and "\<And>s s' e. P s \<Longrightarrow> m s = (s', Inl e) \<Longrightarrow> E e s'"
  shows "triple_op P m Q E"
  using assms unfolding triple_op_def by (auto split: prod.split sum.split)

lemma triple_op_Inr: "triple_op P m Q E \<Longrightarrow> P s \<Longrightarrow> m s = (s', Inr x) \<Longrightarrow> Q x s'"
  unfolding triple_op_def by (auto split: prod.splits sum.splits)

lemma triple_op_Inl: "triple_op P m Q E \<Longrightarrow> P s \<Longrightarrow> m s = (s', Inl e) \<Longrightarrow> E e s'"
  unfolding triple_op_def by (auto split: prod.splits sum.splits)

lemma triple_op_weaken:
  assumes "triple_op P' m Q' E'" and "\<And>s. P s \<Longrightarrow> P' s"
    and "\<And>x s. Q' x s \<Longrightarrow> Q x s" and "\<And>e s. E' e s \<Longrightarrow> E e s"
  shows "triple_op P m Q E"
  using assms unfolding triple_op_def by (fastforce split: prod.splits sum.splits)

lemma triple_bind [op_rules]:
  assumes "triple_op P m R E" and "\<And>x. triple_op (R x) (k x) Q E"
  shows "triple_op P (bind_op m k) Q E"
  using assms unfolding triple_op_def bind_op_def
  by (fastforce split: prod.splits sum.splits)

lemma triple_seq [op_rules]:
  assumes "triple_op P m (\<lambda>_. R) E" and "triple_op R k Q E"
  shows "triple_op P (seq_op m k) Q E"
  unfolding seq_op_def by (rule triple_bind [OF assms(1)]) (rule assms(2))

lemma triple_ret [op_rules]: "(\<And>s. P s \<Longrightarrow> Q x s) \<Longrightarrow> triple_op P (ret_op x) Q E"
  by (simp add: triple_op_def ret_op_def)

lemma triple_fail [op_rules]: "(\<And>s. P s \<Longrightarrow> E e s) \<Longrightarrow> triple_op P (fail_op e) Q E"
  by (simp add: triple_op_def fail_op_def)

lemma triple_for:
  assumes "\<And>x. x \<in> set xs \<Longrightarrow> triple_op I (body x) (\<lambda>_. I) E"
  shows "triple_op I (for_op xs body) (\<lambda>_. I) E"
  using assms
proof (induction xs)
  case Nil
  show ?case by (auto intro!: triple_ret)
next
  case (Cons x xs)
  then show ?case by (auto intro!: triple_seq)
qed

lemma keeps_opI: "(\<And>s. P s \<Longrightarrow> P (fst (m s))) \<Longrightarrow> keeps_op P m"
  by (fastforce simp: keeps_op_def intro: triple_opI)

lemma keeps_opD: "keeps_op P m \<Longrightarrow> P s \<Longrightarrow> P (fst (m s))"
  unfolding keeps_op_def triple_op_def
  by (cases "m s"; cases "snd (m s)") (auto split: prod.splits sum.splits)

lemma keeps_bind [op_rules]:
  "keeps_op P m \<Longrightarrow> (\<And>x. keeps_op P (k x)) \<Longrightarrow> keeps_op P (bind_op m k)"
  unfolding keeps_op_def by (rule triple_bind)

lemma keeps_seq [op_rules]: "keeps_op P m \<Longrightarrow> keeps_op P k \<Longrightarrow> keeps_op P (seq_op m k)"
  unfolding seq_op_def by (rule keeps_bind)

lemma keeps_pure [op_rules, simp]:
  "keeps_op P (ret_op x)" "keeps_op P (fail_op e)" "keeps_op P (check_op r)"
  "keeps_op P (lift_op z)" "keeps_op P (get_op f)" "keeps_op P (read_op g)"
  by (auto simp: keeps_op_def triple_op_def ret_op_def fail_op_def check_op_def lift_op_def
      get_op_def read_op_def split: option.split sum.split)

lemma keeps_mod [op_rules]: "(\<And>s. P s \<Longrightarrow> P (f s)) \<Longrightarrow> keeps_op P (mod_op f)"
  by (simp add: keeps_op_def triple_op_def mod_op_def)

lemma keeps_for [op_rules]: "(\<And>x. x \<in> set xs \<Longrightarrow> keeps_op P (body x)) \<Longrightarrow> keeps_op P (for_op xs body)"
  unfolding keeps_op_def by (rule triple_for)

lemma keeps_if [op_rules]:
  "(b \<Longrightarrow> keeps_op P m) \<Longrightarrow> (\<not> b \<Longrightarrow> keeps_op P n) \<Longrightarrow> keeps_op P (if b then m else n)"
  by simp

text \<open>Results of the combinators, for goals where both exits are computed.\<close>

lemma ret_op_apply [simp]: "ret_op x s = (s, Inr x)"
  by (simp add: ret_op_def)

lemma fail_op_apply [simp]: "fail_op e s = (s, Inl e)"
  by (simp add: fail_op_def)

lemma bind_op_Inr [simp]: "m s = (s', Inr x) \<Longrightarrow> bind_op m k s = k x s'"
  by (simp add: bind_op_def)

lemma bind_op_Inl [simp]: "m s = (s', Inl e) \<Longrightarrow> bind_op m k s = (s', Inl e)"
  by (simp add: bind_op_def)

lemma bind_op_eq_Inr:
  "bind_op m k s = (t, Inr y) \<longleftrightarrow> (\<exists>s' x. m s = (s', Inr x) \<and> k x s' = (t, Inr y))"
  by (auto simp: bind_op_def split: prod.splits sum.splits)

lemma seq_op_eq_Inr:
  "seq_op m k s = (t, Inr y) \<longleftrightarrow> (\<exists>s'. m s = (s', Inr ()) \<and> k s' = (t, Inr y))"
  by (auto simp: seq_op_def bind_op_eq_Inr)

lemma check_op_eq_Inr [simp]: "check_op r s = (t, Inr y) \<longleftrightarrow> r = None \<and> t = s"
  by (auto simp: check_op_def split: option.splits)

lemma check_op_None [simp]: "check_op None s = (s, Inr ())"
  by (simp add: check_op_def)

lemma check_op_Some [simp]: "check_op (Some e) s = (s, Inl e)"
  by (simp add: check_op_def)

lemma lift_op_apply [simp]: "lift_op r s = (s, r)"
  by (simp add: lift_op_def)

lemma get_op_apply [simp]: "get_op f s = (s, Inr (f s))"
  by (simp add: get_op_def)

lemma read_op_apply [simp]: "read_op f s = (s, f s)"
  by (simp add: read_op_def)

lemma mod_op_apply [simp]: "mod_op f s = (f s, Inr ())"
  by (simp add: mod_op_def)

section \<open>Byte strings\<close>

definition has_prefix :: "'a list \<Rightarrow> 'a list \<Rightarrow> bool" where
  "has_prefix p s \<longleftrightarrow> take (length p) s = p"

definition has_suffix :: "'a list \<Rightarrow> 'a list \<Rightarrow> bool" where
  "has_suffix p s \<longleftrightarrow> has_prefix (rev p) (rev s)"

lemma has_prefix_append [simp]: "has_prefix p (p @ s)"
  by (simp add: has_prefix_def)

lemma has_prefix_iff: "has_prefix p s \<longleftrightarrow> (\<exists>t. s = p @ t)"
  by (metis append_eq_conv_conj append_take_drop_id has_prefix_def)

lemma has_prefix_Nil [simp]: "has_prefix [] s"
  by (simp add: has_prefix_def)

lemma has_prefix_Cons [simp]: "has_prefix (a # p) (b # s) \<longleftrightarrow> a = b \<and> has_prefix p s"
  by (auto simp: has_prefix_def)

lemma has_prefix_Cons_Nil [simp]: "\<not> has_prefix (a # p) []"
  by (simp add: has_prefix_def)

text \<open>\<open>strings.Contains\<close> and \<open>strings.Count\<close> (the latter for a non-empty substring).\<close>

fun contains :: "'a list \<Rightarrow> 'a list \<Rightarrow> bool" where
  "contains [] sub = (sub = [])"
| "contains (c # s) sub = (has_prefix sub (c # s) \<or> contains s sub)"

fun count_sub :: "'a list \<Rightarrow> 'a list \<Rightarrow> nat" where
  "count_sub [] sub = 0"
| "count_sub (c # s) sub =
     (if has_prefix sub (c # s) then Suc (count_sub (drop (length sub - 1) s) sub)
      else count_sub s sub)"

lemma contains_iff: "contains s sub \<longleftrightarrow> (\<exists>a b. s = a @ sub @ b)"
proof (induction s)
  case Nil
  then show ?case by simp
next
  case (Cons c s)
  show ?case
  proof
    assume "contains (c # s) sub"
    then consider "has_prefix sub (c # s)" | "contains s sub" by auto
    then show "\<exists>a b. c # s = a @ sub @ b"
    proof cases
      case 1
      then show ?thesis by (metis append_Nil has_prefix_iff)
    next
      case 2
      then show ?thesis using Cons.IH by (metis append_Cons)
    qed
  next
    assume "\<exists>a b. c # s = a @ sub @ b"
    then obtain a b where ab: "c # s = a @ sub @ b" by blast
    show "contains (c # s) sub"
    proof (cases a)
      case Nil
      with ab have "has_prefix sub (c # s)" by simp
      then show ?thesis by simp
    next
      case (Cons x xs)
      with ab have "s = xs @ sub @ b" by simp
      then have "contains s sub" using Cons.IH by blast
      then show ?thesis by simp
    qed
  qed
qed

text \<open>\<open>strings.Split\<close> at a one-byte separator and \<open>strings.Join\<close>.\<close>

fun split_at :: "'a \<Rightarrow> 'a list \<Rightarrow> 'a list list" where
  "split_at c [] = [[]]"
| "split_at c (x # xs) =
     (if x = c then [] # split_at c xs
      else case split_at c xs of [] \<Rightarrow> [[x]] | l # ls \<Rightarrow> (x # l) # ls)"

fun join_with :: "'a list \<Rightarrow> 'a list list \<Rightarrow> 'a list" where
  "join_with sep [] = []"
| "join_with sep [l] = l"
| "join_with sep (l # ls) = l @ sep @ join_with sep ls"

lemma split_at_nonempty [simp]: "split_at c xs \<noteq> []"
  by (induction xs) (auto split: list.split)

lemma join_split_at: "join_with [c] (split_at c xs) = xs"
proof (induction xs)
  case Nil
  then show ?case by simp
next
  case (Cons x xs)
  obtain l ls where "split_at c xs = l # ls"
    by (cases "split_at c xs") auto
  with Cons.IH show ?case by (cases ls) auto
qed

text \<open>\<open>strings.TrimRight\<close> with a cut set of bytes.\<close>

definition trim_right :: "'a list \<Rightarrow> 'a list \<Rightarrow> 'a list" where
  "trim_right cutset s = rev (dropWhile (\<lambda>c. c \<in> set cutset) (rev s))"

definition trim_left :: "'a list \<Rightarrow> 'a list \<Rightarrow> 'a list" where
  "trim_left cutset s = dropWhile (\<lambda>c. c \<in> set cutset) s"

lemma trim_right_idem [simp]: "trim_right cs (trim_right cs s) = trim_right cs s"
  by (simp add: trim_right_def)

lemma trim_right_last: "trim_right cs s \<noteq> [] \<Longrightarrow> last (trim_right cs s) \<notin> set cs"
  unfolding trim_right_def by (metis hd_dropWhile last_rev rev_is_Nil_conv)

section \<open>UTF-8\<close>

definition byte_of :: "char \<Rightarrow> nat" where
  "byte_of c = of_char c"

definition RuneError :: rune where
  "RuneError = 65533"

definition cont_byte :: "nat \<Rightarrow> bool" where
  "cont_byte b \<longleftrightarrow> 128 \<le> b \<and> b \<le> 191"

text \<open>
  The rune that starts with the non-ASCII byte \<open>b0\<close>, with the number of continuation bytes it
  takes; \<open>None\<close> where Go reports \<open>RuneError\<close> of width one.
\<close>

definition multibyte :: "nat \<Rightarrow> nat list \<Rightarrow> (rune \<times> nat) option" where
  "multibyte b0 bs =
     (if 194 \<le> b0 \<and> b0 \<le> 223 then
        (case bs of b1 # _ \<Rightarrow>
           if cont_byte b1 then Some ((b0 - 192) * 64 + (b1 - 128), 1) else None
         | _ \<Rightarrow> None)
      else if 224 \<le> b0 \<and> b0 \<le> 239 then
        (case bs of b1 # b2 # _ \<Rightarrow>
           if cont_byte b1 \<and> cont_byte b2 \<and> (b0 = 224 \<longrightarrow> 160 \<le> b1) \<and> (b0 = 237 \<longrightarrow> b1 \<le> 159)
           then Some ((b0 - 224) * 4096 + (b1 - 128) * 64 + (b2 - 128), 2) else None
         | _ \<Rightarrow> None)
      else if 240 \<le> b0 \<and> b0 \<le> 244 then
        (case bs of b1 # b2 # b3 # _ \<Rightarrow>
           if cont_byte b1 \<and> cont_byte b2 \<and> cont_byte b3 \<and> (b0 = 240 \<longrightarrow> 144 \<le> b1)
              \<and> (b0 = 244 \<longrightarrow> b1 \<le> 143)
           then Some ((b0 - 240) * 262144 + (b1 - 128) * 4096 + (b2 - 128) * 64 + (b3 - 128), 3)
           else None
         | _ \<Rightarrow> None)
      else None)"

fun decode_bytes :: "nat list \<Rightarrow> rune list" where
  "decode_bytes [] = []"
| "decode_bytes (b0 # bs) =
     (if b0 < 128 then b0 # decode_bytes bs
      else case multibyte b0 bs of
        None \<Rightarrow> RuneError # decode_bytes bs
      | Some (r, k) \<Rightarrow> r # decode_bytes (drop k bs))"

definition valid_rune :: "rune \<Rightarrow> bool" where
  "valid_rune r \<longleftrightarrow> r < 55296 \<or> (57344 \<le> r \<and> r \<le> 1114111)"

definition encode_rune :: "rune \<Rightarrow> nat list" where
  "encode_rune r =
     (if r < 128 then [r]
      else if r < 2048 then [192 + r div 64, 128 + r mod 64]
      else if \<not> valid_rune r then [239, 191, 189]
      else if r < 65536 then [224 + r div 4096, 128 + r div 64 mod 64, 128 + r mod 64]
      else [240 + r div 262144, 128 + r div 4096 mod 64, 128 + r div 64 mod 64, 128 + r mod 64])"

text \<open>The conversions \<open>[]rune(s)\<close> and \<open>string(runes)\<close>.\<close>

definition runes_of :: "string \<Rightarrow> rune list" where
  "runes_of s = decode_bytes (map byte_of s)"

definition string_of :: "rune list \<Rightarrow> string" where
  "string_of rs = map char_of (concat (map encode_rune rs))"

lemma decode_encode_rune:
  assumes "valid_rune r"
  shows "decode_bytes (encode_rune r @ bs) = r # decode_bytes bs"
proof -
  have q: "r = r div 64 * 64 + r mod 64" "r div 64 = r div 4096 * 64 + r div 64 mod 64"
    "r div 4096 = r div 262144 * 64 + r div 4096 mod 64"
    by (simp_all add: div_mult2_eq [of r 64 64, simplified] div_mult2_eq [of r 4096 64, simplified])
  have "r mod 64 < 64" "r div 64 mod 64 < 64" "r div 4096 mod 64 < 64"
    by simp_all
  then have lt: "r mod 64 \<le> 63" "r div 64 mod 64 \<le> 63" "r div 4096 mod 64 \<le> 63"
    by linarith+
  consider "r < 128" | "128 \<le> r" "r < 2048" | "2048 \<le> r" "r < 65536" | "65536 \<le> r"
    by linarith
  then show ?thesis
  proof cases
    case 1
    then show ?thesis by (simp add: encode_rune_def)
  next
    case 2
    have e: "encode_rune r = [192 + r div 64, 128 + r mod 64]"
      using 2 by (simp add: encode_rune_def)
    have b: "2 \<le> r div 64" "r div 64 < 32" using 2 by linarith+
    show ?thesis using b lt unfolding e by (auto simp: multibyte_def cont_byte_def)
  next
    case 3
    have e: "encode_rune r = [224 + r div 4096, 128 + r div 64 mod 64, 128 + r mod 64]"
      using 3 assms by (simp add: encode_rune_def)
    have b: "r div 4096 < 16" using 3 by linarith
    have z: "r div 4096 = 0 \<longrightarrow> 32 \<le> r div 64 mod 64" using 3 q lt by linarith
    have d: "r div 4096 = 13 \<longrightarrow> r div 64 mod 64 \<le> 31"
      using assms q lt unfolding valid_rune_def by linarith
    have v: "r div 4096 * 4096 + r div 64 mod 64 * 64 + r mod 64 = r" using q by linarith
    show ?thesis using b z d v lt unfolding e
      by (auto simp: multibyte_def cont_byte_def simp del: mod_less_divisor)
  next
    case 4
    have e: "encode_rune r = [240 + r div 262144, 128 + r div 4096 mod 64,
        128 + r div 64 mod 64, 128 + r mod 64]"
      using 4 assms by (simp add: encode_rune_def)
    have b: "r div 262144 < 5" using assms unfolding valid_rune_def by linarith
    have z: "r div 262144 = 0 \<longrightarrow> 16 \<le> r div 4096 mod 64" using 4 q lt by linarith
    have d: "r div 262144 = 4 \<longrightarrow> r div 4096 mod 64 \<le> 15"
      using assms q lt unfolding valid_rune_def by linarith
    have v: "r div 262144 * 262144 + r div 4096 mod 64 * 4096 + r div 64 mod 64 * 64 + r mod 64 = r"
      using q by linarith
    show ?thesis using b z d v lt unfolding e
      by (auto simp: multibyte_def cont_byte_def)
  qed
qed

lemma decode_encode: "list_all valid_rune rs \<Longrightarrow> decode_bytes (concat (map encode_rune rs)) = rs"
  by (induction rs) (simp_all add: decode_encode_rune)

lemma encode_rune_bytes: "\<forall>b \<in> set (encode_rune r). b < 256"
  by (auto simp: encode_rune_def valid_rune_def)

lemma byte_of_char_of [simp]: "b < 256 \<Longrightarrow> byte_of (char_of b) = b"
  by (simp add: byte_of_def)

lemma map_byte_of_char_of: "\<forall>b \<in> set bs. b < 256 \<Longrightarrow> map (byte_of \<circ> char_of) bs = bs"
  by (induction bs) auto

text \<open>Encoding and decoding again gives the same runes.\<close>

lemma runes_of_string_of: "list_all valid_rune rs \<Longrightarrow> runes_of (string_of rs) = rs"
proof -
  assume v: "list_all valid_rune rs"
  have "\<forall>b \<in> set (concat (map encode_rune rs)). b < 256"
    using encode_rune_bytes by auto
  then have "map byte_of (string_of rs) = concat (map encode_rune rs)"
    unfolding string_of_def by (simp add: map_byte_of_char_of del: map_concat)
  with v show ?thesis by (simp add: runes_of_def decode_encode)
qed

lemma valid_rune_three:
  "x \<le> 15 \<Longrightarrow> y \<le> 63 \<Longrightarrow> z \<le> 63 \<Longrightarrow> (x = 13 \<longrightarrow> y \<le> 31) \<Longrightarrow> valid_rune (x * 4096 + y * 64 + z)"
  unfolding valid_rune_def by (cases "x \<le> 12"; cases "x = 13") linarith+

lemma valid_rune_four:
  "x \<le> 4 \<Longrightarrow> y \<le> 63 \<Longrightarrow> z \<le> 63 \<Longrightarrow> w \<le> 63 \<Longrightarrow> (x = 0 \<longrightarrow> 16 \<le> y) \<Longrightarrow> (x = 4 \<longrightarrow> y \<le> 15) \<Longrightarrow>
   valid_rune (x * 262144 + y * 4096 + z * 64 + w)"
  unfolding valid_rune_def by (cases "x = 0"; cases "x = 4") linarith+

lemma multibyte_cases:
  assumes "multibyte b0 bs = Some (r, k)"
  obtains x y where "x \<le> 31" "y \<le> 63" "r = x * 64 + y"
  | x y z where "x \<le> 15" "y \<le> 63" "z \<le> 63" "x = 13 \<longrightarrow> y \<le> 31" "r = x * 4096 + y * 64 + z"
  | x y z w where "x \<le> 4" "y \<le> 63" "z \<le> 63" "w \<le> 63" "x = 0 \<longrightarrow> 16 \<le> y" "x = 4 \<longrightarrow> y \<le> 15"
      "r = x * 262144 + y * 4096 + z * 64 + w"
proof -
  consider "194 \<le> b0 \<and> b0 \<le> 223" | "224 \<le> b0 \<and> b0 \<le> 239" | "240 \<le> b0 \<and> b0 \<le> 244"
    using assms by (auto simp: multibyte_def split: if_splits)
  then show ?thesis
  proof cases
    case 1
    with assms obtain b1 bs' where c: "bs = b1 # bs'" "cont_byte b1"
      and r: "r = (b0 - 192) * 64 + (b1 - 128)"
      by (auto simp: multibyte_def split: if_splits list.splits)
    show ?thesis
      by (rule that(1) [OF _ _ r]) (use 1 c in \<open>auto simp: cont_byte_def\<close>)
  next
    case 2
    with assms obtain b1 b2 bs' where c: "bs = b1 # b2 # bs'" "cont_byte b1" "cont_byte b2"
      "b0 = 237 \<longrightarrow> b1 \<le> 159" and r: "r = (b0 - 224) * 4096 + (b1 - 128) * 64 + (b2 - 128)"
      by (auto simp: multibyte_def split: if_splits list.splits)
    show ?thesis
      by (rule that(2) [OF _ _ _ _ r]) (use 2 c in \<open>auto simp: cont_byte_def\<close>)
  next
    case 3
    with assms obtain b1 b2 b3 bs' where c: "bs = b1 # b2 # b3 # bs'" "cont_byte b1" "cont_byte b2"
      "cont_byte b3" "b0 = 240 \<longrightarrow> 144 \<le> b1" "b0 = 244 \<longrightarrow> b1 \<le> 143"
      and r: "r = (b0 - 240) * 262144 + (b1 - 128) * 4096 + (b2 - 128) * 64 + (b3 - 128)"
      by (auto simp: multibyte_def split: if_splits list.splits)
    show ?thesis
      by (rule that(3) [OF _ _ _ _ _ _ r]) (use 3 c in \<open>auto simp: cont_byte_def\<close>)
  qed
qed

lemma multibyte_valid:
  assumes "multibyte b0 bs = Some (r, k)"
  shows "valid_rune r"
  using assms
proof (cases rule: multibyte_cases)
  case (1 x y)
  then show ?thesis by (simp add: valid_rune_def)
next
  case (2 x y z)
  then show ?thesis by (simp only: valid_rune_three)
next
  case (3 x y z w)
  then show ?thesis by (simp only: valid_rune_four)
qed

lemma decode_bytes_valid: "list_all valid_rune (decode_bytes bs)"
proof (induction bs rule: decode_bytes.induct)
  case 1
  then show ?case by simp
next
  case (2 b0 bs)
  have "b0 < 128 \<Longrightarrow> valid_rune b0" "valid_rune RuneError"
    by (simp_all add: valid_rune_def RuneError_def)
  with 2 show ?case
    by (auto split: option.split dest: multibyte_valid)
qed

lemma runes_of_valid [simp]: "list_all valid_rune (runes_of s)"
  by (simp add: runes_of_def decode_bytes_valid)

lemma runes_of_Nil [simp]: "runes_of [] = []"
  by (simp add: runes_of_def)

lemma string_of_append: "string_of (a @ b) = string_of a @ string_of b"
  by (simp add: string_of_def)

text \<open>What \<open>encoding/json\<close> stores for a string: invalid bytes are replaced.\<close>

definition to_valid_utf8 :: "string \<Rightarrow> string" where
  "to_valid_utf8 s = string_of (runes_of s)"

lemma to_valid_utf8_idem [simp]: "to_valid_utf8 (to_valid_utf8 s) = to_valid_utf8 s"
  by (simp add: to_valid_utf8_def runes_of_string_of)

definition is_ascii :: "string \<Rightarrow> bool" where
  "is_ascii s \<longleftrightarrow> (\<forall>c \<in> set s. byte_of c < 128)"

lemma decode_ascii: "\<forall>b \<in> set bs. b < 128 \<Longrightarrow> decode_bytes bs = bs"
  by (induction bs) auto

lemma encode_ascii: "\<forall>b \<in> set bs. b < 128 \<Longrightarrow> concat (map encode_rune bs) = bs"
  by (induction bs) (auto simp: encode_rune_def)

lemma char_of_byte_of [simp]: "char_of (byte_of c) = c"
  by (simp add: byte_of_def)

lemma multibyte_high: "multibyte b0 bs = Some (r, k) \<Longrightarrow> 128 \<le> r"
  by (auto simp: multibyte_def cont_byte_def split: if_splits list.splits)

lemma decode_low: "r \<in> set (decode_bytes bs) \<Longrightarrow> r < 128 \<Longrightarrow> r \<in> set bs"
proof (induction bs rule: decode_bytes.induct)
  case (2 b0 bs)
  then show ?case
    by (auto simp: RuneError_def split: option.splits if_splits dest!: multibyte_high) (meson in_set_dropD)
qed simp

lemma encode_low: "b \<in> set (encode_rune r) \<Longrightarrow> b < 128 \<Longrightarrow> r = b"
  by (auto simp: encode_rune_def split: if_splits)

text \<open>Replacing invalid bytes adds no ASCII character.\<close>

lemma to_valid_utf8_low:
  assumes "c \<in> set (to_valid_utf8 s)" "byte_of c < 128"
  shows "c \<in> set s"
proof -
  from assms(1) obtain r b where r: "r \<in> set (runes_of s)" "b \<in> set (encode_rune r)" "c = char_of b"
    by (auto simp: to_valid_utf8_def string_of_def)
  moreover from this have "byte_of c = b" using encode_rune_bytes by simp
  ultimately have "byte_of c \<in> set (runes_of s)" using encode_low assms(2) by metis
  then have "byte_of c \<in> set (map byte_of s)" unfolding runes_of_def using decode_low assms(2) by metis
  then show ?thesis by (auto dest: arg_cong [where f = char_of])
qed

lemma runes_to_valid_utf8 [simp]: "runes_of (to_valid_utf8 s) = runes_of s"
  by (simp add: to_valid_utf8_def runes_of_string_of)

lemma to_valid_utf8_ascii [simp]: "is_ascii s \<Longrightarrow> to_valid_utf8 s = s"
proof -
  assume "is_ascii s"
  then have a: "\<forall>b \<in> set (map byte_of s). b < 128" by (simp add: is_ascii_def)
  have "map char_of (map byte_of s) = s" by (induction s) auto
  with a show ?thesis
    unfolding to_valid_utf8_def string_of_def runes_of_def
    by (simp only: decode_ascii encode_ascii)
qed

section \<open>White space, fields and case\<close>

text \<open>\<open>unicode.IsSpace\<close>.\<close>

definition space_runes :: "rune list" where
  "space_runes = [9, 10, 11, 12, 13, 32, 133, 160, 5760, 8192, 8193, 8194, 8195, 8196, 8197, 8198,
     8199, 8200, 8201, 8202, 8232, 8233, 8239, 8287, 12288]"

definition is_space :: "rune \<Rightarrow> bool" where
  "is_space r \<longleftrightarrow> r \<in> set space_runes"

text \<open>
  The width in bytes of a white-space rune at the front of a string, zero where there is none.
  The encoding of a white-space rune never starts inside that of another rune, so scanning
  bytes finds the same boundaries as decoding runes.
\<close>

definition space_width :: "string \<Rightarrow> nat" where
  "space_width s =
     (case find (\<lambda>r. has_prefix (string_of [r]) s) space_runes of
        None \<Rightarrow> 0 | Some r \<Rightarrow> length (string_of [r]))"

fun trim_left_space :: "string \<Rightarrow> string" where
  "trim_left_space [] = []"
| "trim_left_space (c # s) =
     (if space_width (c # s) = 0 then c # s
      else trim_left_space (drop (space_width (c # s) - 1) s))"

definition space_suffix :: "string \<Rightarrow> nat" where
  "space_suffix s =
     (case find (\<lambda>r. has_suffix (string_of [r]) s) space_runes of
        None \<Rightarrow> 0 | Some r \<Rightarrow> length (string_of [r]))"

function trim_right_space :: "string \<Rightarrow> string" where
  "trim_right_space s =
     (if s = [] \<or> space_suffix s = 0 then s
      else trim_right_space (take (length s - space_suffix s) s))"
  by pat_completeness auto
termination
  by (relation "measure length") auto

declare trim_right_space.simps [simp del]

definition trim_space :: "string \<Rightarrow> string" where
  "trim_space s = trim_right_space (trim_left_space s)"

text \<open>\<open>strings.Fields\<close>.\<close>

fun fields_from :: "string \<Rightarrow> string \<Rightarrow> string list" where
  "fields_from cur [] = (if cur = [] then [] else [cur])"
| "fields_from cur (c # s) =
     (if space_width (c # s) = 0 then fields_from (cur @ [c]) s
      else (if cur = [] then [] else [cur]) @ fields_from [] (drop (space_width (c # s) - 1) s))"

definition split_fields :: "string \<Rightarrow> string list" where
  "split_fields s = fields_from [] s"

text \<open>
  \<open>strings.ToLower\<close>: bytes for an ASCII string, \<open>unicode.ToLower\<close> (the parameter \<open>lo\<close>, a table of
  the Unicode database) rune by rune otherwise.
\<close>

definition lower_ascii :: "rune \<Rightarrow> rune" where
  "lower_ascii r = (if 65 \<le> r \<and> r \<le> 90 then r + 32 else r)"

definition to_lower :: "(rune \<Rightarrow> rune) \<Rightarrow> string \<Rightarrow> string" where
  "to_lower lo s =
     string_of (map (\<lambda>r. if r < 128 then lower_ascii r else lo r) (runes_of s))"

text \<open>
  On ASCII text these functions need no decoding: white space is one of six bytes. The rules
  below evaluate them on literals.
\<close>

named_theorems ascii_eval \<open>evaluation on ASCII literals\<close>

lemma char_of_eq_iff: "n < 256 \<Longrightarrow> char_of n = c \<longleftrightarrow> byte_of c = n"
  using byte_of_char_of char_of_byte_of by metis

lemma string_of_rune_ascii: "r < 128 \<Longrightarrow> string_of [r] = [char_of r]"
  by (simp add: string_of_def encode_rune_def)

lemma encode_rune_high:
  "128 \<le> r \<Longrightarrow> encode_rune r \<noteq> [] \<and> 128 \<le> hd (encode_rune r) \<and> 128 \<le> last (encode_rune r)"
  by (simp add: encode_rune_def)

lemma string_of_rune_high:
  assumes "128 \<le> r"
  obtains b :: nat and bs where "string_of [r] = char_of b # bs" "128 \<le> b" "b < 256"
proof -
  have "encode_rune r = hd (encode_rune r) # tl (encode_rune r)"
    using encode_rune_high [OF assms] by simp
  then have "string_of [r] = char_of (hd (encode_rune r)) # map char_of (tl (encode_rune r))"
    unfolding string_of_def by (metis concat.simps(1,2) append_Nil2 list.simps(8,9))
  with that encode_rune_high [OF assms] encode_rune_bytes [of r] show ?thesis by simp
qed

lemma string_of_rune_high_last:
  assumes "128 \<le> r"
  obtains b :: nat and bs where "string_of [r] = bs @ [char_of b]" "128 \<le> b" "b < 256"
proof -
  have "encode_rune r = butlast (encode_rune r) @ [last (encode_rune r)]"
    using encode_rune_high [OF assms] by simp
  then have "string_of [r] = map char_of (butlast (encode_rune r)) @ [char_of (last (encode_rune r))]"
    unfolding string_of_def by (metis concat.simps(1,2) append_Nil2 list.simps(8,9) map_append)
  with that encode_rune_high [OF assms] encode_rune_bytes [of r] show ?thesis by simp
qed

lemma has_prefix_rune_ascii:
  assumes "byte_of c < 128"
  shows "has_prefix (string_of [r]) (c # s) \<longleftrightarrow> r = byte_of c"
proof (cases "r < 128")
  case True
  then show ?thesis by (auto simp: string_of_rune_ascii char_of_eq_iff)
next
  case False
  then have "128 \<le> r" by simp
  then obtain b :: nat and bs where "string_of [r] = char_of b # bs" "128 \<le> b" "b < 256"
    by (rule string_of_rune_high)
  with False assms show ?thesis by (auto simp: char_of_eq_iff)
qed

lemma has_suffix_rune_ascii:
  assumes "byte_of c < 128"
  shows "has_suffix (string_of [r]) (s @ [c]) \<longleftrightarrow> r = byte_of c"
proof (cases "r < 128")
  case True
  then show ?thesis by (auto simp: has_suffix_def string_of_rune_ascii char_of_eq_iff)
next
  case False
  then have "128 \<le> r" by simp
  then obtain b :: nat and bs where "string_of [r] = bs @ [char_of b]" "128 \<le> b" "b < 256"
    by (rule string_of_rune_high_last)
  with False assms show ?thesis by (auto simp: has_suffix_def char_of_eq_iff)
qed

lemma find_eq_member: "find (\<lambda>r. r = x) rs = (if x \<in> set rs then Some x else None)"
  by (induction rs) auto

lemma ascii_space_iff: "n < 128 \<Longrightarrow> n \<in> set space_runes \<longleftrightarrow> (9 \<le> n \<and> n \<le> 13) \<or> n = 32"
  by (auto simp: space_runes_def)

lemma space_width_ascii [ascii_eval]:
  "byte_of c < 128 \<Longrightarrow> space_width (c # s) = (if (9 \<le> byte_of c \<and> byte_of c \<le> 13) \<or> byte_of c = 32 then 1 else 0)"
  by (simp add: space_width_def has_prefix_rune_ascii find_eq_member ascii_space_iff string_of_rune_ascii)

lemma space_suffix_ascii [ascii_eval]:
  "byte_of c < 128 \<Longrightarrow> space_suffix (s @ [c]) = (if (9 \<le> byte_of c \<and> byte_of c \<le> 13) \<or> byte_of c = 32 then 1 else 0)"
  by (simp add: space_suffix_def has_suffix_rune_ascii find_eq_member ascii_space_iff string_of_rune_ascii)

lemma trim_right_space_snoc [ascii_eval]:
  "byte_of c < 128 \<Longrightarrow> trim_right_space (s @ [c]) =
     (if (9 \<le> byte_of c \<and> byte_of c \<le> 13) \<or> byte_of c = 32 then trim_right_space s else s @ [c])"
  by (subst trim_right_space.simps) (simp add: space_suffix_ascii)

lemma trim_right_space_Nil [simp]: "trim_right_space [] = []"
  by (simp add: trim_right_space.simps)

lemma trim_right_space_last [ascii_eval]:
  "s \<noteq> [] \<Longrightarrow> byte_of (last s) < 128 \<Longrightarrow> trim_right_space s =
     (if (9 \<le> byte_of (last s) \<and> byte_of (last s) \<le> 13) \<or> byte_of (last s) = 32
      then trim_right_space (butlast s) else s)"
  using trim_right_space_snoc [of "last s" "butlast s"] by simp

lemma runes_of_ascii [ascii_eval]: "is_ascii s \<Longrightarrow> runes_of s = map byte_of s"
  unfolding runes_of_def is_ascii_def by (rule decode_ascii) auto

lemma string_of_ascii [ascii_eval]: "\<forall>r \<in> set rs. r < 128 \<Longrightarrow> string_of rs = map char_of rs"
  by (simp add: string_of_def encode_ascii)

lemmas ascii_eval_defs [ascii_eval] = is_ascii_def byte_of_def split_fields_def trim_space_def

section \<open>Character classes of the identifier patterns\<close>

definition is_digit :: "char \<Rightarrow> bool" where
  "is_digit c \<longleftrightarrow> 48 \<le> byte_of c \<and> byte_of c \<le> 57"

definition is_lower_char :: "char \<Rightarrow> bool" where
  "is_lower_char c \<longleftrightarrow> 97 \<le> byte_of c \<and> byte_of c \<le> 122"

definition is_upper_char :: "char \<Rightarrow> bool" where
  "is_upper_char c \<longleftrightarrow> 65 \<le> byte_of c \<and> byte_of c \<le> 90"

definition is_alnum :: "char \<Rightarrow> bool" where
  "is_alnum c \<longleftrightarrow> is_digit c \<or> is_lower_char c \<or> is_upper_char c"

definition is_hex :: "char \<Rightarrow> bool" where
  "is_hex c \<longleftrightarrow> is_digit c \<or> (97 \<le> byte_of c \<and> byte_of c \<le> 102) \<or> (65 \<le> byte_of c \<and> byte_of c \<le> 70)"

lemmas char_class_defs = is_digit_def is_lower_char_def is_upper_char_def is_alnum_def is_hex_def

text \<open>The shape \<open>^[first][rest]{0,n}$\<close>.\<close>

definition id_shape :: "(char \<Rightarrow> bool) \<Rightarrow> (char \<Rightarrow> bool) \<Rightarrow> nat \<Rightarrow> string \<Rightarrow> bool" where
  "id_shape f g n s \<longleftrightarrow> (case s of [] \<Rightarrow> False | c # cs \<Rightarrow> f c \<and> list_all g cs \<and> length cs \<le> n)"

lemma id_shape_length: "id_shape f g n s \<Longrightarrow> 1 \<le> length s \<and> length s \<le> Suc n"
  by (auto simp: id_shape_def split: list.splits)

lemma id_shape_chars:
  "id_shape f g n s \<Longrightarrow> (\<And>c. f c \<Longrightarrow> P c) \<Longrightarrow> (\<And>c. g c \<Longrightarrow> P c) \<Longrightarrow> \<forall>c \<in> set s. P c"
  by (auto simp: id_shape_def list_all_iff split: list.splits)

section \<open>Paths\<close>

text \<open>\<open>filepath.Base\<close> on a slash-separated path.\<close>

definition path_base :: "string \<Rightarrow> string" where
  "path_base p =
     (if p = [] then ''.''
      else let q = trim_right ''/'' p
           in if q = [] then ''/'' else rev (takeWhile (\<lambda>c. c \<noteq> CHR ''/'') (rev q)))"

lemma path_base_plain: "p \<noteq> [] \<Longrightarrow> CHR ''/'' \<notin> set p \<Longrightarrow> path_base p = p"
proof -
  assume p: "p \<noteq> []" "CHR ''/'' \<notin> set p"
  have "dropWhile (\<lambda>c. c \<in> set ''/'') (rev p) = rev p"
    using p by (cases p rule: rev_cases) auto
  moreover have "takeWhile (\<lambda>c. c \<noteq> CHR ''/'') (rev p) = rev p"
    using p by (auto simp: takeWhile_eq_all_conv)
  ultimately show ?thesis
    using p(1) unfolding path_base_def trim_right_def Let_def by (simp del: takeWhile_eq_all_conv)
qed

text \<open>\<open>path.Clean\<close>, with the elements kept so far on a stack, and \<open>filepath.Join\<close>.\<close>

fun clean_parts :: "bool \<Rightarrow> string list \<Rightarrow> string list \<Rightarrow> string list" where
  "clean_parts rooted st [] = rev st"
| "clean_parts rooted st (x # xs) =
     (if x = [] \<or> x = ''.'' then clean_parts rooted st xs
      else if x = ''..'' then
        (case st of
           [] \<Rightarrow> clean_parts rooted (if rooted then [] else [''..'']) xs
         | t # ts \<Rightarrow> clean_parts rooted (if t = ''..'' then ''..'' # st else ts) xs)
      else clean_parts rooted (x # st) xs)"

definition path_clean :: "string \<Rightarrow> string" where
  "path_clean p =
     (let rooted = has_prefix ''/'' p;
          out = (if rooted then ''/'' else []) @ join_with ''/'' (clean_parts rooted [] (split_at (CHR ''/'') p))
      in if out = [] then ''.'' else out)"

definition path_join :: "string list \<Rightarrow> string" where
  "path_join elems =
     (let es = filter (\<lambda>e. e \<noteq> []) elems
      in if es = [] then [] else path_clean (join_with ''/'' es))"

text \<open>\<open>unicode.IsControl\<close>.\<close>

definition is_control :: "rune \<Rightarrow> bool" where
  "is_control r \<longleftrightarrow> r \<le> 31 \<or> (127 \<le> r \<and> r \<le> 159)"

section \<open>Association lists as finite maps\<close>

lemma find_SomeD: "find P xs = Some x \<Longrightarrow> x \<in> set xs \<and> P x"
  by (auto simp: find_Some_iff)

lemma list_all_replicate [simp]: "list_all P (replicate n x) \<longleftrightarrow> n = 0 \<or> P x"
  by (induction n) auto

lemma map_of_AList_update [simp]: "map_of (AList.update k v m) = (map_of m)(k \<mapsto> v)"
  by (simp add: update_conv')

lemma map_of_AList_delete [simp]: "map_of (AList.delete k m) = (map_of m)(k := None)"
  by (simp add: delete_conv')

lemma distinct_AList_update [simp]: "distinct (map fst m) \<Longrightarrow> distinct (map fst (AList.update k v m))"
  by (rule distinct_update)

section \<open>Results\<close>

definition bind_res :: "'e + 'a \<Rightarrow> ('a \<Rightarrow> 'e + 'b) \<Rightarrow> 'e + 'b" where
  "bind_res r f = (case r of Inl e \<Rightarrow> Inl e | Inr x \<Rightarrow> f x)"

definition check_res :: "'e option \<Rightarrow> 'e + 'b \<Rightarrow> 'e + 'b" where
  "check_res v r = (case v of Some e \<Rightarrow> Inl e | None \<Rightarrow> r)"

fun map_res :: "('a \<Rightarrow> 'e + 'b) \<Rightarrow> 'a list \<Rightarrow> 'e + 'b list" where
  "map_res f [] = Inr []"
| "map_res f (x # xs) = bind_res (f x) (\<lambda>y. bind_res (map_res f xs) (\<lambda>ys. Inr (y # ys)))"

lemma bind_res_Inr [simp]: "bind_res r f = Inr y \<longleftrightarrow> (\<exists>x. r = Inr x \<and> f x = Inr y)"
  by (auto simp: bind_res_def split: sum.splits)

lemma check_res_Inr [simp]: "check_res v r = Inr y \<longleftrightarrow> v = None \<and> r = Inr y"
  by (auto simp: check_res_def split: option.splits)

lemma bind_res_apply [simp]: "bind_res (Inr x) f = f x" "bind_res (Inl e) f = Inl e"
  by (simp_all add: bind_res_def)

lemma check_res_apply [simp]: "check_res None r = r" "check_res (Some e) r = Inl e"
  by (simp_all add: check_res_def)

lemma map_res_mem: "map_res f xs = Inr ys \<Longrightarrow> y \<in> set ys \<Longrightarrow> \<exists>x \<in> set xs. f x = Inr y"
  by (induction xs arbitrary: ys) auto

lemma map_res_hit: "map_res f xs = Inr ys \<Longrightarrow> x \<in> set xs \<Longrightarrow> \<exists>y \<in> set ys. f x = Inr y"
  by (induction xs arbitrary: ys) auto

section \<open>Files below a private directory\<close>

text \<open>
  A file holds a document, or it is damaged: not decodable, readable by others, or not a regular
  file. A path is made of segments, and a segment with a separator or of dots is refused.
\<close>

datatype 'a fnode = File 'a | Undecodable | TooOpen | NotRegular

definition quote :: char where "quote = char_of (34 :: nat)"
definition backslash :: char where "backslash = char_of (92 :: nat)"

lemma quote_iff: "c = quote \<longleftrightarrow> byte_of c = 34" "c = backslash \<longleftrightarrow> byte_of c = 92"
  by (auto simp: quote_def backslash_def char_of_eq_iff [symmetric])

definition unsafe_segment :: "string \<Rightarrow> bool" where
  "unsafe_segment seg \<longleftrightarrow>
     seg = [] \<or> seg = ''.'' \<or> seg = ''..'' \<or> path_base seg \<noteq> seg
     \<or> list_ex (\<lambda>c. c = CHR ''/'' \<or> c = backslash \<or> c = char_of (0 :: nat)) seg"

definition plain_char :: "char \<Rightarrow> bool" where
  "plain_char c \<longleftrightarrow> is_alnum c \<or> c \<in> set ''._-:''"

lemma plain_not_special: "plain_char c \<Longrightarrow> c \<noteq> CHR ''/'' \<and> c \<noteq> backslash \<and> c \<noteq> char_of (0 :: nat)"
  by (auto simp: plain_char_def char_class_defs byte_of_def backslash_def dest: arg_cong [of _ _ byte_of])

lemma plain_segment: "s \<noteq> [] \<Longrightarrow> s \<noteq> ''.'' \<Longrightarrow> s \<noteq> ''..'' \<Longrightarrow> list_all plain_char s \<Longrightarrow> \<not> unsafe_segment s"
  unfolding unsafe_segment_def list_ex_iff list_all_iff using plain_not_special path_base_plain [of s] by blast

lemma plain_no_slash: "list_all plain_char s \<Longrightarrow> CHR ''/'' \<notin> set s"
  using plain_not_special by (auto simp: list_all_iff)

end
