(* ===== verification/Session.thy ===== *)
theory Session
  imports Go_Prelude
begin

text \<open>
  The runtime session (\<open>internal/session/state.go\<close>): the lifecycle states, the session struct,
  its constructor, the setters and the read-consistent snapshot. Every method runs under the
  session's mutex, so each is one atomic step; the instant \<open>time.Now()\<close> reads is an argument.
  The step relation \<open>session_step\<close> collects the mutating methods; its reachable states carry the
  invariant the health monitor relies on.
\<close>

datatype State =
    StateStarting
  | StateHandshaking
  | StateIdle
  | StateWorking
  | StateStuck
  | StateEscalated
  | StateExited
  | StateFailed

record Session =
  sess_ID :: string
  sess_Name :: string
  sess_Agent :: string
  sess_CWD :: string
  sess_Transport :: string
  sess_TmuxSessionName :: string
  sess_TmuxTarget :: string
  sess_CurrentCommand :: string
  sess_BackendSessionID :: string
  sess_PID :: int
  sess_State :: State
  sess_Health :: string
  sess_StartedAt :: time
  sess_LastActivityAt :: time
  sess_IdleSince :: "time option"
  sess_WorkingSince :: "time option"
  sess_NudgeCount :: int
  sess_Env :: "string \<rightharpoonup> string"
  sess_AutoClose :: bool
  sess_OwnerID :: string
  sess_private :: bool

definition NewSession :: "string \<Rightarrow> string \<Rightarrow> string \<Rightarrow> string \<Rightarrow> time \<Rightarrow> Session" where
  "NewSession i n a cwd now =
     \<lparr>sess_ID = i, sess_Name = n, sess_Agent = a, sess_CWD = cwd, sess_Transport = [],
      sess_TmuxSessionName = [], sess_TmuxTarget = [], sess_CurrentCommand = [],
      sess_BackendSessionID = [], sess_PID = 0, sess_State = StateStarting,
      sess_Health = ''healthy'', sess_StartedAt = now, sess_LastActivityAt = now,
      sess_IdleSince = None, sess_WorkingSince = None, sess_NudgeCount = 0,
      sess_Env = Map.empty, sess_AutoClose = False, sess_OwnerID = [], sess_private = False\<rparr>"

definition SetState :: "State \<Rightarrow> time \<Rightarrow> Session \<Rightarrow> Session" where
  "SetState st now s =
     s\<lparr>sess_State := st,
       sess_LastActivityAt := now,
       sess_IdleSince := (if st = StateIdle then Some now else None),
       sess_WorkingSince := (if st = StateWorking then Some now else None)\<rparr>"

definition RecordActivity :: "time \<Rightarrow> Session \<Rightarrow> Session" where
  "RecordActivity now s = s\<lparr>sess_LastActivityAt := now\<rparr>"

definition IncrementNudge :: "Session \<Rightarrow> Session \<times> int" where
  "IncrementNudge s =
     (let s' = s\<lparr>sess_NudgeCount := sess_NudgeCount s + 1\<rparr> in (s', sess_NudgeCount s'))"

definition ResetNudge :: "Session \<Rightarrow> Session" where
  "ResetNudge s = s\<lparr>sess_NudgeCount := 0\<rparr>"

definition SetTransport :: "string \<Rightarrow> Session \<Rightarrow> Session" where
  "SetTransport t s = s\<lparr>sess_Transport := t\<rparr>"

definition SetPID :: "int \<Rightarrow> Session \<Rightarrow> Session" where
  "SetPID pid s = s\<lparr>sess_PID := pid\<rparr>"

definition SetCurrentCommand :: "string \<Rightarrow> Session \<Rightarrow> Session" where
  "SetCurrentCommand c s = s\<lparr>sess_CurrentCommand := c\<rparr>"

definition SetBackendSessionID :: "string \<Rightarrow> Session \<Rightarrow> Session" where
  "SetBackendSessionID i s = s\<lparr>sess_BackendSessionID := i\<rparr>"

definition SetHealth :: "string \<Rightarrow> Session \<Rightarrow> Session" where
  "SetHealth h s = s\<lparr>sess_Health := h\<rparr>"

definition SetAutoClose :: "bool \<Rightarrow> Session \<Rightarrow> Session" where
  "SetAutoClose v s = s\<lparr>sess_AutoClose := v\<rparr>"

definition SetOwnerID :: "string \<Rightarrow> Session \<Rightarrow> Session" where
  "SetOwnerID i s = s\<lparr>sess_OwnerID := i\<rparr>"

definition MarkPrivate :: "Session \<Rightarrow> Session" where
  "MarkPrivate s = s\<lparr>sess_private := True\<rparr>"

text \<open>An empty environment map and nil are the same map, and copying a map keeps its value.\<close>

definition SetEnv :: "(string \<rightharpoonup> string) \<Rightarrow> Session \<Rightarrow> Session" where
  "SetEnv env s = s\<lparr>sess_Env := env\<rparr>"

record Snapshot =
  snap_ID :: string
  snap_Name :: string
  snap_Agent :: string
  snap_CWD :: string
  snap_Transport :: string
  snap_Env :: "string \<rightharpoonup> string"
  snap_TmuxSessionName :: string
  snap_TmuxTarget :: string
  snap_CurrentCommand :: string
  snap_BackendSessionID :: string
  snap_PID :: int
  snap_State :: State
  snap_Health :: string
  snap_StartedAt :: time
  snap_LastActivityAt :: time
  snap_IdleSince :: "time option"
  snap_WorkingSince :: "time option"
  snap_NudgeCount :: int
  snap_AutoClose :: bool
  snap_OwnerID :: string
  snap_Private :: bool

definition copyEnvMap :: "(string \<rightharpoonup> string) \<Rightarrow> (string \<rightharpoonup> string)" where
  "copyEnvMap env = env"

definition Session_Snapshot :: "Session \<Rightarrow> Snapshot" where
  "Session_Snapshot s =
     \<lparr>snap_ID = sess_ID s, snap_Name = sess_Name s, snap_Agent = sess_Agent s,
      snap_CWD = sess_CWD s, snap_Transport = sess_Transport s, snap_Env = copyEnvMap (sess_Env s),
      snap_TmuxSessionName = sess_TmuxSessionName s, snap_TmuxTarget = sess_TmuxTarget s,
      snap_CurrentCommand = sess_CurrentCommand s,
      snap_BackendSessionID = sess_BackendSessionID s, snap_PID = sess_PID s,
      snap_State = sess_State s, snap_Health = sess_Health s, snap_StartedAt = sess_StartedAt s,
      snap_LastActivityAt = sess_LastActivityAt s, snap_IdleSince = sess_IdleSince s,
      snap_WorkingSince = sess_WorkingSince s, snap_NudgeCount = sess_NudgeCount s,
      snap_AutoClose = sess_AutoClose s, snap_OwnerID = sess_OwnerID s,
      snap_Private = sess_private s\<rparr>"

lemmas session_setter_defs =
  SetState_def RecordActivity_def IncrementNudge_def ResetNudge_def SetTransport_def SetPID_def
  SetCurrentCommand_def SetBackendSessionID_def SetHealth_def SetAutoClose_def SetOwnerID_def
  MarkPrivate_def SetEnv_def

section \<open>The session as a state machine\<close>

text \<open>
  One step is one mutating method call; the clock never runs backwards between calls, so a call
  at \<open>now\<close> has \<open>sess_LastActivityAt s \<le> now\<close>.
\<close>

inductive session_step :: "Session \<Rightarrow> Session \<Rightarrow> bool" where
  step_SetState: "sess_LastActivityAt s \<le> now \<Longrightarrow> session_step s (SetState st now s)"
| step_RecordActivity: "sess_LastActivityAt s \<le> now \<Longrightarrow> session_step s (RecordActivity now s)"
| step_IncrementNudge: "session_step s (fst (IncrementNudge s))"
| step_ResetNudge: "session_step s (ResetNudge s)"
| step_SetTransport: "session_step s (SetTransport t s)"
| step_SetPID: "session_step s (SetPID pid s)"
| step_SetCurrentCommand: "session_step s (SetCurrentCommand c s)"
| step_SetBackendSessionID: "session_step s (SetBackendSessionID b s)"
| step_SetHealth: "session_step s (SetHealth h s)"
| step_SetAutoClose: "session_step s (SetAutoClose v s)"
| step_SetOwnerID: "session_step s (SetOwnerID ow s)"
| step_MarkPrivate: "session_step s (MarkPrivate s)"
| step_SetEnv: "session_step s (SetEnv env s)"

inductive session_reachable :: "Session \<Rightarrow> bool" where
  reach_New: "session_reachable (NewSession i n a cwd now)"
| reach_step: "session_reachable s \<Longrightarrow> session_step s t \<Longrightarrow> session_reachable t"

text \<open>
  The turn anchors: \<open>IdleSince\<close> is set exactly in the idle state and \<open>WorkingSince\<close> exactly in
  the working state, both within the session's recorded activity; the nudge counter is never
  negative.
\<close>

definition session_inv :: "Session \<Rightarrow> bool" where
  "session_inv s \<longleftrightarrow>
     (sess_IdleSince s \<noteq> None \<longleftrightarrow> sess_State s = StateIdle) \<and>
     (sess_WorkingSince s \<noteq> None \<longleftrightarrow> sess_State s = StateWorking) \<and>
     (\<forall>t. sess_IdleSince s = Some t \<longrightarrow> t \<le> sess_LastActivityAt s) \<and>
     (\<forall>t. sess_WorkingSince s = Some t \<longrightarrow> t \<le> sess_LastActivityAt s) \<and>
     sess_StartedAt s \<le> sess_LastActivityAt s \<and> 0 \<le> sess_NudgeCount s"

lemma session_inv_NewSession: "session_inv (NewSession i n a cwd now)"
  by (simp add: session_inv_def NewSession_def)

lemma session_inv_SetState:
  "session_inv s \<Longrightarrow> sess_LastActivityAt s \<le> now \<Longrightarrow> session_inv (SetState st now s)"
  by (auto simp: session_inv_def SetState_def)

lemma session_inv_ResetNudge: "session_inv s \<Longrightarrow> session_inv (ResetNudge s)"
  by (simp add: session_inv_def ResetNudge_def)

lemma session_inv_IncrementNudge: "session_inv s \<Longrightarrow> session_inv (fst (IncrementNudge s))"
  by (simp add: session_inv_def IncrementNudge_def Let_def)

lemma session_step_inv: "session_step s t \<Longrightarrow> session_inv s \<Longrightarrow> session_inv t"
proof (induction rule: session_step.induct)
  case (step_SetState s now st)
  then show ?case by (intro session_inv_SetState)
next
  case (step_RecordActivity s now)
  then show ?case by (fastforce simp: session_inv_def RecordActivity_def)
qed (auto simp: session_inv_def session_setter_defs Let_def)

lemma session_step_private: "session_step s t \<Longrightarrow> sess_private s \<Longrightarrow> sess_private t"
  by (induction rule: session_step.induct) (simp_all add: session_setter_defs Let_def)

lemma session_step_identity:
  "session_step s t \<Longrightarrow> sess_ID t = sess_ID s \<and> sess_Name t = sess_Name s \<and> sess_Agent t = sess_Agent s
     \<and> sess_CWD t = sess_CWD s \<and> sess_StartedAt t = sess_StartedAt s"
  by (induction rule: session_step.induct) (simp_all add: session_setter_defs Let_def)

lemma session_step_activity_mono:
  "session_step s t \<Longrightarrow> sess_LastActivityAt s \<le> sess_LastActivityAt t"
  by (induction rule: session_step.induct) (simp_all add: session_setter_defs Let_def)

lemma session_reachable_inv: "session_reachable s \<Longrightarrow> session_inv s"
proof (induction rule: session_reachable.induct)
  case (reach_New i n a cwd now)
  show ?case by (rule session_inv_NewSession)
next
  case (reach_step s t)
  then show ?case by (blast intro: session_step_inv)
qed



text \<open>
  A session marked private stays private, and keeps its id, name, agent, working directory and
  start time, under every sequence of setters: nothing the caller can set makes it public again.
\<close>

theorem session_private_forever:
  assumes "session_step\<^sup>*\<^sup>* (MarkPrivate s) t"
  shows "snap_Private (Session_Snapshot t) \<and> snap_ID (Session_Snapshot t) = sess_ID s
    \<and> snap_Name (Session_Snapshot t) = sess_Name s \<and> snap_Agent (Session_Snapshot t) = sess_Agent s
    \<and> snap_CWD (Session_Snapshot t) = sess_CWD s \<and> snap_StartedAt (Session_Snapshot t) = sess_StartedAt s"
  using assms
proof (induction rule: rtranclp_induct)
  case base
  then show ?case by (simp add: Session_Snapshot_def MarkPrivate_def)
next
  case (step t u)
  then show ?case
    using session_step_private [of t u] session_step_identity [of t u]
    by (simp add: Session_Snapshot_def)
qed

theorem session_private_forever_witness:
  "snap_Private (Session_Snapshot (SetOwnerID ''public'' (MarkPrivate (NewSession ''s1'' ''n'' ''claude'' ''/w'' 5))))"
  using session_private_forever [OF r_into_rtranclp [of session_step, OF step_SetOwnerID]] by blast

end
