(* ===== verification/Hooks.thy ===== *)
theory Hooks
  imports Go_Prelude
begin

text \<open>
  The per-session hook state (\<open>internal/hooks/sessionstate.go\<close>, \<open>internal/hooks/history_binding.go\<close>):
  the documents the agents' hooks write, the turn contract they carry, the locked read-modify-write
  cycle with its revision counter, the compare-and-swap writer of the overall-goal summary, and the
  verified writer of the canonical history binding.

  A state directory is a map from session ids to files plus its archive. Every writer holds the
  session's file lock for the whole cycle, so one call is one atomic step on the directory; an
  operating-system failure of the next call is a field of the directory, so that every error exit
  is present. A file is either a readable document or bytes that do not decode. Writing stores what
  \<open>encoding/json\<close> reads back: strings with invalid UTF-8 replaced.
\<close>

definition EventPromptSubmit :: string where "EventPromptSubmit = ''prompt_submit''"
definition EventToolStart :: string where "EventToolStart = ''tool_start''"
definition EventToolEnd :: string where "EventToolEnd = ''tool_end''"
definition EventTurnEnd :: string where "EventTurnEnd = ''turn_end''"
definition EventNotification :: string where "EventNotification = ''notification''"

lemmas hook_event_defs = EventPromptSubmit_def EventToolStart_def EventToolEnd_def EventTurnEnd_def
  EventNotification_def

definition CanonicalEvents :: "string list" where
  "CanonicalEvents =
     [EventPromptSubmit, EventToolStart, EventToolEnd, EventTurnEnd, EventNotification]"

definition OverallGoalSummarizerProvenance :: string where
  "OverallGoalSummarizerProvenance = ''hook.overall_goal_summarizer.v1''"

definition CanonicalHistoryBindingProvenance :: string where
  "CanonicalHistoryBindingProvenance = ''hook.canonical_history_frontmatter.v1''"

section \<open>Documents\<close>

record CanonicalHistoryBinding =
  chb_Basename :: string
  chb_ConversationID :: string
  chb_Provenance :: string
  chb_UpdatedAt :: time

record TurnContract =
  tc_Goal :: string
  tc_OverallGoal :: string
  tc_OverallGoalProvenance :: string
  tc_OverallGoalUpdatedAt :: time
  tc_LastUserMessage :: string
  tc_VaultLink :: string
  tc_CanonicalHistory :: "CanonicalHistoryBinding option"
  tc_SuccessVerification :: string
  tc_Path :: string
  tc_Source :: string
  tc_UpdatedAt :: time

definition empty_contract :: TurnContract where
  "empty_contract =
     \<lparr>tc_Goal = [], tc_OverallGoal = [], tc_OverallGoalProvenance = [], tc_OverallGoalUpdatedAt = 0,
      tc_LastUserMessage = [], tc_VaultLink = [], tc_CanonicalHistory = None,
      tc_SuccessVerification = [], tc_Path = [], tc_Source = [], tc_UpdatedAt = 0\<rparr>"

record SessionState =
  hs_Revision :: u64
  hs_SessionID :: string
  hs_Agent :: string
  hs_CreatedAt :: time
  hs_UpdatedAt :: time
  hs_LastEvent :: string
  hs_LastTool :: string
  hs_Working :: bool
  hs_TurnCount :: int
  hs_EventsSeen :: int
  hs_LastPromptSubmitAt :: time
  hs_LastTurnEndAt :: time
  hs_TurnContract :: "TurnContract option"

definition empty_state :: SessionState where
  "empty_state =
     \<lparr>hs_Revision = 0, hs_SessionID = [], hs_Agent = [], hs_CreatedAt = 0, hs_UpdatedAt = 0,
      hs_LastEvent = [], hs_LastTool = [], hs_Working = False, hs_TurnCount = 0, hs_EventsSeen = 0,
      hs_LastPromptSubmitAt = 0, hs_LastTurnEndAt = 0, hs_TurnContract = None\<rparr>"

record TurnContractUpdate =
  up_Goal :: string
  up_OverallGoal :: string
  up_LastUserMessage :: string
  up_VaultLink :: string
  up_SuccessVerification :: string
  up_Path :: string
  up_Source :: string

definition empty_update :: TurnContractUpdate where
  "empty_update =
     \<lparr>up_Goal = [], up_OverallGoal = [], up_LastUserMessage = [], up_VaultLink = [],
      up_SuccessVerification = [], up_Path = [], up_Source = []\<rparr>"

record OverallGoalInputSnapshot =
  og_Revision :: u64
  og_SessionID :: string
  og_Agent :: string
  og_TurnCount :: int
  og_LastTurnEndAt :: time
  og_Goal :: string
  og_OverallGoal :: string
  og_OverallGoalProvenance :: string
  og_OverallGoalUpdatedAt :: time
  og_TurnContractUpdatedAt :: time

definition SnapshotOverallGoalInput :: "SessionState option \<Rightarrow> OverallGoalInputSnapshot" where
  "SnapshotOverallGoalInput so =
     (case so of
        None \<Rightarrow> \<lparr>og_Revision = 0, og_SessionID = [], og_Agent = [], og_TurnCount = 0,
          og_LastTurnEndAt = 0, og_Goal = [], og_OverallGoal = [], og_OverallGoalProvenance = [],
          og_OverallGoalUpdatedAt = 0, og_TurnContractUpdatedAt = 0\<rparr>
      | Some st \<Rightarrow>
          (let base = \<lparr>og_Revision = hs_Revision st, og_SessionID = hs_SessionID st,
             og_Agent = hs_Agent st, og_TurnCount = hs_TurnCount st,
             og_LastTurnEndAt = hs_LastTurnEndAt st, og_Goal = [], og_OverallGoal = [],
             og_OverallGoalProvenance = [], og_OverallGoalUpdatedAt = 0,
             og_TurnContractUpdatedAt = 0\<rparr>
           in case hs_TurnContract st of
                None \<Rightarrow> base
              | Some tc \<Rightarrow> base\<lparr>og_Goal := tc_Goal tc, og_OverallGoal := tc_OverallGoal tc,
                  og_OverallGoalProvenance := tc_OverallGoalProvenance tc,
                  og_OverallGoalUpdatedAt := tc_OverallGoalUpdatedAt tc,
                  og_TurnContractUpdatedAt := tc_UpdatedAt tc\<rparr>))"

section \<open>Text of the contract\<close>

definition compactContractText :: "string \<Rightarrow> string" where
  "compactContractText value =
     (let value = join_with '' '' (split_fields value);
          rs = runes_of value
      in if value = [] then []
         else if length rs \<le> 600 then value
         else string_of (take 600 rs))"

definition truncateLines :: "string \<Rightarrow> nat \<Rightarrow> string" where
  "truncateLines value n =
     (if trim_space value = [] then []
      else let lines = split_at (CHR 0x0A) value;
               kept = map (\<lambda>line. if length (runes_of line) > 300
                                  then string_of (take 300 (runes_of line)) else line) (take n lines);
               out = join_with [CHR 0x0A] kept
           in if length lines > n then out @ [CHR 0x0A] @ string_of [8230] else out)"

definition set_if :: "string \<Rightarrow> ('a \<Rightarrow> 'a) \<Rightarrow> 'a \<Rightarrow> 'a" where
  "set_if v f x = (if v \<noteq> [] then f x else x)"

definition contract_of :: "SessionState \<Rightarrow> TurnContract" where
  "contract_of st = (case hs_TurnContract st of None \<Rightarrow> empty_contract | Some tc \<Rightarrow> tc)"

definition applyTurnContractUpdate ::
  "TurnContractUpdate \<Rightarrow> time \<Rightarrow> SessionState \<Rightarrow> SessionState" where
  "applyTurnContractUpdate u now st =
     (let goal = compactContractText (up_Goal u);
          overall = compactContractText (up_OverallGoal u);
          lastMsg = truncateLines (up_LastUserMessage u) 3;
          vault = compactContractText (up_VaultLink u);
          verification = compactContractText (up_SuccessVerification u);
          path = compactContractText (up_Path u);
          source = compactContractText (up_Source u)
      in if goal = [] \<and> overall = [] \<and> lastMsg = [] \<and> vault = [] \<and> verification = [] \<and> path = []
            \<and> source = [] then st
         else
           (let tc = contract_of st;
                tc = set_if goal (tc_Goal_update (\<lambda>_. goal)) tc;
                tc = set_if overall (\<lambda>tc. tc\<lparr>tc_OverallGoal := overall,
                       tc_OverallGoalProvenance := [], tc_OverallGoalUpdatedAt := now\<rparr>) tc;
                tc = set_if lastMsg (tc_LastUserMessage_update (\<lambda>_. lastMsg)) tc;
                tc = set_if vault (tc_VaultLink_update (\<lambda>_. vault)) tc;
                tc = set_if verification (tc_SuccessVerification_update (\<lambda>_. verification)) tc;
                tc = set_if path (tc_Path_update (\<lambda>_. path)) tc;
                tc = set_if source (tc_Source_update (\<lambda>_. source)) tc
            in st\<lparr>hs_TurnContract := Some (tc\<lparr>tc_UpdatedAt := now\<rparr>)\<rparr>))"

section \<open>The state directory\<close>

datatype hook_error =
    InvalidSessionID
  | UnknownEvent
  | SummaryRequired
  | SnapshotRequired
  | ErrStaleOverallGoal
  | RevisionExhausted
  | ParseError
  | HistoryInvalid string
  | IOError string

datatype hook_file = Doc SessionState | Corrupt

datatype hook_fault = FaultMkdir | FaultLock | FaultRead | FaultWrite | FaultRename

record hook_dir =
  hd_live :: "string \<rightharpoonup> hook_file"
  hd_archived :: "string \<rightharpoonup> hook_file"
  hd_fault :: "hook_fault option"

definition sessionIDRe :: "string \<Rightarrow> bool" where
  "sessionIDRe s \<longleftrightarrow> s \<noteq> [] \<and> list_all (\<lambda>c. is_alnum c \<or> c \<in> set ''._-'') s"

definition ReadSessionState :: "hook_dir \<Rightarrow> string \<Rightarrow> hook_error + SessionState option" where
  "ReadSessionState d sid =
     (if \<not> sessionIDRe sid then Inl InvalidSessionID
      else if hd_fault d = Some FaultRead then Inl (IOError ''read session state'')
      else case hd_live d sid of
        None \<Rightarrow> Inr None
      | Some Corrupt \<Rightarrow> Inl ParseError
      | Some (Doc st) \<Rightarrow> Inr (Some st))"

text \<open>What a document reads back as after \<open>json.MarshalIndent\<close> and \<open>json.Unmarshal\<close>.\<close>

definition binding_json :: "CanonicalHistoryBinding \<Rightarrow> CanonicalHistoryBinding" where
  "binding_json b =
     b\<lparr>chb_Basename := to_valid_utf8 (chb_Basename b),
       chb_ConversationID := to_valid_utf8 (chb_ConversationID b),
       chb_Provenance := to_valid_utf8 (chb_Provenance b)\<rparr>"

definition contract_json :: "TurnContract \<Rightarrow> TurnContract" where
  "contract_json tc =
     tc\<lparr>tc_Goal := to_valid_utf8 (tc_Goal tc), tc_OverallGoal := to_valid_utf8 (tc_OverallGoal tc),
        tc_OverallGoalProvenance := to_valid_utf8 (tc_OverallGoalProvenance tc),
        tc_LastUserMessage := to_valid_utf8 (tc_LastUserMessage tc),
        tc_VaultLink := to_valid_utf8 (tc_VaultLink tc),
        tc_CanonicalHistory := map_option binding_json (tc_CanonicalHistory tc),
        tc_SuccessVerification := to_valid_utf8 (tc_SuccessVerification tc),
        tc_Path := to_valid_utf8 (tc_Path tc), tc_Source := to_valid_utf8 (tc_Source tc)\<rparr>"

definition state_json :: "SessionState \<Rightarrow> SessionState" where
  "state_json st =
     st\<lparr>hs_SessionID := to_valid_utf8 (hs_SessionID st), hs_Agent := to_valid_utf8 (hs_Agent st),
        hs_LastEvent := to_valid_utf8 (hs_LastEvent st), hs_LastTool := to_valid_utf8 (hs_LastTool st),
        hs_TurnContract := map_option contract_json (hs_TurnContract st)\<rparr>"

definition current_doc :: "hook_dir \<Rightarrow> string \<Rightarrow> SessionState" where
  "current_doc d sid =
     (case hd_live d sid of Some (Doc st) \<Rightarrow> st | _ \<Rightarrow> empty_state)"

definition mutateSessionStateChecked ::
  "string \<Rightarrow> (SessionState \<Rightarrow> hook_error + SessionState) \<Rightarrow> (hook_dir, hook_error, unit) op" where
  "mutateSessionStateChecked sid mutate = (\<lambda>d.
     if \<not> sessionIDRe sid then (d, Inl InvalidSessionID)
     else if hd_fault d = Some FaultMkdir then (d, Inl (IOError ''create session state dir''))
     else if hd_fault d = Some FaultLock then (d, Inl (IOError ''lock session state''))
     else if hd_fault d = Some FaultRead then (d, Inl (IOError ''read session state''))
     else case mutate (current_doc d sid) of
       Inl e \<Rightarrow> (d, Inl e)
     | Inr st \<Rightarrow>
         if hs_Revision st = - 1 then (d, Inl RevisionExhausted)
         else if hd_fault d = Some FaultWrite then (d, Inl (IOError ''write session state tmp''))
         else if hd_fault d = Some FaultRename then (d, Inl (IOError ''rename session state''))
         else (d\<lparr>hd_live := (hd_live d)(sid \<mapsto> Doc (state_json (st\<lparr>hs_Revision := hs_Revision st + 1\<rparr>)))\<rparr>,
               Inr ()))"

definition mutateSessionState ::
  "string \<Rightarrow> (SessionState \<Rightarrow> SessionState) \<Rightarrow> (hook_dir, hook_error, unit) op" where
  "mutateSessionState sid mutate = mutateSessionStateChecked sid (\<lambda>st. Inr (mutate st))"

definition stamp_identity :: "string \<Rightarrow> string \<Rightarrow> time \<Rightarrow> SessionState \<Rightarrow> SessionState" where
  "stamp_identity sid agent now st =
     (let st = st\<lparr>hs_SessionID := sid\<rparr>;
          st = (if agent \<noteq> [] then st\<lparr>hs_Agent := agent\<rparr> else st)
      in if IsZero (hs_CreatedAt st) then st\<lparr>hs_CreatedAt := now\<rparr> else st)"

definition init_doc :: "string \<Rightarrow> string \<Rightarrow> string \<Rightarrow> time \<Rightarrow> SessionState \<Rightarrow> SessionState" where
  "init_doc sid agent launchGoal now st =
     (let st = stamp_identity sid agent now st;
          st = (if IsZero (hs_UpdatedAt st) then st\<lparr>hs_UpdatedAt := now\<rparr> else st);
          goal = compactContractText launchGoal
      in if goal = [] then st
         else let tc = contract_of st
              in st\<lparr>hs_TurnContract := Some (if tc_OverallGoal tc = []
                   then tc\<lparr>tc_OverallGoal := goal, tc_OverallGoalProvenance := [],
                           tc_OverallGoalUpdatedAt := now\<rparr>
                   else tc)\<rparr>)"

definition InitSessionState ::
  "string \<Rightarrow> string \<Rightarrow> string \<Rightarrow> time \<Rightarrow> (hook_dir, hook_error, unit) op" where
  "InitSessionState sid agent launchGoal now =
     mutateSessionState sid (init_doc sid agent launchGoal now)"

definition apply_event :: "string \<Rightarrow> string \<Rightarrow> time \<Rightarrow> SessionState \<Rightarrow> SessionState" where
  "apply_event event tool now st =
     (let st = st\<lparr>hs_LastEvent := event, hs_EventsSeen := hs_EventsSeen st + 1, hs_UpdatedAt := now\<rparr>
      in if event = EventPromptSubmit then
           st\<lparr>hs_Working := True, hs_TurnCount := hs_TurnCount st + 1, hs_LastPromptSubmitAt := now\<rparr>
         else if event = EventToolStart \<or> event = EventToolEnd then
           set_if tool (hs_LastTool_update (\<lambda>_. tool)) (st\<lparr>hs_Working := True\<rparr>)
         else if event = EventTurnEnd then
           st\<lparr>hs_Working := False, hs_LastTurnEndAt := now\<rparr>
         else st)"

definition event_doc ::
  "string \<Rightarrow> string \<Rightarrow> string \<Rightarrow> string \<Rightarrow> TurnContractUpdate \<Rightarrow> time \<Rightarrow> SessionState \<Rightarrow> SessionState" where
  "event_doc sid agent event tool contract now st =
     applyTurnContractUpdate contract now
       (apply_event event tool now (stamp_identity sid agent now st))"

definition ApplyEventWithContract ::
  "string \<Rightarrow> string \<Rightarrow> string \<Rightarrow> string \<Rightarrow> TurnContractUpdate \<Rightarrow> time \<Rightarrow> (hook_dir, hook_error, unit) op"
where
  "ApplyEventWithContract sid agent event tool contract now =
     (if event \<notin> set CanonicalEvents then fail_op UnknownEvent
      else mutateSessionState sid (event_doc sid agent event tool contract now))"

definition ApplyEvent ::
  "string \<Rightarrow> string \<Rightarrow> string \<Rightarrow> string \<Rightarrow> time \<Rightarrow> (hook_dir, hook_error, unit) op" where
  "ApplyEvent sid agent event tool now =
     ApplyEventWithContract sid agent event tool empty_update now"

definition contract_doc ::
  "string \<Rightarrow> string \<Rightarrow> TurnContractUpdate \<Rightarrow> time \<Rightarrow> SessionState \<Rightarrow> SessionState" where
  "contract_doc sid agent contract now st =
     (applyTurnContractUpdate contract now (stamp_identity sid agent now st))\<lparr>hs_UpdatedAt := now\<rparr>"

definition ApplyContractOnly ::
  "string \<Rightarrow> string \<Rightarrow> TurnContractUpdate \<Rightarrow> time \<Rightarrow> (hook_dir, hook_error, unit) op" where
  "ApplyContractOnly sid agent contract now =
     mutateSessionState sid (contract_doc sid agent contract now)"

definition summary_doc ::
  "string \<Rightarrow> string \<Rightarrow> string \<Rightarrow> time \<Rightarrow> SessionState \<Rightarrow> SessionState" where
  "summary_doc sid agent overallGoal now st =
     (let st = stamp_identity sid agent now st
      in st\<lparr>hs_TurnContract := Some ((contract_of st)\<lparr>tc_OverallGoal := overallGoal,
             tc_OverallGoalProvenance := OverallGoalSummarizerProvenance,
             tc_OverallGoalUpdatedAt := now, tc_UpdatedAt := now\<rparr>),
           hs_UpdatedAt := now\<rparr>)"

definition ApplySummarizedOverallGoal ::
  "string \<Rightarrow> string \<Rightarrow> string \<Rightarrow> OverallGoalInputSnapshot \<Rightarrow> time \<Rightarrow> (hook_dir, hook_error, unit) op"
where
  "ApplySummarizedOverallGoal sid agent overallGoal expected now =
     (let overallGoal = compactContractText overallGoal
      in if overallGoal = [] then fail_op SummaryRequired
         else if og_SessionID expected \<noteq> sid \<or> og_Agent expected = [] \<or> og_Agent expected \<noteq> agent
           \<or> og_TurnCount expected < 1 \<or> IsZero (og_LastTurnEndAt expected)
         then fail_op SnapshotRequired
         else mutateSessionStateChecked sid (\<lambda>st.
           if SnapshotOverallGoalInput (Some st) \<noteq> expected then Inl ErrStaleOverallGoal
           else Inr (summary_doc sid agent overallGoal now st)))"

definition ArchiveSessionState :: "string \<Rightarrow> (hook_dir, hook_error, unit) op" where
  "ArchiveSessionState sid = (\<lambda>d.
     if \<not> sessionIDRe sid then (d, Inl InvalidSessionID)
     else if hd_fault d = Some FaultLock then (d, Inl (IOError ''lock session state''))
     else if hd_fault d = Some FaultRead then (d, Inl (IOError ''stat session state''))
     else case hd_live d sid of
       None \<Rightarrow> (d, Inr ())
     | Some f \<Rightarrow>
         if hd_fault d = Some FaultMkdir then (d, Inl (IOError ''create archive dir''))
         else if hd_fault d = Some FaultRename then (d, Inl (IOError ''archive session state''))
         else (d\<lparr>hd_live := (hd_live d)(sid := None), hd_archived := (hd_archived d)(sid \<mapsto> f)\<rparr>,
               Inr ()))"

section \<open>The verified history binding\<close>

text \<open>
  A history root as the verifier meets it: whether the root path is absolute and clean, whether it
  resolves and opens, and what each name directly under it is. A regular file carries its bytes and
  whether it stayed the same file of the same size and time while it was read.
\<close>

datatype hist_entry = HistRegular string bool | HistIrregular

record history_root =
  hr_clean :: bool
  hr_opens :: bool
  hr_entries :: "string \<rightharpoonup> hist_entry"

definition maxCanonicalHistoryFrontmatterBytes :: nat where
  "maxCanonicalHistoryFrontmatterBytes = 16384"

definition canonicalConversationIDRe :: "string \<Rightarrow> bool" where
  "canonicalConversationIDRe = id_shape is_alnum (\<lambda>c. is_alnum c \<or> c \<in> set ''._-'') 254"

definition validateCanonicalHistoryMetadata :: "string \<Rightarrow> string \<Rightarrow> hook_error option" where
  "validateCanonicalHistoryMetadata basename conversationID =
     first_err
       [fail_if (basename = [] \<or> length (runes_of basename) > 255 \<or> path_base basename \<noteq> basename
           \<or> basename = ''.'' \<or> basename = ''..'' \<or> \<not> has_suffix ''.md'' basename
           \<or> list_ex (\<lambda>c. c \<in> {CHR ''/'', CHR 0x5C, CHR 0x00, CHR 0x0D, CHR 0x0A}) basename)
          (HistoryInvalid ''basename''),
        fail_if (list_ex is_control (runes_of basename)) (HistoryInvalid ''control characters''),
        fail_if (\<not> canonicalConversationIDRe conversationID) (HistoryInvalid ''conversation identity'')]"

definition trim_cr :: "string \<Rightarrow> string" where
  "trim_cr l = (if l \<noteq> [] \<and> last l = CHR 0x0D then butlast l else l)"

text \<open>
  \<open>readLine\<close>: from the number of bytes read so far and the bytes collected on this line, the line,
  the new count and the rest of the input; \<open>None\<close> at the size limit or at the end of the file.
\<close>

fun readLine :: "nat \<Rightarrow> string \<Rightarrow> string \<Rightarrow> (string \<times> nat \<times> string) option" where
  "readLine n line [] =
     (if n \<ge> maxCanonicalHistoryFrontmatterBytes then None
      else if line \<noteq> [] then Some (trim_cr line, n, []) else None)"
| "readLine n line (c # cs) =
     (if n \<ge> maxCanonicalHistoryFrontmatterBytes then None
      else if c = CHR 0x0A then Some (trim_cr line, n + 1, cs)
      else readLine (n + 1) (line @ [c]) cs)"

lemma readLine_shorter:
  "readLine n line input = Some (l, n', rest) \<Longrightarrow> input \<noteq> [] \<or> line = [] \<Longrightarrow> length rest < length input"
proof (induction n line input rule: readLine.induct)
  case (1 n line)
  then show ?case by (auto split: if_splits)
next
  case (2 n line c cs)
  show ?case
  proof (cases "n \<ge> maxCanonicalHistoryFrontmatterBytes \<or> c = CHR 0x0A")
    case True
    with 2 show ?thesis by (auto split: if_splits)
  next
    case False
    with 2 show ?thesis
      by (cases cs) (auto split: if_splits)
  qed
qed

definition cut_colon :: "string \<Rightarrow> (string \<times> string) option" where
  "cut_colon line =
     (if CHR '':'' \<in> set line
      then Some (takeWhile (\<lambda>c. c \<noteq> CHR '':'') line, tl (dropWhile (\<lambda>c. c \<noteq> CHR '':'') line))
      else None)"

function frontmatter_fields ::
  "nat \<Rightarrow> (string \<rightharpoonup> string) \<Rightarrow> string \<Rightarrow> hook_error + (string \<rightharpoonup> string)" where
  "frontmatter_fields n m input =
     (case readLine n [] input of
        None \<Rightarrow> Inl (HistoryInvalid ''missing closing fence'')
      | Some (line, n', rest) \<Rightarrow>
          if line = ''---'' then Inr m
          else case cut_colon line of
            None \<Rightarrow> frontmatter_fields n' m rest
          | Some (k, v) \<Rightarrow>
              if trim_space k = [] then frontmatter_fields n' m rest
              else if m (trim_space k) \<noteq> None then Inl (HistoryInvalid ''repeated key'')
              else frontmatter_fields n' (m(trim_space k \<mapsto> trim_space v)) rest)"
  by pat_completeness auto
termination
  by (relation "measure (\<lambda>(_, _, input). length input)") (auto dest: readLine_shorter)

declare frontmatter_fields.simps [simp del]

definition readCanonicalHistoryFrontmatter :: "string \<Rightarrow> hook_error + (string \<rightharpoonup> string)" where
  "readCanonicalHistoryFrontmatter input =
     (case readLine 0 [] input of
        None \<Rightarrow> Inl (HistoryInvalid ''missing opening fence'')
      | Some (line, n, rest) \<Rightarrow>
          if line \<noteq> ''---'' then Inl (HistoryInvalid ''missing opening fence'')
          else frontmatter_fields n Map.empty rest)"

definition VerifyCanonicalHistoryBinding ::
  "history_root \<Rightarrow> string \<Rightarrow> string \<Rightarrow> hook_error option" where
  "VerifyCanonicalHistoryBinding hroot basename conversationID =
     (case validateCanonicalHistoryMetadata basename conversationID of
        Some e \<Rightarrow> Some e
      | None \<Rightarrow>
          if \<not> hr_clean hroot then Some (HistoryInvalid ''root must be an absolute clean path'')
          else if \<not> hr_opens hroot then Some (IOError ''open canonical history root'')
          else case hr_entries hroot basename of
            None \<Rightarrow> Some (IOError ''inspect canonical history'')
          | Some HistIrregular \<Rightarrow> Some (HistoryInvalid ''not a regular file'')
          | Some (HistRegular bytes same) \<Rightarrow>
              (case readCanonicalHistoryFrontmatter bytes of
                 Inl e \<Rightarrow> Some e
               | Inr m \<Rightarrow>
                   if m ''conversation_id'' \<noteq> Some conversationID
                   then Some (HistoryInvalid ''conversation identity does not match'')
                   else if \<not> same then Some (HistoryInvalid ''changed while validating'')
                   else None))"

definition history_doc ::
  "string \<Rightarrow> string \<Rightarrow> string \<Rightarrow> string \<Rightarrow> time \<Rightarrow> SessionState \<Rightarrow> SessionState" where
  "history_doc sid agent basename conversationID now st =
     (let st = stamp_identity sid agent now st
      in st\<lparr>hs_TurnContract := Some ((contract_of st)\<lparr>
             tc_CanonicalHistory := Some \<lparr>chb_Basename = basename,
               chb_ConversationID = conversationID,
               chb_Provenance = CanonicalHistoryBindingProvenance, chb_UpdatedAt = now\<rparr>,
             tc_UpdatedAt := now\<rparr>),
           hs_UpdatedAt := now\<rparr>)"

definition ApplyVerifiedCanonicalHistoryBinding ::
  "string \<Rightarrow> string \<Rightarrow> history_root \<Rightarrow> string \<Rightarrow> string \<Rightarrow> time \<Rightarrow> (hook_dir, hook_error, unit) op"
where
  "ApplyVerifiedCanonicalHistoryBinding sid agent hroot basename conversationID now =
     (case VerifyCanonicalHistoryBinding hroot basename conversationID of
        Some e \<Rightarrow> fail_op e
      | None \<Rightarrow> mutateSessionState sid (history_doc sid agent basename conversationID now))"

section \<open>Runs of hook writers\<close>

text \<open>
  The entry points other programs call, each one atomic under the session's file lock. A run
  executes calls in some order; a call that fails leaves the directory to the next one. Between
  calls the environment chooses the next failure.
\<close>

datatype hook_call =
    CallInit string string string time
  | CallEvent string string string string TurnContractUpdate time
  | CallContract string string TurnContractUpdate time
  | CallSummary string string string OverallGoalInputSnapshot time
  | CallHistory string string history_root string string time
  | CallArchive string
  | CallFault "hook_fault option"

fun hook_exec :: "hook_call \<Rightarrow> (hook_dir, hook_error, unit) op" where
  "hook_exec (CallInit sid agent goal now) = InitSessionState sid agent goal now"
| "hook_exec (CallEvent sid agent event tool u now) = ApplyEventWithContract sid agent event tool u now"
| "hook_exec (CallContract sid agent u now) = ApplyContractOnly sid agent u now"
| "hook_exec (CallSummary sid agent goal expected now) =
     ApplySummarizedOverallGoal sid agent goal expected now"
| "hook_exec (CallHistory sid agent hroot basename cid now) =
     ApplyVerifiedCanonicalHistoryBinding sid agent hroot basename cid now"
| "hook_exec (CallArchive sid) = ArchiveSessionState sid"
| "hook_exec (CallFault f) = mod_op (\<lambda>d. d\<lparr>hd_fault := f\<rparr>)"

primrec hook_run :: "hook_call list \<Rightarrow> hook_dir \<Rightarrow> hook_dir" where
  "hook_run [] d = d"
| "hook_run (c # cs) d = hook_run cs (fst (hook_exec c d))"

lemma hook_run_append: "hook_run (as @ bs) d = hook_run bs (hook_run as d)"
  by (induction as arbitrary: d) auto

section \<open>The contract of a writer\<close>

lemma no_fault: "\<forall>f. r \<noteq> Some f \<Longrightarrow> r = None" for r :: "hook_fault option"
  by (cases r) auto

lemma mutate_fault:
  "r \<noteq> Some FaultMkdir \<Longrightarrow> r \<noteq> Some FaultLock \<Longrightarrow> r \<noteq> Some FaultRead \<Longrightarrow> r \<noteq> Some FaultWrite \<Longrightarrow>
   r \<noteq> Some FaultRename \<Longrightarrow> r = None"
  by (rule no_fault) (metis hook_fault.exhaust)

lemma mutate_Inl: "mutateSessionStateChecked sid f d = (d', Inl e) \<Longrightarrow> d' = d"
  by (auto simp: mutateSessionStateChecked_def split: if_splits sum.splits)

lemma mutate_Inr:
  assumes "mutateSessionStateChecked sid f d = (d', Inr ())"
  obtains st where "f (current_doc d sid) = Inr st" "hs_Revision st \<noteq> - 1"
    "d' = d\<lparr>hd_live := (hd_live d)(sid \<mapsto> Doc (state_json (st\<lparr>hs_Revision := hs_Revision st + 1\<rparr>)))\<rparr>"
    "sessionIDRe sid" "hd_fault d = None"
  using assms
  by (auto simp: mutateSessionStateChecked_def split: if_splits sum.splits dest: mutate_fault)

lemma unat_Suc_revision: "r \<noteq> - 1 \<Longrightarrow> unat (r + 1 :: u64) = Suc (unat r)"
  by (metis add.commute add.right_inverse add_right_cancel unatSuc)

lemma state_json_revision [simp]: "hs_Revision (state_json st) = hs_Revision st"
  by (simp add: state_json_def)

lemma binding_json_idem [simp]: "binding_json (binding_json b) = binding_json b"
  by (simp add: binding_json_def)

lemma contract_json_idem [simp]: "contract_json (contract_json tc) = contract_json tc"
  by (simp add: contract_json_def option.map_comp comp_def)

lemma state_json_idem [simp]: "state_json (state_json st) = state_json st"
  by (simp add: state_json_def option.map_comp comp_def)

lemma revision_unchanged [simp]:
  "hs_Revision (stamp_identity sid agent now st) = hs_Revision st"
  "hs_Revision (apply_event event tool now st) = hs_Revision st"
  "hs_Revision (applyTurnContractUpdate u now st) = hs_Revision st"
  by (simp_all add: stamp_identity_def apply_event_def applyTurnContractUpdate_def set_if_def Let_def)

lemma revision_docs [simp]:
  "hs_Revision (init_doc sid agent goal now st) = hs_Revision st"
  "hs_Revision (event_doc sid agent event tool u now st) = hs_Revision st"
  "hs_Revision (contract_doc sid agent u now st) = hs_Revision st"
  "hs_Revision (summary_doc sid agent goal now st) = hs_Revision st"
  "hs_Revision (history_doc sid agent b i now st) = hs_Revision st"
  by (simp_all add: init_doc_def event_doc_def contract_doc_def summary_doc_def history_doc_def Let_def)

text \<open>Every document on disk is what some earlier write stored.\<close>

definition docs_json :: "hook_dir \<Rightarrow> bool" where
  "docs_json d \<longleftrightarrow> (\<forall>sid st. hd_live d sid = Some (Doc st) \<longrightarrow> state_json st = st)"

text \<open>
  What every writer of a session document promises: a failed call changes nothing, a successful
  one replaces exactly this session's document and advances its revision by one, without wrapping.
\<close>

locale revision_writer =
  fixes sid :: string
    and w :: "(hook_dir, hook_error, unit) op"
  assumes fails: "w d = (d', Inl e) \<Longrightarrow> d' = d"
    and writes: "w d = (d', Inr ()) \<Longrightarrow> \<exists>st. d' = d\<lparr>hd_live := (hd_live d)(sid \<mapsto> Doc st)\<rparr>
      \<and> unat (hs_Revision st) = Suc (unat (hs_Revision (current_doc d sid))) \<and> state_json st = st"
begin

lemma writer_cases:
  obtains (failed) "fst (w d) = d"
  | (wrote) st where "fst (w d) = d\<lparr>hd_live := (hd_live d)(sid \<mapsto> Doc st)\<rparr>"
      "unat (hs_Revision st) = Suc (unat (hs_Revision (current_doc d sid)))" "state_json st = st"
  by (cases "w d"; cases "snd (w d)") (use fails writes in fastforce)+

lemma unchanged_or_newer:
  "hd_live (fst (w d)) sid = hd_live d sid
   \<or> unat (hs_Revision (current_doc d sid)) < unat (hs_Revision (current_doc (fst (w d)) sid))"
  by (cases rule: writer_cases [of d]) (simp_all add: current_doc_def)

lemma other_session_untouched: "sid' \<noteq> sid \<Longrightarrow> hd_live (fst (w d)) sid' = hd_live d sid'"
  by (cases rule: writer_cases [of d]) simp_all

lemma keeps_fault: "hd_fault (fst (w d)) = hd_fault d"
  by (cases rule: writer_cases [of d]) simp_all

lemma keeps_docs_json: "docs_json d \<Longrightarrow> docs_json (fst (w d))"
  by (cases rule: writer_cases [of d]) (simp_all add: docs_json_def)

end

lemma mutate_revision_writer:
  assumes "\<And>st st'. f st = Inr st' \<Longrightarrow> hs_Revision st' = hs_Revision st"
  shows "revision_writer sid (mutateSessionStateChecked sid f)"
proof
  fix d d' e
  assume "mutateSessionStateChecked sid f d = (d', Inl e)"
  then show "d' = d" by (rule mutate_Inl)
next
  fix d d'
  assume "mutateSessionStateChecked sid f d = (d', Inr ())"
  then obtain st where st: "f (current_doc d sid) = Inr st" "hs_Revision st \<noteq> - 1"
    "d' = d\<lparr>hd_live := (hd_live d)(sid \<mapsto> Doc (state_json (st\<lparr>hs_Revision := hs_Revision st + 1\<rparr>)))\<rparr>"
    by (rule mutate_Inr)
  let ?st = "state_json (st\<lparr>hs_Revision := hs_Revision st + 1\<rparr>)"
  have "unat (hs_Revision ?st) = Suc (unat (hs_Revision (current_doc d sid)))"
    using assms [OF st(1)] st(2) by (simp add: unat_Suc_revision)
  moreover have "state_json ?st = ?st" by simp
  ultimately show "\<exists>st. d' = d\<lparr>hd_live := (hd_live d)(sid \<mapsto> Doc st)\<rparr>
      \<and> unat (hs_Revision st) = Suc (unat (hs_Revision (current_doc d sid))) \<and> state_json st = st"
    using st(3) by blast
qed

lemma fail_revision_writer: "revision_writer sid (fail_op e)"
  by unfold_locales simp_all

interpretation init_w: revision_writer sid "InitSessionState sid agent goal now"
  for sid agent goal now
  unfolding InitSessionState_def mutateSessionState_def
  by (rule mutate_revision_writer) (auto simp: Let_def)

interpretation event_w: revision_writer sid "ApplyEventWithContract sid agent event tool u now"
  for sid agent event tool u now
  unfolding ApplyEventWithContract_def mutateSessionState_def
  by (auto intro!: mutate_revision_writer fail_revision_writer)

interpretation contract_w: revision_writer sid "ApplyContractOnly sid agent u now"
  for sid agent u now
  unfolding ApplyContractOnly_def mutateSessionState_def
  by (rule mutate_revision_writer) auto

interpretation summary_w: revision_writer sid "ApplySummarizedOverallGoal sid agent goal expected now"
  for sid agent goal expected now
  unfolding ApplySummarizedOverallGoal_def Let_def
  by (auto intro!: mutate_revision_writer fail_revision_writer split: if_splits)

interpretation history_w: revision_writer sid
  "ApplyVerifiedCanonicalHistoryBinding sid agent hroot basename cid now"
  for sid agent hroot basename cid now
  unfolding ApplyVerifiedCanonicalHistoryBinding_def mutateSessionState_def
  by (auto intro!: mutate_revision_writer fail_revision_writer simp: Let_def split: option.split)

section \<open>Runs and the staleness check\<close>

lemma hook_exec_docs_json: "docs_json d \<Longrightarrow> docs_json (fst (hook_exec c d))"
proof (cases c)
  case (CallArchive sid)
  assume "docs_json d"
  with CallArchive show ?thesis
    by (simp add: ArchiveSessionState_def docs_json_def split: option.split)
next
  case (CallFault f)
  assume "docs_json d"
  with CallFault show ?thesis by (simp add: docs_json_def)
qed (simp_all add: init_w.keeps_docs_json event_w.keeps_docs_json contract_w.keeps_docs_json
    summary_w.keeps_docs_json history_w.keeps_docs_json)

lemma hook_exec_unchanged_or_newer:
  assumes "c \<noteq> CallArchive sid"
  shows "hd_live (fst (hook_exec c d)) sid = hd_live d sid
    \<or> unat (hs_Revision (current_doc d sid)) < unat (hs_Revision (current_doc (fst (hook_exec c d)) sid))"
proof (cases c)
  case (CallInit sid' a g n)
  then show ?thesis using init_w.unchanged_or_newer init_w.other_session_untouched
    by (cases "sid' = sid") auto
next
  case (CallEvent sid' a e t u n)
  then show ?thesis using event_w.unchanged_or_newer event_w.other_session_untouched
    by (cases "sid' = sid") auto
next
  case (CallContract sid' a u n)
  then show ?thesis using contract_w.unchanged_or_newer contract_w.other_session_untouched
    by (cases "sid' = sid") auto
next
  case (CallSummary sid' a g e n)
  then show ?thesis using summary_w.unchanged_or_newer summary_w.other_session_untouched
    by (cases "sid' = sid") auto
next
  case (CallHistory sid' a r b i n)
  then show ?thesis using history_w.unchanged_or_newer history_w.other_session_untouched
    by (cases "sid' = sid") auto
next
  case (CallArchive sid')
  with assms show ?thesis by (auto simp: ArchiveSessionState_def split: option.split)
next
  case (CallFault f)
  then show ?thesis by simp
qed

lemma current_doc_cong: "hd_live d sid = hd_live d' sid \<Longrightarrow> current_doc d sid = current_doc d' sid"
  by (simp add: current_doc_def)

lemma hook_run_unchanged_or_newer:
  assumes "CallArchive sid \<notin> set cs"
  shows "hd_live (hook_run cs d) sid = hd_live d sid
    \<or> unat (hs_Revision (current_doc d sid)) < unat (hs_Revision (current_doc (hook_run cs d) sid))"
  using assms
proof (induction cs arbitrary: d)
  case Nil
  then show ?case by simp
next
  case (Cons c cs)
  let ?d = "fst (hook_exec c d)"
  have step: "hd_live ?d sid = hd_live d sid
      \<or> unat (hs_Revision (current_doc d sid)) < unat (hs_Revision (current_doc ?d sid))"
    using Cons.prems by (intro hook_exec_unchanged_or_newer) auto
  have rest: "hd_live (hook_run cs ?d) sid = hd_live ?d sid
      \<or> unat (hs_Revision (current_doc ?d sid)) < unat (hs_Revision (current_doc (hook_run cs ?d) sid))"
    using Cons.prems by (intro Cons.IH) auto
  show ?case using step rest current_doc_cong [of ?d sid d] current_doc_cong [of "hook_run cs ?d" sid ?d]
    by (auto dest: less_trans)
qed

text \<open>
  The overall-goal summary is a compare-and-swap: if a session's document changed in any way
  between the moment its input snapshot was taken and the moment the summary is applied (whatever
  hooks, contract updates, summaries or history bindings ran in between, failed ones and failures of
  the disk included, short of archiving the session), the writer returns an error and the directory
  is left exactly as it was.
\<close>

theorem stale_summary_never_overwrites:
  assumes "hd_live d sid = Some (Doc st)"
    and "CallArchive sid \<notin> set cs"
    and "hd_live (hook_run cs d) sid \<noteq> Some (Doc st)"
  shows "\<exists>e. ApplySummarizedOverallGoal sid agent goal (SnapshotOverallGoalInput (Some st)) now (hook_run cs d)
    = (hook_run cs d, Inl e)"
proof -
  let ?d = "hook_run cs d" and ?x = "SnapshotOverallGoalInput (Some st)"
  have "current_doc d sid = st" using assms(1) by (simp add: current_doc_def)
  with hook_run_unchanged_or_newer [OF assms(2), of d] assms(1,3)
  have "hs_Revision (current_doc ?d sid) \<noteq> hs_Revision st" by auto
  then have "SnapshotOverallGoalInput (Some (current_doc ?d sid)) \<noteq> ?x"
    by (auto simp: SnapshotOverallGoalInput_def Let_def split: option.splits)
  then show ?thesis
    by (auto simp: ApplySummarizedOverallGoal_def mutateSessionStateChecked_def Let_def)
qed

lemma compact_Nil [simp]: "compactContractText [] = []"
  by (simp add: compactContractText_def split_fields_def)

lemma truncateLines_Nil [simp]: "truncateLines [] n = []"
  by (simp add: truncateLines_def trim_space_def trim_right_space.simps)

lemma applyTurnContractUpdate_empty [simp]: "applyTurnContractUpdate empty_update now st = st"
  by (simp add: applyTurnContractUpdate_def empty_update_def)

lemma exec_event_live:
  "sessionIDRe sid \<Longrightarrow> hd_fault d = None \<Longrightarrow> event \<in> set CanonicalEvents \<Longrightarrow>
   hs_Revision (current_doc d sid) \<noteq> - 1 \<Longrightarrow>
   hook_exec (CallEvent sid agent event tool u now) d =
     (d\<lparr>hd_live := (hd_live d)(sid \<mapsto> Doc (state_json ((applyTurnContractUpdate u now
        (apply_event event tool now (stamp_identity sid agent now (current_doc d sid))))
        \<lparr>hs_Revision := hs_Revision (current_doc d sid) + 1\<rparr>)))\<rparr>, Inr ())"
  by (simp add: ApplyEventWithContract_def mutateSessionState_def mutateSessionStateChecked_def
      event_doc_def)

definition demo_dir :: hook_dir where
  "demo_dir = \<lparr>hd_live = [''s1'' \<mapsto> Doc empty_state], hd_archived = Map.empty, hd_fault = None\<rparr>"

lemma sessionIDRe_s1 [simp]: "sessionIDRe ''s1''"
  by (simp add: sessionIDRe_def char_class_defs byte_of_def)

theorem stale_summary_never_overwrites_witness:
  "\<exists>e. ApplySummarizedOverallGoal ''s1'' ''claude'' ''ship'' (SnapshotOverallGoalInput (Some empty_state)) 9
      (hook_run [CallEvent ''s1'' ''claude'' ''prompt_submit'' [] empty_update 5] demo_dir)
    = (hook_run [CallEvent ''s1'' ''claude'' ''prompt_submit'' [] empty_update 5] demo_dir, Inl e)"
proof (rule stale_summary_never_overwrites)
  let ?c = "CallEvent ''s1'' ''claude'' ''prompt_submit'' [] empty_update 5"
  show "hd_live demo_dir ''s1'' = Some (Doc empty_state)" by (simp add: demo_dir_def)
  show "CallArchive ''s1'' \<notin> set [?c]" by simp
  have "hs_Revision (current_doc demo_dir ''s1'') = 0"
    by (simp add: demo_dir_def current_doc_def empty_state_def)
  moreover have "''prompt_submit'' \<in> set CanonicalEvents"
    by (simp add: CanonicalEvents_def hook_event_defs)
  ultimately obtain st where "hd_live (fst (hook_exec ?c demo_dir)) ''s1'' = Some (Doc st)"
    "hs_Revision st = 1"
    using exec_event_live [of "''s1''" demo_dir "''prompt_submit''" "''claude''" "[]" empty_update 5]
    by (auto simp: demo_dir_def)
  then show "hd_live (hook_run [?c] demo_dir) ''s1'' \<noteq> Some (Doc empty_state)"
    by (auto simp: empty_state_def)
qed

section \<open>Provenance\<close>

text \<open>
  A claim a document makes (a trusted summary, a verified history binding) together with the calls
  that may issue it. When a step can only keep a claim or make it by an issuing call, every claim
  found after a run was issued by a call of that run or was there before.
\<close>

locale provenance_view =
  fixes claimed :: "SessionState \<Rightarrow> 'v option"
    and issued :: "hook_call \<Rightarrow> string \<Rightarrow> 'v \<Rightarrow> bool"
  assumes step: "docs_json d \<Longrightarrow> hd_live (fst (hook_exec c d)) sid = Some (Doc st') \<Longrightarrow>
      claimed st' = Some v \<Longrightarrow>
      issued c sid v \<or> (\<exists>st. hd_live d sid = Some (Doc st) \<and> claimed st = Some v)"
begin

lemma run_issued:
  "docs_json d \<Longrightarrow> hd_live (hook_run cs d) sid = Some (Doc st) \<Longrightarrow> claimed st = Some v \<Longrightarrow>
   (\<exists>c \<in> set cs. issued c sid v) \<or> (\<exists>st0. hd_live d sid = Some (Doc st0) \<and> claimed st0 = Some v)"
proof (induction cs arbitrary: d)
  case Nil
  then show ?case by auto
next
  case (Cons c cs)
  let ?d = "fst (hook_exec c d)"
  have "docs_json ?d" using Cons.prems(1) by (rule hook_exec_docs_json)
  from Cons.IH [OF this] Cons.prems(2,3)
  consider c' where "c' \<in> set cs" "issued c' sid v"
    | st0 where "hd_live ?d sid = Some (Doc st0)" "claimed st0 = Some v"
    by auto
  then show ?case
  proof cases
    case 1
    then show ?thesis by auto
  next
    case 2
    from step [OF Cons.prems(1) 2] show ?thesis by auto
  qed
qed

end

text \<open>How each writer changes the claims of the current document.\<close>

lemma exec_live_cases:
  assumes "hd_live (fst (hook_exec c d)) sid = Some (Doc st')"
  obtains (same) "hd_live d sid = Some (Doc st')"
  | (init) agent goal now where "c = CallInit sid agent goal now"
  | (event) agent event tool u now where "c = CallEvent sid agent event tool u now"
  | (contract) agent u now where "c = CallContract sid agent u now"
  | (summary) agent goal expected now where "c = CallSummary sid agent goal expected now"
  | (history) agent hroot basename cid now where "c = CallHistory sid agent hroot basename cid now"
proof (cases "hd_live (fst (hook_exec c d)) sid = hd_live d sid")
  case True
  with assms that(1) show ?thesis by simp
next
  case False
  show ?thesis
  proof (cases c)
    case (CallArchive sid')
    with False assms show ?thesis
      by (auto simp: ArchiveSessionState_def split: if_splits option.splits)
  qed (use False that init_w.other_session_untouched event_w.other_session_untouched
      contract_w.other_session_untouched summary_w.other_session_untouched
      history_w.other_session_untouched in \<open>fastforce+\<close>)
qed

definition trusted_goal :: "SessionState \<Rightarrow> string option" where
  "trusted_goal st =
     (if tc_OverallGoalProvenance (contract_of st) = OverallGoalSummarizerProvenance
      then Some (tc_OverallGoal (contract_of st)) else None)"

definition history_claim :: "SessionState \<Rightarrow> CanonicalHistoryBinding option" where
  "history_claim st = tc_CanonicalHistory (contract_of st)"

definition issues_goal :: "hook_call \<Rightarrow> string \<Rightarrow> string \<Rightarrow> bool" where
  "issues_goal c sid v \<longleftrightarrow>
     (\<exists>agent goal expected now. c = CallSummary sid agent goal expected now
        \<and> v = to_valid_utf8 (compactContractText goal))"

definition issues_history :: "hook_call \<Rightarrow> string \<Rightarrow> CanonicalHistoryBinding \<Rightarrow> bool" where
  "issues_history c sid b \<longleftrightarrow>
     (\<exists>agent hroot basename cid now. c = CallHistory sid agent hroot basename cid now
        \<and> VerifyCanonicalHistoryBinding hroot basename cid = None
        \<and> b = \<lparr>chb_Basename = to_valid_utf8 basename, chb_ConversationID = to_valid_utf8 cid,
               chb_Provenance = CanonicalHistoryBindingProvenance, chb_UpdatedAt = now\<rparr>)"

lemma provenance_ascii [simp]:
  "to_valid_utf8 OverallGoalSummarizerProvenance = OverallGoalSummarizerProvenance"
  "to_valid_utf8 CanonicalHistoryBindingProvenance = CanonicalHistoryBindingProvenance"
  by (rule to_valid_utf8_ascii,
      simp add: is_ascii_def OverallGoalSummarizerProvenance_def CanonicalHistoryBindingProvenance_def
        byte_of_def)+

lemma to_valid_utf8_Nil [simp]: "to_valid_utf8 [] = []"
  by (simp add: is_ascii_def)

lemma summarizer_provenance_nonempty [simp]:
  "OverallGoalSummarizerProvenance \<noteq> []" "[] \<noteq> OverallGoalSummarizerProvenance"
  by (simp_all add: OverallGoalSummarizerProvenance_def)

lemma contract_of_unchanged [simp]:
  "contract_of (stamp_identity sid agent now st) = contract_of st"
  "contract_of (apply_event event tool now st) = contract_of st"
  "contract_of (st\<lparr>hs_UpdatedAt := t\<rparr>) = contract_of st"
  "contract_of (st\<lparr>hs_Revision := r\<rparr>) = contract_of st"
  by (simp_all add: contract_of_def stamp_identity_def apply_event_def set_if_def Let_def)

lemma contract_of_set [simp]: "contract_of (st\<lparr>hs_TurnContract := Some tc\<rparr>) = tc"
  by (simp add: contract_of_def)

lemma empty_contract_json [simp]: "contract_json empty_contract = empty_contract"
  by (simp add: contract_json_def empty_contract_def)

lemma contract_of_json [simp]: "contract_of (state_json st) = contract_json (contract_of st)"
  by (simp add: contract_of_def state_json_def split: option.split)

lemma contract_json_goal [simp]:
  "tc_OverallGoal (contract_json tc) = to_valid_utf8 (tc_OverallGoal tc)"
  "tc_OverallGoalProvenance (contract_json tc) = to_valid_utf8 (tc_OverallGoalProvenance tc)"
  "tc_CanonicalHistory (contract_json tc) = map_option binding_json (tc_CanonicalHistory tc)"
  by (simp_all add: contract_json_def)

lemma update_goal_view:
  "(tc_OverallGoal (contract_of (applyTurnContractUpdate u now st)) = tc_OverallGoal (contract_of st)
     \<and> tc_OverallGoalProvenance (contract_of (applyTurnContractUpdate u now st))
       = tc_OverallGoalProvenance (contract_of st))
   \<or> tc_OverallGoalProvenance (contract_of (applyTurnContractUpdate u now st)) = []"
  by (simp add: applyTurnContractUpdate_def set_if_def Let_def)

lemma update_history_view:
  "tc_CanonicalHistory (contract_of (applyTurnContractUpdate u now st)) = tc_CanonicalHistory (contract_of st)"
  by (simp add: applyTurnContractUpdate_def set_if_def Let_def)

text \<open>The document a successful cycle stores, and the one it started from.\<close>

lemma mutate_live:
  assumes "hd_live (fst (mutateSessionStateChecked sid f d)) sid = Some (Doc st')"
  obtains (same) "hd_live d sid = Some (Doc st')"
  | (stored) st where "f (current_doc d sid) = Inr st" "contract_of st' = contract_json (contract_of st)"
proof (cases "mutateSessionStateChecked sid f d")
  case (Pair d' r)
  show ?thesis
  proof (cases r)
    case (Inl e)
    with Pair mutate_Inl assms that(1) show ?thesis by fastforce
  next
    case (Inr u)
    with Pair obtain st where "f (current_doc d sid) = Inr st"
      "d' = d\<lparr>hd_live := (hd_live d)(sid \<mapsto> Doc (state_json (st\<lparr>hs_Revision := hs_Revision st + 1\<rparr>)))\<rparr>"
      by (auto elim: mutate_Inr)
    with assms Pair that(2) show ?thesis by auto
  qed
qed

lemma empty_state_json [simp]: "state_json empty_state = empty_state"
  by (simp add: state_json_def empty_state_def)

lemma current_doc_json: "docs_json d \<Longrightarrow> state_json (current_doc d sid) = current_doc d sid"
  by (simp add: docs_json_def current_doc_def split: option.split hook_file.split)

lemma current_contract_json:
  "docs_json d \<Longrightarrow> contract_json (contract_of (current_doc d sid)) = contract_of (current_doc d sid)"
  using contract_of_json [of "current_doc d sid"] current_doc_json [of d sid] by simp

lemma current_doc_live:
  "current_doc d sid \<noteq> empty_state \<Longrightarrow> hd_live d sid = Some (Doc (current_doc d sid))"
  by (simp add: current_doc_def split: option.splits hook_file.splits)

text \<open>The contract after a call, in terms of the contract before it.\<close>

lemma exec_contract_cases:
  assumes "hd_live (fst (hook_exec c d)) sid = Some (Doc st')"
  obtains (same) "hd_live d sid = Some (Doc st')"
  | (init) agent goal now where
      "contract_of st' = contract_json (contract_of (init_doc sid agent goal now (current_doc d sid)))"
  | (update) u now st where "contract_of st = contract_of (current_doc d sid)"
      "contract_of st' = contract_json (contract_of (applyTurnContractUpdate u now st))"
  | (summary) agent goal expected now where "c = CallSummary sid agent goal expected now"
      "contract_of st' = contract_json (contract_of
         (summary_doc sid agent (compactContractText goal) now (current_doc d sid)))"
  | (history) agent hroot basename cid now where "c = CallHistory sid agent hroot basename cid now"
      "VerifyCanonicalHistoryBinding hroot basename cid = None"
      "contract_of st' = contract_json (contract_of
         (history_doc sid agent basename cid now (current_doc d sid)))"
  using assms
proof (cases rule: exec_live_cases)
  case same
  then show ?thesis by (rule that(1))
next
  case (init agent goal now)
  with assms have "hd_live (fst (mutateSessionStateChecked sid (\<lambda>st. Inr (init_doc sid agent goal now st)) d)) sid
      = Some (Doc st')"
    by (simp add: InitSessionState_def mutateSessionState_def)
  then show ?thesis by (cases rule: mutate_live) (use that(1,2) in auto)
next
  case (event agent event tool u now)
  show ?thesis
  proof (cases "event \<in> set CanonicalEvents")
    case True
    with event assms have "hd_live (fst (mutateSessionStateChecked sid
        (\<lambda>st. Inr (event_doc sid agent event tool u now st)) d)) sid = Some (Doc st')"
      by (simp add: ApplyEventWithContract_def mutateSessionState_def)
    then show ?thesis by (cases rule: mutate_live) (use that(1)
      that(3) [of "apply_event event tool now (stamp_identity sid agent now (current_doc d sid))" u now]
      in \<open>auto simp: event_doc_def\<close>)
  next
    case False
    with event assms that(1) show ?thesis by (simp add: ApplyEventWithContract_def)
  qed
next
  case (contract agent u now)
  with assms have "hd_live (fst (mutateSessionStateChecked sid (\<lambda>st. Inr (contract_doc sid agent u now st)) d)) sid
      = Some (Doc st')"
    by (simp add: ApplyContractOnly_def mutateSessionState_def)
  then show ?thesis by (cases rule: mutate_live) (use that(1)
    that(3) [of "stamp_identity sid agent now (current_doc d sid)" u now]
    in \<open>auto simp: contract_doc_def\<close>)
next
  case (summary agent goal expected now)
  let ?f = "\<lambda>st. if SnapshotOverallGoalInput (Some st) \<noteq> expected then Inl ErrStaleOverallGoal
      else Inr (summary_doc sid agent (compactContractText goal) now st)"
  from summary assms consider "hd_live d sid = Some (Doc st')"
    | "hd_live (fst (mutateSessionStateChecked sid ?f d)) sid = Some (Doc st')"
    by (auto simp: ApplySummarizedOverallGoal_def Let_def split: if_splits)
  then show ?thesis
  proof cases
    case 1
    then show ?thesis by (rule that(1))
  next
    case 2
    then show ?thesis
      by (cases rule: mutate_live) (use that(1) that(4) [OF summary] in \<open>auto split: if_splits\<close>)
  qed
next
  case (history agent hroot basename cid now)
  show ?thesis
  proof (cases "VerifyCanonicalHistoryBinding hroot basename cid")
    case None
    with history assms have "hd_live (fst (mutateSessionStateChecked sid
        (\<lambda>st. Inr (history_doc sid agent basename cid now st)) d)) sid = Some (Doc st')"
      by (simp add: ApplyVerifiedCanonicalHistoryBinding_def mutateSessionState_def)
    then show ?thesis
      by (cases rule: mutate_live) (use that(1) that(5) [OF history None] in auto)
  next
    case (Some e)
    with history assms that(1) show ?thesis by (simp add: ApplyVerifiedCanonicalHistoryBinding_def)
  qed
qed

lemma keeps_goal:
  assumes "docs_json d" and "contract_of st' = contract_json tc" and "trusted_goal st' = Some v"
    and "(tc_OverallGoal tc = tc_OverallGoal (contract_of (current_doc d sid))
        \<and> tc_OverallGoalProvenance tc = tc_OverallGoalProvenance (contract_of (current_doc d sid)))
      \<or> tc_OverallGoalProvenance tc = []"
  shows "\<exists>st. hd_live d sid = Some (Doc st) \<and> trusted_goal st = Some v"
proof -
  let ?c = "current_doc d sid"
  have p: "to_valid_utf8 (tc_OverallGoalProvenance tc) = OverallGoalSummarizerProvenance"
    "v = to_valid_utf8 (tc_OverallGoal tc)"
    using assms(2,3) by (auto simp: trusted_goal_def split: if_splits)
  with assms(4) have e: "tc_OverallGoal tc = tc_OverallGoal (contract_of ?c)"
    "tc_OverallGoalProvenance tc = tc_OverallGoalProvenance (contract_of ?c)"
    by auto
  have "trusted_goal ?c = Some v"
    using p e current_contract_json [OF assms(1), of sid]
    by (metis contract_json_goal(1,2) trusted_goal_def)
  moreover from this have "?c \<noteq> empty_state"
    by (auto simp: trusted_goal_def contract_of_def empty_state_def empty_contract_def)
  ultimately show ?thesis using current_doc_live by blast
qed

lemma keeps_history:
  assumes "docs_json d" and "contract_of st' = contract_json tc" and "history_claim st' = Some v"
    and "tc_CanonicalHistory tc = tc_CanonicalHistory (contract_of (current_doc d sid))"
  shows "\<exists>st. hd_live d sid = Some (Doc st) \<and> history_claim st = Some v"
proof -
  let ?c = "current_doc d sid"
  have "contract_json (contract_of ?c) = contract_of ?c"
    using assms(1) by (rule current_contract_json)
  then have "tc_CanonicalHistory (contract_json tc) = tc_CanonicalHistory (contract_of ?c)"
    using assms(4) contract_json_goal(3) by metis
  then have "history_claim ?c = Some v" using assms(2,3) by (simp add: history_claim_def)
  moreover from this have "?c \<noteq> empty_state"
    by (auto simp: history_claim_def contract_of_def empty_state_def empty_contract_def)
  ultimately show ?thesis using current_doc_live by blast
qed

interpretation goal_prov: provenance_view trusted_goal issues_goal
proof
  fix d c sid st' v
  assume j: "docs_json d" and l: "hd_live (fst (hook_exec c d)) sid = Some (Doc st')"
    and t: "trusted_goal st' = Some v"
  from l show "issues_goal c sid v \<or> (\<exists>st. hd_live d sid = Some (Doc st) \<and> trusted_goal st = Some v)"
  proof (cases rule: exec_contract_cases)
    case same
    with t show ?thesis by blast
  next
    case (init agent goal now)
    show ?thesis by (rule disjI2, rule keeps_goal [OF j init t]) (simp add: init_doc_def Let_def)
  next
    case (update u now st)
    show ?thesis
      by (rule disjI2, rule keeps_goal [OF j update(2) t])
         (use update_goal_view [of u now st] update(1) in simp)
  next
    case (summary agent goal expected now)
    then show ?thesis using t
      by (auto simp: issues_goal_def trusted_goal_def summary_doc_def Let_def split: if_splits)
  next
    case (history agent hroot basename cid now)
    show ?thesis by (rule disjI2, rule keeps_goal [OF j history(3) t]) (simp add: history_doc_def Let_def)
  qed
qed

interpretation history_prov: provenance_view history_claim issues_history
proof
  fix d c sid st' v
  assume j: "docs_json d" and l: "hd_live (fst (hook_exec c d)) sid = Some (Doc st')"
    and t: "history_claim st' = Some v"
  from l show "issues_history c sid v \<or> (\<exists>st. hd_live d sid = Some (Doc st) \<and> history_claim st = Some v)"
  proof (cases rule: exec_contract_cases)
    case same
    with t show ?thesis by blast
  next
    case (init agent goal now)
    show ?thesis by (rule disjI2, rule keeps_history [OF j init t]) (simp add: init_doc_def Let_def)
  next
    case (update u now st)
    show ?thesis
      by (rule disjI2, rule keeps_history [OF j update(2) t])
         (use update_history_view [of u now st] update(1) in simp)
  next
    case (summary agent goal expected now)
    show ?thesis by (rule disjI2, rule keeps_history [OF j summary(2) t]) (simp add: summary_doc_def Let_def)
  next
    case (history agent hroot basename cid now)
    then show ?thesis using t
      by (auto simp: issues_history_def history_claim_def history_doc_def Let_def binding_json_def)
  qed
qed

text \<open>
  Summarizer provenance cannot be forged: after any run of hook calls from a directory without
  documents, a document whose overall goal carries the summarizer's provenance holds exactly the
  compacted text some call of \<open>ApplySummarizedOverallGoal\<close> for that session wrote; launch prompts,
  hook events and contract updates never inherit it.
\<close>

theorem summarizer_provenance_genuine:
  assumes "hd_live d = Map.empty"
    and "hd_live (hook_run cs d) sid = Some (Doc st)"
    and "hs_TurnContract st = Some tc"
    and "tc_OverallGoalProvenance tc = OverallGoalSummarizerProvenance"
  shows "\<exists>agent goal expected now. CallSummary sid agent goal expected now \<in> set cs
    \<and> tc_OverallGoal tc = to_valid_utf8 (compactContractText goal)"
proof -
  have "docs_json d" using assms(1) by (simp add: docs_json_def)
  moreover have "trusted_goal st = Some (tc_OverallGoal tc)"
    using assms(3,4) by (simp add: trusted_goal_def contract_of_def)
  ultimately show ?thesis
    using goal_prov.run_issued [of d cs sid st] assms(1,2) by (auto simp: issues_goal_def)
qed

definition empty_dir :: hook_dir where
  "empty_dir = \<lparr>hd_live = Map.empty, hd_archived = Map.empty, hd_fault = None\<rparr>"

definition demo_doc :: SessionState where
  "demo_doc = empty_state\<lparr>hs_Revision := 2, hs_SessionID := ''s1'', hs_Agent := ''claude'',
     hs_CreatedAt := 5, hs_UpdatedAt := 7, hs_LastEvent := ''turn_end'', hs_TurnCount := 1,
     hs_EventsSeen := 2, hs_LastPromptSubmitAt := 5, hs_LastTurnEndAt := 7\<rparr>"

definition demo_calls :: "hook_call list" where
  "demo_calls =
     [CallEvent ''s1'' ''claude'' ''prompt_submit'' [] empty_update 5,
      CallEvent ''s1'' ''claude'' ''turn_end'' [] empty_update 7,
      CallSummary ''s1'' ''claude'' ''ship'' (SnapshotOverallGoalInput (Some demo_doc)) 9]"

lemma compact_ship: "compactContractText ''ship'' = ''ship''"
  by (simp add: compactContractText_def ascii_eval)

lemma demo_turn:
  "hook_run [CallEvent ''s1'' ''claude'' ''prompt_submit'' [] empty_update 5,
     CallEvent ''s1'' ''claude'' ''turn_end'' [] empty_update 7] empty_dir
   = empty_dir\<lparr>hd_live := [''s1'' \<mapsto> Doc demo_doc]\<rparr>"
  by (simp add: empty_dir_def demo_doc_def current_doc_def empty_state_def CanonicalEvents_def
      hook_event_defs ApplyEventWithContract_def mutateSessionState_def mutateSessionStateChecked_def
      event_doc_def apply_event_def stamp_identity_def state_json_def set_if_def is_ascii_def byte_of_def)

lemma demo_summary:
  "hook_run demo_calls empty_dir = empty_dir\<lparr>hd_live := [''s1'' \<mapsto>
     Doc (state_json ((summary_doc ''s1'' ''claude'' ''ship'' 9 demo_doc)\<lparr>hs_Revision := 3\<rparr>))]\<rparr>"
proof -
  have "hs_Revision demo_doc = 2" by (simp add: demo_doc_def)
  then have "ApplySummarizedOverallGoal ''s1'' ''claude'' ''ship'' (SnapshotOverallGoalInput (Some demo_doc)) 9
      (empty_dir\<lparr>hd_live := [''s1'' \<mapsto> Doc demo_doc]\<rparr>) =
      (empty_dir\<lparr>hd_live := [''s1'' \<mapsto>
        Doc (state_json ((summary_doc ''s1'' ''claude'' ''ship'' 9 demo_doc)\<lparr>hs_Revision := 3\<rparr>))]\<rparr>, Inr ())"
    by (simp add: ApplySummarizedOverallGoal_def compact_ship mutateSessionStateChecked_def current_doc_def
        empty_dir_def SnapshotOverallGoalInput_def)
       (simp add: demo_doc_def empty_state_def)
  then show ?thesis
    using demo_turn hook_run_append [of "[CallEvent ''s1'' ''claude'' ''prompt_submit'' [] empty_update 5,
       CallEvent ''s1'' ''claude'' ''turn_end'' [] empty_update 7]"]
    by (simp add: demo_calls_def)
qed

theorem summarizer_provenance_genuine_witness:
  "\<exists>agent goal expected now. CallSummary ''s1'' agent goal expected now \<in> set demo_calls
    \<and> ''ship'' = to_valid_utf8 (compactContractText goal)"
proof -
  let ?st = "state_json ((summary_doc ''s1'' ''claude'' ''ship'' 9 demo_doc)\<lparr>hs_Revision := 3\<rparr>)"
  let ?tc = "contract_json ((contract_of demo_doc)\<lparr>tc_OverallGoal := ''ship'',
      tc_OverallGoalProvenance := OverallGoalSummarizerProvenance, tc_OverallGoalUpdatedAt := 9,
      tc_UpdatedAt := 9\<rparr>)"
  have tc: "hs_TurnContract ?st = Some ?tc" by (simp add: state_json_def summary_doc_def Let_def)
  have goal: "tc_OverallGoal ?tc = ''ship''" by (simp add: is_ascii_def byte_of_def)
  have prov: "tc_OverallGoalProvenance ?tc = OverallGoalSummarizerProvenance" by simp
  have "hd_live empty_dir = Map.empty" "hd_live (hook_run demo_calls empty_dir) ''s1'' = Some (Doc ?st)"
    by (simp_all add: demo_summary) (simp add: empty_dir_def)
  from summarizer_provenance_genuine [OF this tc prov] show ?thesis unfolding goal .
qed

text \<open>
  C31. A canonical history binding is always a verified one: after any run of hook calls from a
  directory without documents, a binding stored in a session's document was written by a call whose
  history root held a regular, unchanged file of that name with exactly this conversation id in its
  frontmatter.
\<close>

theorem history_binding_verified:
  assumes "hd_live d = Map.empty"
    and "hd_live (hook_run cs d) sid = Some (Doc st)"
    and "hs_TurnContract st = Some tc"
    and "tc_CanonicalHistory tc = Some b"
  shows "\<exists>agent hroot basename cid now bytes m. CallHistory sid agent hroot basename cid now \<in> set cs
    \<and> chb_Basename b = to_valid_utf8 basename \<and> chb_ConversationID b = to_valid_utf8 cid
    \<and> hr_entries hroot basename = Some (HistRegular bytes True)
    \<and> readCanonicalHistoryFrontmatter bytes = Inr m \<and> m ''conversation_id'' = Some cid"
proof -
  have "docs_json d" using assms(1) by (simp add: docs_json_def)
  moreover have "history_claim st = Some b"
    using assms(3,4) by (simp add: history_claim_def contract_of_def)
  ultimately obtain c where "c \<in> set cs" "issues_history c sid b"
    using history_prov.run_issued [of d cs sid st] assms(1,2) by auto
  then show ?thesis
    by (fastforce simp: issues_history_def VerifyCanonicalHistoryBinding_def
        split: option.splits if_splits hist_entry.splits sum.splits)
qed

definition demo_root :: history_root where
  "demo_root = \<lparr>hr_clean = True, hr_opens = True, hr_entries = [''h.md'' \<mapsto>
     HistRegular (''---'' @ [CHR 0x0A] @ ''conversation_id: c1'' @ [CHR 0x0A] @ ''---'' @ [CHR 0x0A]) True]\<rparr>"

lemma demo_root_verifies: "VerifyCanonicalHistoryBinding demo_root ''h.md'' ''c1'' = None"
  by (simp add: VerifyCanonicalHistoryBinding_def validateCanonicalHistoryMetadata_def
      canonicalConversationIDRe_def id_shape_def char_class_defs path_base_def trim_right_def
      has_suffix_def is_control_def readCanonicalHistoryFrontmatter_def demo_root_def
      maxCanonicalHistoryFrontmatterBytes_def trim_cr_def frontmatter_fields.simps cut_colon_def ascii_eval)

theorem history_binding_verified_witness:
  "\<exists>agent hroot basename cid now bytes m.
      CallHistory ''s1'' agent hroot basename cid now
        \<in> set [CallHistory ''s1'' ''claude'' demo_root ''h.md'' ''c1'' 4]
    \<and> ''h.md'' = to_valid_utf8 basename \<and> ''c1'' = to_valid_utf8 cid
    \<and> hr_entries hroot basename = Some (HistRegular bytes True)
    \<and> readCanonicalHistoryFrontmatter bytes = Inr m \<and> m ''conversation_id'' = Some cid"
proof -
  let ?cs = "[CallHistory ''s1'' ''claude'' demo_root ''h.md'' ''c1'' 4]"
  let ?st = "state_json ((history_doc ''s1'' ''claude'' ''h.md'' ''c1'' 4 empty_state)\<lparr>hs_Revision := 1\<rparr>)"
  let ?b = "\<lparr>chb_Basename = ''h.md'', chb_ConversationID = ''c1'',
      chb_Provenance = CanonicalHistoryBindingProvenance, chb_UpdatedAt = 4\<rparr>"
  let ?tc = "contract_json ((contract_of empty_state)\<lparr>tc_CanonicalHistory := Some ?b, tc_UpdatedAt := 4\<rparr>)"
  have tc: "hs_TurnContract ?st = Some ?tc" by (simp add: state_json_def history_doc_def Let_def)
  have b: "tc_CanonicalHistory ?tc = Some ?b" by (simp add: binding_json_def is_ascii_def byte_of_def)
  have "hd_live empty_dir = Map.empty" "hd_live (hook_run ?cs empty_dir) ''s1'' = Some (Doc ?st)"
    by (simp_all add: empty_dir_def ApplyVerifiedCanonicalHistoryBinding_def demo_root_verifies
        mutateSessionState_def mutateSessionStateChecked_def current_doc_def)
       (simp_all add: empty_state_def)
  from history_binding_verified [OF this tc b] show ?thesis by simp
qed

end
