(* ===== verification/Profile.thy ===== *)
theory Profile
  imports Go_Prelude
begin

text \<open>
  Agent profiles (\<open>internal/profile/profile.go\<close>): the profile struct, which hook types feed the
  per-session hook state, the built-in LLM classes and the flat profile map derived from them.
  Durations are nanoseconds; the user's home directory is an argument, \<open>None\<close> where the
  operating system reports none.
\<close>

definition TransportTmux :: string where "TransportTmux = ''tmux''"
definition TransportExec :: string where "TransportExec = ''exec''"
definition ExecDriverCodexExecJSON :: string where "ExecDriverCodexExecJSON = ''codex_exec_json''"
definition ExecDriverClaudePrintStreamJSON :: string where
  "ExecDriverClaudePrintStreamJSON = ''claude_print_stream_json''"
definition ExecDriverGrokStreamJSON :: string where "ExecDriverGrokStreamJSON = ''grok_stream_json''"
definition HookTypeClaude :: string where "HookTypeClaude = ''claude_hooks''"
definition HookTypeCodexOutput :: string where "HookTypeCodexOutput = ''codex_output''"
definition HookTypeGrok :: string where "HookTypeGrok = ''grok_hooks''"
definition HookTypeScreenOnly :: string where "HookTypeScreenOnly = ''screen_only''"
definition HookTypeStructuredOutput :: string where "HookTypeStructuredOutput = ''structured_output''"

lemmas profile_const_defs = TransportTmux_def TransportExec_def HookTypeClaude_def
  HookTypeCodexOutput_def HookTypeGrok_def HookTypeScreenOnly_def HookTypeStructuredOutput_def

definition Second :: int where "Second = 1000000000"
definition Minute :: int where "Minute = 60 * Second"

record Profile =
  prof_Class :: string
  prof_Transport :: string
  prof_ExecDriver :: string
  prof_Name :: string
  prof_StartCommand :: string
  prof_SessionStartArgs :: string
  prof_ReadyPattern :: string
  prof_TrustPromptPattern :: string
  prof_TrustResponse :: string
  prof_WorkingIndicator :: string
  prof_StuckTextPatterns :: "string list"
  prof_StuckTimeout :: int
  prof_IdleTimeout :: int
  prof_NudgeCommand :: string
  prof_MaxNudgeRetries :: int
  prof_HookType :: string
  prof_HookDir :: string

definition HookBacked :: "Profile \<Rightarrow> bool" where
  "HookBacked p \<longleftrightarrow>
     prof_HookType p = HookTypeClaude \<or> prof_HookType p = HookTypeCodexOutput
     \<or> prof_HookType p = HookTypeGrok"

definition defaultHookDir :: "string option \<Rightarrow> string \<Rightarrow> string" where
  "defaultHookDir home dir = (case home of None \<Rightarrow> dir | Some h \<Rightarrow> path_join [h, dir])"

record Class =
  class_Name :: string
  class_Interactive :: Profile
  class_Exec :: Profile

definition InteractiveProfileName :: "Class \<Rightarrow> string" where
  "InteractiveProfileName c = class_Name c"

definition ExecProfileName :: "Class \<Rightarrow> string" where
  "ExecProfileName c = class_Name c @ ''_exec''"

definition zero_profile :: Profile where
  "zero_profile =
     \<lparr>prof_Class = [], prof_Transport = [], prof_ExecDriver = [], prof_Name = [],
      prof_StartCommand = [], prof_SessionStartArgs = [], prof_ReadyPattern = [],
      prof_TrustPromptPattern = [], prof_TrustResponse = [], prof_WorkingIndicator = [],
      prof_StuckTextPatterns = [], prof_StuckTimeout = 0, prof_IdleTimeout = 0,
      prof_NudgeCommand = [], prof_MaxNudgeRetries = 0, prof_HookType = [], prof_HookDir = []\<rparr>"

definition exec_profile :: "string \<Rightarrow> string \<Rightarrow> Profile" where
  "exec_profile cls driver =
     zero_profile\<lparr>prof_Class := cls, prof_Transport := TransportExec, prof_ExecDriver := driver,
       prof_Name := cls @ ''_exec'', prof_StuckTimeout := 30 * Minute, prof_IdleTimeout := 60 * Second,
       prof_MaxNudgeRetries := 0, prof_HookType := HookTypeStructuredOutput\<rparr>"

definition codex_class :: Class where
  "codex_class =
     \<lparr>class_Name = ''codex'',
      class_Interactive = zero_profile\<lparr>prof_Class := ''codex'', prof_Transport := TransportTmux,
        prof_Name := ''codex'',
        prof_StartCommand := ''codex --dangerously-bypass-approvals-and-sandbox --no-alt-screen'',
        prof_ReadyPattern := string_of [8250], prof_TrustPromptPattern := ''do you trust'',
        prof_TrustResponse := ''Enter'', prof_WorkingIndicator := ''Working'',
        prof_StuckTextPatterns := [''permission prompt'', ''do you want to allow''],
        prof_StuckTimeout := 5 * Minute, prof_IdleTimeout := 60 * Second,
        prof_NudgeCommand := ''Enter'', prof_MaxNudgeRetries := 3,
        prof_HookType := HookTypeCodexOutput\<rparr>,
      class_Exec = exec_profile ''codex'' ExecDriverCodexExecJSON\<rparr>"

definition claude_class :: "string option \<Rightarrow> Class" where
  "claude_class home =
     \<lparr>class_Name = ''claude'',
      class_Interactive = zero_profile\<lparr>prof_Class := ''claude'', prof_Transport := TransportTmux,
        prof_Name := ''claude'',
        prof_StartCommand := ''claude --dangerously-skip-permissions --remote-control'',
        prof_ReadyPattern := ''remote-control is active'',
        prof_TrustPromptPattern := ''trust this folder'', prof_TrustResponse := ''Enter'',
        prof_WorkingIndicator := ''esc to interrupt'',
        prof_StuckTextPatterns := [''tool denied'', ''would you like''],
        prof_StuckTimeout := 5 * Minute, prof_IdleTimeout := 60 * Second,
        prof_NudgeCommand := ''Enter'', prof_MaxNudgeRetries := 3,
        prof_HookType := HookTypeClaude, prof_HookDir := defaultHookDir home ''.claude''\<rparr>,
      class_Exec = exec_profile ''claude'' ExecDriverClaudePrintStreamJSON\<rparr>"

definition grok_class :: "string option \<Rightarrow> Class" where
  "grok_class home =
     \<lparr>class_Name = ''grok'',
      class_Interactive = zero_profile\<lparr>prof_Class := ''grok'', prof_Transport := TransportTmux,
        prof_Name := ''grok'',
        prof_StartCommand := ''grok --no-alt-screen --permission-mode bypassPermissions'',
        prof_SessionStartArgs := ''--leader-socket {hook_dir}/leader-arcmux-{session_id}.sock'',
        prof_ReadyPattern := string_of [9474, 32, 10095],
        prof_TrustPromptPattern := ''Run Grok Build in a project directory'',
        prof_TrustResponse := ''Enter'', prof_WorkingIndicator := ''Ctrl+Enter:interject'',
        prof_StuckTextPatterns := [''Run Grok Build in a project directory''],
        prof_StuckTimeout := 5 * Minute, prof_IdleTimeout := 60 * Second,
        prof_NudgeCommand := ''Enter'', prof_MaxNudgeRetries := 3,
        prof_HookType := HookTypeGrok, prof_HookDir := defaultHookDir home ''.grok''\<rparr>,
      class_Exec = exec_profile ''grok'' ExecDriverGrokStreamJSON\<rparr>"

definition DefaultClasses :: "string option \<Rightarrow> Class list" where
  "DefaultClasses home = [codex_class, claude_class home, grok_class home]"

definition DefaultProfiles :: "string option \<Rightarrow> string \<rightharpoonup> Profile" where
  "DefaultProfiles home =
     fold (\<lambda>c m. m(InteractiveProfileName c \<mapsto> class_Interactive c, ExecProfileName c \<mapsto> class_Exec c))
       (DefaultClasses home) Map.empty"

lemmas default_class_defs = codex_class_def claude_class_def grok_class_def exec_profile_def
  zero_profile_def

text \<open>
  Every built-in profile is registered under its own name, a tmux profile is hook-backed and an
  exec profile is not, and a profile of the exec transport never nudges.
\<close>

theorem default_profiles_consistent:
  assumes "DefaultProfiles home k = Some p"
  shows "prof_Name p = k \<and> (HookBacked p \<longleftrightarrow> prof_Transport p = TransportTmux)
    \<and> (prof_Transport p = TransportTmux \<or> prof_Transport p = TransportExec)
    \<and> (prof_Transport p = TransportExec \<longrightarrow> prof_MaxNudgeRetries p = 0 \<and> prof_ExecDriver p \<noteq> [])"
proof -
  let ?good = "\<lambda>p. (HookBacked p \<longleftrightarrow> prof_Transport p = TransportTmux)
    \<and> (prof_Transport p = TransportTmux \<or> prof_Transport p = TransportExec)
    \<and> (prof_Transport p = TransportExec \<longrightarrow> prof_MaxNudgeRetries p = 0 \<and> prof_ExecDriver p \<noteq> [])"
  have tmux: "?good (class_Interactive c)" if "c \<in> set (DefaultClasses home)" for c
    using that by (auto simp: DefaultClasses_def HookBacked_def profile_const_defs default_class_defs)
  have exec: "?good (class_Exec c)" if "c \<in> set (DefaultClasses home)" for c
    using that by (auto simp: DefaultClasses_def HookBacked_def profile_const_defs default_class_defs
        ExecDriverCodexExecJSON_def ExecDriverClaudePrintStreamJSON_def ExecDriverGrokStreamJSON_def)
  obtain c where "c \<in> set (DefaultClasses home)"
    "k = InteractiveProfileName c \<and> p = class_Interactive c \<or> k = ExecProfileName c \<and> p = class_Exec c"
    using assms by (auto simp: DefaultProfiles_def DefaultClasses_def split: if_splits)
  moreover from this have "prof_Name p = k"
    by (auto simp: DefaultClasses_def default_class_defs InteractiveProfileName_def ExecProfileName_def)
  ultimately show ?thesis using tmux exec by blast
qed

theorem default_profiles_consistent_witness:
  "DefaultProfiles None ''claude'' = Some (class_Interactive (claude_class None))
   \<and> prof_Name (class_Interactive (claude_class None)) = ''claude''
   \<and> HookBacked (class_Interactive (claude_class None))"
proof -
  have k: "DefaultProfiles None ''claude'' = Some (class_Interactive (claude_class None))"
    by (simp add: DefaultProfiles_def DefaultClasses_def InteractiveProfileName_def ExecProfileName_def
        codex_class_def claude_class_def grok_class_def)
  have "prof_Transport (class_Interactive (claude_class None)) = TransportTmux"
    by (simp add: claude_class_def)
  with default_profiles_consistent [OF k] k show ?thesis by simp
qed

end
