(* ===== verification/Health.thy ===== *)
theory Health
  imports Session Hooks Profile
begin

text \<open>
  The health monitor (\<open>internal/health/monitor.go\<close>). One \<open>tick\<close> reads the pane, the session and
  the hook state, and moves the session between its lifecycle states. What the operating system
  answers during a tick is a \<open>tick_env\<close>: whether the pane exists, what the capture returns (None
  for an error), whether the nudge keys are accepted, the hook-state directory, the instants the
  clock is read at, and what other goroutines do to the session between the two snapshots of a
  tick (\<open>te_between\<close>). \<open>strings.ToLower\<close> of a non-ASCII rune is the parameter \<open>lo\<close>.
\<close>

definition EventStuckDetected :: string where "EventStuckDetected = ''stuck_detected''"
definition EventNudgeSent :: string where "EventNudgeSent = ''nudge_sent''"
definition EventNudgeExhausted :: string where "EventNudgeExhausted = ''nudge_exhausted''"
definition EventAgentExited :: string where "EventAgentExited = ''agent_exited''"
definition EventCrashDetected :: string where "EventCrashDetected = ''crash_detected''"
definition EventIdleDetected :: string where "EventIdleDetected = ''idle_detected''"

lemmas health_event_defs = EventStuckDetected_def EventNudgeSent_def EventNudgeExhausted_def
  EventAgentExited_def EventCrashDetected_def EventIdleDetected_def

definition idleQuiescence :: "int \<Rightarrow> int" where
  "idleQuiescence interval =
     (let q = 2 * interval in if q < 5 * Second then 5 * Second else q)"

definition quiescentIdle :: "State \<Rightarrow> string \<Rightarrow> bool \<Rightarrow> int \<Rightarrow> int \<Rightarrow> bool" where
  "quiescentIdle st stuckMatch workingVisible sinceChange quiescence =
     (if st \<noteq> StateWorking \<or> stuckMatch \<noteq> [] \<or> workingVisible then False
      else quiescence \<le> sinceChange)"

datatype idleDecision = idleUndecided | idleConfirmed | idleWorking

definition hookIdleDecision :: "SessionState option \<Rightarrow> time \<Rightarrow> idleDecision" where
  "hookIdleDecision st workingSince =
     (case st of None \<Rightarrow> idleUndecided
      | Some h \<Rightarrow>
         if IsZero (hs_LastPromptSubmitAt h) \<or> IsZero workingSince then idleUndecided
         else if \<not> hs_Working h \<and> workingSince < hs_LastTurnEndAt h then idleConfirmed
         else if hs_Working h then idleWorking
         else idleUndecided)"

definition hookStaleBackstop :: "int \<Rightarrow> int" where
  "hookStaleBackstop interval = 3 * idleQuiescence interval"

record HealthEvent =
  he_SessionID :: string
  he_Type :: string
  he_Reason :: string
  he_Output :: string
  he_Timestamp :: time

text \<open>
  The monitor holds the capture interval, the state directory name ("" disables hooks) and the
  capacity of its event channel; the tmux client is what \<open>tick_env\<close> answers.
\<close>

record Monitor =
  mon_interval :: int
  mon_events_cap :: nat
  mon_stateDir :: string

definition NewMonitor :: "int \<Rightarrow> nat \<Rightarrow> string \<Rightarrow> Monitor" where
  "NewMonitor interval cap stateDir =
     \<lparr>mon_interval = interval, mon_events_cap = cap, mon_stateDir = stateDir\<rparr>"

record tick_env =
  te_paneExists :: bool
  te_capture :: "string option"
  te_nudgeOK :: bool
  te_hooks :: hook_dir
  te_checkNow :: time
  te_now :: time
  te_setNow :: time
  te_between :: "Session \<Rightarrow> Session"

record CheckResult =
  cr_Alive :: bool
  cr_Output :: string
  cr_StuckMatch :: string
  cr_IsIdle :: bool
  cr_IdleTooLong :: bool

definition stuck_match :: "(rune \<Rightarrow> rune) \<Rightarrow> string list \<Rightarrow> string \<Rightarrow> string" where
  "stuck_match lo pats output =
     (case find (\<lambda>p. contains (to_lower lo output) (to_lower lo p)) pats of
        None \<Rightarrow> [] | Some p \<Rightarrow> p)"

definition Check :: "(rune \<Rightarrow> rune) \<Rightarrow> tick_env \<Rightarrow> Session \<Rightarrow> Profile \<Rightarrow> CheckResult" where
  "Check lo e s prof =
     (let snap = Session_Snapshot s;
          result = \<lparr>cr_Alive = False, cr_Output = [], cr_StuckMatch = [], cr_IsIdle = False,
                    cr_IdleTooLong = False\<rparr>
      in if \<not> te_paneExists e then result
         else let result = result\<lparr>cr_Alive := True\<rparr>
         in case te_capture e of
              None \<Rightarrow> result
            | Some output \<Rightarrow>
                let result = result\<lparr>cr_Output := output,
                      cr_StuckMatch := stuck_match lo (prof_StuckTextPatterns prof) output\<rparr>
                in case snap_IdleSince snap of
                     None \<Rightarrow> result
                   | Some since \<Rightarrow>
                       result\<lparr>cr_IsIdle := True,
                         cr_IdleTooLong := (prof_IdleTimeout prof > 0
                           \<and> te_checkNow e - since > prof_IdleTimeout prof)\<rparr>)"

definition hookDecision :: "Monitor \<Rightarrow> hook_dir \<Rightarrow> Snapshot \<Rightarrow> Profile \<Rightarrow> idleDecision" where
  "hookDecision m d snap prof =
     (if mon_stateDir m = [] \<or> \<not> HookBacked prof then idleUndecided
      else case snap_WorkingSince snap of
        None \<Rightarrow> idleUndecided
      | Some ws \<Rightarrow>
          (case ReadSessionState d (snap_ID snap) of
             Inl _ \<Rightarrow> idleUndecided
           | Inr st \<Rightarrow> hookIdleDecision st ws))"

record runState =
  rs_lastOutput :: string
  rs_lastChangeAt :: time

text \<open>
  The state a tick works on: the session, the loop's bookkeeping, the event channel (oldest
  first) and the keys sent to tmux.
\<close>

record mon_state =
  ms_sess :: Session
  ms_rs :: runState
  ms_events :: "HealthEvent list"
  ms_keys :: "(string \<times> string list) list"

definition Nudge :: "tick_env \<Rightarrow> Profile \<Rightarrow> mon_state \<Rightarrow> mon_state \<times> bool" where
  "Nudge e prof w =
     (let snap = Session_Snapshot (ms_sess w) in
      if te_nudgeOK e
      then (w\<lparr>ms_keys := ms_keys w @ [(snap_TmuxTarget snap, [prof_NudgeCommand prof, ''Enter''])]\<rparr>, True)
      else (w, False))"

definition emit :: "Monitor \<Rightarrow> HealthEvent \<Rightarrow> mon_state \<Rightarrow> mon_state" where
  "emit m ev w =
     (if length (ms_events w) < mon_events_cap m then w\<lparr>ms_events := ms_events w @ [ev]\<rparr> else w)"

definition truncate :: "string \<Rightarrow> nat \<Rightarrow> string" where
  "truncate s maxLen = (if length s \<le> maxLen then s else take maxLen s @ ''...'')"

definition set_sess :: "(Session \<Rightarrow> Session) \<Rightarrow> mon_state \<Rightarrow> mon_state" where
  "set_sess f w = w\<lparr>ms_sess := f (ms_sess w)\<rparr>"

text \<open>The four exits of a tick that end the turn or the session, as the code repeats them.\<close>

definition go_idle :: "Monitor \<Rightarrow> tick_env \<Rightarrow> Snapshot \<Rightarrow> string \<Rightarrow> mon_state \<Rightarrow> mon_state" where
  "go_idle m e snap reason w =
     emit m \<lparr>he_SessionID = snap_ID snap, he_Type = EventIdleDetected, he_Reason = reason,
             he_Output = [], he_Timestamp = te_now e\<rparr>
       (set_sess ResetNudge (set_sess (SetState StateIdle (te_setNow e)) w))"

definition handle_stuck :: "Monitor \<Rightarrow> tick_env \<Rightarrow> Profile \<Rightarrow> Snapshot \<Rightarrow> CheckResult \<Rightarrow> mon_state \<Rightarrow> mon_state" where
  "handle_stuck m e prof snap result w =
     (let ev = (\<lambda>typ. \<lparr>he_SessionID = snap_ID snap, he_Type = typ, he_Reason = cr_StuckMatch result,
                  he_Output = truncate (cr_Output result) 200, he_Timestamp = te_now e\<rparr>);
          w1 = set_sess (SetState StateStuck (te_setNow e)) w
      in if snap_NudgeCount snap < prof_MaxNudgeRetries prof
         then (case Nudge e prof w1 of
                 (w2, True) \<Rightarrow> emit m (ev EventNudgeSent) (set_sess (fst \<circ> IncrementNudge) w2)
               | (w2, False) \<Rightarrow> w2)
         else emit m (ev EventNudgeExhausted) (set_sess (SetState StateEscalated (te_setNow e)) w1))"

definition screen_verdict :: "(rune \<Rightarrow> rune) \<Rightarrow> Monitor \<Rightarrow> tick_env \<Rightarrow> Profile \<Rightarrow> Snapshot \<Rightarrow> CheckResult \<Rightarrow> mon_state \<Rightarrow> mon_state" where
  "screen_verdict lo m e prof snap result w =
     (let workingVisible = (prof_WorkingIndicator prof \<noteq> []
            \<and> contains (to_lower lo (cr_Output result)) (to_lower lo (prof_WorkingIndicator prof)))
      in if quiescentIdle (snap_State snap) (cr_StuckMatch result) workingVisible
              (te_now e - rs_lastChangeAt (ms_rs w)) (idleQuiescence (mon_interval m))
         then go_idle m e snap ''output quiescent'' w
         else if snap_State snap = StateIdle \<and> \<not> cr_IsIdle result
         then set_sess ResetNudge (set_sess (SetState StateWorking (te_setNow e)) w)
         else w)"

definition track_output :: "time \<Rightarrow> string \<Rightarrow> runState \<Rightarrow> runState" where
  "track_output now output rs =
     (if rs_lastOutput rs \<noteq> output then rs\<lparr>rs_lastOutput := output, rs_lastChangeAt := now\<rparr> else rs)"

definition tick :: "(rune \<Rightarrow> rune) \<Rightarrow> Monitor \<Rightarrow> Profile \<Rightarrow> tick_env \<Rightarrow> mon_state \<Rightarrow> mon_state" where
  "tick lo m prof e w0 =
     (let result = Check lo e (ms_sess w0) prof;
          now = te_now e;
          w1 = set_sess (te_between e) w0;
          snap = Session_Snapshot (ms_sess w1);
          w = w1\<lparr>ms_rs := track_output now (cr_Output result) (ms_rs w1)\<rparr>
      in if \<not> cr_Alive result
         then emit m \<lparr>he_SessionID = snap_ID snap, he_Type = EventAgentExited,
                he_Reason = ''pane no longer exists'', he_Output = [], he_Timestamp = now\<rparr>
                (set_sess (SetState StateExited (te_setNow e)) w)
         else if cr_StuckMatch result \<noteq> [] \<and> snap_State snap = StateWorking
         then handle_stuck m e prof snap result w
         else if cr_IdleTooLong result \<and> snap_State snap = StateWorking
         then emit m \<lparr>he_SessionID = snap_ID snap, he_Type = EventStuckDetected,
                he_Reason = ''idle timeout exceeded'', he_Output = [], he_Timestamp = now\<rparr>
                (set_sess (SetState StateStuck (te_setNow e)) w)
         else case (if snap_State snap = StateWorking then hookDecision m (te_hooks e) snap prof
                    else idleUndecided) of
                idleConfirmed \<Rightarrow> go_idle m e snap ''hook:turn_end'' w
              | idleWorking \<Rightarrow>
                  if hookStaleBackstop (mon_interval m) \<le> now - rs_lastChangeAt (ms_rs w)
                  then go_idle m e snap ''output quiescent (no turn_end hook)'' w
                  else w
              | idleUndecided \<Rightarrow> screen_verdict lo m e prof snap result w)"

text \<open>
  \<open>Run\<close> starts the bookkeeping at the instant it is called and ticks until its context is
  cancelled: the ticks that happened before the cancellation are a list.
\<close>

definition Run :: "(rune \<Rightarrow> rune) \<Rightarrow> Monitor \<Rightarrow> Profile \<Rightarrow> time \<Rightarrow> tick_env list \<Rightarrow> mon_state \<Rightarrow> mon_state" where
  "Run lo m prof start ticks w =
     fold (tick lo m prof) ticks (w\<lparr>ms_rs := \<lparr>rs_lastOutput = [], rs_lastChangeAt = start\<rparr>\<rparr>)"

section \<open>How a tick changes the session\<close>

lemma snapshot_sel [simp]:
  "snap_State (Session_Snapshot s) = sess_State s" "snap_ID (Session_Snapshot s) = sess_ID s"
  "snap_IdleSince (Session_Snapshot s) = sess_IdleSince s"
  "snap_WorkingSince (Session_Snapshot s) = sess_WorkingSince s"
  "snap_NudgeCount (Session_Snapshot s) = sess_NudgeCount s"
  "snap_TmuxTarget (Session_Snapshot s) = sess_TmuxTarget s"
  by (simp_all add: Session_Snapshot_def)

lemma emit_sel [simp]:
  "ms_sess (emit m ev w) = ms_sess w" "ms_rs (emit m ev w) = ms_rs w" "ms_keys (emit m ev w) = ms_keys w"
  by (simp_all add: emit_def)

lemma set_sess_sel [simp]:
  "ms_sess (set_sess f w) = f (ms_sess w)" "ms_rs (set_sess f w) = ms_rs w"
  "ms_events (set_sess f w) = ms_events w" "ms_keys (set_sess f w) = ms_keys w"
  by (simp_all add: set_sess_def)

lemma session_sel [simp]:
  "sess_State (SetState st now s) = st" "sess_NudgeCount (SetState st now s) = sess_NudgeCount s"
  "sess_LastActivityAt (SetState st now s) = now" "sess_ID (SetState st now s) = sess_ID s"
  "sess_State (ResetNudge s) = sess_State s" "sess_NudgeCount (ResetNudge s) = 0"
  "sess_LastActivityAt (ResetNudge s) = sess_LastActivityAt s"
  "sess_State (fst (IncrementNudge s)) = sess_State s"
  "sess_NudgeCount (fst (IncrementNudge s)) = sess_NudgeCount s + 1"
  "sess_LastActivityAt (fst (IncrementNudge s)) = sess_LastActivityAt s"
  "sess_WorkingSince (SetState st now s) = (if st = StateWorking then Some now else None)"
  "sess_IdleSince (SetState st now s) = (if st = StateIdle then Some now else None)"
  by (simp_all add: session_setter_defs Let_def)

lemma emit_events: "ms_events (emit m ev w) = ms_events w \<or> ms_events (emit m ev w) = ms_events w @ [ev]"
  by (simp add: emit_def)

lemma emit_within_cap:
  "length (ms_events w) \<le> mon_events_cap m \<Longrightarrow> length (ms_events (emit m ev w)) \<le> mon_events_cap m"
  by (simp add: emit_def)

lemma go_idle_sess [simp]: "ms_sess (go_idle m e snap r w) = ResetNudge (SetState StateIdle (te_setNow e) (ms_sess w))"
  by (simp add: go_idle_def)

lemma Nudge_cases:
  "Nudge e prof w = (if te_nudgeOK e
     then (w\<lparr>ms_keys := ms_keys w @ [(sess_TmuxTarget (ms_sess w), [prof_NudgeCommand prof, ''Enter''])]\<rparr>, True)
     else (w, False))"
  by (simp add: Nudge_def Let_def)

lemma handle_stuck_sess [simp]:
  "ms_sess (handle_stuck m e prof snap r w) =
     (let s = SetState StateStuck (te_setNow e) (ms_sess w) in
      if snap_NudgeCount snap < prof_MaxNudgeRetries prof
      then if te_nudgeOK e then fst (IncrementNudge s) else s
      else SetState StateEscalated (te_setNow e) s)"
  by (simp add: handle_stuck_def Let_def Nudge_cases)

lemma screen_verdict_sess:
  "ms_sess (screen_verdict lo m e prof snap r w) = ms_sess w \<and> \<not> (snap_State snap = StateIdle \<and> \<not> cr_IsIdle r)
   \<or> snap_State snap = StateWorking \<and> ms_sess (screen_verdict lo m e prof snap r w)
       = ResetNudge (SetState StateIdle (te_setNow e) (ms_sess w))
   \<or> snap_State snap = StateIdle \<and> \<not> cr_IsIdle r \<and> ms_sess (screen_verdict lo m e prof snap r w)
       = ResetNudge (SetState StateWorking (te_setNow e) (ms_sess w))"
  by (simp add: screen_verdict_def Let_def quiescentIdle_def)

text \<open>What a tick does to the session, by the five ways it can change it.\<close>

lemma tick_sess_cases:
  defines "s w e \<equiv> te_between e (ms_sess w)"
  obtains (same) "ms_sess (tick lo m prof e w) = s w e"
  | (exited) "\<not> te_paneExists e" "ms_sess (tick lo m prof e w) = SetState StateExited (te_setNow e) (s w e)"
  | (stuck) "sess_State (s w e) = StateWorking"
      "cr_StuckMatch (Check lo e (ms_sess w) prof) \<noteq> []" "sess_NudgeCount (s w e) < prof_MaxNudgeRetries prof"
      "ms_sess (tick lo m prof e w) = (if te_nudgeOK e then fst (IncrementNudge (SetState StateStuck (te_setNow e) (s w e)))
         else SetState StateStuck (te_setNow e) (s w e))"
  | (escalated) "sess_State (s w e) = StateWorking"
      "cr_StuckMatch (Check lo e (ms_sess w) prof) \<noteq> []" "prof_MaxNudgeRetries prof \<le> sess_NudgeCount (s w e)"
      "ms_sess (tick lo m prof e w) = SetState StateEscalated (te_setNow e) (SetState StateStuck (te_setNow e) (s w e))"
  | (timeout) "sess_State (s w e) = StateWorking" "cr_IdleTooLong (Check lo e (ms_sess w) prof)"
      "ms_sess (tick lo m prof e w) = SetState StateStuck (te_setNow e) (s w e)"
  | (idle) "sess_State (s w e) = StateWorking" "cr_StuckMatch (Check lo e (ms_sess w) prof) = []"
      "ms_sess (tick lo m prof e w) = ResetNudge (SetState StateIdle (te_setNow e) (s w e))"
  | (revived) "sess_State (s w e) = StateIdle" "\<not> cr_IsIdle (Check lo e (ms_sess w) prof)"
      "ms_sess (tick lo m prof e w) = ResetNudge (SetState StateWorking (te_setNow e) (s w e))"
proof -
  let ?r = "Check lo e (ms_sess w) prof"
  let ?w = "(set_sess (te_between e) w)\<lparr>ms_rs := track_output (te_now e) (cr_Output ?r) (ms_rs w)\<rparr>"
  let ?snap = "Session_Snapshot (s w e)"
  let ?t = "ms_sess (tick lo m prof e w)"
  have alive: "cr_Alive ?r = te_paneExists e" by (simp add: Check_def Let_def split: option.split)
  have dead: ?thesis if "\<not> te_paneExists e"
    using that by (intro exited) (simp_all add: tick_def Let_def alive s_def)
  have stuck: ?thesis if "te_paneExists e" "cr_StuckMatch ?r \<noteq> []" "sess_State (s w e) = StateWorking"
    using that stuck escalated
    by (cases "sess_NudgeCount (s w e) < prof_MaxNudgeRetries prof") (simp_all add: tick_def Let_def alive s_def)
  have late: ?thesis if "te_paneExists e" "cr_StuckMatch ?r = []" "cr_IdleTooLong ?r" "sess_State (s w e) = StateWorking"
    using that by (intro timeout) (simp_all add: tick_def Let_def alive s_def)
  have work: ?thesis if "te_paneExists e" "cr_StuckMatch ?r = []" "\<not> cr_IdleTooLong ?r" "sess_State (s w e) = StateWorking"
  proof -
    have "?t = s w e \<or> ?t = ResetNudge (SetState StateIdle (te_setNow e) (s w e))"
      using that screen_verdict_sess [of lo m e prof ?snap ?r ?w]
      by (cases "hookDecision m (te_hooks e) ?snap prof") (auto simp: tick_def Let_def alive s_def)
    with that same idle show ?thesis by blast
  qed
  have rest: ?thesis if "te_paneExists e" "sess_State (s w e) \<noteq> StateWorking"
    using that screen_verdict_sess [of lo m e prof ?snap ?r ?w] same revived
    by (auto simp: tick_def Let_def alive s_def)
  from dead stuck late work rest show ?thesis by blast
qed

text \<open>
  What other goroutines may do to the session between the two snapshots of a tick: they keep the
  session's invariant and the clock, and none of them raises the nudge counter (only the monitor
  does).
\<close>

definition env_ok :: "tick_env \<Rightarrow> bool" where
  "env_ok e \<longleftrightarrow>
     (\<forall>s. session_inv s \<and> sess_LastActivityAt s \<le> te_setNow e \<longrightarrow>
        session_inv (te_between e s) \<and> sess_LastActivityAt (te_between e s) \<le> te_setNow e
        \<and> sess_NudgeCount (te_between e s) \<le> sess_NudgeCount s)"

lemma tick_keeps:
  assumes "env_ok e" and inv: "session_inv (ms_sess w)" and act: "sess_LastActivityAt (ms_sess w) \<le> te_setNow e"
    and bound: "sess_NudgeCount (ms_sess w) \<le> max 0 (prof_MaxNudgeRetries prof)"
  shows "session_inv (ms_sess (tick lo m prof e w))
    \<and> sess_LastActivityAt (ms_sess (tick lo m prof e w)) \<le> te_setNow e
    \<and> sess_NudgeCount (ms_sess (tick lo m prof e w)) \<le> max 0 (prof_MaxNudgeRetries prof)"
proof -
  let ?s = "te_between e (ms_sess w)"
  have s: "session_inv ?s" "sess_LastActivityAt ?s \<le> te_setNow e"
    "sess_NudgeCount ?s \<le> max 0 (prof_MaxNudgeRetries prof)"
    using assms unfolding env_ok_def by fastforce+
  show ?thesis
    by (rule tick_sess_cases [of lo m prof e w])
       (use s in \<open>auto intro!: session_inv_SetState session_inv_ResetNudge session_inv_IncrementNudge\<close>)
qed

lemma tick_events:
  "\<exists>evs. ms_events (tick lo m prof e w) = ms_events w @ evs \<and> length evs \<le> 1
     \<and> length (ms_events (tick lo m prof e w)) \<le> max (mon_events_cap m) (length (ms_events w))"
  by (cases "hookDecision m (te_hooks e) (Session_Snapshot (te_between e (ms_sess w))) prof")
     (auto simp: tick_def Let_def emit_def go_idle_def handle_stuck_def Nudge_cases screen_verdict_def
       split: if_splits)

lemma Run_Cons_tick: "fold (tick lo m prof) (e # es) w = fold (tick lo m prof) es (tick lo m prof e w)"
  by simp

lemma ticks_keep:
  assumes "\<forall>e \<in> set ticks. env_ok e" "sorted (map te_setNow ticks)"
    and "session_inv (ms_sess w)" "\<forall>e \<in> set ticks. sess_LastActivityAt (ms_sess w) \<le> te_setNow e"
    and "sess_NudgeCount (ms_sess w) \<le> max 0 (prof_MaxNudgeRetries prof)"
    and "length (ms_events w) \<le> mon_events_cap m"
  shows "session_inv (ms_sess (fold (tick lo m prof) ticks w))
    \<and> sess_NudgeCount (ms_sess (fold (tick lo m prof) ticks w)) \<le> max 0 (prof_MaxNudgeRetries prof)
    \<and> length (ms_events (fold (tick lo m prof) ticks w)) \<le> mon_events_cap m"
  using assms
proof (induction ticks arbitrary: w)
  case Nil
  then show ?case by simp
next
  case (Cons e es)
  let ?w = "tick lo m prof e w"
  have "session_inv (ms_sess ?w)" "sess_LastActivityAt (ms_sess ?w) \<le> te_setNow e"
    "sess_NudgeCount (ms_sess ?w) \<le> max 0 (prof_MaxNudgeRetries prof)"
    using tick_keeps [of e w prof lo m] Cons.prems by auto
  moreover have "length (ms_events ?w) \<le> mon_events_cap m"
    using tick_events [of lo m prof e w] Cons.prems(6) by auto
  moreover from Cons.prems calculation have "\<forall>x \<in> set es. sess_LastActivityAt (ms_sess ?w) \<le> te_setNow x"
    by fastforce
  ultimately show ?case using Cons.IH [of ?w] Cons.prems by simp
qed

text \<open>
  Whatever the pane, the hooks and the other goroutines do, a monitor loop keeps the session's
  turn anchors consistent, never sends more than \<open>MaxNudgeRetries\<close> nudges between two resets of the
  counter, and never overfills the event channel.
\<close>

theorem monitor_run_invariant:
  assumes "\<forall>e \<in> set ticks. env_ok e" "sorted (map te_setNow ticks)"
    and "session_inv (ms_sess w)" "\<forall>e \<in> set ticks. sess_LastActivityAt (ms_sess w) \<le> te_setNow e"
    and "sess_NudgeCount (ms_sess w) \<le> max 0 (prof_MaxNudgeRetries prof)"
    and "length (ms_events w) \<le> mon_events_cap m"
  shows "session_inv (ms_sess (Run lo m prof start ticks w))
    \<and> sess_NudgeCount (ms_sess (Run lo m prof start ticks w)) \<le> max 0 (prof_MaxNudgeRetries prof)
    \<and> length (ms_events (Run lo m prof start ticks w)) \<le> mon_events_cap m"
  unfolding Run_def by (rule ticks_keep) (use assms in simp_all)

lemma Check_alive [simp]: "cr_Alive (Check lo e s prof) = te_paneExists e"
  by (simp add: Check_def Let_def split: option.split)

lemma Check_IsIdle:
  "cr_IsIdle (Check lo e s prof) \<longleftrightarrow> te_paneExists e \<and> te_capture e \<noteq> None \<and> sess_IdleSince s \<noteq> None"
  by (auto simp: Check_def Let_def split: option.split)

lemma Check_IdleTooLong: "cr_IdleTooLong (Check lo e s prof) \<Longrightarrow> sess_IdleSince s \<noteq> None"
  by (auto simp: Check_def Let_def split: option.splits if_splits)

lemma Check_Some:
  "te_paneExists e \<Longrightarrow> te_capture e = Some out \<Longrightarrow> cr_Output (Check lo e s prof) = out
     \<and> cr_StuckMatch (Check lo e s prof) = stuck_match lo (prof_StuckTextPatterns prof) out"
  by (auto simp: Check_def Let_def split: option.split)

lemma stuck_match_in: "stuck_match lo ps out \<noteq> [] \<Longrightarrow> stuck_match lo ps out \<in> set ps"
  by (cases "find (\<lambda>p. contains (to_lower lo out) (to_lower lo p)) ps")
     (auto simp: stuck_match_def dest!: find_SomeD)

lemma Check_StuckMatch_in:
  "cr_StuckMatch (Check lo e s prof) \<noteq> [] \<Longrightarrow> cr_StuckMatch (Check lo e s prof) \<in> set (prof_StuckTextPatterns prof)"
  by (auto simp: Check_def Let_def intro: stuck_match_in split: option.splits if_splits)

lemma working_not_timed_out:
  "session_inv s \<Longrightarrow> sess_State s = StateWorking \<Longrightarrow> \<not> cr_IdleTooLong (Check lo e s prof)"
  using Check_IdleTooLong [of lo e s prof] by (auto simp: session_inv_def)

text \<open>
  The complete transition table of a tick that no other goroutine interleaves with: a session
  changes state only by exiting with its pane, by a stuck pattern seen while it is working (stuck
  while nudges are left, escalated when they are spent), by going idle from working with no stuck
  pattern on the screen, and from idle back to working only when the pane is there but its capture
  failed.
\<close>

theorem tick_transitions:
  assumes "session_inv (ms_sess w)" "te_between e (ms_sess w) = ms_sess w"
    and "sess_State (ms_sess (tick lo m prof e w)) \<noteq> sess_State (ms_sess w)"
  shows "sess_State (ms_sess (tick lo m prof e w)) = StateExited \<and> \<not> te_paneExists e
    \<or> (\<exists>p \<in> set (prof_StuckTextPatterns prof). p \<noteq> [] \<and> cr_StuckMatch (Check lo e (ms_sess w) prof) = p)
        \<and> sess_State (ms_sess w) = StateWorking
        \<and> sess_State (ms_sess (tick lo m prof e w)) =
            (if sess_NudgeCount (ms_sess w) < prof_MaxNudgeRetries prof then StateStuck else StateEscalated)
    \<or> sess_State (ms_sess w) = StateWorking \<and> sess_State (ms_sess (tick lo m prof e w)) = StateIdle
        \<and> cr_StuckMatch (Check lo e (ms_sess w) prof) = []
    \<or> sess_State (ms_sess w) = StateIdle \<and> sess_State (ms_sess (tick lo m prof e w)) = StateWorking
        \<and> te_capture e = None"
proof -
  show ?thesis
  proof (rule tick_sess_cases [of lo m prof e w])
    assume "sess_State (te_between e (ms_sess w)) = StateIdle" "\<not> cr_IsIdle (Check lo e (ms_sess w) prof)"
      "ms_sess (tick lo m prof e w) = ResetNudge (SetState StateWorking (te_setNow e) (te_between e (ms_sess w)))"
    moreover from this have "te_paneExists e"
      by (rule_tac ccontr) (simp add: tick_def Let_def assms(2), metis State.distinct session_sel(1,5))
    ultimately show ?thesis using assms by (auto simp: Check_IsIdle session_inv_def)
  qed (use assms Check_StuckMatch_in [of lo e "ms_sess w" prof] working_not_timed_out in auto)
qed

lemma emit_new: "ev \<in> set (ms_events (emit m ev' w)) \<Longrightarrow> ev \<notin> set (ms_events w) \<Longrightarrow> ev = ev'"
  by (auto simp: emit_def split: if_splits)

text \<open>
  The profile's idle timeout has no effect: on a session whose anchors are consistent, a tick
  that no other goroutine interleaves with does the same for every \<open>IdleTimeout\<close>, and reports no
  \<open>stuck_detected\<close> event (\<open>IdleSince\<close> is nil while the session is working).
\<close>

theorem idle_timeout_inert:
  assumes "session_inv (ms_sess w)" "te_between e (ms_sess w) = ms_sess w"
  shows "tick lo m (prof\<lparr>prof_IdleTimeout := d\<rparr>) e w = tick lo m prof e w
    \<and> (\<forall>ev \<in> set (ms_events (tick lo m prof e w)). ev \<in> set (ms_events w) \<or> he_Type ev \<noteq> EventStuckDetected)"
proof -
  let ?r = "Check lo e (ms_sess w) prof" and ?r' = "Check lo e (ms_sess w) (prof\<lparr>prof_IdleTimeout := d\<rparr>)"
  have r: "?r' = ?r\<lparr>cr_IdleTooLong := cr_IdleTooLong ?r'\<rparr>"
    by (auto simp: Check_def Let_def split: option.split)
  have sel: "cr_Output ?r' = cr_Output ?r" "cr_StuckMatch ?r' = cr_StuckMatch ?r" "cr_IsIdle ?r' = cr_IsIdle ?r"
    by (subst r, simp)+
  have hook: "hookDecision m (te_hooks e) snap (prof\<lparr>prof_IdleTimeout := d\<rparr>) = hookDecision m (te_hooks e) snap prof" for snap
    by (simp add: hookDecision_def HookBacked_def)
  have off: "\<not> (cr_IdleTooLong ?r \<and> sess_State (ms_sess w) = StateWorking)"
    "\<not> (cr_IdleTooLong ?r' \<and> sess_State (ms_sess w) = StateWorking)"
    using assms(1) working_not_timed_out by blast+
  have stuck: "handle_stuck m e (prof\<lparr>prof_IdleTimeout := d\<rparr>) snap ?r' v = handle_stuck m e prof snap ?r v" for snap v
    by (simp add: handle_stuck_def Nudge_def Let_def sel)
  have screen: "screen_verdict lo m e (prof\<lparr>prof_IdleTimeout := d\<rparr>) snap ?r' v = screen_verdict lo m e prof snap ?r v" for snap v
    by (simp add: screen_verdict_def Let_def sel)
  have "tick lo m (prof\<lparr>prof_IdleTimeout := d\<rparr>) e w = tick lo m prof e w"
    using off by (cases "sess_State (ms_sess w) = StateWorking")
      (simp_all add: tick_def Let_def assms(2) sel hook stuck screen split: idleDecision.split)
  moreover have "he_Type ev \<noteq> EventStuckDetected"
    if "ev \<in> set (ms_events (tick lo m prof e w))" "ev \<notin> set (ms_events w)" for ev
    using that off(1)
    by (cases "hookDecision m (te_hooks e) (Session_Snapshot (ms_sess w)) prof")
       (auto simp: tick_def Let_def assms(2) go_idle_def handle_stuck_def Nudge_cases screen_verdict_def
         health_event_defs dest!: emit_new split: if_splits)
  ultimately show ?thesis by blast
qed

lemma hookIdleDecision_confirmed:
  "hookIdleDecision st ws = idleConfirmed \<longleftrightarrow>
     (\<exists>h. st = Some h \<and> \<not> IsZero (hs_LastPromptSubmitAt h) \<and> \<not> IsZero ws \<and> \<not> hs_Working h \<and> ws < hs_LastTurnEndAt h)"
  by (auto simp: hookIdleDecision_def split: option.split)

lemma hookDecision_confirmed:
  "hookDecision m d snap prof = idleConfirmed \<Longrightarrow>
     \<exists>ws h. snap_WorkingSince snap = Some ws \<and> hd_live d (snap_ID snap) = Some (Doc h)
       \<and> HookBacked prof \<and> \<not> hs_Working h \<and> ws < hs_LastTurnEndAt h"
  by (auto simp: hookDecision_def hookIdleDecision_confirmed ReadSessionState_def
      split: if_splits option.splits sum.splits hook_file.splits)

text \<open>
  C29. A tick that reports a turn finished by its hook does so only when the hook document of this
  very session says so: the document is not working and its last turn end lies strictly after the
  instant the session's current turn began, so the turn end of an earlier turn never counts.
\<close>

theorem hook_idle_genuine:
  assumes "ev \<in> set (ms_events (tick lo m prof e w))" "ev \<notin> set (ms_events w)"
    and "he_Type ev = EventIdleDetected" "he_Reason ev = ''hook:turn_end''"
  shows "\<exists>ws h. sess_State (te_between e (ms_sess w)) = StateWorking
    \<and> sess_WorkingSince (te_between e (ms_sess w)) = Some ws
    \<and> hd_live (te_hooks e) (sess_ID (te_between e (ms_sess w))) = Some (Doc h)
    \<and> HookBacked prof \<and> \<not> hs_Working h \<and> ws < hs_LastTurnEndAt h
    \<and> sess_State (ms_sess (tick lo m prof e w)) = StateIdle"
proof -
  let ?s = "te_between e (ms_sess w)"
  have "hookDecision m (te_hooks e) (Session_Snapshot ?s) prof = idleConfirmed
      \<and> sess_State ?s = StateWorking \<and> sess_State (ms_sess (tick lo m prof e w)) = StateIdle"
    using assms
    by (cases "hookDecision m (te_hooks e) (Session_Snapshot ?s) prof")
       (auto simp: tick_def Let_def go_idle_def handle_stuck_def Nudge_cases screen_verdict_def
         health_event_defs dest!: emit_new split: if_splits)
  with hookDecision_confirmed [of m "te_hooks e" "Session_Snapshot ?s" prof] show ?thesis by fastforce
qed

lemma idleQuiescence_pos: "0 < idleQuiescence interval"
  by (simp add: idleQuiescence_def Let_def Second_def)

text \<open>
  While the hook document of the current turn says the agent is working, screen quiescence
  never ends the turn early: with no stuck pattern on the screen, the session goes idle exactly
  when its screen has been static for the whole backstop, three quiescence windows.
\<close>

theorem hook_working_backstop:
  assumes "session_inv (ms_sess w)" "te_between e (ms_sess w) = ms_sess w"
    and "te_paneExists e" "te_capture e = Some out" "stuck_match lo (prof_StuckTextPatterns prof) out = []"
    and "sess_WorkingSince (ms_sess w) = Some ws" "ws \<noteq> 0"
    and "HookBacked prof" "mon_stateDir m \<noteq> []" "sessionIDRe (sess_ID (ms_sess w))" "hd_fault (te_hooks e) = None"
    and "hd_live (te_hooks e) (sess_ID (ms_sess w)) = Some (Doc h)" "hs_Working h" "hs_LastPromptSubmitAt h \<noteq> 0"
  shows "sess_State (ms_sess (tick lo m prof e w)) =
    (if rs_lastOutput (ms_rs w) = out
        \<and> 3 * idleQuiescence (mon_interval m) \<le> te_now e - rs_lastChangeAt (ms_rs w)
     then StateIdle else StateWorking)"
proof -
  let ?s = "ms_sess w"
  have work: "sess_State ?s = StateWorking" using assms(1,6) by (auto simp: session_inv_def)
  have dec: "hookDecision m (te_hooks e) (Session_Snapshot ?s) prof = idleWorking"
    using assms(6-) by (simp add: hookDecision_def ReadSessionState_def hookIdleDecision_def)
  have chk: "cr_Output (Check lo e ?s prof) = out" "cr_StuckMatch (Check lo e ?s prof) = []"
    "\<not> cr_IdleTooLong (Check lo e ?s prof)"
    using Check_Some [OF assms(3,4)] assms(5) working_not_timed_out [OF assms(1) work] by auto
  show ?thesis
    using idleQuiescence_pos [of "mon_interval m"]
    by (simp add: tick_def Let_def assms(2,3) chk work dec track_output_def hookStaleBackstop_def)
qed

text \<open>A tick over a pane that shows the same quiet screen, with no verdict from the hooks.\<close>

definition quiet_tick :: "(rune \<Rightarrow> rune) \<Rightarrow> Monitor \<Rightarrow> Profile \<Rightarrow> string \<Rightarrow> tick_env \<Rightarrow> bool" where
  "quiet_tick lo m prof out e \<longleftrightarrow>
     te_paneExists e \<and> te_capture e = Some out \<and> te_between e = id
     \<and> stuck_match lo (prof_StuckTextPatterns prof) out = []
     \<and> (prof_WorkingIndicator prof = [] \<or> \<not> contains (to_lower lo out) (to_lower lo (prof_WorkingIndicator prof)))
     \<and> (mon_stateDir m = [] \<or> \<not> HookBacked prof)"

lemma quiet_tick_working:
  assumes "quiet_tick lo m prof out e" "sess_State (ms_sess w) = StateWorking" "sess_IdleSince (ms_sess w) = None"
  shows "tick lo m prof e w =
    (let v = w\<lparr>ms_rs := track_output (te_now e) out (ms_rs w)\<rparr> in
     if idleQuiescence (mon_interval m) \<le> te_now e - rs_lastChangeAt (ms_rs v)
     then go_idle m e (Session_Snapshot (ms_sess w)) ''output quiescent'' v else v)"
proof -
  have q: "te_paneExists e" "te_capture e = Some out" "te_between e = id"
    using assms(1) by (auto simp: quiet_tick_def)
  have "hookDecision m (te_hooks e) (Session_Snapshot (ms_sess w)) prof = idleUndecided"
    using assms(1) by (auto simp: quiet_tick_def hookDecision_def)
  moreover have "\<not> cr_IdleTooLong (Check lo e (ms_sess w) prof)"
    using Check_IdleTooLong assms(3) by blast
  ultimately show ?thesis
    using assms Check_Some [OF q(1,2), of lo "ms_sess w" prof]
    by (auto simp: tick_def q Let_def set_sess_def screen_verdict_def quiescentIdle_def quiet_tick_def)
qed

lemma quiet_tick_idle:
  assumes "quiet_tick lo m prof out e" "sess_State (ms_sess w) = StateIdle" "sess_IdleSince (ms_sess w) \<noteq> None"
  shows "tick lo m prof e w = w\<lparr>ms_rs := track_output (te_now e) out (ms_rs w)\<rparr>"
proof -
  have q: "te_paneExists e" "te_capture e = Some out" "te_between e = id"
    using assms(1) by (auto simp: quiet_tick_def)
  show ?thesis
    using assms Check_Some [OF q(1,2), of lo "ms_sess w" prof]
    by (auto simp: tick_def q Let_def set_sess_def screen_verdict_def quiescentIdle_def Check_IsIdle)
qed

text \<open>What a run of quiet ticks has reached: the turn ended, or the screen is static since \<open>t\<close>.\<close>

definition ended :: "mon_state \<Rightarrow> bool" where
  "ended w \<longleftrightarrow> sess_State (ms_sess w) = StateIdle \<and> sess_IdleSince (ms_sess w) \<noteq> None \<and> sess_NudgeCount (ms_sess w) = 0"

definition static_since :: "string \<Rightarrow> time \<Rightarrow> mon_state \<Rightarrow> bool" where
  "static_since out t w \<longleftrightarrow> sess_State (ms_sess w) = StateWorking \<and> sess_IdleSince (ms_sess w) = None
     \<and> rs_lastOutput (ms_rs w) = out \<and> rs_lastChangeAt (ms_rs w) \<le> t"

lemma quiet_ended: "quiet_tick lo m prof out e \<Longrightarrow> ended w \<Longrightarrow> ended (tick lo m prof e w)"
  using quiet_tick_idle [of lo m prof out e w] by (auto simp: ended_def)

lemma quiet_static:
  "quiet_tick lo m prof out e \<Longrightarrow> static_since out t w \<Longrightarrow>
     ended (tick lo m prof e w)
     \<or> static_since out t (tick lo m prof e w) \<and> te_now e - t < idleQuiescence (mon_interval m)"
  using quiet_tick_working [of lo m prof out e w]
  by (auto simp: ended_def static_since_def Let_def track_output_def session_setter_defs)

lemma quiet_run:
  assumes "\<forall>e \<in> set es. quiet_tick lo m prof out e" "static_since out t w \<or> ended w"
  shows "(static_since out t (fold (tick lo m prof) es w)
      \<and> (es \<noteq> [] \<longrightarrow> te_now (last es) - t < idleQuiescence (mon_interval m)))
    \<or> ended (fold (tick lo m prof) es w)"
  using assms
proof (induction es rule: rev_induct)
  case (snoc e es)
  then have "static_since out t (fold (tick lo m prof) es w) \<or> ended (fold (tick lo m prof) es w)" by auto
  with snoc.prems(1) quiet_ended quiet_static show ?case by fastforce
qed simp

text \<open>
  A turn whose agent has no hooks always ends: when every tick sees the same screen, with no
  stuck pattern and no working indicator on it, and the last tick is a quiescence window after the
  first, the loop has moved the working session to idle and reset its nudge counter.
\<close>

theorem quiet_session_goes_idle:
  assumes "\<forall>x \<in> set (e # es). quiet_tick lo m prof out x" "es \<noteq> []" "start \<le> te_now e"
    and "sess_State (ms_sess w) = StateWorking" "sess_IdleSince (ms_sess w) = None"
    and "idleQuiescence (mon_interval m) \<le> te_now (last es) - te_now e"
  shows "sess_State (ms_sess (Run lo m prof start (e # es) w)) = StateIdle
    \<and> sess_NudgeCount (ms_sess (Run lo m prof start (e # es) w)) = 0"
proof -
  let ?w = "w\<lparr>ms_rs := \<lparr>rs_lastOutput = [], rs_lastChangeAt = start\<rparr>\<rparr>"
  have "static_since out (te_now e) (tick lo m prof e ?w) \<or> ended (tick lo m prof e ?w)"
    using quiet_tick_working [of lo m prof out e ?w] assms
    by (auto simp: static_since_def ended_def Let_def track_output_def session_setter_defs)
  then have "ended (fold (tick lo m prof) es (tick lo m prof e ?w))"
    using quiet_run [of es lo m prof out "te_now e" "tick lo m prof e ?w"] assms by auto
  then show ?thesis by (simp add: Run_def ended_def)
qed

section \<open>Witnesses\<close>

definition demo_env :: "time \<Rightarrow> string \<Rightarrow> tick_env" where
  "demo_env t out = \<lparr>te_paneExists = True, te_capture = Some out, te_nudgeOK = True, te_hooks = empty_dir,
     te_checkNow = t, te_now = t, te_setNow = t, te_between = id\<rparr>"

definition demo_world :: mon_state where
  "demo_world = \<lparr>ms_sess = SetState StateWorking 1 (NewSession ''s1'' ''n'' ''codex'' ''/w'' 1),
     ms_rs = \<lparr>rs_lastOutput = [], rs_lastChangeAt = 1\<rparr>, ms_events = [], ms_keys = []\<rparr>"

definition demo_prof :: Profile where
  "demo_prof = zero_profile\<lparr>prof_StuckTextPatterns := [''denied''], prof_MaxNudgeRetries := 3,
     prof_HookType := HookTypeClaude\<rparr>"

lemma demo_env_ok: "env_ok (demo_env t out)" by (simp add: env_ok_def demo_env_def)

lemma demo_world_inv: "session_inv (ms_sess demo_world)"
  by (simp add: demo_world_def session_inv_NewSession session_inv_SetState NewSession_def [THEN arg_cong [of _ _ sess_LastActivityAt]])

lemma demo_sess [simp]: "sess_State (ms_sess demo_world) = StateWorking" "sess_ID (ms_sess demo_world) = ''s1''"
  "sess_WorkingSince (ms_sess demo_world) = Some 1" "sess_IdleSince (ms_sess demo_world) = None"
  "sess_NudgeCount (ms_sess demo_world) = 0" "sess_LastActivityAt (ms_sess demo_world) = 1"
  by (simp_all add: demo_world_def NewSession_def)

lemma demo_world_rs: "rs_lastOutput (ms_rs demo_world) = []" by (simp add: demo_world_def)

lemmas demo_defs = demo_env_def demo_prof_def zero_profile_def stuck_match_def to_lower_def lower_ascii_def

theorem monitor_run_invariant_witness:
  "sess_NudgeCount (ms_sess (Run id (NewMonitor 1 1 []) demo_prof 1 [demo_env 5 ''denied'', demo_env 6 ''denied''] demo_world)) \<le> 3"
  using monitor_run_invariant [of "[demo_env 5 ''denied'', demo_env 6 ''denied'']" demo_world demo_prof
      "NewMonitor 1 1 []" id 1] demo_env_ok demo_world_inv
  by (simp add: NewMonitor_def) (simp add: demo_env_def demo_prof_def demo_world_def)

theorem tick_transitions_witness:
  "sess_State (ms_sess (tick id (NewMonitor 1 1 []) demo_prof (demo_env 5 ''denied'') demo_world)) = StateStuck"
proof -
  have "sess_State (ms_sess (tick id (NewMonitor 1 1 []) demo_prof (demo_env 5 ''denied'') demo_world)) = StateStuck"
    by (simp add: tick_def Let_def Check_def demo_defs ascii_eval handle_stuck_sess)
  with tick_transitions [of demo_world "demo_env 5 ''denied''" id "NewMonitor 1 1 []" demo_prof] demo_world_inv
  show ?thesis by (simp add: demo_env_def)
qed

theorem idle_timeout_inert_witness:
  "tick id (NewMonitor 1 1 []) (demo_prof\<lparr>prof_IdleTimeout := 1\<rparr>) (demo_env 5 ''x'') demo_world
   = tick id (NewMonitor 1 1 []) demo_prof (demo_env 5 ''x'') demo_world"
  using idle_timeout_inert [of demo_world "demo_env 5 ''x''"] demo_world_inv by (simp add: demo_env_def)

definition demo_hooks :: "bool \<Rightarrow> hook_dir" where
  "demo_hooks working = empty_dir\<lparr>hd_live := Map.empty(''s1'' \<mapsto> Doc (empty_state\<lparr>hs_Working := working,
     hs_LastPromptSubmitAt := 1, hs_LastTurnEndAt := 4\<rparr>))\<rparr>"

theorem hook_idle_genuine_witness:
  "\<exists>ws h. hd_live (demo_hooks False) ''s1'' = Some (Doc h) \<and> sess_WorkingSince (ms_sess demo_world) = Some ws
     \<and> \<not> hs_Working h \<and> ws < hs_LastTurnEndAt h"
proof -
  let ?e = "(demo_env 5 ''x'')\<lparr>te_hooks := demo_hooks False\<rparr>"
  let ?ev = "\<lparr>he_SessionID = ''s1'', he_Type = EventIdleDetected, he_Reason = ''hook:turn_end'',
    he_Output = [], he_Timestamp = 5\<rparr>"
  have "hookDecision (NewMonitor 1 1 ''d'') (demo_hooks False) (Session_Snapshot (ms_sess demo_world)) demo_prof = idleConfirmed"
    by (simp add: hookDecision_def NewMonitor_def HookBacked_def demo_prof_def zero_profile_def ReadSessionState_def
        demo_hooks_def empty_dir_def empty_state_def sessionIDRe_def char_class_defs byte_of_def hookIdleDecision_def)
  then have "?ev \<in> set (ms_events (tick id (NewMonitor 1 1 ''d'') demo_prof ?e demo_world))"
    "?ev \<notin> set (ms_events demo_world)"
    by (simp_all add: tick_def Let_def Check_def demo_env_def ascii_eval demo_prof_def zero_profile_def
        stuck_match_def to_lower_def lower_ascii_def set_sess_def)
       (simp_all add: go_idle_def emit_def NewMonitor_def demo_world_def NewSession_def)
  from hook_idle_genuine [OF this] show ?thesis by (auto simp: demo_env_def)
qed

theorem hook_working_backstop_witness:
  "sess_State (ms_sess (tick id (NewMonitor 1 1 ''d'') demo_prof
     ((demo_env 9 ''x'')\<lparr>te_hooks := demo_hooks True\<rparr>) demo_world)) = StateWorking"
  by (subst hook_working_backstop [of demo_world "(demo_env 9 ''x'')\<lparr>te_hooks := demo_hooks True\<rparr>" "''x''" id demo_prof 1
      "NewMonitor 1 1 ''d''" "empty_state\<lparr>hs_Working := True, hs_LastPromptSubmitAt := 1, hs_LastTurnEndAt := 4\<rparr>"])
     (simp_all add: demo_world_inv demo_defs ascii_eval HookBacked_def NewMonitor_def sessionIDRe_def
       char_class_defs demo_hooks_def empty_dir_def empty_state_def demo_world_rs)

theorem quiet_session_goes_idle_witness:
  "sess_State (ms_sess (Run id (NewMonitor 1 1 []) demo_prof 1
     [demo_env 5 ''x'', demo_env (5 + 5 * Second) ''x''] demo_world)) = StateIdle"
  using quiet_session_goes_idle [of "demo_env 5 ''x''" "[demo_env (5 + 5 * Second) ''x'']" id "NewMonitor 1 1 []"
      demo_prof "''x''" 1 demo_world]
  by (simp add: quiet_tick_def demo_defs ascii_eval NewMonitor_def idleQuiescence_def Let_def Second_def)

end
