(* ===== verification/Delivery.thy ===== *)
theory Delivery
  imports Hooks
begin

text \<open>
  Prompt delivery (\<open>internal/delivery\<close>): the judges that classify a delivery from the screen
  (\<open>judge.go\<close>), from the agent's hook state (\<open>judge_hooks.go\<close>) or with the Typesafe API
  (\<open>judge_typesafe.go\<close>), and the controller that polls, resolves blockers and re-submits until the
  prompt is ingested (\<open>controller.go\<close>).

  A \<open>float64\<close> is only stored and compared, so it is the rational number it denotes; the decimal
  literals of the source are the doubles the compiler rounds them to. The API client and the
  hook files are the world the judges read; the documents handed to the API are recorded in it.
\<close>

section \<open>Literals of type float64\<close>

definition f64_0_02 :: rat where "f64_0_02 = 5764607523034235 / 2 ^ 58"
definition f64_0_05 :: rat where "f64_0_05 = 3602879701896397 / 2 ^ 56"
definition f64_0_1 :: rat where "f64_0_1 = 3602879701896397 / 2 ^ 55"
definition f64_0_18 :: rat where "f64_0_18 = 3242591731706757 / 2 ^ 54"
definition f64_0_35 :: rat where "f64_0_35 = 3152519739159347 / 2 ^ 53"
definition f64_0_4 :: rat where "f64_0_4 = 3602879701896397 / 2 ^ 53"
definition f64_0_5 :: rat where "f64_0_5 = 1 / 2 ^ 1"
definition f64_0_62 :: rat where "f64_0_62 = 5584463537939415 / 2 ^ 53"
definition f64_0_7 :: rat where "f64_0_7 = 3152519739159347 / 2 ^ 52"
definition f64_0_73 :: rat where "f64_0_73 = 1643813863990231 / 2 ^ 51"
definition f64_0_74 :: rat where "f64_0_74 = 3332663724254167 / 2 ^ 52"
definition f64_0_75 :: rat where "f64_0_75 = 3 / 2 ^ 2"
definition f64_0_8 :: rat where "f64_0_8 = 3602879701896397 / 2 ^ 52"
definition f64_0_84 :: rat where "f64_0_84 = 7566047373982433 / 2 ^ 53"
definition f64_0_88 :: rat where "f64_0_88 = 7926335344172073 / 2 ^ 53"
definition f64_0_9 :: rat where "f64_0_9 = 8106479329266893 / 2 ^ 53"
definition f64_0_91 :: rat where "f64_0_91 = 8196551321814303 / 2 ^ 53"
definition f64_0_93 :: rat where "f64_0_93 = 8376695306909123 / 2 ^ 53"
definition f64_0_95 :: rat where "f64_0_95 = 4278419646001971 / 2 ^ 52"
definition f64_0_96 :: rat where "f64_0_96 = 1080863910568919 / 2 ^ 50"
definition f64_0_97 :: rat where "f64_0_97 = 4368491638549381 / 2 ^ 52"

lemmas f64_defs =
  f64_0_02_def f64_0_05_def f64_0_1_def f64_0_18_def f64_0_35_def f64_0_4_def f64_0_5_def 
f64_0_62_def f64_0_7_def f64_0_73_def f64_0_74_def f64_0_75_def f64_0_8_def f64_0_84_def 
f64_0_88_def f64_0_9_def f64_0_91_def f64_0_93_def f64_0_95_def f64_0_96_def f64_0_97_def

section \<open>Evidence and assessments\<close>

datatype DeliveryState =
    StateIngested
  | StatePendingSubmit
  | StateBlocked
  | StateUnclear
  | StateOther string

definition delivery_state_of :: "string \<Rightarrow> DeliveryState" where
  "delivery_state_of s =
     (if s = ''ingested'' then StateIngested
      else if s = ''pending_submit'' then StatePendingSubmit
      else if s = ''blocked'' then StateBlocked
      else if s = ''unclear'' then StateUnclear
      else StateOther s)"

record Evidence =
  ev_Agent :: string
  ev_Prompt :: string
  ev_BeforeOutput :: string
  ev_AfterOutput :: string
  ev_WorkingIndicator :: string
  ev_Attempt :: int
  ev_LocalOnly :: bool
  ev_SessionID :: string
  ev_DeliveryStartedAt :: time

record Assessment =
  as_State :: DeliveryState
  as_Confidence :: rat
  as_WorkStartedProbability :: rat
  as_EnterHelpfulProbability :: rat
  as_Source :: string
  as_Model :: string

definition zero_assessment :: Assessment where
  "zero_assessment =
     \<lparr>as_State = StateOther [], as_Confidence = 0, as_WorkStartedProbability = 0,
      as_EnterHelpfulProbability = 0, as_Source = [], as_Model = []\<rparr>"

section \<open>The screen heuristic\<close>

definition normalizeScreen :: "(rune \<Rightarrow> rune) \<Rightarrow> string \<Rightarrow> string" where
  "normalizeScreen lo s = join_with '' '' (split_fields (to_lower lo s))"

definition containsFold :: "(rune \<Rightarrow> rune) \<Rightarrow> string \<Rightarrow> string \<Rightarrow> bool" where
  "containsFold lo s substr = contains (to_lower lo s) (to_lower lo substr)"

abbreviation newline :: char where "newline \<equiv> char_of (10 :: nat)"

text \<open>The loop of \<open>promptFragments\<close>: the keys seen, the fragments so far and the lines left.\<close>

fun fragment_lines :: "(rune \<Rightarrow> rune) \<Rightarrow> string list \<Rightarrow> string list \<Rightarrow> string list \<Rightarrow> string list" where
  "fragment_lines lo seen frs [] = frs"
| "fragment_lines lo seen frs (l # ls) =
     (let line = trim_space l in
      if length line < 18 then fragment_lines lo seen frs ls
      else let line = (if length line > 120 then take 120 line else line);
               key = normalizeScreen lo line
           in if key = [] \<or> key \<in> set seen then fragment_lines lo seen frs ls
              else let frs = frs @ [line]
                   in if length frs = 3 then frs
                      else fragment_lines lo (key # seen) frs ls)"

definition promptFragments :: "(rune \<Rightarrow> rune) \<Rightarrow> string \<Rightarrow> string list" where
  "promptFragments lo prompt =
     (let fragments = fragment_lines lo [] [] (split_at newline prompt) in
      if fragments = []
      then let trimmed = trim_space prompt;
               trimmed = (if length trimmed > 120 then take 120 trimmed else trimmed)
           in if length trimmed \<ge> 18 then [trimmed] else []
      else fragments)"

definition promptOccurrenceCount :: "(rune \<Rightarrow> rune) \<Rightarrow> string \<Rightarrow> string \<Rightarrow> nat" where
  "promptOccurrenceCount lo output prompt =
     (let normalizedOutput = normalizeScreen lo output in
      fold (\<lambda>fragment count.
              let fragmentCount = count_sub normalizedOutput (normalizeScreen lo fragment)
              in if fragmentCount > count then fragmentCount else count)
        (promptFragments lo prompt) 0)"

definition containsPromptFragment :: "(rune \<Rightarrow> rune) \<Rightarrow> string \<Rightarrow> string \<Rightarrow> bool" where
  "containsPromptFragment lo output prompt \<longleftrightarrow> promptOccurrenceCount lo output prompt > 0"

text \<open>The composer marker, the rune U+203A.\<close>

definition composer_marker :: string where
  "composer_marker = string_of [8250]"

text \<open>The scan over line starts: \<open>before\<close> is the output up to the line start, \<open>rest\<close> from there on.\<close>

function fresh_composer_from :: "(rune \<Rightarrow> rune) \<Rightarrow> string \<Rightarrow> nat \<Rightarrow> string \<Rightarrow> string \<Rightarrow> bool" where
  "fresh_composer_from lo prompt total_count before rest =
     (let line = takeWhile (\<lambda>c. c \<noteq> newline) rest in
      if trim_space line = composer_marker \<and> promptOccurrenceCount lo before prompt = total_count then True
      else case drop (length line) rest of
             [] \<Rightarrow> False
           | c # rest' \<Rightarrow> fresh_composer_from lo prompt total_count (before @ line @ [c]) rest')"
  by pat_completeness auto
termination
proof (relation "measure (\<lambda>(lo, prompt, total_count, before, rest). length rest)", goal_cases)
  case (2 lo prompt total_count before rest line c rest')
  have "length (drop (length line) rest) = Suc (length rest')" using 2(3) by simp
  then show ?case by simp
qed simp

declare fresh_composer_from.simps [simp del]

definition containsFreshComposerAfterLatestPrompt :: "(rune \<Rightarrow> rune) \<Rightarrow> string \<Rightarrow> string \<Rightarrow> nat \<Rightarrow> bool" where
  "containsFreshComposerAfterLatestPrompt lo output prompt totalPromptCount =
     fresh_composer_from lo prompt totalPromptCount [] output"

definition containsStandaloneComposerMarker :: "string \<Rightarrow> bool" where
  "containsStandaloneComposerMarker str =
     list_ex (\<lambda>line. trim_space line = composer_marker) (split_at newline str)"

definition delivery_blockers :: "string list" where
  "delivery_blockers = [''do you trust'', ''press enter to continue'', ''resume'']"

definition containsBlockerOutsidePrompt :: "(rune \<Rightarrow> rune) \<Rightarrow> string \<Rightarrow> string \<Rightarrow> nat \<Rightarrow> bool" where
  "containsBlockerOutsidePrompt lo output prompt promptOccurrences =
     (let normalizedPrompt = normalizeScreen lo prompt in
      list_ex (\<lambda>blocker. count_sub output blocker > count_sub normalizedPrompt blocker * promptOccurrences)
        delivery_blockers)"

definition HeuristicJudge_Assess :: "(rune \<Rightarrow> rune) \<Rightarrow> Evidence \<Rightarrow> Assessment" where
  "HeuristicJudge_Assess lo evidence =
     (let output = normalizeScreen lo (ev_AfterOutput evidence);
          beforePromptCount = promptOccurrenceCount lo (ev_BeforeOutput evidence) (ev_Prompt evidence);
          afterPromptCount = promptOccurrenceCount lo (ev_AfterOutput evidence) (ev_Prompt evidence);
          promptVisible = (afterPromptCount > 0);
          promptRetained = (\<not> containsStandaloneComposerMarker (ev_Prompt evidence)
            \<and> afterPromptCount > beforePromptCount
            \<and> containsFreshComposerAfterLatestPrompt lo (ev_AfterOutput evidence) (ev_Prompt evidence) afterPromptCount);
          blocked = containsBlockerOutsidePrompt lo output (ev_Prompt evidence) afterPromptCount
      in if promptRetained then
           \<lparr>as_State = StateIngested, as_Confidence = f64_0_95, as_WorkStartedProbability = f64_0_97,
            as_EnterHelpfulProbability = f64_0_02, as_Source = ''heuristic'', as_Model = []\<rparr>
         else if blocked then
           \<lparr>as_State = StateBlocked, as_Confidence = f64_0_93, as_WorkStartedProbability = 0,
            as_EnterHelpfulProbability = f64_0_95, as_Source = ''heuristic'', as_Model = []\<rparr>
         else if ev_WorkingIndicator evidence \<noteq> [] \<and> containsFold lo output (ev_WorkingIndicator evidence) then
           \<lparr>as_State = StateIngested, as_Confidence = f64_0_9, as_WorkStartedProbability = f64_0_96,
            as_EnterHelpfulProbability = f64_0_05, as_Source = ''heuristic'', as_Model = []\<rparr>
         else if promptVisible then
           \<lparr>as_State = StatePendingSubmit, as_Confidence = f64_0_84, as_WorkStartedProbability = f64_0_18,
            as_EnterHelpfulProbability = f64_0_91, as_Source = ''heuristic'', as_Model = []\<rparr>
         else if normalizeScreen lo (ev_BeforeOutput evidence) \<noteq> output then
           \<lparr>as_State = StateIngested, as_Confidence = f64_0_74, as_WorkStartedProbability = f64_0_73,
            as_EnterHelpfulProbability = f64_0_1, as_Source = ''heuristic'', as_Model = []\<rparr>
         else
           \<lparr>as_State = StateUnclear, as_Confidence = f64_0_4, as_WorkStartedProbability = f64_0_35,
            as_EnterHelpfulProbability = f64_0_62, as_Source = ''heuristic'', as_Model = []\<rparr>)"

section \<open>The hook and Typesafe judges\<close>

text \<open>
  The document the Typesafe judge sends, the API's answer, and the world: the hook directories by
  path, the answer the API gives to the documents sent so far (None an error), and those documents.
\<close>

record decision_doc =
  doc_agent :: string
  doc_requested_prompt :: string
  doc_screen_before_send :: string
  doc_screen_after_send :: string
  doc_working_indicator :: string
  doc_attempt :: int

record api_response =
  ar_Key :: string
  ar_Chosen :: string
  ar_Probability :: rat
  ar_Confidence :: rat

record api_answer =
  aa_Model :: string
  aa_Responses :: "api_response list"

record judge_world =
  jw_dirs :: "string \<Rightarrow> hook_dir"
  jw_api :: "decision_doc list \<Rightarrow> api_answer option"
  jw_sent :: "decision_doc list"

datatype judge_error = JudgePanic | APIError

datatype Judge =
    NilJudge
  | HeuristicJudge
  | HooksJudge string Judge
  | TypesafeJudge bool Judge

text \<open>The Typesafe client exists exactly when \<open>TYPESAFE_API_KEY\<close> is set.\<close>

definition newTypesafeJudge :: "string \<Rightarrow> Judge" where
  "newTypesafeJudge api_key =
     (if api_key = [] then HeuristicJudge else TypesafeJudge True HeuristicJudge)"

definition newHooksJudge :: "string \<Rightarrow> Judge \<Rightarrow> Judge" where
  "newHooksJudge stateDir fallback = HooksJudge stateDir fallback"

definition NewJudge :: "string \<Rightarrow> string \<Rightarrow> string \<Rightarrow> string + Judge" where
  "NewJudge api_key kind stateDir =
     (if kind = [] \<or> kind = ''auto'' then
        if stateDir = [] then
          if kind = ''auto'' then Inl ''delivery judge auto requires a non-empty SessionStateDir''
          else Inr (newTypesafeJudge api_key)
        else Inr (newHooksJudge stateDir (newTypesafeJudge api_key))
      else if kind = ''typesafe'' then Inr (newTypesafeJudge api_key)
      else if kind = ''heuristic'' then Inr HeuristicJudge
      else if kind = ''hooks'' then
        if stateDir = [] then Inl ''delivery judge hooks requires a non-empty SessionStateDir''
        else Inr (newHooksJudge stateDir HeuristicJudge)
      else Inl (''unknown delivery judge '' @ kind))"

definition trimForDecision :: "string \<Rightarrow> string" where
  "trimForDecision s = (if length s \<le> 4000 then s else drop (length s - 4000) s)"

definition decision_doc_of :: "Evidence \<Rightarrow> decision_doc" where
  "decision_doc_of evidence =
     \<lparr>doc_agent = ev_Agent evidence, doc_requested_prompt = ev_Prompt evidence,
      doc_screen_before_send = trimForDecision (ev_BeforeOutput evidence),
      doc_screen_after_send = trimForDecision (ev_AfterOutput evidence),
      doc_working_indicator = ev_WorkingIndicator evidence, doc_attempt = ev_Attempt evidence\<rparr>"

definition apply_response :: "api_response \<Rightarrow> Assessment \<Rightarrow> Assessment" where
  "apply_response r a =
     (if ar_Key r = ''delivery_state'' then
        a\<lparr>as_State := delivery_state_of (ar_Chosen r), as_Confidence := ar_Confidence r\<rparr>
      else if ar_Key r = ''enter_helpful'' then a\<lparr>as_EnterHelpfulProbability := ar_Probability r\<rparr>
      else if ar_Key r = ''work_started'' then a\<lparr>as_WorkStartedProbability := ar_Probability r\<rparr>
      else if ar_Key r = ''prompt_pending_input'' then
        if as_State a = StateUnclear \<and> ar_Probability r \<ge> f64_0_8 then
          a\<lparr>as_State := StatePendingSubmit,
            as_Confidence := (if as_Confidence a < ar_Probability r then ar_Probability r else as_Confidence a)\<rparr>
        else a
      else a)"

definition typesafe_assessment :: "api_answer \<Rightarrow> Assessment" where
  "typesafe_assessment resp =
     (let a = fold apply_response (aa_Responses resp)
                (zero_assessment\<lparr>as_State := StateUnclear, as_Source := ''typesafe'', as_Model := aa_Model resp\<rparr>)
      in if as_State a = StateUnclear \<and> as_WorkStartedProbability a \<ge> f64_0_88 then
           a\<lparr>as_State := StateIngested,
             as_Confidence := (if as_Confidence a < as_WorkStartedProbability a
               then as_WorkStartedProbability a else as_Confidence a)\<rparr>
         else a)"

definition hooks_assessment :: "SessionState \<Rightarrow> Assessment" where
  "hooks_assessment st =
     \<lparr>as_State = StateIngested, as_Confidence = f64_0_97,
      as_WorkStartedProbability =
        (if hs_Working st then f64_0_97
         else if \<not> hs_LastTurnEndAt st < hs_LastPromptSubmitAt st then f64_0_97
         else f64_0_5),
      as_EnterHelpfulProbability = f64_0_05, as_Source = ''hooks'', as_Model = []\<rparr>"

definition Evaluate :: "Evidence \<Rightarrow> judge_world \<Rightarrow> judge_world \<times> api_answer option" where
  "Evaluate evidence w =
     (let sent = jw_sent w @ [decision_doc_of evidence]
      in (w\<lparr>jw_sent := sent\<rparr>, jw_api w sent))"

fun Assess :: "(rune \<Rightarrow> rune) \<Rightarrow> Judge \<Rightarrow> Evidence \<Rightarrow> (judge_world, judge_error, Assessment) op" where
  "Assess lo NilJudge evidence w = (w, Inl JudgePanic)"
| "Assess lo HeuristicJudge evidence w = (w, Inr (HeuristicJudge_Assess lo evidence))"
| "Assess lo (HooksJudge stateDir fallback) evidence w =
     (if ev_SessionID evidence = [] \<or> IsZero (ev_DeliveryStartedAt evidence)
      then Assess lo fallback evidence w
      else case ReadSessionState (jw_dirs w stateDir) (ev_SessionID evidence) of
             Inl _ \<Rightarrow> Assess lo fallback evidence w
           | Inr None \<Rightarrow> Assess lo fallback evidence w
           | Inr (Some st) \<Rightarrow>
               if \<not> hs_LastPromptSubmitAt st < ev_DeliveryStartedAt evidence
               then (w, Inr (hooks_assessment st))
               else Assess lo fallback evidence w)"
| "Assess lo (TypesafeJudge has_evaluator fallback) evidence w =
     (if ev_LocalOnly evidence then (w, Inr (HeuristicJudge_Assess lo evidence))
      else if \<not> has_evaluator then Assess lo fallback evidence w
      else case Evaluate evidence w of
             (w', None) \<Rightarrow>
               if fallback = NilJudge then (w', Inl APIError) else Assess lo fallback evidence w'
           | (w', Some resp) \<Rightarrow> (w', Inr (typesafe_assessment resp)))"

section \<open>The controller\<close>

record ControllerConfig =
  cc_IngestionTimeout :: int
  cc_RetryInterval :: int
  cc_MaxSubmitAttempts :: int
  cc_MinConfidence :: rat

definition DefaultControllerConfig :: ControllerConfig where
  "DefaultControllerConfig =
     \<lparr>cc_IngestionTimeout = 20 * 1000000000, cc_RetryInterval = 1500 * 1000000,
      cc_MaxSubmitAttempts = 3, cc_MinConfidence = f64_0_7\<rparr>"

definition NewController :: "ControllerConfig \<Rightarrow> ControllerConfig" where
  "NewController cfg =
     (let d = DefaultControllerConfig;
          cfg = (if cc_IngestionTimeout cfg \<le> 0 then cfg\<lparr>cc_IngestionTimeout := cc_IngestionTimeout d\<rparr> else cfg);
          cfg = (if cc_RetryInterval cfg \<le> 0 then cfg\<lparr>cc_RetryInterval := cc_RetryInterval d\<rparr> else cfg);
          cfg = (if cc_MaxSubmitAttempts cfg \<le> 0 then cfg\<lparr>cc_MaxSubmitAttempts := cc_MaxSubmitAttempts d\<rparr> else cfg)
      in if cc_MinConfidence cfg \<le> 0 then cfg\<lparr>cc_MinConfidence := cc_MinConfidence d\<rparr> else cfg)"

definition isIngested :: "ControllerConfig \<Rightarrow> Assessment \<Rightarrow> bool" where
  "isIngested cfg a =
     (if as_WorkStartedProbability a \<ge> f64_0_88 then True
      else if as_State a = StateIngested \<and> as_Confidence a \<ge> cc_MinConfidence cfg then True
      else if as_State a = StateIngested \<and> as_Confidence a \<ge> f64_0_4 \<and> as_WorkStartedProbability a \<ge> f64_0_5 then True
      else False)"

definition shouldSubmit :: "ControllerConfig \<Rightarrow> Assessment \<Rightarrow> bool \<Rightarrow> int \<Rightarrow> bool" where
  "shouldSubmit cfg a progressed submitAttempts =
     (if submitAttempts \<ge> cc_MaxSubmitAttempts cfg then False
      else case as_State a of
        StatePendingSubmit \<Rightarrow> as_Confidence a \<ge> cc_MinConfidence cfg \<or> as_EnterHelpfulProbability a \<ge> f64_0_75
      | StateBlocked \<Rightarrow> as_EnterHelpfulProbability a \<ge> f64_0_8
      | StateUnclear \<Rightarrow>
          if as_EnterHelpfulProbability a \<ge> f64_0_9 then True else submitAttempts = 0 \<and> \<not> progressed
      | _ \<Rightarrow> False)"

text \<open>
  One round of the loop sees: the captured screen, what resolving blockers and submitting answer
  (\<open>Inl\<close> or \<open>Some\<close> an error), whether the sleep is cut by the context, the instant the deadline is
  checked at, and the hook files of that moment. \<open>lp_submits\<close> counts the calls of \<open>runtime.Submit\<close>.
\<close>

record round_env =
  re_capture :: "string + string"
  re_blockers :: "string + bool"
  re_submit :: "string option"
  re_sleep :: "string option"
  re_now :: time
  re_dirs :: "string \<Rightarrow> hook_dir"

datatype delivery_error =
    NotConfigured
  | CaptureFailed string
  | AssessFailed judge_error
  | BlockersFailed string
  | SubmitFailed string
  | ContextDone string
  | NotIngested Assessment

record loop_state =
  lp_lastOutput :: string
  lp_submitAttempts :: int
  lp_lastAssessment :: Assessment
  lp_submits :: nat
  lp_world :: judge_world

datatype round_result =
    Again loop_state
  | Returned loop_state Assessment "delivery_error option"

definition after_sleep :: "round_env \<Rightarrow> string \<Rightarrow> Assessment \<Rightarrow> loop_state \<Rightarrow> round_result" where
  "after_sleep e output a s =
     (case re_sleep e of
        Some err \<Rightarrow> Returned s a (Some (ContextDone err))
      | None \<Rightarrow> Again (s\<lparr>lp_lastOutput := output\<rparr>))"

definition deliver_round ::
  "(rune \<Rightarrow> rune) \<Rightarrow> (Evidence \<Rightarrow> (judge_world, judge_error, Assessment) op) \<Rightarrow> ControllerConfig \<Rightarrow>
   Evidence \<Rightarrow> time \<Rightarrow> round_env \<Rightarrow> loop_state \<Rightarrow> round_result" where
  "deliver_round lo assess cfg evidence deadline e s =
     (case re_capture e of
        Inl err \<Rightarrow> Returned s (lp_lastAssessment s) (Some (CaptureFailed err))
      | Inr output \<Rightarrow>
          let current = evidence\<lparr>ev_AfterOutput := output, ev_Attempt := lp_submitAttempts s\<rparr> in
          case assess current ((lp_world s)\<lparr>jw_dirs := re_dirs e\<rparr>) of
            (w, Inl err) \<Rightarrow> Returned (s\<lparr>lp_world := w\<rparr>) (lp_lastAssessment s) (Some (AssessFailed err))
          | (w, Inr a) \<Rightarrow>
              let s = s\<lparr>lp_world := w, lp_lastAssessment := a\<rparr> in
              if isIngested cfg a then Returned s a None
              else case re_blockers e of
                Inl err \<Rightarrow> Returned s a (Some (BlockersFailed err))
              | Inr True \<Rightarrow> after_sleep e output a s
              | Inr False \<Rightarrow>
                  let progressed = (normalizeScreen lo (lp_lastOutput s) \<noteq> normalizeScreen lo output) in
                  if shouldSubmit cfg a progressed (lp_submitAttempts s) then
                    let s = s\<lparr>lp_submits := lp_submits s + 1\<rparr> in
                    case re_submit e of
                      Some err \<Rightarrow> Returned s a (Some (SubmitFailed err))
                    | None \<Rightarrow> after_sleep e output a (s\<lparr>lp_submitAttempts := lp_submitAttempts s + 1\<rparr>)
                  else if re_now e > deadline then Returned s a (Some (NotIngested a))
                  else after_sleep e output a s)"

fun deliver_loop ::
  "(rune \<Rightarrow> rune) \<Rightarrow> (Evidence \<Rightarrow> (judge_world, judge_error, Assessment) op) \<Rightarrow> ControllerConfig \<Rightarrow>
   Evidence \<Rightarrow> time \<Rightarrow> (nat \<Rightarrow> round_env) \<Rightarrow> nat \<Rightarrow> nat \<Rightarrow> loop_state \<Rightarrow>
   (loop_state \<times> Assessment \<times> delivery_error option) option" where
  "deliver_loop lo assess cfg evidence deadline env n 0 s = None"
| "deliver_loop lo assess cfg evidence deadline env n (Suc fuel) s =
     (case deliver_round lo assess cfg evidence deadline (env n) s of
        Again s' \<Rightarrow> deliver_loop lo assess cfg evidence deadline env (Suc n) fuel s'
      | Returned s' a err \<Rightarrow> Some (s', a, err))"

definition deliver_start :: "Evidence \<Rightarrow> judge_world \<Rightarrow> loop_state" where
  "deliver_start evidence w =
     \<lparr>lp_lastOutput = ev_BeforeOutput evidence, lp_submitAttempts = 0,
      lp_lastAssessment = zero_assessment\<lparr>as_State := StateUnclear, as_Source := ''none''\<rparr>,
      lp_submits = 0, lp_world = w\<rparr>"

text \<open>
  \<open>EnsureIngested\<close> with \<open>fuel\<close> rounds: None when they do not suffice. \<open>start\<close> is the instant the
  deadline is computed from; the nil judge is the controller that is not configured.
\<close>

definition EnsureIngested ::
  "(rune \<Rightarrow> rune) \<Rightarrow> Judge \<Rightarrow> ControllerConfig \<Rightarrow> Evidence \<Rightarrow> time \<Rightarrow> (nat \<Rightarrow> round_env) \<Rightarrow> nat \<Rightarrow>
   judge_world \<Rightarrow> (loop_state \<times> Assessment \<times> delivery_error option) option" where
  "EnsureIngested lo judge cfg evidence start env fuel w =
     (if judge = NilJudge then Some (deliver_start evidence w, zero_assessment, Some NotConfigured)
      else deliver_loop lo (Assess lo judge) cfg evidence (start + cc_IngestionTimeout cfg) env 0 fuel
             (deliver_start evidence w))"

section \<open>The loop over any judge that answers\<close>

lemma after_sleep_cases:
  "after_sleep e output a s = Again s' \<Longrightarrow> s' = s\<lparr>lp_lastOutput := output\<rparr>"
  "after_sleep e output a s = Returned s' a' err \<Longrightarrow> s' = s \<and> a' = a \<and> (\<exists>x. err = Some (ContextDone x))"
  by (auto simp: after_sleep_def split: option.splits)

text \<open>
  What every round keeps, whatever the judge: it never takes back or exceeds the submissions, a
  round that goes on either sleeps on a resolved blocker, has submitted, or is within the deadline,
  and a nil error comes with an assessment the controller accepts.
\<close>

lemma round_Again:
  assumes "deliver_round lo assess cfg evidence deadline e s = Again s'"
  shows "re_blockers e = Inr True \<and> lp_submitAttempts s' = lp_submitAttempts s \<and> lp_submits s' = lp_submits s
    \<or> lp_submitAttempts s < cc_MaxSubmitAttempts cfg \<and> lp_submitAttempts s' = lp_submitAttempts s + 1
        \<and> lp_submits s' = lp_submits s + 1
    \<or> re_now e \<le> deadline \<and> lp_submitAttempts s' = lp_submitAttempts s \<and> lp_submits s' = lp_submits s"
  using assms unfolding deliver_round_def Let_def
  by (auto simp: shouldSubmit_def dest!: after_sleep_cases split: sum.splits prod.splits option.splits if_splits bool.splits)

lemma round_Returned:
  assumes "deliver_round lo assess cfg evidence deadline e s = Returned s' a err"
  shows "(lp_submits s' = lp_submits s
      \<or> lp_submitAttempts s < cc_MaxSubmitAttempts cfg \<and> lp_submits s' = lp_submits s + 1)
    \<and> (err = None \<longrightarrow> isIngested cfg a \<and> lp_lastAssessment s' = a)
    \<and> (\<forall>b. err = Some (NotIngested b) \<longrightarrow> b = a \<and> \<not> isIngested cfg a \<and> deadline < re_now e)"
  using assms unfolding deliver_round_def Let_def
  by (auto simp: shouldSubmit_def dest!: after_sleep_cases split: sum.splits prod.splits option.splits if_splits bool.splits)

lemma round_world:
  "lp_world (case deliver_round lo assess cfg evidence deadline e s of Again s' \<Rightarrow> s' | Returned s' a err \<Rightarrow> s')
   = (case re_capture e of Inl err \<Rightarrow> lp_world s
      | Inr output \<Rightarrow> fst (assess (evidence\<lparr>ev_AfterOutput := output, ev_Attempt := lp_submitAttempts s\<rparr>)
                           ((lp_world s)\<lparr>jw_dirs := re_dirs e\<rparr>)))"
  unfolding deliver_round_def Let_def after_sleep_def
  by (auto split: sum.splits prod.splits option.splits bool.splits)

locale delivery_judge =
  fixes assess :: "Evidence \<Rightarrow> (judge_world, judge_error, Assessment) op"
  assumes answers: "\<exists>a. snd (assess ev w) = Inr a"
    and private_local: "ev_LocalOnly ev \<Longrightarrow> jw_sent (fst (assess ev w)) = jw_sent w"
begin

lemma round_answers: "deliver_round lo assess cfg evidence deadline e s \<noteq> Returned s' a (Some (AssessFailed x))"
proof
  assume r: "deliver_round lo assess cfg evidence deadline e s = Returned s' a (Some (AssessFailed x))"
  have "\<exists>w' b. assess ev w = (w', Inr b)" for ev w
    using answers [of ev w] by (cases "assess ev w") auto
  then obtain fw fa where "assess ev w = (fw ev w, Inr (fa ev w))" for ev w by metis
  with r show False
    unfolding deliver_round_def Let_def
    by (auto dest!: after_sleep_cases split: sum.splits option.splits if_splits bool.splits)
qed

lemma round_local:
  assumes "ev_LocalOnly evidence"
  shows "jw_sent (lp_world (case deliver_round lo assess cfg evidence deadline e s of Again s' \<Rightarrow> s' | Returned s' a err \<Rightarrow> s'))
    = jw_sent (lp_world s)"
  using private_local assms by (simp add: round_world split: sum.split)

lemma loop_local:
  "ev_LocalOnly evidence \<Longrightarrow> deliver_loop lo assess cfg evidence deadline env n fuel s = Some (s', a, err) \<Longrightarrow>
     jw_sent (lp_world s') = jw_sent (lp_world s)"
proof (induction fuel arbitrary: n s)
  case (Suc fuel)
  then show ?case
    using round_local [of evidence lo cfg deadline "env n" s]
    by (cases "deliver_round lo assess cfg evidence deadline (env n) s") auto
qed simp

lemma loop_answers: "deliver_loop lo assess cfg evidence deadline env n fuel s \<noteq> Some (s', a, Some (AssessFailed x))"
proof (induction fuel arbitrary: n s)
  case (Suc fuel)
  then show ?case
    using round_answers [of lo cfg evidence deadline "env n" s]
    by (cases "deliver_round lo assess cfg evidence deadline (env n) s") auto
qed simp

end

text \<open>
  Every judge the factory builds meets this contract: the heuristic by itself, the Typesafe judge
  because its fallback does, and the hook judge over any fallback that does.
\<close>

lemma Evaluate_sent: "Evaluate ev w = (w', r) \<Longrightarrow> w' = w\<lparr>jw_sent := jw_sent w @ [decision_doc_of ev]\<rparr>"
  by (auto simp: Evaluate_def Let_def)

interpretation heuristic: delivery_judge "Assess lo HeuristicJudge" for lo
  by unfold_locales simp_all

interpretation typesafe: delivery_judge "Assess lo (TypesafeJudge b HeuristicJudge)" for lo b
  by unfold_locales (auto split: prod.split option.split)

lemma hooks_over:
  assumes "delivery_judge (Assess lo fallback)"
  shows "delivery_judge (Assess lo (HooksJudge d fallback))"
  using delivery_judge.answers [OF assms] delivery_judge.private_local [OF assms]
  by unfold_locales (auto split: sum.split option.split)

interpretation hooks_only: delivery_judge "Assess lo (HooksJudge d HeuristicJudge)" for lo d
  by (rule hooks_over) (rule heuristic.delivery_judge_axioms)

interpretation cascade: delivery_judge "Assess lo (HooksJudge d (TypesafeJudge b HeuristicJudge))" for lo d b
  by (rule hooks_over) (rule typesafe.delivery_judge_axioms)

lemma NewJudge_contract:
  assumes "NewJudge key kind dir = Inr j"
  shows "delivery_judge (Assess lo j) \<and> j \<noteq> NilJudge"
  using assms heuristic.delivery_judge_axioms typesafe.delivery_judge_axioms
    hooks_only.delivery_judge_axioms cascade.delivery_judge_axioms
  by (auto simp: NewJudge_def newTypesafeJudge_def newHooksJudge_def split: if_splits)

text \<open>
  C1. A delivery whose evidence is marked local-only never reaches the network: with any judge
  the factory builds, and whatever the runtime, the hooks and the API answer, \<open>EnsureIngested\<close> sends
  no document to the Typesafe API.
\<close>

theorem private_evidence_stays_local:
  assumes "NewJudge key kind dir = Inr j" "ev_LocalOnly evidence"
    and "EnsureIngested lo j cfg evidence start env fuel w = Some (s, a, err)"
  shows "jw_sent (lp_world s) = jw_sent w"
  using NewJudge_contract [OF assms(1), of lo] assms(2,3) delivery_judge.loop_local [of "Assess lo j" evidence]
  by (auto simp: EnsureIngested_def deliver_start_def)

lemma loop_sound:
  "deliver_loop lo assess cfg evidence deadline env n fuel s = Some (s', a, err) \<Longrightarrow>
   int (lp_submits s) = lp_submitAttempts s \<Longrightarrow>
     int (lp_submits s') \<le> max (lp_submitAttempts s) (cc_MaxSubmitAttempts cfg)
     \<and> (err = None \<longrightarrow> isIngested cfg a \<and> lp_lastAssessment s' = a)
     \<and> (\<forall>b. err = Some (NotIngested b) \<longrightarrow> b = a \<and> \<not> isIngested cfg a \<and> (\<exists>k. deadline < re_now (env k)))"
proof (induction fuel arbitrary: n s)
  case (Suc fuel)
  show ?case
  proof (cases "deliver_round lo assess cfg evidence deadline (env n) s")
    case (Again s1)
    with Suc.prems have "deliver_loop lo assess cfg evidence deadline env (Suc n) fuel s1 = Some (s', a, err)" by simp
    moreover have "int (lp_submits s1) = lp_submitAttempts s1"
      "max (lp_submitAttempts s1) (cc_MaxSubmitAttempts cfg) = max (lp_submitAttempts s) (cc_MaxSubmitAttempts cfg)"
      using round_Again [OF Again] Suc.prems(2) by auto
    ultimately show ?thesis using Suc.IH by metis
  next
    case (Returned s1 b e)
    with Suc.prems round_Returned [OF this] show ?thesis by auto
  qed
qed simp

text \<open>
  C27. What \<open>EnsureIngested\<close> returns is what it saw: a nil error comes with the last assessment,
  which the controller's gate accepts; the timeout error with an assessment the gate refuses and
  after the deadline has passed; no judge of the factory makes it fail; and the submit key is sent
  at most \<open>MaxSubmitAttempts\<close> times.
\<close>

theorem delivery_result_sound:
  assumes "NewJudge key kind dir = Inr j"
    and "EnsureIngested lo j (NewController cfg) evidence start env fuel w = Some (s, a, err)"
  shows "(err = None \<longrightarrow> isIngested (NewController cfg) a \<and> lp_lastAssessment s = a)
    \<and> (\<forall>b. err = Some (NotIngested b) \<longrightarrow> \<not> isIngested (NewController cfg) a
          \<and> (\<exists>k. start + cc_IngestionTimeout (NewController cfg) < re_now (env k)))
    \<and> (\<forall>e. err \<noteq> Some (AssessFailed e))
    \<and> int (lp_submits s) \<le> cc_MaxSubmitAttempts (NewController cfg)"
proof -
  let ?c = "NewController cfg"
  have j: "delivery_judge (Assess lo j)" "j \<noteq> NilJudge" using NewJudge_contract [OF assms(1)] by auto
  have run: "deliver_loop lo (Assess lo j) ?c evidence (start + cc_IngestionTimeout ?c) env 0 fuel (deliver_start evidence w) = Some (s, a, err)"
    using assms(2) j(2) by (simp add: EnsureIngested_def)
  have "0 \<le> cc_MaxSubmitAttempts ?c" by (simp add: NewController_def DefaultControllerConfig_def Let_def)
  with loop_sound [OF run] delivery_judge.loop_answers [OF j(1)] run show ?thesis
    by (auto simp: deliver_start_def)
qed

lemma loop_returns:
  assumes "\<And>k s s'. N \<le> k \<Longrightarrow> deliver_round lo assess cfg evidence deadline (env k) s = Again s' \<Longrightarrow>
      lp_submitAttempts s < cc_MaxSubmitAttempts cfg \<and> lp_submitAttempts s' = lp_submitAttempts s + 1"
    and "N - n + nat (cc_MaxSubmitAttempts cfg - lp_submitAttempts s) < fuel"
  shows "\<exists>r. deliver_loop lo assess cfg evidence deadline env n fuel s = Some r"
  using assms(2)
proof (induction fuel arbitrary: n s)
  case (Suc fuel)
  show ?case
  proof (cases "deliver_round lo assess cfg evidence deadline (env n) s")
    case (Again s')
    have "N - Suc n + nat (cc_MaxSubmitAttempts cfg - lp_submitAttempts s') < fuel"
      using Suc.prems assms(1) [OF _ Again] round_Again [OF Again] by (cases "N \<le> n") auto
    from Suc.IH [OF this] Again show ?thesis by simp
  qed simp
qed simp

text \<open>
  C28. \<open>EnsureIngested\<close> returns: when the clock advances by the retry interval with each round and
  every known blocker is gone after round \<open>B\<close>, the loop ends within
  \<open>max B (timeout / interval + 1) + MaxSubmitAttempts + 1\<close> rounds, whatever the screen, the judge
  and the runtime answer.
\<close>

theorem delivery_terminates:
  assumes "c = NewController cfg"
    and "\<And>k. start + int k * cc_RetryInterval c \<le> re_now (env k)"
    and "\<And>k. B \<le> k \<Longrightarrow> re_blockers (env k) \<noteq> Inr True"
    and "max B (nat (cc_IngestionTimeout c div cc_RetryInterval c) + 1) + nat (cc_MaxSubmitAttempts c) < fuel"
  shows "\<exists>r. EnsureIngested lo j c evidence start env fuel w = Some r"
proof (cases "j = NilJudge")
  case False
  let ?N = "max B (nat (cc_IngestionTimeout c div cc_RetryInterval c) + 1)"
  have pos: "0 < cc_RetryInterval c" "0 < cc_IngestionTimeout c"
    by (simp_all add: assms(1) NewController_def DefaultControllerConfig_def Let_def)
  have late: "start + cc_IngestionTimeout c < re_now (env k)" if "?N \<le> k" for k
  proof -
    have "cc_IngestionTimeout c div cc_RetryInterval c < int k" using that by linarith
    then have "(cc_IngestionTimeout c div cc_RetryInterval c + 1) * cc_RetryInterval c \<le> int k * cc_RetryInterval c"
      using pos by (intro mult_right_mono) auto
    moreover have "cc_IngestionTimeout c < (cc_IngestionTimeout c div cc_RetryInterval c + 1) * cc_RetryInterval c"
      using pos(1) by (simp add: distrib_right) (metis add_strict_left_mono div_mult_mod_eq pos_mod_bound)
    ultimately have "cc_IngestionTimeout c < int k * cc_RetryInterval c" by linarith
    with assms(2) [of k] show ?thesis by linarith
  qed
  have "\<exists>r. deliver_loop lo (Assess lo j) c evidence (start + cc_IngestionTimeout c) env 0 fuel (deliver_start evidence w) = Some r"
  proof (rule loop_returns [of ?N])
    fix k s s' assume k: "?N \<le> k"
      "deliver_round lo (Assess lo j) c evidence (start + cc_IngestionTimeout c) (env k) s = Again s'"
    from round_Again [OF k(2)] late [OF k(1)] assms(3) [of k] k(1)
    show "lp_submitAttempts s < cc_MaxSubmitAttempts c \<and> lp_submitAttempts s' = lp_submitAttempts s + 1" by auto
  qed (use assms(4) in \<open>simp add: deliver_start_def\<close>)
  with False show ?thesis by (simp add: EnsureIngested_def)
qed (simp add: EnsureIngested_def)

lemma round_blocked:
  assumes "re_capture e = Inr out" "re_blockers e = Inr True" "re_sleep e = None" "lp_submitAttempts s = 0"
    and "\<not> isIngested cfg (HeuristicJudge_Assess lo (evidence\<lparr>ev_AfterOutput := out, ev_Attempt := 0\<rparr>))"
  shows "\<exists>s'. deliver_round lo (Assess lo HeuristicJudge) cfg evidence deadline e s = Again s' \<and> lp_submitAttempts s' = 0"
  using assms by (simp add: deliver_round_def after_sleep_def)

text \<open>
  The deadline does not bound a delivery whose blocker is resolved again and again: if every
  round resolves one and no screen is accepted, \<open>EnsureIngested\<close> never returns, however late it is
  (the resolved-blocker branch goes round without looking at the deadline).
\<close>

theorem delivery_blocked_forever:
  assumes "\<And>k. re_blockers (env k) = Inr True" "\<And>k. re_sleep (env k) = None" "\<And>k. re_capture (env k) = Inr (out k)"
    and "\<And>k. \<not> isIngested cfg (HeuristicJudge_Assess lo (evidence\<lparr>ev_AfterOutput := out k, ev_Attempt := 0\<rparr>))"
  shows "EnsureIngested lo HeuristicJudge cfg evidence start env fuel w = None"
proof -
  have "deliver_loop lo (Assess lo HeuristicJudge) cfg evidence deadline env n fuel s = None"
    if "lp_submitAttempts s = 0" for deadline n s
    using that
  proof (induction fuel arbitrary: n s)
    case (Suc fuel)
    obtain s' where "deliver_round lo (Assess lo HeuristicJudge) cfg evidence deadline (env n) s = Again s'"
      "lp_submitAttempts s' = 0"
      using round_blocked [OF assms(3) assms(1) assms(2) Suc.prems assms(4)] by blast
    with Suc.IH show ?case by (simp del: Assess.simps)
  qed simp
  then show ?thesis by (simp add: EnsureIngested_def deliver_start_def)
qed

text \<open>
  Hook events are ground truth: once the session's hook document records a prompt submission at
  or after the start of the delivery, the cascade's verdict is "ingested" from the hooks, without
  looking at the screen or the network, and every controller configuration up to confidence 0.97
  accepts it; a document that predates the delivery leaves the verdict to the fallback.
\<close>

theorem hook_submission_decides:
  assumes "ev_SessionID ev \<noteq> []" "ev_DeliveryStartedAt ev \<noteq> 0"
    and "ReadSessionState (jw_dirs w d) (ev_SessionID ev) = Inr (Some st)"
  shows "if ev_DeliveryStartedAt ev \<le> hs_LastPromptSubmitAt st
     then \<exists>a. Assess lo (HooksJudge d fallback) ev w = (w, Inr a) \<and> as_State a = StateIngested \<and> as_Source a = ''hooks''
            \<and> (\<forall>c. cc_MinConfidence c \<le> f64_0_97 \<longrightarrow> isIngested c a)
     else Assess lo (HooksJudge d fallback) ev w = Assess lo fallback ev w"
  using assms by (auto simp: hooks_assessment_def isIngested_def)

lemma fragment_lines_bounds:
  assumes "length frs < 3" "\<forall>f \<in> set frs. 18 \<le> length f \<and> length f \<le> 120"
    "set (map (normalizeScreen lo) frs) \<subseteq> set seen" "distinct (map (normalizeScreen lo) frs)"
    "\<forall>f \<in> set frs. normalizeScreen lo f \<noteq> []"
  shows "length (fragment_lines lo seen frs ls) \<le> 3
    \<and> (\<forall>f \<in> set (fragment_lines lo seen frs ls). 18 \<le> length f \<and> length f \<le> 120 \<and> normalizeScreen lo f \<noteq> [])
    \<and> distinct (map (normalizeScreen lo) (fragment_lines lo seen frs ls))"
  using assms
proof (induction ls arbitrary: seen frs)
  case (Cons l ls)
  define line where "line = (if length (trim_space l) > 120 then take 120 (trim_space l) else trim_space l)"
  let ?key = "normalizeScreen lo line"
  have step: "fragment_lines lo seen frs (l # ls) =
      (if length (trim_space l) < 18 \<or> ?key = [] \<or> ?key \<in> set seen then fragment_lines lo seen frs ls
       else if length (frs @ [line]) = 3 then frs @ [line] else fragment_lines lo (?key # seen) (frs @ [line]) ls)"
    by (simp only: fragment_lines.simps Let_def line_def) simp
  consider "length (trim_space l) < 18 \<or> ?key = [] \<or> ?key \<in> set seen"
    | "18 \<le> length (trim_space l)" "?key \<noteq> []" "?key \<notin> set seen" by linarith
  then show ?case
  proof cases
    case 1
    with Cons step show ?thesis by metis
  next
    case 2
    have len: "18 \<le> length line" "length line \<le> 120" using 2(1) by (simp_all add: line_def)
    have new: "?key \<notin> set (map (normalizeScreen lo) frs)" using Cons.prems(3) 2(3) by blast
    show ?thesis
    proof (cases "length (frs @ [line]) = 3")
      case True
      with step 2 len new Cons.prems show ?thesis by auto
    next
      case False
      have res: "fragment_lines lo seen frs (l # ls) = fragment_lines lo (?key # seen) (frs @ [line]) ls"
        using step 2 False by simp
      show ?thesis
        unfolding res by (rule Cons.IH) (use Cons.prems False len new 2(2) in auto)
    qed
  qed
qed auto

text \<open>
  The text a prompt is recognised by on the screen is bounded: at most three fragments, each
  between 18 and 120 bytes, with distinct non-empty normal forms.
\<close>

theorem prompt_fragments_bounded:
  "length (promptFragments lo prompt) \<le> 3
   \<and> list_all (\<lambda>f. 18 \<le> length f \<and> length f \<le> 120) (promptFragments lo prompt)
   \<and> distinct (map (normalizeScreen lo) (promptFragments lo prompt))"
  using fragment_lines_bounds [of "[]" lo "[]" "split_at newline prompt"]
  by (auto simp: promptFragments_def Let_def list_all_iff)

text \<open>
  For a prompt too short to be recognised (every line and the whole text under 18 bytes after
  trimming), the screen heuristic takes any visible change for ingestion: if no blocker shows,
  a screen that differs from the one before sending is accepted under the default configuration,
  even when what changed is the prompt sitting unsent in the composer.
\<close>

theorem short_prompt_change_ingested:
  assumes "promptFragments lo (ev_Prompt ev) = []"
    and "normalizeScreen lo (ev_BeforeOutput ev) \<noteq> normalizeScreen lo (ev_AfterOutput ev)"
    and "\<forall>b \<in> set delivery_blockers. count_sub (normalizeScreen lo (ev_AfterOutput ev)) b = 0"
  shows "isIngested DefaultControllerConfig (HeuristicJudge_Assess lo ev)"
proof -
  have "promptOccurrenceCount lo out (ev_Prompt ev) = 0" for out
    by (simp add: promptOccurrenceCount_def assms(1))
  moreover have "\<not> containsBlockerOutsidePrompt lo (normalizeScreen lo (ev_AfterOutput ev)) (ev_Prompt ev) 0"
    using assms(3) by (simp add: containsBlockerOutsidePrompt_def list_ex_iff)
  ultimately have "as_State (HeuristicJudge_Assess lo ev) = StateIngested
      \<and> (as_Confidence (HeuristicJudge_Assess lo ev) = f64_0_9 \<or> as_Confidence (HeuristicJudge_Assess lo ev) = f64_0_74)"
    using assms(2) by (simp add: HeuristicJudge_Assess_def Let_def)
  then show ?thesis by (auto simp: isIngested_def DefaultControllerConfig_def f64_defs)
qed

section \<open>Witnesses\<close>

definition demo_evidence :: Evidence where
  "demo_evidence = \<lparr>ev_Agent = ''claude'', ev_Prompt = ''fix it'', ev_BeforeOutput = [], ev_AfterOutput = [],
     ev_WorkingIndicator = [], ev_Attempt = 0, ev_LocalOnly = True, ev_SessionID = ''s1'', ev_DeliveryStartedAt = 5\<rparr>"

definition demo_judge_world :: judge_world where
  "demo_judge_world = \<lparr>jw_dirs = (\<lambda>_. empty_dir), jw_api = (\<lambda>_. None), jw_sent = []\<rparr>"

definition demo_round :: "string + bool \<Rightarrow> time \<Rightarrow> round_env" where
  "demo_round b t = \<lparr>re_capture = Inr [], re_blockers = b, re_submit = None, re_sleep = None, re_now = t,
     re_dirs = (\<lambda>_. empty_dir)\<rparr>"

lemma demo_short_prompt: "promptFragments id ''fix it'' = []"
  by (simp add: promptFragments_def Let_def ascii_eval trim_space_def)

lemma demo_heuristic_unclear:
  "HeuristicJudge_Assess id (demo_evidence\<lparr>ev_AfterOutput := [], ev_Attempt := n\<rparr>) =
     \<lparr>as_State = StateUnclear, as_Confidence = f64_0_4, as_WorkStartedProbability = f64_0_35,
      as_EnterHelpfulProbability = f64_0_62, as_Source = ''heuristic'', as_Model = []\<rparr>"
  by (simp add: HeuristicJudge_Assess_def demo_evidence_def Let_def promptOccurrenceCount_def demo_short_prompt
      containsBlockerOutsidePrompt_def delivery_blockers_def normalizeScreen_def to_lower_def runes_of_def
      string_of_def split_fields_def)

lemma demo_unclear_not_ingested:
  "\<not> isIngested DefaultControllerConfig (HeuristicJudge_Assess id (demo_evidence\<lparr>ev_AfterOutput := [], ev_Attempt := n\<rparr>))"
  by (simp add: demo_heuristic_unclear isIngested_def DefaultControllerConfig_def f64_defs)

lemma demo_NewController: "NewController DefaultControllerConfig = DefaultControllerConfig"
  by (simp add: NewController_def DefaultControllerConfig_def f64_defs)

lemma demo_run:
  "\<exists>s a err. EnsureIngested id (TypesafeJudge True HeuristicJudge) DefaultControllerConfig demo_evidence 0
     (\<lambda>_. demo_round (Inl ''tmux'') 1) 1 demo_judge_world = Some (s, a, err)"
  using demo_unclear_not_ingested [of 0]
  by (auto simp: EnsureIngested_def deliver_round_def demo_round_def deliver_start_def Let_def split: round_result.split)
     (simp_all add: demo_evidence_def)

theorem private_evidence_stays_local_witness:
  "\<exists>s a err. EnsureIngested id (TypesafeJudge True HeuristicJudge) DefaultControllerConfig demo_evidence 0
     (\<lambda>_. demo_round (Inl ''tmux'') 1) 1 demo_judge_world = Some (s, a, err) \<and> jw_sent (lp_world s) = []"
proof -
  obtain s a err where run: "EnsureIngested id (TypesafeJudge True HeuristicJudge) DefaultControllerConfig demo_evidence 0
      (\<lambda>_. demo_round (Inl ''tmux'') 1) 1 demo_judge_world = Some (s, a, err)" using demo_run by blast
  have "NewJudge ''key'' ''typesafe'' [] = Inr (TypesafeJudge True HeuristicJudge)"
    by (simp add: NewJudge_def newTypesafeJudge_def)
  from private_evidence_stays_local [OF this _ run] run show ?thesis
    by (simp add: demo_evidence_def demo_judge_world_def)
qed

theorem delivery_result_sound_witness:
  "\<exists>s a err. EnsureIngested id (TypesafeJudge True HeuristicJudge) DefaultControllerConfig demo_evidence 0
     (\<lambda>_. demo_round (Inl ''tmux'') 1) 1 demo_judge_world = Some (s, a, err) \<and> int (lp_submits s) \<le> 3"
proof -
  obtain s a err where run: "EnsureIngested id (TypesafeJudge True HeuristicJudge) (NewController DefaultControllerConfig) demo_evidence 0
      (\<lambda>_. demo_round (Inl ''tmux'') 1) 1 demo_judge_world = Some (s, a, err)"
    using demo_run by (auto simp: demo_NewController)
  have "NewJudge ''key'' ''typesafe'' [] = Inr (TypesafeJudge True HeuristicJudge)"
    by (simp add: NewJudge_def newTypesafeJudge_def)
  from delivery_result_sound [OF this run] have "int (lp_submits s) \<le> 3"
    unfolding demo_NewController by (simp add: DefaultControllerConfig_def)
  with run show ?thesis unfolding demo_NewController by blast
qed

theorem delivery_terminates_witness:
  "\<exists>r. EnsureIngested id HeuristicJudge DefaultControllerConfig demo_evidence 0
     (\<lambda>k. demo_round (Inr False) (int k * 1500000000)) 20 demo_judge_world = Some r"
  by (rule delivery_terminates [of _ DefaultControllerConfig _ _ 0])
     (simp_all add: demo_NewController, simp_all add: demo_round_def DefaultControllerConfig_def)

theorem delivery_blocked_forever_witness:
  "EnsureIngested id HeuristicJudge DefaultControllerConfig demo_evidence 0
     (\<lambda>k. demo_round (Inr True) (int k * 1500000000)) 5 demo_judge_world = None"
  by (rule delivery_blocked_forever [of _ "\<lambda>_. []"])
     (simp_all add: demo_round_def demo_unclear_not_ingested)

theorem hook_submission_decides_witness:
  "\<exists>a. Assess id (HooksJudge ''d'' HeuristicJudge) demo_evidence
     (demo_judge_world\<lparr>jw_dirs := (\<lambda>_. empty_dir\<lparr>hd_live := Map.empty(''s1'' \<mapsto>
        Doc (empty_state\<lparr>hs_LastPromptSubmitAt := 7\<rparr>))\<rparr>)\<rparr>)
     = (demo_judge_world\<lparr>jw_dirs := (\<lambda>_. empty_dir\<lparr>hd_live := Map.empty(''s1'' \<mapsto>
        Doc (empty_state\<lparr>hs_LastPromptSubmitAt := 7\<rparr>))\<rparr>)\<rparr>, Inr a) \<and> isIngested DefaultControllerConfig a"
proof -
  let ?d = "empty_dir\<lparr>hd_live := Map.empty(''s1'' \<mapsto> Doc (empty_state\<lparr>hs_LastPromptSubmitAt := 7\<rparr>))\<rparr>"
  have r: "ReadSessionState (jw_dirs (demo_judge_world\<lparr>jw_dirs := (\<lambda>_. ?d)\<rparr>) ''d'') (ev_SessionID demo_evidence)
      = Inr (Some (empty_state\<lparr>hs_LastPromptSubmitAt := 7\<rparr>))"
    by (simp add: demo_judge_world_def ReadSessionState_def demo_evidence_def sessionIDRe_def char_class_defs
        byte_of_def empty_dir_def)
  have c: "cc_MinConfidence DefaultControllerConfig \<le> f64_0_97"
    by (simp add: DefaultControllerConfig_def f64_defs)
  have "ev_DeliveryStartedAt demo_evidence \<le> hs_LastPromptSubmitAt (empty_state\<lparr>hs_LastPromptSubmitAt := 7\<rparr>)"
    by (simp add: demo_evidence_def)
  with hook_submission_decides [OF _ _ r, of id HeuristicJudge] c show ?thesis
    by (simp add: demo_evidence_def del: Assess.simps) blast
qed

theorem short_prompt_change_ingested_witness:
  "isIngested DefaultControllerConfig (HeuristicJudge_Assess id (demo_evidence\<lparr>ev_AfterOutput := ''> fix it''\<rparr>))"
  by (rule short_prompt_change_ingested)
     (simp_all add: demo_evidence_def demo_short_prompt delivery_blockers_def normalizeScreen_def to_lower_def
       lower_ascii_def ascii_eval)

end
