(* ===== verification/Mesh_Json.thy ===== *)
theory Mesh_Json
  imports Go_Prelude
begin

text \<open>
  What the mesh store uses of \<open>encoding/json\<close>: the grammar \<open>json.Valid\<close> accepts with the value
  \<open>Decoder.Decode\<close> builds, and the bytes a \<open>json.RawMessage\<close> field has after it was written by
  \<open>json.MarshalIndent\<close> and read back. A decoded object keeps its members in order; the Go map it
  becomes holds the last member of each key.
\<close>

datatype json =
    JNull
  | JBool bool
  | JNum string
  | JStr string
  | JArr "json list"
  | JObj "(string \<times> json) list"

definition json_ws :: "char \<Rightarrow> bool" where
  "json_ws c \<longleftrightarrow> byte_of c \<in> {32, 9, 13, 10}"

definition skip_ws :: "string \<Rightarrow> string" where
  "skip_ws s = dropWhile json_ws s"

definition hex_val :: "char \<Rightarrow> nat option" where
  "hex_val c =
     (let n = byte_of c in
      if 48 \<le> n \<and> n \<le> 57 then Some (n - 48)
      else if 97 \<le> n \<and> n \<le> 102 then Some (n - 87)
      else if 65 \<le> n \<and> n \<le> 70 then Some (n - 55) else None)"

fun hex4 :: "string \<Rightarrow> (nat \<times> string) option" where
  "hex4 (a # b # c # d # s) =
     (case (hex_val a, hex_val b, hex_val c, hex_val d) of
        (Some w, Some x, Some y, Some z) \<Rightarrow> Some (((w * 16 + x) * 16 + y) * 16 + z, s)
      | _ \<Rightarrow> None)"
| "hex4 _ = None"

text \<open>The rune of a \<open>\u\<close> escape: a surrogate pair is one rune, a lone surrogate is U+FFFD.\<close>

definition unicode_escape :: "string \<Rightarrow> (rune \<times> string) option" where
  "unicode_escape s =
     (case hex4 s of
        None \<Rightarrow> None
      | Some (r, rest) \<Rightarrow>
          if 55296 \<le> r \<and> r < 57344 then
            if r < 56320 \<and> take 2 rest = [backslash, CHR ''u''] then
              (case hex4 (drop 2 rest) of
                 Some (r2, rest2) \<Rightarrow>
                   if 56320 \<le> r2 \<and> r2 < 57344
                   then Some ((r - 55296) * 1024 + (r2 - 56320) + 65536, rest2)
                   else Some (RuneError, rest)
               | None \<Rightarrow> Some (RuneError, rest))
            else Some (RuneError, rest)
          else Some (r, rest))"

definition simple_escape :: "char \<Rightarrow> nat option" where
  "simple_escape c =
     (let n = byte_of c in
      if n = 34 \<or> n = 92 \<or> n = 47 then Some n
      else if c = CHR ''b'' then Some 8 else if c = CHR ''f'' then Some 12
      else if c = CHR ''n'' then Some 10 else if c = CHR ''r'' then Some 13
      else if c = CHR ''t'' then Some 9 else None)"

text \<open>The bytes of a string literal after its opening quote, with what follows the closing one.\<close>

fun string_body :: "nat \<Rightarrow> string \<Rightarrow> (string \<times> string) option" where
  "string_body 0 s = None"
| "string_body (Suc n) [] = None"
| "string_body (Suc n) (c # s) =
     (if c = quote then Some ([], s)
      else if byte_of c < 32 then None
      else if c = backslash then
        (case s of
           [] \<Rightarrow> None
         | e # s' \<Rightarrow>
             if e = CHR ''u'' then
               (case unicode_escape s' of
                  None \<Rightarrow> None
                | Some (r, rest) \<Rightarrow> map_option (apfst ((@) (string_of [r]))) (string_body n rest))
             else
               (case simple_escape e of
                  None \<Rightarrow> None
                | Some b \<Rightarrow> map_option (apfst ((#) (char_of b))) (string_body n s')))
      else map_option (apfst ((#) c)) (string_body n s))"

definition parse_string :: "string \<Rightarrow> (string \<times> string) option" where
  "parse_string s = map_option (apfst to_valid_utf8) (string_body (length s) s)"

definition span_digits :: "string \<Rightarrow> string \<times> string" where
  "span_digits s = (takeWhile is_digit s, dropWhile is_digit s)"

definition parse_exp :: "string \<Rightarrow> (string \<times> string) option" where
  "parse_exp s =
     (case s of
        c # s' \<Rightarrow>
          if c = CHR ''e'' \<or> c = CHR ''E'' then
            let sgn = takeWhile (\<lambda>c. c = CHR ''+'' \<or> c = CHR ''-'') (take 1 s');
                (ds, rest) = span_digits (drop (length sgn) s')
            in if ds = [] then None else Some (c # sgn @ ds, rest)
          else Some ([], s)
      | [] \<Rightarrow> Some ([], []))"

definition parse_frac :: "string \<Rightarrow> (string \<times> string) option" where
  "parse_frac s =
     (case s of
        c # s' \<Rightarrow>
          if c = CHR ''.'' then
            let (ds, rest) = span_digits s' in if ds = [] then None else Some (c # ds, rest)
          else Some ([], s)
      | [] \<Rightarrow> Some ([], []))"

definition parse_number :: "string \<Rightarrow> (string \<times> string) option" where
  "parse_number s =
     (let sgn = takeWhile (\<lambda>c. c = CHR ''-'') (take 1 s);
          (ds, rest) = span_digits (drop (length sgn) s);
          ip = (if take 1 ds = ''0'' then ''0'' else ds);
          rest = (if take 1 ds = ''0'' then drop 1 ds @ rest else rest)
      in if ds = [] then None
         else case parse_frac rest of
                None \<Rightarrow> None
              | Some (fr, rest) \<Rightarrow>
                  (case parse_exp rest of
                     None \<Rightarrow> None
                   | Some (ex, rest) \<Rightarrow> Some (sgn @ ip @ fr @ ex, rest)))"

definition maxNestingDepth :: nat where "maxNestingDepth = 10000"

text \<open>
  The value parser. Every nested call starts at least one byte further on, so fuel above the
  number of bytes left is never exhausted; \<open>d\<close> is the number of open arrays and objects.
\<close>

fun parse_value :: "nat \<Rightarrow> nat \<Rightarrow> string \<Rightarrow> (json \<times> string) option"
and parse_elems :: "nat \<Rightarrow> nat \<Rightarrow> string \<Rightarrow> (json list \<times> string) option"
and parse_members :: "nat \<Rightarrow> nat \<Rightarrow> string \<Rightarrow> ((string \<times> json) list \<times> string) option" where
  "parse_value 0 d s = None"
| "parse_value (Suc n) d s =
     (case skip_ws s of
        [] \<Rightarrow> None
      | c # s' \<Rightarrow>
          if c = CHR ''{'' then
            if maxNestingDepth \<le> d then None
            else (case skip_ws s' of
                    [] \<Rightarrow> None
                  | c' # rest \<Rightarrow>
                      if c' = CHR ''}'' then Some (JObj [], rest)
                      else map_option (apfst JObj) (parse_members n (Suc d) s'))
          else if c = CHR ''['' then
            if maxNestingDepth \<le> d then None
            else (case skip_ws s' of
                    [] \<Rightarrow> None
                  | c' # rest \<Rightarrow>
                      if c' = CHR '']'' then Some (JArr [], rest)
                      else map_option (apfst JArr) (parse_elems n (Suc d) s'))
          else if c = quote then map_option (apfst JStr) (parse_string s')
          else if has_prefix ''true'' (c # s') then Some (JBool True, drop 4 (c # s'))
          else if has_prefix ''false'' (c # s') then Some (JBool False, drop 5 (c # s'))
          else if has_prefix ''null'' (c # s') then Some (JNull, drop 4 (c # s'))
          else map_option (apfst JNum) (parse_number (c # s')))"
| "parse_elems 0 d s = None"
| "parse_elems (Suc n) d s =
     (case parse_value n d s of
        None \<Rightarrow> None
      | Some (v, rest) \<Rightarrow>
          (case skip_ws rest of
             [] \<Rightarrow> None
           | c # rest' \<Rightarrow>
               if c = CHR '']'' then Some ([v], rest')
               else if c = CHR '','' then map_option (apfst ((#) v)) (parse_elems n d rest')
               else None))"
| "parse_members 0 d s = None"
| "parse_members (Suc n) d s =
     (case skip_ws s of
        [] \<Rightarrow> None
      | q # s' \<Rightarrow>
          if q \<noteq> quote then None
          else (case parse_string s' of
                 None \<Rightarrow> None
               | Some (k, rest) \<Rightarrow>
                   (case skip_ws rest of
                      [] \<Rightarrow> None
                    | c # rest \<Rightarrow>
                        if c \<noteq> CHR '':'' then None
                        else (case parse_value n d rest of
                               None \<Rightarrow> None
                             | Some (v, rest) \<Rightarrow>
                                 (case skip_ws rest of
                                    [] \<Rightarrow> None
                                  | c # rest' \<Rightarrow>
                                      if c = CHR ''}'' then Some ([(k, v)], rest')
                                      else if c = CHR '','' then
                                        map_option (apfst ((#) (k, v))) (parse_members n d rest')
                                      else None)))))"

text \<open>The value of a text that is one complete JSON value, None where \<open>json.Valid\<close> is false.\<close>

definition json_decode :: "string \<Rightarrow> json option" where
  "json_decode s =
     (case parse_value (2 * length s + 2) 0 s of
        Some (v, rest) \<Rightarrow> if skip_ws rest = [] then Some v else None
      | None \<Rightarrow> None)"

text \<open>The Go map a decoded object becomes: the last member of each key.\<close>

fun last_members :: "(string \<times> json) list \<Rightarrow> (string \<times> json) list" where
  "last_members [] = []"
| "last_members ((k, v) # ms) = (if k \<in> fst ` set ms then last_members ms else (k, v) # last_members ms)"

section \<open>A raw message written and read back\<close>

text \<open>
  \<open>MarshalIndent\<close> first compacts a raw message, escaping the characters that are special in HTML
  and the two line separators, then indents the whole document with two spaces. A field of the
  top-level struct is indented from depth one.
\<close>

definition html_escape :: "char \<Rightarrow> string option" where
  "html_escape c =
     (if c = CHR ''<'' then Some (backslash # ''u003c'')
      else if c = CHR ''>'' then Some (backslash # ''u003e'')
      else if c = CHR ''&'' then Some (backslash # ''u0026'') else None)"

fun json_compact :: "bool \<Rightarrow> string \<Rightarrow> string" where
  "json_compact in_str [] = []"
| "json_compact in_str (c # s) =
     (if has_prefix (string_of [8232]) (c # s) then (backslash # ''u2028'') @ json_compact in_str (drop 2 s)
      else if has_prefix (string_of [8233]) (c # s) then (backslash # ''u2029'') @ json_compact in_str (drop 2 s)
      else if in_str then
        if c = quote then c # json_compact False s
        else if c = backslash then
          (case s of [] \<Rightarrow> [c] | e # s' \<Rightarrow> c # e # json_compact True s')
        else (case html_escape c of None \<Rightarrow> [c] | Some e \<Rightarrow> e) @ json_compact True s
      else if json_ws c then json_compact False s
      else c # json_compact (c = quote) s)"

definition newline_indent :: "nat \<Rightarrow> string" where
  "newline_indent d = char_of (10 :: nat) # concat (replicate d ''  '')"

fun json_indent :: "nat \<Rightarrow> bool \<Rightarrow> bool \<Rightarrow> string \<Rightarrow> string" where
  "json_indent d need in_str [] = []"
| "json_indent d need True (c # s) =
     (if c = quote then c # json_indent d False False s
      else if c = backslash then
        (case s of [] \<Rightarrow> [c] | e # s' \<Rightarrow> c # e # json_indent d False True s')
      else c # json_indent d False True s)"
| "json_indent d need False (c # s) =
     (if json_ws c then json_indent d need False s
      else
        let opening = need \<and> c \<noteq> CHR ''}'' \<and> c \<noteq> CHR '']'';
            pre = (if opening then newline_indent (Suc d) else []);
            d = (if opening then Suc d else d)
        in if c = CHR ''{'' \<or> c = CHR ''['' then pre @ c # json_indent d True False s
           else if c = CHR '','' then pre @ c # newline_indent d @ json_indent d False False s
           else if c = CHR '':'' then pre @ c # '' '' @ json_indent d False False s
           else if c = CHR ''}'' \<or> c = CHR '']'' then
             if need then c # json_indent d False False s
             else newline_indent (d - 1) @ c # json_indent (d - 1) False False s
           else pre @ c # json_indent d False (c = quote) s)"

definition raw_stored :: "string \<Rightarrow> string" where
  "raw_stored raw = json_indent 1 False False (json_compact False raw)"

end
