(* ===== verification/Mesh_Types.thy ===== *)
theory Mesh_Types
  imports Mesh_Json
begin

text \<open>
  The mesh projection's data (\<open>internal/meshstate/types.go\<close>): locators, projections, surface
  bindings, artifacts, peers and change events, with the validation every one of them passes
  before it is written and after it is read. A validator returns the error, None for nil; the two
  sentinel errors the callers test for, and the two of snapshots, are constructors of their own.

  \<open>strings.ToLower\<close> of a non-ASCII rune and \<open>net/url\<close>'s parser are parameters, the fields of
  \<open>golib\<close>; a parsed URL is the parts the validator reads.
\<close>

datatype mesh_error =
    ErrNotFound
  | ErrConflict
  | ErrStaleSnapshot
  | ErrSnapshotClosed
  | Invalid string
  | IOFailure string

record url_parts =
  url_Scheme :: string
  url_Host :: string
  url_HasUser :: bool
  url_QueryKeys :: "string list"

record golib =
  gl_lower :: "rune \<Rightarrow> rune"
  gl_url :: "string \<Rightarrow> url_parts option"

definition SchemaVersion :: int where "SchemaVersion = 1"
definition maxMetadataBytes :: nat where "maxMetadataBytes = 32768"
definition maxTitleRunes :: nat where "maxTitleRunes = 512"
definition maxStateRunes :: nat where "maxStateRunes = 128"
definition maxPathRunes :: nat where "maxPathRunes = 1024"
definition maxDesiredTopics :: nat where "maxDesiredTopics = 16"

section \<open>Identifiers\<close>

definition safeID :: "string \<Rightarrow> bool" where
  "safeID s = id_shape is_alnum (\<lambda>c. is_alnum c \<or> c \<in> set ''._-'') 127 s"

definition profileSlug :: "string \<Rightarrow> bool" where
  "profileSlug s \<longleftrightarrow>
     (let lowdig = (\<lambda>c. is_lower_char c \<or> is_digit c) in
      s \<noteq> [] \<and> lowdig (hd s) \<and> lowdig (last s) \<and> length s \<le> 63
      \<and> list_all (\<lambda>c. lowdig c \<or> c \<in> set ''_-'') s)"

definition uuidRE :: "string \<Rightarrow> bool" where
  "uuidRE s \<longleftrightarrow>
     (let parts = split_at (CHR ''-'') s in
      map length parts = [8, 4, 4, 4, 12] \<and> list_all (list_all is_hex) parts)"

definition repoSlugRE :: "string \<Rightarrow> bool" where
  "repoSlugRE s \<longleftrightarrow>
     (let parts = split_at (CHR ''/'') s in
      length parts \<le> 2 \<and> list_all (\<lambda>p. p \<noteq> [] \<and> list_all (\<lambda>c. is_alnum c \<or> c \<in> set ''._-'') p) parts)"

definition commitRE :: "string \<Rightarrow> bool" where
  "commitRE s \<longleftrightarrow> 7 \<le> length s \<and> length s \<le> 64 \<and> list_all is_hex s"

definition validateID :: "string \<Rightarrow> string \<Rightarrow> mesh_error option" where
  "validateID field value =
     fail_if (\<not> safeID value \<or> value = ''.'' \<or> value = ''..'') (Invalid field)"

definition validateNoControls :: "string \<Rightarrow> string \<Rightarrow> mesh_error option" where
  "validateNoControls field value = fail_if (list_ex is_control (runes_of value)) (Invalid field)"

definition validateBounded :: "string \<Rightarrow> string \<Rightarrow> nat \<Rightarrow> bool \<Rightarrow> mesh_error option" where
  "validateBounded field value mx required =
     first_err [fail_if (required \<and> trim_space value = []) (Invalid field),
                fail_if (length (runes_of value) > mx) (Invalid field),
                validateNoControls field value]"

section \<open>Locators and freshness\<close>

definition RootProfileScope :: string where "RootProfileScope = ''root''"

definition NamedProfileScope :: "string \<Rightarrow> string" where
  "NamedProfileScope slug = ''profile:'' @ slug"

definition ProfileScope_Validate :: "string \<Rightarrow> mesh_error option" where
  "ProfileScope_Validate s =
     (if s = RootProfileScope then None
      else fail_if (\<not> has_prefix ''profile:'' s \<or> \<not> profileSlug (drop 8 s)) (Invalid ''profile scope''))"

record RemoteSessionLocator =
  loc_SchemaVersion :: int
  loc_DeviceID :: string
  loc_ProfileScope :: string
  loc_SessionID :: string
  loc_TransportBindingID :: string

definition Locator_Validate :: "RemoteSessionLocator \<Rightarrow> mesh_error option" where
  "Locator_Validate l =
     first_err [fail_if (loc_SchemaVersion l \<noteq> SchemaVersion) (Invalid ''locator schema version''),
                validateID ''device_id'' (loc_DeviceID l),
                ProfileScope_Validate (loc_ProfileScope l),
                validateID ''session_id'' (loc_SessionID l),
                (if loc_TransportBindingID l \<noteq> []
                 then validateID ''transport_binding_id'' (loc_TransportBindingID l) else None)]"

definition EqualIdentity :: "RemoteSessionLocator \<Rightarrow> RemoteSessionLocator \<Rightarrow> bool" where
  "EqualIdentity l other \<longleftrightarrow>
     loc_SchemaVersion l = loc_SchemaVersion other \<and> loc_DeviceID l = loc_DeviceID other
     \<and> loc_ProfileScope l = loc_ProfileScope other \<and> loc_SessionID l = loc_SessionID other"

definition identityKey :: "RemoteSessionLocator \<Rightarrow> string" where
  "identityKey l = loc_DeviceID l @ ''/'' @ loc_ProfileScope l @ ''/'' @ loc_SessionID l"

text \<open>\<open>FreshnessOther\<close> is any other string; the empty one is an absent field.\<close>

datatype Freshness =
    FreshnessSyncing
  | FreshnessFresh
  | FreshnessStale
  | FreshnessGone
  | FreshnessOther string

abbreviation NoFreshness :: Freshness where "NoFreshness \<equiv> FreshnessOther []"

definition Freshness_Validate :: "Freshness \<Rightarrow> mesh_error option" where
  "Freshness_Validate f =
     (case f of FreshnessOther _ \<Rightarrow> Some (Invalid ''freshness'') | _ \<Rightarrow> None)"

section \<open>Metadata\<close>

definition forbidden_keys :: "string list" where
  "forbidden_keys =
     [''authorization'', ''api_key'', ''token'', ''secret'', ''password'', ''env'', ''environment'',
      ''screen'', ''screen_output'', ''output'', ''tool_output'', ''tmux_target'',
      ''backend_session_id'', ''pid'']"

text \<open>
  The walk over the decoded value. Go ranges over the maps the decoder built, in which a repeated
  key kept its last value only.
\<close>

lemma last_members_size: "(k, v) \<in> set (last_members ms) \<Longrightarrow> size v < Suc (size_list (size_prod (\<lambda>_. 0) size) ms)"
  by (induction ms rule: last_members.induct) (auto split: if_splits)

function rejectSensitiveMetadata :: "golib \<Rightarrow> json \<Rightarrow> mesh_error option" where
  "rejectSensitiveMetadata g v =
     (case v of
        JObj ms \<Rightarrow>
          first_err (map (\<lambda>(k, child).
              if to_lower (gl_lower g) k \<in> set forbidden_keys then Some (Invalid ''metadata field'')
              else rejectSensitiveMetadata g child) (last_members ms))
      | JArr xs \<Rightarrow> first_err (map (\<lambda>child. rejectSensitiveMetadata g child) xs)
      | _ \<Rightarrow> None)"
  by pat_completeness auto
termination
  by (relation "measure (\<lambda>(g, v). size v)")
     (auto dest: last_members_size simp: less_Suc_eq_le intro: size_list_estimation' le_trans)

declare rejectSensitiveMetadata.simps [simp del]

definition validateMetadata :: "golib \<Rightarrow> string \<Rightarrow> mesh_error option" where
  "validateMetadata g raw =
     (if raw = [] then Some (Invalid ''metadata is required'')
      else if length raw > maxMetadataBytes then Some (Invalid ''metadata exceeds bytes'')
      else case json_decode raw of
             None \<Rightarrow> Some (Invalid ''metadata is not one complete JSON value'')
           | Some v \<Rightarrow>
               (case v of JObj _ \<Rightarrow> rejectSensitiveMetadata g v
                | _ \<Rightarrow> Some (Invalid ''metadata must be a JSON object'')))"

section \<open>Projections and surface bindings\<close>

record RemoteSessionProjection =
  rp_SchemaVersion :: int
  rp_Locator :: RemoteSessionLocator
  rp_Metadata :: string
  rp_ReceivedAt :: time
  rp_FreshnessChangedAt :: time
  rp_SourceEpoch :: string
  rp_SourceRevision :: u64
  rp_Freshness :: Freshness

definition Projection_Validate :: "golib \<Rightarrow> RemoteSessionProjection \<Rightarrow> mesh_error option" where
  "Projection_Validate g p =
     first_err [fail_if (rp_SchemaVersion p \<noteq> SchemaVersion) (Invalid ''projection schema version''),
                Locator_Validate (rp_Locator p),
                validateMetadata g (rp_Metadata p),
                fail_if (IsZero (rp_ReceivedAt p) \<or> IsZero (rp_FreshnessChangedAt p)) (Invalid ''timestamps''),
                validateID ''source_epoch'' (rp_SourceEpoch p),
                fail_if (rp_SourceRevision p = 0) (Invalid ''source_revision''),
                Freshness_Validate (rp_Freshness p)]"

record SurfaceBinding =
  sb_SchemaVersion :: int
  sb_BindingID :: string
  sb_LocalDeviceID :: string
  sb_Mux :: string
  sb_SurfaceID :: string
  sb_WorkspaceID :: string
  sb_Locator :: RemoteSessionLocator
  sb_Source :: string
  sb_CreatedAt :: time
  sb_UpdatedAt :: time

definition Binding_Validate :: "SurfaceBinding \<Rightarrow> mesh_error option" where
  "Binding_Validate b =
     first_err [fail_if (sb_SchemaVersion b \<noteq> SchemaVersion) (Invalid ''binding schema version''),
                validateID ''binding_id'' (sb_BindingID b),
                validateID ''local_device_id'' (sb_LocalDeviceID b),
                fail_if (sb_Mux b \<noteq> ''cmux'') (Invalid ''mux''),
                fail_if (\<not> uuidRE (sb_SurfaceID b)) (Invalid ''surface_id''),
                fail_if (\<not> uuidRE (sb_WorkspaceID b)) (Invalid ''workspace_id''),
                Locator_Validate (sb_Locator b),
                validateBounded ''source'' (sb_Source b) maxStateRunes True,
                fail_if (IsZero (sb_CreatedAt b) \<or> IsZero (sb_UpdatedAt b)) (Invalid ''timestamps'')]"

definition sameTarget :: "SurfaceBinding \<Rightarrow> SurfaceBinding \<Rightarrow> bool" where
  "sameTarget b other \<longleftrightarrow>
     sb_BindingID b = sb_BindingID other \<and> sb_LocalDeviceID b = sb_LocalDeviceID other
     \<and> sb_Mux b = sb_Mux other \<and> sb_SurfaceID b = sb_SurfaceID other
     \<and> sb_WorkspaceID b = sb_WorkspaceID other \<and> EqualIdentity (sb_Locator b) (sb_Locator other)"

section \<open>Artifacts\<close>

datatype ArtifactKind =
    ArtifactGoal
  | ArtifactSessionHistory
  | ArtifactDocument
  | ArtifactBranch
  | ArtifactCommit
  | ArtifactPullRequest
  | ArtifactOther string

abbreviation NoKind :: ArtifactKind where "NoKind \<equiv> ArtifactOther []"

definition kind_string :: "ArtifactKind \<Rightarrow> string" where
  "kind_string k =
     (case k of ArtifactGoal \<Rightarrow> ''goal'' | ArtifactSessionHistory \<Rightarrow> ''session_history''
      | ArtifactDocument \<Rightarrow> ''document'' | ArtifactBranch \<Rightarrow> ''branch'' | ArtifactCommit \<Rightarrow> ''commit''
      | ArtifactPullRequest \<Rightarrow> ''pull_request'' | ArtifactOther s \<Rightarrow> s)"

definition Kind_Validate :: "ArtifactKind \<Rightarrow> mesh_error option" where
  "Kind_Validate k = (case k of ArtifactOther _ \<Rightarrow> Some (Invalid ''artifact kind'') | _ \<Rightarrow> None)"

record RepoRef =
  rr_Repo :: string
  rr_Ref :: string
  rr_Commit :: string

definition RepoRef_Validate :: "RepoRef \<Rightarrow> mesh_error option" where
  "RepoRef_Validate r =
     first_err [fail_if (\<not> repoSlugRE (rr_Repo r) \<or> contains (rr_Repo r) ''..'') (Invalid ''repo locator''),
                validateBounded ''repo ref'' (rr_Ref r) 512 False,
                fail_if (list_ex (\<lambda>c. byte_of c \<in> {0, 13, 10}) (rr_Ref r)) (Invalid ''repo ref''),
                fail_if (rr_Commit r \<noteq> [] \<and> \<not> commitRE (rr_Commit r)) (Invalid ''commit locator'')]"

definition secret_query_words :: "string list" where
  "secret_query_words =
     [''token'', ''secret'', ''password'', ''signature'', ''credential'', ''api_key'', ''apikey'',
      ''auth'', ''code'']"

definition validateHTTPSURL :: "golib \<Rightarrow> string \<Rightarrow> mesh_error option" where
  "validateHTTPSURL g raw =
     (if raw = [] then None
      else if length raw > 2048 then Some (Invalid ''artifact URL'')
      else case validateNoControls ''artifact URL'' raw of
             Some e \<Rightarrow> Some e
           | None \<Rightarrow>
               (case gl_url g raw of
                  None \<Rightarrow> Some (Invalid ''artifact URL'')
                | Some u \<Rightarrow>
                    if url_Scheme u \<noteq> ''https'' \<or> url_Host u = [] then Some (Invalid ''artifact URL'')
                    else if url_HasUser u then Some (Invalid ''artifact URL userinfo'')
                    else fail_if (list_ex (\<lambda>key. list_ex (contains (to_lower (gl_lower g) key)) secret_query_words)
                                   (url_QueryKeys u)) (Invalid ''artifact URL query key'')))"

definition validatePathHint :: "string \<Rightarrow> mesh_error option" where
  "validatePathHint value =
     (if value = [] then None
      else if length (runes_of value) > maxPathRunes then Some (Invalid ''path_hint'')
      else case validateNoControls ''artifact path_hint'' value of
             Some e \<Rightarrow> Some e
           | None \<Rightarrow>
               if \<not> has_prefix ''~/'' value \<or> backslash \<in> set value then Some (Invalid ''path_hint'')
               else let rel = drop 2 value in
                 if rel = [] \<or> has_prefix ''/'' rel \<or> path_clean rel \<noteq> rel then Some (Invalid ''path_hint'')
                 else fail_if (list_ex (\<lambda>part. part = [] \<or> part = ''.'' \<or> part = ''..'') (split_at (CHR ''/'') rel))
                        (Invalid ''path_hint''))"

record ArtifactEnvelope =
  ae_SchemaVersion :: int
  ae_ID :: string
  ae_OriginDeviceID :: string
  ae_SourceID :: string
  ae_Kind :: ArtifactKind
  ae_Title :: string
  ae_State :: string
  ae_URL :: string
  ae_PathHint :: string
  ae_Repo :: "RepoRef option"
  ae_Session :: "RemoteSessionLocator option"
  ae_Provenance :: string
  ae_Revision :: string
  ae_SourceEpoch :: string
  ae_SourceRevision :: u64
  ae_RemoteObservedAt :: "time option"
  ae_ReceivedAt :: time
  ae_FreshnessChangedAt :: time
  ae_Freshness :: Freshness

definition artifact_source_check :: "ArtifactEnvelope \<Rightarrow> mesh_error option" where
  "artifact_source_check a =
     (if ae_OriginDeviceID a = [] then
        first_err [fail_if (ae_SourceID a \<noteq> [] \<and> ae_SourceID a \<noteq> ae_ID a) (Invalid ''source_id''),
                   fail_if (ae_SourceEpoch a \<noteq> [] \<or> ae_SourceRevision a \<noteq> 0) (Invalid ''source cursor'')]
      else
        first_err [validateID ''artifact origin_device_id'' (ae_OriginDeviceID a),
                   validateID ''artifact source_id'' (ae_SourceID a),
                   validateID ''artifact source_epoch'' (ae_SourceEpoch a),
                   fail_if (ae_SourceRevision a = 0) (Invalid ''source_revision'')])"

definition Artifact_Validate :: "golib \<Rightarrow> ArtifactEnvelope \<Rightarrow> mesh_error option" where
  "Artifact_Validate g a =
     first_err [fail_if (ae_SchemaVersion a \<noteq> SchemaVersion) (Invalid ''artifact schema version''),
                validateID ''artifact id'' (ae_ID a),
                artifact_source_check a,
                Kind_Validate (ae_Kind a),
                validateBounded ''title'' (ae_Title a) maxTitleRunes False,
                validateBounded ''state'' (ae_State a) maxStateRunes False,
                validateHTTPSURL g (ae_URL a),
                validatePathHint (ae_PathHint a),
                (case ae_Repo a of None \<Rightarrow> None | Some r \<Rightarrow> RepoRef_Validate r),
                (case ae_Session a of None \<Rightarrow> None | Some l \<Rightarrow> Locator_Validate l),
                validateBounded ''provenance'' (ae_Provenance a) 512 True,
                validateBounded ''revision'' (ae_Revision a) 512 False,
                fail_if (IsZero (ae_ReceivedAt a) \<or> IsZero (ae_FreshnessChangedAt a)) (Invalid ''timestamps''),
                (case ae_RemoteObservedAt a of None \<Rightarrow> None
                 | Some t \<Rightarrow> fail_if (IsZero t) (Invalid ''remote_observed_at'')),
                Freshness_Validate (ae_Freshness a)]"

section \<open>Peers and changes\<close>

record InventoryCursor =
  ic_SourceEpoch :: string
  ic_SourceRevision :: u64
  ic_CommittedAt :: time

definition Cursor_Validate :: "InventoryCursor \<Rightarrow> mesh_error option" where
  "Cursor_Validate c =
     first_err [validateID ''source_epoch'' (ic_SourceEpoch c),
                fail_if (ic_SourceRevision c = 0 \<or> IsZero (ic_CommittedAt c)) (Invalid ''cursor'')]"

record PeerState =
  ps_SchemaVersion :: int
  ps_DeviceID :: string
  ps_Freshness :: Freshness
  ps_SourceEpoch :: string
  ps_UpdatedAt :: time
  ps_SessionFreshness :: Freshness
  ps_SessionFreshnessChangedAt :: time
  ps_ArtifactFreshness :: Freshness
  ps_ArtifactFreshnessChangedAt :: time
  ps_DesiredTopics :: "string list"
  ps_Inventories :: "(string \<times> InventoryCursor) list"
  ps_SessionInventory :: "InventoryCursor option"
  ps_ArtifactInventory :: "InventoryCursor option"

definition validateInventoryFreshness :: "string \<Rightarrow> Freshness \<Rightarrow> time \<Rightarrow> mesh_error option" where
  "validateInventoryFreshness name freshness changedAt =
     (if freshness = NoFreshness then fail_if (\<not> IsZero changedAt) (Invalid name)
      else first_err [fail_if (freshness = FreshnessGone) (Invalid name),
                      Freshness_Validate freshness,
                      fail_if (IsZero changedAt) (Invalid name)])"

text \<open>The topic loop: every topic is safe and greater than the one before it.\<close>

fun topics_after :: "string option \<Rightarrow> string list \<Rightarrow> mesh_error option" where
  "topics_after prev [] = None"
| "topics_after prev (t # ts) =
     first_err [validateID ''desired topic'' t,
                (case prev of None \<Rightarrow> None | Some q \<Rightarrow> fail_if (q \<ge> t) (Invalid ''desired topics order'')),
                topics_after (Some t) ts]"

definition Peer_Validate :: "PeerState \<Rightarrow> mesh_error option" where
  "Peer_Validate p =
     first_err [fail_if (ps_SchemaVersion p \<noteq> SchemaVersion) (Invalid ''peer schema version''),
                validateID ''device_id'' (ps_DeviceID p),
                Freshness_Validate (ps_Freshness p),
                (if ps_SourceEpoch p \<noteq> [] then validateID ''source_epoch'' (ps_SourceEpoch p) else None),
                fail_if (IsZero (ps_UpdatedAt p)) (Invalid ''updated_at''),
                validateInventoryFreshness ''session'' (ps_SessionFreshness p) (ps_SessionFreshnessChangedAt p),
                validateInventoryFreshness ''artifact'' (ps_ArtifactFreshness p) (ps_ArtifactFreshnessChangedAt p),
                fail_if (length (ps_DesiredTopics p) > maxDesiredTopics) (Invalid ''desired topics''),
                topics_after None (ps_DesiredTopics p),
                first_err (map (\<lambda>(scope, cursor). first_err [ProfileScope_Validate scope, Cursor_Validate cursor])
                             (ps_Inventories p)),
                (case ps_SessionInventory p of None \<Rightarrow> None | Some c \<Rightarrow> Cursor_Validate c),
                (case ps_ArtifactInventory p of None \<Rightarrow> None | Some c \<Rightarrow> Cursor_Validate c)]"

record ResolvedSurfaceBinding =
  rb_Binding :: SurfaceBinding
  rb_Projection :: "RemoteSessionProjection option"
  rb_Peer :: "PeerState option"
  rb_PeerFreshness :: Freshness
  rb_EffectiveFreshness :: Freshness

datatype ChangeType = ChangeUpsert | ChangeDelete | ChangeFreshness | ChangeSnapshot | ChangeGap

datatype EntityType =
    EntityNone
  | EntityRemoteSession
  | EntitySurfaceBinding
  | EntityArtifact
  | EntityPeer
  | EntityInventory

record Change =
  ch_Sequence :: u64
  ch_Type :: ChangeType
  ch_Entity :: EntityType
  ch_Key :: string
  ch_At :: time

end
