(* ===== verification/Mesh_View.thy ===== *)
theory Mesh_View
  imports Mesh_Types
begin

text \<open>
  What a reader is told about a stored record (\<open>internal/meshstate/session_inventory.go\<close> from
  \<open>sameCursor\<close> on, and \<open>artifact_inventory.go\<close>, \<open>effectiveArtifact\<close>): the freshness in the file is
  overridden by the peer's committed cursor and inventory freshness. Sessions and artifacts follow
  the same rule, stated once as the locale \<open>inventory_view\<close>.
\<close>

definition sameCursor :: "InventoryCursor option \<Rightarrow> string \<Rightarrow> u64 \<Rightarrow> bool" where
  "sameCursor cursor epoch revision =
     (case cursor of None \<Rightarrow> False
      | Some c \<Rightarrow> ic_SourceEpoch c = epoch \<and> ic_SourceRevision c = revision)"

definition sessionInventoryFreshness :: "PeerState \<Rightarrow> Freshness \<times> time" where
  "sessionInventoryFreshness peer =
     (if ps_SessionFreshness peer \<noteq> NoFreshness
      then (ps_SessionFreshness peer, ps_SessionFreshnessChangedAt peer)
      else if ps_SessionInventory peer \<noteq> None \<or> ps_Inventories peer \<noteq> []
      then (ps_Freshness peer, ps_UpdatedAt peer)
      else (FreshnessStale, ps_UpdatedAt peer))"

definition artifactInventoryFreshness :: "PeerState \<Rightarrow> Freshness \<times> time" where
  "artifactInventoryFreshness peer =
     (if ps_ArtifactFreshness peer \<noteq> NoFreshness
      then (ps_ArtifactFreshness peer, ps_ArtifactFreshnessChangedAt peer)
      else if ps_ArtifactInventory peer \<noteq> None then (ps_Freshness peer, ps_UpdatedAt peer)
      else (FreshnessStale, ps_UpdatedAt peer))"

definition setEffectiveSessionFreshness ::
  "RemoteSessionProjection \<Rightarrow> Freshness \<Rightarrow> time \<Rightarrow> RemoteSessionProjection" where
  "setEffectiveSessionFreshness p f changedAt =
     (if rp_Freshness p \<noteq> f then p\<lparr>rp_Freshness := f, rp_FreshnessChangedAt := changedAt\<rparr> else p)"

definition setEffectiveArtifactFreshness :: "ArtifactEnvelope \<Rightarrow> Freshness \<Rightarrow> time \<Rightarrow> ArtifactEnvelope" where
  "setEffectiveArtifactFreshness a f changedAt =
     (if ae_Freshness a \<noteq> f then a\<lparr>ae_Freshness := f, ae_FreshnessChangedAt := changedAt\<rparr> else a)"

definition session_committed :: "PeerState \<Rightarrow> RemoteSessionProjection \<Rightarrow> bool" where
  "session_committed peer p =
     (if ps_SessionInventory peer \<noteq> None
      then sameCursor (ps_SessionInventory peer) (rp_SourceEpoch p) (rp_SourceRevision p)
      else case map_of (ps_Inventories peer) (loc_ProfileScope (rp_Locator p)) of
             None \<Rightarrow> False
           | Some c \<Rightarrow> ic_SourceEpoch c = rp_SourceEpoch p \<and> ic_SourceRevision c = rp_SourceRevision p)"

definition effectiveSessionProjection ::
  "RemoteSessionProjection \<Rightarrow> PeerState option \<Rightarrow> RemoteSessionProjection" where
  "effectiveSessionProjection p peer_ptr =
     (case peer_ptr of
        None \<Rightarrow> p\<lparr>rp_Freshness := FreshnessStale\<rparr>
      | Some peer \<Rightarrow>
          let (inventoryFreshness, changedAt) = sessionInventoryFreshness peer in
          if \<not> session_committed peer p then
            if inventoryFreshness = FreshnessStale
            then setEffectiveSessionFreshness p FreshnessStale changedAt
            else setEffectiveSessionFreshness p FreshnessSyncing changedAt
          else if rp_Freshness p = FreshnessGone then p
          else case inventoryFreshness of
                 FreshnessStale \<Rightarrow> setEffectiveSessionFreshness p FreshnessStale changedAt
               | FreshnessSyncing \<Rightarrow> setEffectiveSessionFreshness p FreshnessSyncing changedAt
               | _ \<Rightarrow> p)"

definition artifact_committed :: "PeerState \<Rightarrow> ArtifactEnvelope \<Rightarrow> bool" where
  "artifact_committed peer a = sameCursor (ps_ArtifactInventory peer) (ae_SourceEpoch a) (ae_SourceRevision a)"

definition effectiveArtifact :: "ArtifactEnvelope \<Rightarrow> PeerState option \<Rightarrow> ArtifactEnvelope" where
  "effectiveArtifact a peer_ptr =
     (if ae_OriginDeviceID a = [] then a
      else case peer_ptr of
        None \<Rightarrow> a\<lparr>ae_Freshness := FreshnessStale\<rparr>
      | Some peer \<Rightarrow>
          let (inventoryFreshness, changedAt) = artifactInventoryFreshness peer in
          if \<not> artifact_committed peer a then
            if inventoryFreshness = FreshnessStale
            then setEffectiveArtifactFreshness a FreshnessStale changedAt
            else setEffectiveArtifactFreshness a FreshnessSyncing changedAt
          else if ae_Freshness a = FreshnessGone then a
          else case inventoryFreshness of
                 FreshnessStale \<Rightarrow> setEffectiveArtifactFreshness a FreshnessStale changedAt
               | FreshnessSyncing \<Rightarrow> setEffectiveArtifactFreshness a FreshnessSyncing changedAt
               | _ \<Rightarrow> a)"

text \<open>The loop over the two topic states, with the flags it has collected.\<close>

fun recompute_from :: "bool \<Rightarrow> bool \<Rightarrow> Freshness list \<Rightarrow> PeerState \<Rightarrow> PeerState" where
  "recompute_from hasFresh hasStale [] peer =
     (if hasStale then peer\<lparr>ps_Freshness := FreshnessStale\<rparr>
      else if hasFresh then peer\<lparr>ps_Freshness := FreshnessFresh\<rparr> else peer)"
| "recompute_from hasFresh hasStale (st # sts) peer =
     (case st of
        FreshnessSyncing \<Rightarrow> peer\<lparr>ps_Freshness := FreshnessSyncing\<rparr>
      | FreshnessStale \<Rightarrow> recompute_from hasFresh True sts peer
      | FreshnessFresh \<Rightarrow> recompute_from True hasStale sts peer
      | _ \<Rightarrow> recompute_from hasFresh hasStale sts peer)"

definition recomputePeerFreshness :: "PeerState \<Rightarrow> PeerState" where
  "recomputePeerFreshness peer =
     recompute_from False False [ps_SessionFreshness peer, ps_ArtifactFreshness peer] peer"

lemma recompute_keeps [simp]:
  "ps_SessionFreshness (recomputePeerFreshness p) = ps_SessionFreshness p"
  "ps_SessionFreshnessChangedAt (recomputePeerFreshness p) = ps_SessionFreshnessChangedAt p"
  "ps_ArtifactFreshness (recomputePeerFreshness p) = ps_ArtifactFreshness p"
  "ps_ArtifactFreshnessChangedAt (recomputePeerFreshness p) = ps_ArtifactFreshnessChangedAt p"
  "ps_SessionInventory (recomputePeerFreshness p) = ps_SessionInventory p"
  "ps_ArtifactInventory (recomputePeerFreshness p) = ps_ArtifactInventory p"
  "ps_Inventories (recomputePeerFreshness p) = ps_Inventories p"
  "ps_DeviceID (recomputePeerFreshness p) = ps_DeviceID p"
  "ps_SchemaVersion (recomputePeerFreshness p) = ps_SchemaVersion p"
  "ps_DesiredTopics (recomputePeerFreshness p) = ps_DesiredTopics p"
  "ps_SourceEpoch (recomputePeerFreshness p) = ps_SourceEpoch p"
  "ps_UpdatedAt (recomputePeerFreshness p) = ps_UpdatedAt p"
  by (simp_all add: recomputePeerFreshness_def split: Freshness.split)

text \<open>The peer's overall freshness: syncing while a topic is, stale once one is, else fresh.\<close>

lemma recompute_summary:
  "ps_Freshness (recomputePeerFreshness p) =
     (let fs = {ps_SessionFreshness p, ps_ArtifactFreshness p} in
      if FreshnessSyncing \<in> fs then FreshnessSyncing
      else if FreshnessStale \<in> fs then FreshnessStale
      else if FreshnessFresh \<in> fs then FreshnessFresh else ps_Freshness p)"
  by (cases "ps_SessionFreshness p"; cases "ps_ArtifactFreshness p")
     (simp_all add: recomputePeerFreshness_def Let_def)

section \<open>The visibility rule\<close>

text \<open>
  The contract of a read view over a peer's inventory: a record is told stale without a peer,
  syncing or stale while its cursor is not the committed one, and otherwise as stored unless the
  whole inventory is syncing or stale.
\<close>

locale inventory_view =
  fixes fresh_of :: "'r \<Rightarrow> Freshness"
    and committed :: "PeerState \<Rightarrow> 'r \<Rightarrow> bool"
    and inv_fresh :: "PeerState \<Rightarrow> Freshness"
    and effective :: "'r \<Rightarrow> PeerState option \<Rightarrow> 'r"
    and remote :: "'r \<Rightarrow> bool"
  assumes no_peer: "remote r \<Longrightarrow> fresh_of (effective r None) = FreshnessStale"
    and uncommitted: "remote r \<Longrightarrow> \<not> committed peer r \<Longrightarrow> fresh_of (effective r (Some peer)) =
        (if inv_fresh peer = FreshnessStale then FreshnessStale else FreshnessSyncing)"
    and committed_gone: "remote r \<Longrightarrow> committed peer r \<Longrightarrow> fresh_of r = FreshnessGone \<Longrightarrow>
        effective r (Some peer) = r"
    and committed_live: "remote r \<Longrightarrow> committed peer r \<Longrightarrow> fresh_of r \<noteq> FreshnessGone \<Longrightarrow>
        fresh_of (effective r (Some peer)) =
          (if inv_fresh peer = FreshnessStale \<or> inv_fresh peer = FreshnessSyncing then inv_fresh peer else fresh_of r)"
    and settled: "remote r \<Longrightarrow> fresh_of (effective r p) = fresh_of r \<Longrightarrow> effective r p = r"
begin

text \<open>Fresh and gone are told only of a record that carries the committed cursor, as it is stored.\<close>

lemma settled_committed:
  assumes "remote r" "fresh_of (effective r p) = FreshnessFresh \<or> fresh_of (effective r p) = FreshnessGone"
  obtains peer where "p = Some peer" "committed peer r" "fresh_of (effective r p) = fresh_of r" "effective r p = r"
proof (cases p)
  case None
  with assms no_peer [of r] show ?thesis by auto
next
  case (Some peer)
  have c: "committed peer r"
    by (rule ccontr) (use assms uncommitted [of r peer] Some in \<open>auto split: if_splits\<close>)
  have "fresh_of (effective r p) = fresh_of r"
    using assms c Some committed_gone [of r peer] committed_live [of r peer]
    by (cases "fresh_of r = FreshnessGone") (auto split: if_splits)
  with that [of peer] Some c settled [OF assms(1)] show ?thesis by blast
qed

lemma fresh_inventory:
  assumes "remote r" "fresh_of (effective r (Some peer)) = FreshnessFresh"
  shows "inv_fresh peer \<noteq> FreshnessStale \<and> inv_fresh peer \<noteq> FreshnessSyncing"
  using settled_committed [OF assms(1) disjI1 [OF assms(2)]] committed_live [OF assms(1), of peer] assms(2)
  by (metis Freshness.distinct(1,9,11) option.inject)

lemma unsettled_inventory:
  assumes "remote r" "inv_fresh peer = FreshnessSyncing \<or> inv_fresh peer = FreshnessStale"
  shows "fresh_of (effective r (Some peer)) \<noteq> FreshnessFresh"
  using fresh_inventory [OF assms(1)] assms(2) by blast

lemma stale_inventory:
  assumes "remote r" "inv_fresh peer = FreshnessStale"
  shows "fresh_of (effective r (Some peer)) = FreshnessStale
    \<or> fresh_of (effective r (Some peer)) = FreshnessGone \<and> committed peer r"
  using assms uncommitted [of r peer] committed_gone [of r peer] committed_live [of r peer]
  by (cases "committed peer r"; cases "fresh_of r = FreshnessGone") auto

end

lemma setEffectiveSessionFreshness_same:
  "rp_Freshness (setEffectiveSessionFreshness p f t) = rp_Freshness p \<Longrightarrow> setEffectiveSessionFreshness p f t = p"
  by (cases "rp_Freshness p = f") (simp_all add: setEffectiveSessionFreshness_def)

lemma setEffectiveArtifactFreshness_same:
  "ae_Freshness (setEffectiveArtifactFreshness a f t) = ae_Freshness a \<Longrightarrow> setEffectiveArtifactFreshness a f t = a"
  by (cases "ae_Freshness a = f") (simp_all add: setEffectiveArtifactFreshness_def)

lemma effectiveSessionProjection_cases:
  "effectiveSessionProjection p (Some peer) = p
   \<or> (\<exists>f t. effectiveSessionProjection p (Some peer) = setEffectiveSessionFreshness p f t)"
  by (cases "sessionInventoryFreshness peer"; cases "fst (sessionInventoryFreshness peer)")
     (auto simp: effectiveSessionProjection_def)

lemma effectiveArtifact_cases:
  "effectiveArtifact a (Some peer) = a
   \<or> (\<exists>f t. effectiveArtifact a (Some peer) = setEffectiveArtifactFreshness a f t)"
proof (cases "artifactInventoryFreshness peer")
  case (Pair f t)
  then have "effectiveArtifact a (Some peer) \<in> {a, setEffectiveArtifactFreshness a FreshnessStale t,
      setEffectiveArtifactFreshness a FreshnessSyncing t}"
    by (cases f) (simp_all add: effectiveArtifact_def)
  then show ?thesis by blast
qed

interpretation session_view: inventory_view rp_Freshness session_committed
  "\<lambda>peer. fst (sessionInventoryFreshness peer)" effectiveSessionProjection "\<lambda>_. True"
proof (unfold_locales, goal_cases)
  case (2 r peer)
  then show ?case
    by (cases "sessionInventoryFreshness peer") (simp add: effectiveSessionProjection_def setEffectiveSessionFreshness_def)
next
  case (4 r peer)
  then show ?case
    by (cases "sessionInventoryFreshness peer"; cases "fst (sessionInventoryFreshness peer)")
       (simp_all add: effectiveSessionProjection_def setEffectiveSessionFreshness_def)
next
  case (5 r p)
  show ?case
  proof (cases p)
    case None
    with 5 show ?thesis by (cases r) (auto simp: effectiveSessionProjection_def)
  next
    case (Some peer)
    with 5 effectiveSessionProjection_cases [of r peer] setEffectiveSessionFreshness_same [of r] show ?thesis by auto
  qed
qed (simp_all add: effectiveSessionProjection_def split_beta)

interpretation artifact_view: inventory_view ae_Freshness artifact_committed
  "\<lambda>peer. fst (artifactInventoryFreshness peer)" effectiveArtifact "\<lambda>a. ae_OriginDeviceID a \<noteq> []"
proof (unfold_locales, goal_cases)
  case (2 r peer)
  then show ?case
    by (cases "artifactInventoryFreshness peer") (simp add: effectiveArtifact_def setEffectiveArtifactFreshness_def)
next
  case (4 r peer)
  then show ?case
    by (cases "artifactInventoryFreshness peer"; cases "fst (artifactInventoryFreshness peer)")
       (simp_all add: effectiveArtifact_def setEffectiveArtifactFreshness_def)
next
  case (5 r p)
  show ?case
  proof (cases p)
    case None
    with 5 show ?thesis by (cases r) (auto simp: effectiveArtifact_def)
  next
    case (Some peer)
    with 5 effectiveArtifact_cases [of r peer] setEffectiveArtifactFreshness_same [of r] show ?thesis by auto
  qed
qed (simp_all add: effectiveArtifact_def split_beta)

section \<open>The revision gate\<close>

text \<open>
  Before a batch is written its cursor passes a gate: it must not be one the peer already has. The
  gate therefore keeps a batch whose peer document was not written out of sight.
\<close>

definition stale_session_cursor :: "string \<Rightarrow> u64 \<Rightarrow> PeerState \<Rightarrow> bool" where
  "stale_session_cursor epoch revision peer =
     (case ps_SessionInventory peer of
        Some c \<Rightarrow> ic_SourceEpoch c = epoch \<and> revision \<le> ic_SourceRevision c
      | None \<Rightarrow> list_ex (\<lambda>(_, c). ic_SourceEpoch c = epoch \<and> revision \<le> ic_SourceRevision c) (ps_Inventories peer))"

definition stale_artifact_cursor :: "string \<Rightarrow> u64 \<Rightarrow> PeerState \<Rightarrow> bool" where
  "stale_artifact_cursor epoch revision peer =
     (case ps_ArtifactInventory peer of
        Some c \<Rightarrow> ic_SourceEpoch c = epoch \<and> revision \<le> ic_SourceRevision c
      | None \<Rightarrow> False)"

locale gated_view = inventory_view +
  fixes epoch_of :: "'a \<Rightarrow> string" and revision_of :: "'a \<Rightarrow> u64"
    and stale :: "string \<Rightarrow> u64 \<Rightarrow> PeerState \<Rightarrow> bool"
  assumes gate: "committed peer r \<Longrightarrow> stale (epoch_of r) (revision_of r) peer"
begin

lemma new_batch_invisible:
  assumes "remote r" "\<not> stale (epoch_of r) (revision_of r) peer"
  shows "fresh_of (effective r (Some peer)) \<noteq> FreshnessFresh \<and> fresh_of (effective r (Some peer)) \<noteq> FreshnessGone"
  using settled_committed [OF assms(1), of "Some peer"] gate [of peer r] assms(2) by blast

lemma unsettled_without_peer:
  assumes "remote r"
  shows "fresh_of (effective r None) \<noteq> FreshnessFresh \<and> fresh_of (effective r None) \<noteq> FreshnessGone"
  using no_peer [OF assms] by simp

end

interpretation session_gate: gated_view rp_Freshness session_committed
  "\<lambda>peer. fst (sessionInventoryFreshness peer)" effectiveSessionProjection "\<lambda>_. True"
  rp_SourceEpoch rp_SourceRevision stale_session_cursor
proof (unfold_locales, goal_cases)
  case (1 peer r)
  then show ?case
    by (cases "ps_SessionInventory peer")
       (fastforce simp: session_committed_def stale_session_cursor_def sameCursor_def list_ex_iff
         split: option.splits dest!: map_of_SomeD)+
qed

interpretation artifact_gate: gated_view ae_Freshness artifact_committed
  "\<lambda>peer. fst (artifactInventoryFreshness peer)" effectiveArtifact "\<lambda>a. ae_OriginDeviceID a \<noteq> []"
  ae_SourceEpoch ae_SourceRevision stale_artifact_cursor
  by unfold_locales (auto simp: artifact_committed_def stale_artifact_cursor_def sameCursor_def split: option.splits)

end
