(* ===== verification/Mesh_Store.thy ===== *)
theory Mesh_Store
  imports Mesh_View "HOL-Library.Product_Lexorder"
begin

text \<open>
  The durable store (\<open>internal/meshstate/store.go\<close>). Its state is what the process keeps (the
  watchers and their sequence numbers) and what the directory tree holds: one collection of files
  per kind of document, each file under its path of segments below the root. Every public method
  runs under the store's mutex, so it is one operation on this state.

  A file holds a document, or it is damaged: not decodable, readable by others, or not a regular
  file. \<open>writeJSONLocked\<close> writes a temporary file and renames it, so a write either replaces the
  document or changes nothing; which writes fail is chosen by \<open>st_faults\<close>, one flag per write.
  Document types are read back as \<open>encoding/json\<close> stores them: free text with invalid bytes
  replaced, raw metadata re-indented.
\<close>

type_synonym path = "string list"
type_synonym 'a dir = "(path \<times> 'a fnode) list"

record watcher =
  wa_cap :: nat
  wa_queue :: "Change list"

record store =
  st_sessions :: "RemoteSessionProjection dir"
  st_bindings :: "SurfaceBinding dir"
  st_artifacts :: "ArtifactEnvelope dir"
  st_remote_artifacts :: "ArtifactEnvelope dir"
  st_peers :: "PeerState dir"
  st_now :: time
  st_watchers :: "(u64 \<times> watcher) list"
  st_nextWatcherID :: u64
  st_changeSeq :: u64
  st_faults :: "bool list"

type_synonym 'a sop = "(store, mesh_error, 'a) op"

section \<open>Watchers\<close>

definition Watch :: "int \<Rightarrow> store \<Rightarrow> store \<times> u64" where
  "Watch buffer s =
     (let buffer = (if buffer < 1 then 1 else buffer);
          wid = st_nextWatcherID s + 1
      in (s\<lparr>st_nextWatcherID := wid,
            st_watchers := AList.update wid \<lparr>wa_cap = nat buffer, wa_queue = []\<rparr> (st_watchers s)\<rparr>, wid))"

definition cancel_watch :: "u64 \<Rightarrow> store \<Rightarrow> store" where
  "cancel_watch wid s = s\<lparr>st_watchers := AList.delete wid (st_watchers s)\<rparr>"

text \<open>A send that does not block: the queue, and whether the event was taken.\<close>

definition drainChannel :: "watcher \<Rightarrow> watcher" where
  "drainChannel w = w\<lparr>wa_queue := []\<rparr>"

definition try_send :: "Change \<Rightarrow> watcher \<Rightarrow> watcher \<times> bool" where
  "try_send ev w =
     (if length (wa_queue w) < wa_cap w then (w\<lparr>wa_queue := wa_queue w @ [ev]\<rparr>, True) else (w, False))"

definition deliver :: "Change \<Rightarrow> time \<Rightarrow> watcher \<Rightarrow> watcher" where
  "deliver ev now w =
     (case try_send ev w of
        (w', True) \<Rightarrow> w'
      | (w', False) \<Rightarrow>
          fst (try_send \<lparr>ch_Sequence = ch_Sequence ev, ch_Type = ChangeGap, ch_Entity = EntityNone,
                         ch_Key = [], ch_At = now\<rparr> (drainChannel w')))"

definition publishLocked :: "ChangeType \<Rightarrow> EntityType \<Rightarrow> string \<Rightarrow> store \<Rightarrow> store" where
  "publishLocked kind entity key s =
     (let sq = st_changeSeq s + 1;
          ev = \<lparr>ch_Sequence = sq, ch_Type = kind, ch_Entity = entity, ch_Key = key, ch_At = st_now s\<rparr>
      in s\<lparr>st_changeSeq := sq,
           st_watchers := map (\<lambda>(wid, w). (wid, deliver ev (st_now s) w)) (st_watchers s)\<rparr>)"

abbreviation publish :: "ChangeType \<Rightarrow> EntityType \<Rightarrow> string \<Rightarrow> unit sop" where
  "publish kind entity key \<equiv> mod_op (publishLocked kind entity key)"

section \<open>Paths and files\<close>

text \<open>
  A path below the root is its segments. Safe segments contain no separator and are not dots, so
  joining them to the root cannot leave it.
\<close>

definition store_path :: "string list \<Rightarrow> mesh_error + path" where
  "store_path segments =
     (if list_ex unsafe_segment segments then Inl (Invalid ''unsafe mesh state path segment'')
      else Inr segments)"

definition remoteSessionPath :: "RemoteSessionLocator \<Rightarrow> mesh_error + path" where
  "remoteSessionPath l =
     store_path [''remote-sessions'', loc_DeviceID l, loc_ProfileScope l, loc_SessionID l @ ''.json'']"

definition surfaceBindingPath :: "string \<Rightarrow> mesh_error + path" where
  "surfaceBindingPath surfaceID = store_path [''surface-bindings'', ''cmux'', surfaceID @ ''.json'']"

definition artifactPath :: "ArtifactKind \<Rightarrow> string \<Rightarrow> mesh_error + path" where
  "artifactPath kind aid = store_path [''artifacts'', kind_string kind, aid @ ''.json'']"

definition remoteArtifactPath :: "string \<Rightarrow> ArtifactKind \<Rightarrow> string \<Rightarrow> mesh_error + path" where
  "remoteArtifactPath origin kind sourceID =
     store_path [''remote-artifacts'', origin, kind_string kind, sourceID @ ''.json'']"

definition peerPath :: "string \<Rightarrow> mesh_error + path" where
  "peerPath deviceID = store_path [''peers'', deviceID @ ''.json'']"

definition readJSONFile :: "'a dir \<Rightarrow> path \<Rightarrow> mesh_error + 'a" where
  "readJSONFile d p =
     (case map_of d p of
        None \<Rightarrow> Inl ErrNotFound
      | Some (File x) \<Rightarrow> Inr x
      | Some Undecodable \<Rightarrow> Inl (IOFailure ''decode'')
      | Some TooOpen \<Rightarrow> Inl (IOFailure ''permissions'')
      | Some NotRegular \<Rightarrow> Inl (IOFailure ''not a regular file''))"

definition next_fault :: "store \<Rightarrow> store \<times> bool" where
  "next_fault s = (case st_faults s of [] \<Rightarrow> (s, False) | f # fs \<Rightarrow> (s\<lparr>st_faults := fs\<rparr>, f))"

definition writeJSONLocked ::
  "(store \<Rightarrow> 'a dir) \<Rightarrow> (('a dir \<Rightarrow> 'a dir) \<Rightarrow> store \<Rightarrow> store) \<Rightarrow> path \<Rightarrow> 'a \<Rightarrow> unit sop" where
  "writeJSONLocked get upd p doc s =
     (case next_fault s of
        (s', True) \<Rightarrow> (s', Inl (IOFailure ''write''))
      | (s', False) \<Rightarrow>
          if map_of (get s') p = Some NotRegular then (s', Inl (IOFailure ''not a regular file''))
          else (upd (AList.update p (File doc)) s', Inr ()))"

definition removeRegularFile ::
  "(store \<Rightarrow> 'a dir) \<Rightarrow> (('a dir \<Rightarrow> 'a dir) \<Rightarrow> store \<Rightarrow> store) \<Rightarrow> path \<Rightarrow> unit sop" where
  "removeRegularFile get upd p s =
     (case map_of (get s) p of
        None \<Rightarrow> (s, Inl ErrNotFound)
      | Some NotRegular \<Rightarrow> (s, Inl (IOFailure ''not a regular file''))
      | Some _ \<Rightarrow>
          (case next_fault s of
             (s', True) \<Rightarrow> (s', Inl (IOFailure ''remove''))
           | (s', False) \<Rightarrow> (upd (AList.delete p) s', Inr ())))"

text \<open>
  The walk below a collection root: every file lies at the given depth and is named \<open>*.json\<close>,
  otherwise the walk fails.
\<close>

definition collectJSONFiles :: "nat \<Rightarrow> 'a dir \<Rightarrow> mesh_error + path list" where
  "collectJSONFiles depth d =
     (if list_all (\<lambda>(p, _). length p = depth \<and> has_suffix ''.json'' (last p)) d
      then Inr (sort_key (join_with ''/'') (map fst d))
      else Inl (IOFailure ''unexpected mesh state file''))"

section \<open>Documents as stored\<close>

definition projection_stored :: "RemoteSessionProjection \<Rightarrow> RemoteSessionProjection" where
  "projection_stored p = p\<lparr>rp_Metadata := raw_stored (rp_Metadata p)\<rparr>"

definition binding_stored :: "SurfaceBinding \<Rightarrow> SurfaceBinding" where
  "binding_stored b = b\<lparr>sb_Source := to_valid_utf8 (sb_Source b)\<rparr>"

definition artifact_stored :: "ArtifactEnvelope \<Rightarrow> ArtifactEnvelope" where
  "artifact_stored a =
     a\<lparr>ae_Title := to_valid_utf8 (ae_Title a), ae_State := to_valid_utf8 (ae_State a),
       ae_URL := to_valid_utf8 (ae_URL a), ae_PathHint := to_valid_utf8 (ae_PathHint a),
       ae_Provenance := to_valid_utf8 (ae_Provenance a), ae_Revision := to_valid_utf8 (ae_Revision a),
       ae_Repo := map_option (\<lambda>r. r\<lparr>rr_Ref := to_valid_utf8 (rr_Ref r)\<rparr>) (ae_Repo a)\<rparr>"

section \<open>Peers\<close>

definition getPeerLocked :: "store \<Rightarrow> string \<Rightarrow> mesh_error + PeerState" where
  "getPeerLocked s deviceID =
     bind_res (peerPath deviceID) (\<lambda>file.
     bind_res (readJSONFile (st_peers s) file) (\<lambda>peer.
     check_res (Peer_Validate peer)
       (if ps_DeviceID peer \<noteq> deviceID then Inl (Invalid ''stored peer does not match path'') else Inr peer)))"

text \<open>The callers' reading of it: a peer that was never seen is no error.\<close>

definition lookup_peer :: "store \<Rightarrow> string \<Rightarrow> mesh_error + PeerState option" where
  "lookup_peer s deviceID =
     (case getPeerLocked s deviceID of
        Inr peer \<Rightarrow> Inr (Some peer)
      | Inl ErrNotFound \<Rightarrow> Inr None
      | Inl e \<Rightarrow> Inl e)"

definition new_peer :: "string \<Rightarrow> PeerState" where
  "new_peer deviceID =
     \<lparr>ps_SchemaVersion = SchemaVersion, ps_DeviceID = deviceID, ps_Freshness = NoFreshness,
      ps_SourceEpoch = [], ps_UpdatedAt = 0, ps_SessionFreshness = NoFreshness,
      ps_SessionFreshnessChangedAt = 0, ps_ArtifactFreshness = NoFreshness,
      ps_ArtifactFreshnessChangedAt = 0, ps_DesiredTopics = [], ps_Inventories = [],
      ps_SessionInventory = None, ps_ArtifactInventory = None\<rparr>"

definition peer_or_new :: "string \<Rightarrow> PeerState option \<Rightarrow> PeerState" where
  "peer_or_new deviceID p = (case p of None \<Rightarrow> new_peer deviceID | Some peer \<Rightarrow> peer)"

definition writePeerLocked :: "PeerState \<Rightarrow> unit sop" where
  "writePeerLocked peer =
     seq_op (check_op (Peer_Validate peer))
       (bind_op (lift_op (peerPath (ps_DeviceID peer))) (\<lambda>file.
          writeJSONLocked st_peers st_peers_update file peer))"

definition GetPeer :: "string \<Rightarrow> store \<Rightarrow> mesh_error + PeerState" where
  "GetPeer deviceID s = check_res (validateID ''device_id'' deviceID) (getPeerLocked s deviceID)"

definition ListPeers :: "store \<Rightarrow> mesh_error + PeerState list" where
  "ListPeers s =
     bind_res (collectJSONFiles 2 (st_peers s)) (\<lambda>files.
     bind_res (map_res (\<lambda>file.
        bind_res (readJSONFile (st_peers s) file) (\<lambda>peer.
        check_res (Peer_Validate peer)
          (if peerPath (ps_DeviceID peer) \<noteq> Inr file then Inl (Invalid ''peer/path mismatch'') else Inr peer))) files)
       (\<lambda>out. Inr (sort_key ps_DeviceID out)))"

fun unique_topics :: "string list \<Rightarrow> string list \<Rightarrow> mesh_error + string list" where
  "unique_topics canonical [] = Inr canonical"
| "unique_topics canonical (t # ts) =
     check_res (validateID ''desired topic'' t)
       (unique_topics (if t \<in> set canonical then canonical else canonical @ [t]) ts)"

definition SetDesiredTopics :: "string \<Rightarrow> string list \<Rightarrow> unit sop" where
  "SetDesiredTopics deviceID topics =
     seq_op (check_op (validateID ''device_id'' deviceID))
    (seq_op (check_op (fail_if (length topics > maxDesiredTopics) (Invalid ''desired topics'')))
    (bind_op (lift_op (unique_topics [] topics)) (\<lambda>unique.
       let canonical = sort unique in
       bind_op (read_op (\<lambda>s. lookup_peer s deviceID)) (\<lambda>found.
         if found = None \<and> canonical = [] then ret_op ()
         else bind_op (get_op st_now) (\<lambda>now.
           let peer = (case found of Some peer \<Rightarrow> peer
                       | None \<Rightarrow> (new_peer deviceID)\<lparr>ps_Freshness := FreshnessStale, ps_UpdatedAt := now\<rparr>)
           in if ps_DesiredTopics peer = canonical then ret_op ()
              else seq_op (writePeerLocked (peer\<lparr>ps_DesiredTopics := canonical\<rparr>))
                     (publish ChangeUpsert EntityPeer deviceID))))))"

definition DesiredTopics :: "string \<Rightarrow> store \<Rightarrow> mesh_error + string list" where
  "DesiredTopics deviceID s =
     check_res (validateID ''device_id'' deviceID)
       (bind_res (getPeerLocked s deviceID) (\<lambda>peer. Inr (ps_DesiredTopics peer)))"

section \<open>Remote sessions\<close>

definition getRemoteSessionLocked :: "golib \<Rightarrow> store \<Rightarrow> RemoteSessionLocator \<Rightarrow> mesh_error + RemoteSessionProjection" where
  "getRemoteSessionLocked g s locator =
     bind_res (remoteSessionPath locator) (\<lambda>file.
     bind_res (readJSONFile (st_sessions s) file) (\<lambda>projection.
     check_res (Projection_Validate g projection)
     (if \<not> EqualIdentity (rp_Locator projection) locator
      then Inl (Invalid ''stored projection locator does not match path'')
      else bind_res (lookup_peer s (loc_DeviceID locator)) (\<lambda>peer.
        Inr (effectiveSessionProjection projection peer)))))"

definition GetRemoteSession :: "golib \<Rightarrow> RemoteSessionLocator \<Rightarrow> store \<Rightarrow> mesh_error + RemoteSessionProjection" where
  "GetRemoteSession g locator s = check_res (Locator_Validate locator) (getRemoteSessionLocked g s locator)"

definition read_session :: "golib \<Rightarrow> store \<Rightarrow> path \<Rightarrow> mesh_error + RemoteSessionProjection" where
  "read_session g s file =
     bind_res (readJSONFile (st_sessions s) file) (\<lambda>projection.
     check_res (Projection_Validate g projection)
       (if remoteSessionPath (rp_Locator projection) \<noteq> Inr file
        then Inl (Invalid ''projection locator/path mismatch'') else Inr projection))"

definition listRemoteSessionsLocked :: "golib \<Rightarrow> store \<Rightarrow> string \<Rightarrow> string \<Rightarrow> mesh_error + RemoteSessionProjection list" where
  "listRemoteSessionsLocked g s deviceID scope =
     bind_res (collectJSONFiles 4 (st_sessions s)) (\<lambda>files.
     bind_res (map_res (read_session g s) files) (\<lambda>all.
     Inr (sort_key (identityKey \<circ> rp_Locator)
       (filter (\<lambda>p. (deviceID = [] \<or> loc_DeviceID (rp_Locator p) = deviceID)
                   \<and> (scope = [] \<or> loc_ProfileScope (rp_Locator p) = scope)) all))))"

definition ListRemoteSessions :: "golib \<Rightarrow> string \<Rightarrow> string \<Rightarrow> store \<Rightarrow> mesh_error + RemoteSessionProjection list" where
  "ListRemoteSessions g deviceID scope s =
     check_res (if deviceID \<noteq> [] then validateID ''device_id'' deviceID else None)
    (check_res (if scope \<noteq> [] then ProfileScope_Validate scope else None)
    (bind_res (listRemoteSessionsLocked g s deviceID scope)
       (map_res (\<lambda>p. bind_res (lookup_peer s (loc_DeviceID (rp_Locator p)))
                    (\<lambda>peer. Inr (effectiveSessionProjection p peer))))))"

definition writeRemoteSessionLocked :: "golib \<Rightarrow> RemoteSessionProjection \<Rightarrow> unit sop" where
  "writeRemoteSessionLocked g projection =
     seq_op (check_op (Projection_Validate g projection))
       (bind_op (lift_op (remoteSessionPath (rp_Locator projection))) (\<lambda>file.
          writeJSONLocked st_sessions st_sessions_update file (projection_stored projection)))"

section \<open>Artifacts\<close>

definition artifactRemoteIdentity :: "ArtifactEnvelope \<Rightarrow> string" where
  "artifactRemoteIdentity a = ae_OriginDeviceID a @ ''/'' @ kind_string (ae_Kind a) @ ''/'' @ ae_SourceID a"

text \<open>Local artifacts of the first schema lack source identity and freshness; a reader fills them in.\<close>

definition normalize_artifact :: "ArtifactEnvelope \<Rightarrow> ArtifactEnvelope" where
  "normalize_artifact a =
     (if ae_OriginDeviceID a = [] then
        let a = (if ae_SourceID a = [] then a\<lparr>ae_SourceID := ae_ID a\<rparr> else a);
            a = (if ae_Freshness a = NoFreshness then a\<lparr>ae_Freshness := FreshnessFresh\<rparr> else a)
        in if IsZero (ae_FreshnessChangedAt a) then a\<lparr>ae_FreshnessChangedAt := ae_ReceivedAt a\<rparr> else a
      else a)"

definition readArtifactFile :: "golib \<Rightarrow> ArtifactEnvelope dir \<Rightarrow> path \<Rightarrow> mesh_error + ArtifactEnvelope" where
  "readArtifactFile g d file =
     bind_res (readJSONFile d file) (\<lambda>artifact.
       let artifact = normalize_artifact artifact
       in check_res (Artifact_Validate g artifact) (Inr artifact))"

definition artifact_order :: "ArtifactEnvelope \<Rightarrow> string \<times> string \<times> string" where
  "artifact_order a =
     (ae_OriginDeviceID a, kind_string (ae_Kind a), if ae_SourceID a = [] then ae_ID a else ae_SourceID a)"

definition sortArtifacts :: "ArtifactEnvelope list \<Rightarrow> ArtifactEnvelope list" where
  "sortArtifacts artifacts = sort_key artifact_order artifacts"

definition PutArtifact :: "golib \<Rightarrow> ArtifactEnvelope \<Rightarrow> unit sop" where
  "PutArtifact g artifact =
     seq_op (check_op (fail_if (ae_OriginDeviceID artifact \<noteq> []) (Invalid ''PutArtifact only accepts locally-authored artifacts'')))
    (seq_op (check_op (fail_if (ae_SourceEpoch artifact \<noteq> [] \<or> ae_SourceRevision artifact \<noteq> 0) (Invalid ''source cursor'')))
    (let artifact = (if ae_SchemaVersion artifact = 0 then artifact\<lparr>ae_SchemaVersion := SchemaVersion\<rparr> else artifact) in
     seq_op (check_op (fail_if (ae_SourceID artifact \<noteq> [] \<and> ae_SourceID artifact \<noteq> ae_ID artifact) (Invalid ''source_id'')))
    (bind_op (get_op st_now) (\<lambda>now.
       let artifact = artifact\<lparr>ae_SourceID := ae_ID artifact, ae_ReceivedAt := now, ae_FreshnessChangedAt := now,
                               ae_Freshness := FreshnessFresh\<rparr>
       in seq_op (check_op (Artifact_Validate g artifact))
         (bind_op (lift_op (artifactPath (ae_Kind artifact) (ae_ID artifact))) (\<lambda>file.
          seq_op (writeJSONLocked st_artifacts st_artifacts_update file (artifact_stored artifact))
            (publish ChangeUpsert EntityArtifact (kind_string (ae_Kind artifact) @ ''/'' @ ae_ID artifact))))))))"

definition GetArtifact :: "golib \<Rightarrow> ArtifactKind \<Rightarrow> string \<Rightarrow> store \<Rightarrow> mesh_error + ArtifactEnvelope" where
  "GetArtifact g kind aid s =
     check_res (Kind_Validate kind)
    (check_res (validateID ''artifact id'' aid)
    (bind_res (artifactPath kind aid) (\<lambda>file.
     bind_res (readArtifactFile g (st_artifacts s) file) (\<lambda>artifact.
     if ae_OriginDeviceID artifact \<noteq> [] \<or> ae_Kind artifact \<noteq> kind \<or> ae_ID artifact \<noteq> aid
     then Inl (Invalid ''stored artifact does not match path'') else Inr artifact))))"

definition listLocalArtifactsLocked :: "golib \<Rightarrow> store \<Rightarrow> ArtifactKind \<Rightarrow> mesh_error + ArtifactEnvelope list" where
  "listLocalArtifactsLocked g s kind =
     bind_res (collectJSONFiles 3 (st_artifacts s)) (\<lambda>files.
     bind_res (map_res (\<lambda>file.
        bind_res (readArtifactFile g (st_artifacts s) file) (\<lambda>artifact.
        if ae_OriginDeviceID artifact \<noteq> [] then Inl (Invalid ''local artifact has remote origin'')
        else if artifactPath (ae_Kind artifact) (ae_ID artifact) \<noteq> Inr file
        then Inl (Invalid ''artifact/path mismatch'') else Inr artifact)) files) (\<lambda>all.
     Inr (sortArtifacts (filter (\<lambda>a. kind = NoKind \<or> ae_Kind a = kind) all))))"

definition ListArtifacts :: "golib \<Rightarrow> ArtifactKind \<Rightarrow> store \<Rightarrow> mesh_error + ArtifactEnvelope list" where
  "ListArtifacts g kind s =
     check_res (if kind \<noteq> NoKind then Kind_Validate kind else None) (listLocalArtifactsLocked g s kind)"

definition writeRemoteArtifactLocked :: "golib \<Rightarrow> ArtifactEnvelope \<Rightarrow> unit sop" where
  "writeRemoteArtifactLocked g artifact =
     seq_op (check_op (fail_if (ae_OriginDeviceID artifact = []) (Invalid ''remote artifact origin_device_id is required'')))
    (seq_op (check_op (Artifact_Validate g artifact))
    (bind_op (lift_op (remoteArtifactPath (ae_OriginDeviceID artifact) (ae_Kind artifact) (ae_SourceID artifact))) (\<lambda>file.
       writeJSONLocked st_remote_artifacts st_remote_artifacts_update file (artifact_stored artifact))))"

definition read_remote_artifact :: "golib \<Rightarrow> store \<Rightarrow> path \<Rightarrow> mesh_error + ArtifactEnvelope" where
  "read_remote_artifact g s file =
     bind_res (readArtifactFile g (st_remote_artifacts s) file) (\<lambda>artifact.
       if remoteArtifactPath (ae_OriginDeviceID artifact) (ae_Kind artifact) (ae_SourceID artifact) \<noteq> Inr file
       then Inl (Invalid ''remote artifact/path mismatch'') else Inr artifact)"

definition listRemoteArtifactsRawLocked :: "golib \<Rightarrow> store \<Rightarrow> string \<Rightarrow> ArtifactKind \<Rightarrow> mesh_error + ArtifactEnvelope list" where
  "listRemoteArtifactsRawLocked g s origin kind =
     bind_res (collectJSONFiles 4 (st_remote_artifacts s)) (\<lambda>files.
     bind_res (map_res (read_remote_artifact g s) files) (\<lambda>all.
     Inr (sortArtifacts (filter (\<lambda>a. (origin = [] \<or> ae_OriginDeviceID a = origin)
                                   \<and> (kind = NoKind \<or> ae_Kind a = kind)) all))))"

definition listRemoteArtifactsLocked :: "golib \<Rightarrow> store \<Rightarrow> string \<Rightarrow> ArtifactKind \<Rightarrow> mesh_error + ArtifactEnvelope list" where
  "listRemoteArtifactsLocked g s origin kind =
     bind_res (listRemoteArtifactsRawLocked g s origin kind)
       (map_res (\<lambda>a. bind_res (lookup_peer s (ae_OriginDeviceID a)) (\<lambda>peer. Inr (effectiveArtifact a peer))))"

definition GetRemoteArtifact :: "golib \<Rightarrow> string \<Rightarrow> ArtifactKind \<Rightarrow> string \<Rightarrow> store \<Rightarrow> mesh_error + ArtifactEnvelope" where
  "GetRemoteArtifact g origin kind sourceID s =
     check_res (validateID ''origin_device_id'' origin)
    (check_res (Kind_Validate kind)
    (check_res (validateID ''source_id'' sourceID)
    (bind_res (remoteArtifactPath origin kind sourceID) (\<lambda>file.
     bind_res (readArtifactFile g (st_remote_artifacts s) file) (\<lambda>artifact.
     if ae_OriginDeviceID artifact \<noteq> origin \<or> ae_Kind artifact \<noteq> kind \<or> ae_SourceID artifact \<noteq> sourceID
     then Inl (Invalid ''stored remote artifact does not match path'')
     else bind_res (lookup_peer s origin) (\<lambda>peer. Inr (effectiveArtifact artifact peer)))))))"

definition ListArtifactsForOrigin :: "golib \<Rightarrow> string \<Rightarrow> ArtifactKind \<Rightarrow> store \<Rightarrow> mesh_error + ArtifactEnvelope list" where
  "ListArtifactsForOrigin g origin kind s =
     (if origin = [] then ListArtifacts g kind s
      else check_res (validateID ''origin_device_id'' origin)
          (check_res (if kind \<noteq> NoKind then Kind_Validate kind else None)
             (listRemoteArtifactsLocked g s origin kind)))"

definition ListAllArtifacts :: "golib \<Rightarrow> ArtifactKind \<Rightarrow> store \<Rightarrow> mesh_error + ArtifactEnvelope list" where
  "ListAllArtifacts g kind s =
     check_res (if kind \<noteq> NoKind then Kind_Validate kind else None)
    (bind_res (listLocalArtifactsLocked g s kind) (\<lambda>own.
     bind_res (listRemoteArtifactsLocked g s [] kind) (\<lambda>remote.
     Inr (sortArtifacts (own @ remote)))))"

section \<open>Marking a peer's inventories\<close>

definition initializeLegacyTopicFreshness :: "PeerState \<Rightarrow> PeerState" where
  "initializeLegacyTopicFreshness peer =
     (let legacy = (if ps_Freshness peer = NoFreshness \<or> ps_Freshness peer = FreshnessGone
                    then FreshnessStale else ps_Freshness peer);
          changedAt = (if IsZero (ps_UpdatedAt peer) then 1000000000 else ps_UpdatedAt peer);
          peer = (if ps_SessionFreshness peer = NoFreshness
                     \<and> (ps_SessionInventory peer \<noteq> None \<or> ps_Inventories peer \<noteq> [])
                  then peer\<lparr>ps_SessionFreshness := legacy, ps_SessionFreshnessChangedAt := changedAt\<rparr> else peer)
      in if ps_ArtifactFreshness peer = NoFreshness \<and> ps_ArtifactInventory peer \<noteq> None
         then peer\<lparr>ps_ArtifactFreshness := legacy, ps_ArtifactFreshnessChangedAt := changedAt\<rparr> else peer)"

text \<open>Rewriting the listed records with a new freshness, skipping those already gone or there.\<close>

definition mark_sessions :: "golib \<Rightarrow> Freshness \<Rightarrow> time \<Rightarrow> (string option) \<Rightarrow> RemoteSessionProjection list \<Rightarrow> unit sop" where
  "mark_sessions g fresh now onlyScope projections =
     for_op projections (\<lambda>p.
       if onlyScope \<noteq> None \<and> Some (loc_ProfileScope (rp_Locator p)) \<noteq> onlyScope then ret_op ()
       else if rp_Freshness p = FreshnessGone \<or> rp_Freshness p = fresh then ret_op ()
       else seq_op (writeRemoteSessionLocked g (p\<lparr>rp_Freshness := fresh, rp_FreshnessChangedAt := now\<rparr>))
              (publish ChangeFreshness EntityRemoteSession (identityKey (rp_Locator p))))"

definition mark_artifacts :: "golib \<Rightarrow> Freshness \<Rightarrow> time \<Rightarrow> ArtifactEnvelope list \<Rightarrow> unit sop" where
  "mark_artifacts g fresh now artifacts =
     for_op artifacts (\<lambda>a.
       if ae_Freshness a = FreshnessGone \<or> ae_Freshness a = fresh then ret_op ()
       else seq_op (writeRemoteArtifactLocked g (a\<lparr>ae_Freshness := fresh, ae_FreshnessChangedAt := now\<rparr>))
              (publish ChangeFreshness EntityArtifact (artifactRemoteIdentity a)))"

definition markPeerInventoriesSyncingLocked ::
  "golib \<Rightarrow> string \<Rightarrow> string \<Rightarrow> string option \<Rightarrow> bool \<Rightarrow> bool \<Rightarrow> unit sop" where
  "markPeerInventoriesSyncingLocked g deviceID sourceEpoch onlyScope includeSessions includeArtifacts =
     bind_op (get_op st_now) (\<lambda>now.
     seq_op (if includeSessions then
               bind_op (read_op (\<lambda>s. listRemoteSessionsLocked g s deviceID []))
                 (mark_sessions g FreshnessSyncing now onlyScope)
             else ret_op ())
    (seq_op (if includeArtifacts then
               bind_op (read_op (\<lambda>s. listRemoteArtifactsRawLocked g s deviceID NoKind))
                 (mark_artifacts g FreshnessSyncing now)
             else ret_op ())
    (bind_op (read_op (\<lambda>s. lookup_peer s deviceID)) (\<lambda>found.
       let peer = initializeLegacyTopicFreshness (peer_or_new deviceID found);
           peer = peer\<lparr>ps_SourceEpoch := sourceEpoch, ps_UpdatedAt := now\<rparr>;
           peer = (if includeSessions then peer\<lparr>ps_SessionFreshness := FreshnessSyncing, ps_SessionFreshnessChangedAt := now\<rparr> else peer);
           peer = (if includeArtifacts then peer\<lparr>ps_ArtifactFreshness := FreshnessSyncing, ps_ArtifactFreshnessChangedAt := now\<rparr> else peer)
       in seq_op (writePeerLocked (recomputePeerFreshness peer)) (publish ChangeFreshness EntityPeer deviceID)))))"

definition markPeerSyncingLocked :: "golib \<Rightarrow> string \<Rightarrow> string \<Rightarrow> string option \<Rightarrow> unit sop" where
  "markPeerSyncingLocked g deviceID sourceEpoch onlyScope =
     markPeerInventoriesSyncingLocked g deviceID sourceEpoch onlyScope True (onlyScope = None)"

definition markSessionInventorySyncingLocked :: "golib \<Rightarrow> string \<Rightarrow> string \<Rightarrow> unit sop" where
  "markSessionInventorySyncingLocked g deviceID sourceEpoch =
     markPeerInventoriesSyncingLocked g deviceID sourceEpoch None True False"

definition markArtifactInventorySyncingLocked :: "golib \<Rightarrow> string \<Rightarrow> string \<Rightarrow> unit sop" where
  "markArtifactInventorySyncingLocked g deviceID sourceEpoch =
     markPeerInventoriesSyncingLocked g deviceID sourceEpoch None False True"

definition validateSyncingPeer :: "string \<Rightarrow> string \<Rightarrow> mesh_error option" where
  "validateSyncingPeer deviceID sourceEpoch =
     first_err [validateID ''device_id'' deviceID, validateID ''source_epoch'' sourceEpoch]"

definition MarkPeerSyncing :: "golib \<Rightarrow> string \<Rightarrow> string \<Rightarrow> unit sop" where
  "MarkPeerSyncing g deviceID sourceEpoch =
     seq_op (check_op (validateSyncingPeer deviceID sourceEpoch)) (markPeerSyncingLocked g deviceID sourceEpoch None)"

definition MarkSessionSyncing :: "golib \<Rightarrow> string \<Rightarrow> string \<Rightarrow> unit sop" where
  "MarkSessionSyncing g deviceID sourceEpoch =
     seq_op (check_op (validateSyncingPeer deviceID sourceEpoch)) (markSessionInventorySyncingLocked g deviceID sourceEpoch)"

definition MarkArtifactSyncing :: "golib \<Rightarrow> string \<Rightarrow> string \<Rightarrow> unit sop" where
  "MarkArtifactSyncing g deviceID sourceEpoch =
     seq_op (check_op (validateSyncingPeer deviceID sourceEpoch)) (markArtifactInventorySyncingLocked g deviceID sourceEpoch)"

definition MarkPeerDisconnected :: "golib \<Rightarrow> string \<Rightarrow> unit sop" where
  "MarkPeerDisconnected g deviceID =
     seq_op (check_op (validateID ''device_id'' deviceID))
    (bind_op (read_op (\<lambda>s. listRemoteSessionsLocked g s deviceID [])) (\<lambda>projections.
     bind_op (get_op st_now) (\<lambda>now.
     seq_op (mark_sessions g FreshnessStale now None projections)
    (bind_op (read_op (\<lambda>s. listRemoteArtifactsRawLocked g s deviceID NoKind)) (\<lambda>artifacts.
     seq_op (mark_artifacts g FreshnessStale now artifacts)
    (bind_op (read_op (\<lambda>s. lookup_peer s deviceID)) (\<lambda>found.
       let peer = (peer_or_new deviceID found)\<lparr>ps_UpdatedAt := now,
             ps_SessionFreshness := FreshnessStale, ps_SessionFreshnessChangedAt := now,
             ps_ArtifactFreshness := FreshnessStale, ps_ArtifactFreshnessChangedAt := now\<rparr>
       in seq_op (writePeerLocked (recomputePeerFreshness peer)) (publish ChangeFreshness EntityPeer deviceID))))))))"

section \<open>Surface bindings\<close>

definition stamp_binding :: "time \<Rightarrow> SurfaceBinding \<Rightarrow> SurfaceBinding" where
  "stamp_binding now b =
     (let b = (if sb_SchemaVersion b = 0 then b\<lparr>sb_SchemaVersion := SchemaVersion\<rparr> else b);
          b = (if IsZero (sb_CreatedAt b) then b\<lparr>sb_CreatedAt := now\<rparr> else b)
      in b\<lparr>sb_UpdatedAt := now\<rparr>)"

definition merge_binding :: "SurfaceBinding \<Rightarrow> SurfaceBinding \<Rightarrow> SurfaceBinding" where
  "merge_binding existing b =
     (if sameTarget existing b then
        let b = b\<lparr>sb_CreatedAt := sb_CreatedAt existing, sb_Source := sb_Source existing\<rparr>
        in if loc_TransportBindingID (sb_Locator b) = []
           then b\<lparr>sb_Locator := (sb_Locator b)\<lparr>loc_TransportBindingID := loc_TransportBindingID (sb_Locator existing)\<rparr>\<rparr>
           else b
      else b)"

definition putSurfaceBindingLocked :: "SurfaceBinding \<Rightarrow> bool \<Rightarrow> unit sop" where
  "putSurfaceBindingLocked binding replace =
     bind_op (lift_op (surfaceBindingPath (sb_SurfaceID binding))) (\<lambda>file.
     bind_op (read_op (\<lambda>s.
        case readJSONFile (st_bindings s) file of
          Inr existing \<Rightarrow>
            if \<not> sameTarget existing binding \<and> \<not> replace then Inl ErrConflict
            else Inr (merge_binding existing binding)
        | Inl ErrNotFound \<Rightarrow> Inr binding
        | Inl e \<Rightarrow> Inl e)) (\<lambda>b.
     seq_op (writeJSONLocked st_bindings st_bindings_update file (binding_stored b))
       (publish ChangeUpsert EntitySurfaceBinding (sb_SurfaceID binding))))"

definition PutSurfaceBinding :: "SurfaceBinding \<Rightarrow> bool \<Rightarrow> unit sop" where
  "PutSurfaceBinding binding replace =
     bind_op (get_op st_now) (\<lambda>now.
       let b = stamp_binding now binding
       in seq_op (check_op (Binding_Validate b)) (putSurfaceBindingLocked b replace))"

definition getSurfaceBindingLocked :: "store \<Rightarrow> string \<Rightarrow> mesh_error + SurfaceBinding" where
  "getSurfaceBindingLocked s surfaceID =
     bind_res (surfaceBindingPath surfaceID) (\<lambda>file.
     bind_res (readJSONFile (st_bindings s) file) (\<lambda>binding.
     check_res (Binding_Validate binding)
       (if sb_SurfaceID binding \<noteq> surfaceID then Inl (Invalid ''stored surface binding does not match path'')
        else Inr binding)))"

definition GetSurfaceBinding :: "string \<Rightarrow> store \<Rightarrow> mesh_error + SurfaceBinding" where
  "GetSurfaceBinding surfaceID s =
     check_res (fail_if (\<not> uuidRE surfaceID) (Invalid ''surface_id'')) (getSurfaceBindingLocked s surfaceID)"

definition ValidateAndPutSurfaceBinding :: "golib \<Rightarrow> SurfaceBinding \<Rightarrow> bool \<Rightarrow> ResolvedSurfaceBinding sop" where
  "ValidateAndPutSurfaceBinding g binding replace =
     bind_op (get_op st_now) (\<lambda>now.
       let b = stamp_binding now binding in
       seq_op (check_op (Binding_Validate b))
      (bind_op (read_op (\<lambda>s. getRemoteSessionLocked g s (sb_Locator b))) (\<lambda>projection.
       seq_op (check_op (fail_if (\<not> EqualIdentity (rp_Locator projection) (sb_Locator b)) (Invalid ''locator'')))
      (seq_op (check_op (fail_if (rp_Freshness projection = FreshnessGone) (Invalid ''cached remote session is gone'')))
      (seq_op (putSurfaceBindingLocked b replace)
      (bind_op (read_op (\<lambda>s. getSurfaceBindingLocked s (sb_SurfaceID b))) (\<lambda>stored.
       bind_op (read_op (\<lambda>s. lookup_peer s (loc_DeviceID (sb_Locator b)))) (\<lambda>peer.
       ret_op \<lparr>rb_Binding = stored, rb_Projection = Some projection, rb_Peer = peer,
               rb_PeerFreshness = (case peer of None \<Rightarrow> FreshnessStale | Some p \<Rightarrow> ps_Freshness p),
               rb_EffectiveFreshness = rp_Freshness projection\<rparr>))))))))"

definition ResolveSurfaceBinding :: "golib \<Rightarrow> string \<Rightarrow> store \<Rightarrow> mesh_error + ResolvedSurfaceBinding" where
  "ResolveSurfaceBinding g surfaceID s =
     check_res (fail_if (\<not> uuidRE surfaceID) (Invalid ''surface_id''))
    (bind_res (getSurfaceBindingLocked s surfaceID) (\<lambda>binding.
     bind_res (lookup_peer s (loc_DeviceID (sb_Locator binding))) (\<lambda>peer.
       let resolved = \<lparr>rb_Binding = binding, rb_Projection = None, rb_Peer = peer,
             rb_PeerFreshness = (case peer of None \<Rightarrow> FreshnessStale | Some p \<Rightarrow> ps_Freshness p),
             rb_EffectiveFreshness = (case peer of None \<Rightarrow> FreshnessStale | Some p \<Rightarrow> fst (sessionInventoryFreshness p))\<rparr>
       in bind_res (remoteSessionPath (sb_Locator binding)) (\<lambda>file.
          case readJSONFile (st_sessions s) file of
            Inl ErrNotFound \<Rightarrow>
              Inr (if peer \<noteq> None \<and> rb_EffectiveFreshness resolved = FreshnessFresh
                   then resolved\<lparr>rb_EffectiveFreshness := FreshnessGone\<rparr> else resolved)
          | Inl e \<Rightarrow> Inl e
          | Inr projection \<Rightarrow>
              check_res (Projection_Validate g projection)
                (if \<not> EqualIdentity (rp_Locator projection) (sb_Locator binding)
                 then Inl (Invalid ''stored projection locator does not match binding target'')
                 else let projection = effectiveSessionProjection projection peer
                      in Inr (resolved\<lparr>rb_Projection := Some projection, rb_EffectiveFreshness := rp_Freshness projection\<rparr>))))))"

definition ListSurfaceBindings :: "store \<Rightarrow> mesh_error + SurfaceBinding list" where
  "ListSurfaceBindings s =
     bind_res (collectJSONFiles 3 (st_bindings s)) (\<lambda>files.
     bind_res (map_res (\<lambda>file.
        bind_res (readJSONFile (st_bindings s) file) (\<lambda>binding.
        check_res (Binding_Validate binding)
          (if surfaceBindingPath (sb_SurfaceID binding) \<noteq> Inr file
           then Inl (Invalid ''surface binding/path mismatch'') else Inr binding))) files)
       (\<lambda>out. Inr (sort_key sb_SurfaceID out)))"

definition DeleteSurfaceBinding :: "string \<Rightarrow> unit sop" where
  "DeleteSurfaceBinding surfaceID =
     seq_op (check_op (fail_if (\<not> uuidRE surfaceID) (Invalid ''surface_id'')))
    (bind_op (lift_op (surfaceBindingPath surfaceID)) (\<lambda>file.
     seq_op (removeRegularFile st_bindings st_bindings_update file)
       (publish ChangeDelete EntitySurfaceBinding surfaceID)))"

section \<open>Reading and writing documents\<close>

lemma next_fault_docs:
  "next_fault s = (s', b) \<Longrightarrow> \<exists>fs. s' = s\<lparr>st_faults := fs\<rparr>"
  by (cases s) (auto simp: next_fault_def split: list.splits)

lemma publish_docs [simp]:
  "st_sessions (publishLocked k e key s) = st_sessions s" "st_peers (publishLocked k e key s) = st_peers s"
  "st_remote_artifacts (publishLocked k e key s) = st_remote_artifacts s"
  "st_artifacts (publishLocked k e key s) = st_artifacts s" "st_bindings (publishLocked k e key s) = st_bindings s"
  "st_now (publishLocked k e key s) = st_now s" "st_faults (publishLocked k e key s) = st_faults s"
  by (simp_all add: publishLocked_def Let_def)

text \<open>A write changes its own collection only, and that only when it succeeds.\<close>

lemma writeJSON_cases:
  assumes "writeJSONLocked get upd path doc s = (s', r)"
  shows "\<exists>fs. (\<exists>e. r = Inl e) \<and> s' = s\<lparr>st_faults := fs\<rparr>
    \<or> r = Inr () \<and> s' = upd (AList.update path (File doc)) (s\<lparr>st_faults := fs\<rparr>)"
proof -
  obtain s1 b where n: "next_fault s = (s1, b)" by fastforce
  with next_fault_docs obtain fs where "s1 = s\<lparr>st_faults := fs\<rparr>" by blast
  with n assms show ?thesis by (cases b) (auto simp: writeJSONLocked_def split: if_splits)
qed

lemma checked_write_cases:
  assumes "seq_op (check_op v) (bind_op (lift_op fp) (\<lambda>path. writeJSONLocked get upd path doc)) s = (s', r)"
  shows "\<exists>fs. (\<exists>e. r = Inl e) \<and> s' = s\<lparr>st_faults := fs\<rparr>
    \<or> (\<exists>path. r = Inr () \<and> v = None \<and> fp = Inr path \<and> s' = upd (AList.update path (File doc)) (s\<lparr>st_faults := fs\<rparr>))"
proof (cases v)
  case (Some e)
  with assms have "r = Inl e" "s' = s\<lparr>st_faults := st_faults s\<rparr>" by (auto simp: seq_op_def bind_op_def)
  then show ?thesis by blast
next
  case v: None
  show ?thesis
  proof (cases fp)
    case (Inl e)
    with v assms have "r = Inl e" "s' = s\<lparr>st_faults := st_faults s\<rparr>" by (auto simp: seq_op_def bind_op_def)
    then show ?thesis by blast
  next
    case (Inr path)
    with v assms have "writeJSONLocked get upd path doc s = (s', r)" by (simp add: seq_op_def bind_op_def)
    from writeJSON_cases [OF this] v Inr show ?thesis by blast
  qed
qed

lemma write_session_cases:
  assumes "writeRemoteSessionLocked g p s = (s', r)"
  shows "\<exists>fs. (\<exists>e. r = Inl e) \<and> s' = s\<lparr>st_faults := fs\<rparr>
    \<or> (\<exists>path. r = Inr () \<and> Projection_Validate g p = None \<and> remoteSessionPath (rp_Locator p) = Inr path
        \<and> s' = s\<lparr>st_sessions := AList.update path (File (projection_stored p)) (st_sessions s), st_faults := fs\<rparr>)"
  using checked_write_cases [OF assms [unfolded writeRemoteSessionLocked_def]] by (elim exE) (rule exI, force)

lemma write_peer_cases:
  assumes "writePeerLocked peer s = (s', r)"
  shows "\<exists>fs. (\<exists>e. r = Inl e) \<and> s' = s\<lparr>st_faults := fs\<rparr>
    \<or> (\<exists>path. r = Inr () \<and> Peer_Validate peer = None \<and> peerPath (ps_DeviceID peer) = Inr path
        \<and> s' = s\<lparr>st_peers := AList.update path (File peer) (st_peers s), st_faults := fs\<rparr>)"
  using checked_write_cases [OF assms [unfolded writePeerLocked_def]] by (elim exE) (rule exI, force)

lemma write_artifact_cases:
  assumes "writeRemoteArtifactLocked g a s = (s', r)"
  shows "\<exists>fs. (\<exists>e. r = Inl e) \<and> s' = s\<lparr>st_faults := fs\<rparr>
    \<or> (\<exists>path. r = Inr () \<and> ae_OriginDeviceID a \<noteq> [] \<and> Artifact_Validate g a = None
        \<and> remoteArtifactPath (ae_OriginDeviceID a) (ae_Kind a) (ae_SourceID a) = Inr path
        \<and> s' = s\<lparr>st_remote_artifacts := AList.update path (File (artifact_stored a)) (st_remote_artifacts s), st_faults := fs\<rparr>)"
proof (cases "ae_OriginDeviceID a = []")
  case True
  with assms have "(\<exists>e. r = Inl e)" "s' = s\<lparr>st_faults := st_faults s\<rparr>"
    by (auto simp: writeRemoteArtifactLocked_def seq_op_def bind_op_def)
  then show ?thesis by blast
next
  case False
  with assms have "seq_op (check_op (Artifact_Validate g a))
      (bind_op (lift_op (remoteArtifactPath (ae_OriginDeviceID a) (ae_Kind a) (ae_SourceID a))) (\<lambda>file.
         writeJSONLocked st_remote_artifacts st_remote_artifacts_update file (artifact_stored a))) s = (s', r)"
    by (simp add: writeRemoteArtifactLocked_def seq_op_def bind_op_def)
  from checked_write_cases [OF this] False show ?thesis by (elim exE) (rule exI, force)
qed

end
