(* ===== verification/Mesh_Inventory.thy ===== *)
theory Mesh_Inventory
  imports Mesh_Store
begin

text \<open>
  The inventory transactions: the per-scope snapshot of \<open>store.go\<close>, the device-wide session
  inventory (\<open>session_inventory.go\<close>) and the artifact inventory (\<open>artifact_inventory.go\<close>). A
  transaction accumulates records in memory; its commit writes them one file at a time, then marks
  what it omitted as gone, and last writes the peer document whose cursor makes the batch visible.
  Any of these writes may fail, which ends the commit there.
\<close>

record pendingProjection =
  pp_locator :: RemoteSessionLocator
  pp_metadata :: string

text \<open>What a commit writes for a present and for an omitted record.\<close>

definition fresh_projection :: "string \<Rightarrow> u64 \<Rightarrow> time \<Rightarrow> pendingProjection \<Rightarrow> RemoteSessionProjection" where
  "fresh_projection epoch revision now item =
     \<lparr>rp_SchemaVersion = SchemaVersion, rp_Locator = pp_locator item, rp_Metadata = pp_metadata item,
      rp_ReceivedAt = now, rp_FreshnessChangedAt = now, rp_SourceEpoch = epoch,
      rp_SourceRevision = revision, rp_Freshness = FreshnessFresh\<rparr>"

definition gone_projection :: "string \<Rightarrow> u64 \<Rightarrow> time \<Rightarrow> RemoteSessionProjection \<Rightarrow> RemoteSessionProjection" where
  "gone_projection epoch revision now p =
     p\<lparr>rp_Freshness := FreshnessGone, rp_FreshnessChangedAt := now, rp_ReceivedAt := now,
       rp_SourceEpoch := epoch, rp_SourceRevision := revision\<rparr>"

definition write_present :: "golib \<Rightarrow> string \<Rightarrow> u64 \<Rightarrow> time \<Rightarrow> pendingProjection list \<Rightarrow> unit sop" where
  "write_present g epoch revision now items =
     for_op items (\<lambda>item.
       seq_op (writeRemoteSessionLocked g (fresh_projection epoch revision now item))
         (publish ChangeUpsert EntityRemoteSession (identityKey (pp_locator item))))"

definition write_gone ::
  "golib \<Rightarrow> string \<Rightarrow> u64 \<Rightarrow> time \<Rightarrow> (RemoteSessionProjection \<Rightarrow> bool) \<Rightarrow> RemoteSessionProjection list \<Rightarrow> unit sop" where
  "write_gone g epoch revision now present existing =
     for_op existing (\<lambda>p.
       if present p then ret_op ()
       else seq_op (writeRemoteSessionLocked g (gone_projection epoch revision now p))
              (publish ChangeFreshness EntityRemoteSession (identityKey (rp_Locator p))))"

text \<open>The pending records in the order of their sorted keys.\<close>

definition pending_items :: "(string \<times> 'a) list \<Rightarrow> 'a list" where
  "pending_items pending = map (\<lambda>k. the (map_of pending k)) (sort (map fst pending))"

definition positive_revision :: "u64 \<Rightarrow> mesh_error option" where
  "positive_revision revision = fail_if (revision = 0) (Invalid ''source_revision must be positive'')"

section \<open>The per-scope snapshot\<close>

record Snapshot =
  sn_deviceID :: string
  sn_scope :: string
  sn_epoch :: string
  sn_revision :: u64
  sn_closed :: bool
  sn_pending :: "(string \<times> pendingProjection) list"

definition validateSnapshotCursorLocked :: "string \<Rightarrow> string \<Rightarrow> string \<Rightarrow> u64 \<Rightarrow> store \<Rightarrow> mesh_error + unit" where
  "validateSnapshotCursorLocked deviceID scope epoch revision s =
     bind_res (lookup_peer s deviceID) (\<lambda>found.
       case found of
         None \<Rightarrow> Inr ()
       | Some peer \<Rightarrow>
           (case map_of (ps_Inventories peer) scope of
              Some c \<Rightarrow> if ic_SourceEpoch c = epoch \<and> revision \<le> ic_SourceRevision c
                        then Inl ErrStaleSnapshot else Inr ()
            | None \<Rightarrow> Inr ()))"

definition BeginSnapshot :: "golib \<Rightarrow> string \<Rightarrow> string \<Rightarrow> string \<Rightarrow> u64 \<Rightarrow> Snapshot sop" where
  "BeginSnapshot g deviceID scope epoch revision =
     seq_op (check_op (first_err [validateID ''device_id'' deviceID, ProfileScope_Validate scope,
                                  validateID ''source_epoch'' epoch, positive_revision revision]))
    (seq_op (read_op (validateSnapshotCursorLocked deviceID scope epoch revision))
    (seq_op (markPeerSyncingLocked g deviceID epoch (Some scope))
       (ret_op \<lparr>sn_deviceID = deviceID, sn_scope = scope, sn_epoch = epoch, sn_revision = revision,
                sn_closed = False, sn_pending = []\<rparr>)))"

definition Snapshot_Upsert :: "golib \<Rightarrow> Snapshot \<Rightarrow> RemoteSessionLocator \<Rightarrow> string \<Rightarrow> mesh_error + Snapshot" where
  "Snapshot_Upsert g x locator metadata =
     (if sn_closed x then Inl ErrSnapshotClosed
      else check_res (Locator_Validate locator)
        (if loc_DeviceID locator \<noteq> sn_deviceID x \<or> loc_ProfileScope locator \<noteq> sn_scope x
         then Inl (Invalid ''locator is outside snapshot'')
         else check_res (validateMetadata g metadata)
           (Inr (x\<lparr>sn_pending := AList.update (loc_SessionID locator)
                     \<lparr>pp_locator = locator, pp_metadata = metadata\<rparr> (sn_pending x)\<rparr>))))"

definition Snapshot_Abort :: "Snapshot \<Rightarrow> Snapshot" where
  "Snapshot_Abort x = x\<lparr>sn_closed := True, sn_pending := []\<rparr>"

definition commitSnapshot :: "golib \<Rightarrow> Snapshot \<Rightarrow> unit sop" where
  "commitSnapshot g x =
     bind_op (read_op (\<lambda>s. lookup_peer s (sn_deviceID x))) (\<lambda>found.
     let peer = peer_or_new (sn_deviceID x) found in
     seq_op (check_op (case map_of (ps_Inventories peer) (sn_scope x) of
               Some c \<Rightarrow> fail_if (ic_SourceEpoch c = sn_epoch x \<and> sn_revision x \<le> ic_SourceRevision c) ErrStaleSnapshot
             | None \<Rightarrow> None))
    (bind_op (read_op (\<lambda>s. listRemoteSessionsLocked g s (sn_deviceID x) (sn_scope x))) (\<lambda>existing.
     bind_op (get_op st_now) (\<lambda>now.
     seq_op (write_present g (sn_epoch x) (sn_revision x) now (pending_items (sn_pending x)))
    (seq_op (write_gone g (sn_epoch x) (sn_revision x) now
               (\<lambda>p. loc_SessionID (rp_Locator p) \<in> fst ` set (sn_pending x)) existing)
    (let peer = peer\<lparr>ps_SchemaVersion := SchemaVersion, ps_DeviceID := sn_deviceID x, ps_SourceEpoch := sn_epoch x,
           ps_UpdatedAt := now, ps_SessionFreshness := FreshnessFresh, ps_SessionFreshnessChangedAt := now\<rparr>;
         peer = recomputePeerFreshness peer;
         peer = peer\<lparr>ps_Inventories := AList.update (sn_scope x)
                   \<lparr>ic_SourceEpoch = sn_epoch x, ic_SourceRevision = sn_revision x, ic_CommittedAt = now\<rparr> (ps_Inventories peer),
                 ps_SessionInventory := None\<rparr>
     in seq_op (writePeerLocked peer)
       (seq_op (publish ChangeSnapshot EntityInventory (sn_deviceID x @ ''/'' @ sn_scope x))
               (publish ChangeFreshness EntityPeer (sn_deviceID x)))))))))"

definition Snapshot_Commit :: "golib \<Rightarrow> Snapshot \<Rightarrow> Snapshot sop" where
  "Snapshot_Commit g x =
     (if sn_closed x then fail_op ErrSnapshotClosed
      else seq_op (commitSnapshot g x) (ret_op (x\<lparr>sn_closed := True\<rparr>)))"

section \<open>The device-wide session inventory\<close>

record SessionInventorySnapshot =
  si_deviceID :: string
  si_epoch :: string
  si_revision :: u64
  si_scopes :: "string list"
  si_closed :: bool
  si_pending :: "(string \<times> pendingProjection) list"

definition validateSessionInventoryCursorLocked :: "string \<Rightarrow> string \<Rightarrow> u64 \<Rightarrow> store \<Rightarrow> mesh_error + unit" where
  "validateSessionInventoryCursorLocked deviceID epoch revision s =
     bind_res (lookup_peer s deviceID) (\<lambda>found.
       case found of
         None \<Rightarrow> Inr ()
       | Some peer \<Rightarrow>
           (case ps_SessionInventory peer of
              Some c \<Rightarrow> if ic_SourceEpoch c = epoch \<and> revision \<le> ic_SourceRevision c
                        then Inl ErrStaleSnapshot else Inr ()
            | None \<Rightarrow>
                if list_ex (\<lambda>(_, c). ic_SourceEpoch c = epoch \<and> revision \<le> ic_SourceRevision c) (ps_Inventories peer)
                then Inl ErrStaleSnapshot else Inr ()))"

fun scope_set :: "string list \<Rightarrow> string list \<Rightarrow> mesh_error + string list" where
  "scope_set seen [] = Inr seen"
| "scope_set seen (scope # scopes) =
     check_res (ProfileScope_Validate scope)
       (if scope \<in> set seen then Inl (Invalid ''profile scope is duplicated'')
        else scope_set (seen @ [scope]) scopes)"

definition BeginSessionInventory :: "golib \<Rightarrow> string \<Rightarrow> string list \<Rightarrow> string \<Rightarrow> u64 \<Rightarrow> SessionInventorySnapshot sop" where
  "BeginSessionInventory g deviceID scopes epoch revision =
     seq_op (check_op (first_err [validateID ''device_id'' deviceID, validateID ''source_epoch'' epoch,
                                  positive_revision revision,
                                  fail_if (scopes = []) (Invalid ''session inventory must declare at least one profile scope'')]))
    (bind_op (lift_op (scope_set [] scopes)) (\<lambda>scopeSet.
     seq_op (read_op (validateSessionInventoryCursorLocked deviceID epoch revision))
    (seq_op (markSessionInventorySyncingLocked g deviceID epoch)
       (ret_op \<lparr>si_deviceID = deviceID, si_epoch = epoch, si_revision = revision, si_scopes = scopeSet,
                si_closed = False, si_pending = []\<rparr>))))"

definition session_key :: "RemoteSessionLocator \<Rightarrow> string" where
  "session_key l = loc_ProfileScope l @ [char_of (0 :: nat)] @ loc_SessionID l"

definition SessionInventory_Upsert :: "golib \<Rightarrow> SessionInventorySnapshot \<Rightarrow> RemoteSessionLocator \<Rightarrow> string \<Rightarrow> mesh_error + SessionInventorySnapshot" where
  "SessionInventory_Upsert g x locator metadata =
     (if si_closed x then Inl ErrSnapshotClosed
      else check_res (Locator_Validate locator)
        (if loc_DeviceID locator \<noteq> si_deviceID x \<or> loc_ProfileScope locator \<notin> set (si_scopes x)
         then Inl (Invalid ''locator is outside device inventory'')
         else check_res (validateMetadata g metadata)
           (Inr (x\<lparr>si_pending := AList.update (session_key locator)
                     \<lparr>pp_locator = locator, pp_metadata = metadata\<rparr> (si_pending x)\<rparr>))))"

definition SessionInventory_Abort :: "SessionInventorySnapshot \<Rightarrow> SessionInventorySnapshot" where
  "SessionInventory_Abort x = x\<lparr>si_closed := True, si_pending := []\<rparr>"

text \<open>The scopes the committed cursor is recorded for, and the peer document that commits.\<close>

definition all_scopes :: "SessionInventorySnapshot \<Rightarrow> PeerState \<Rightarrow> RemoteSessionProjection list \<Rightarrow> string list" where
  "all_scopes x peer existing =
     remdups (si_scopes x @ filter (\<lambda>sc. ProfileScope_Validate sc = None) (map fst (ps_Inventories peer))
              @ map (loc_ProfileScope \<circ> rp_Locator) existing)"

definition committed_peer :: "SessionInventorySnapshot \<Rightarrow> time \<Rightarrow> RemoteSessionProjection list \<Rightarrow> PeerState \<Rightarrow> PeerState" where
  "committed_peer x now existing peer =
     (let cursor = \<lparr>ic_SourceEpoch = si_epoch x, ic_SourceRevision = si_revision x, ic_CommittedAt = now\<rparr>;
          peer = peer\<lparr>ps_Inventories := fold (\<lambda>sc. AList.update sc cursor) (all_scopes x peer existing) (ps_Inventories peer)\<rparr>;
          peer = peer\<lparr>ps_SchemaVersion := SchemaVersion, ps_DeviceID := si_deviceID x, ps_SourceEpoch := si_epoch x,
            ps_UpdatedAt := now, ps_SessionFreshness := FreshnessFresh, ps_SessionFreshnessChangedAt := now\<rparr>
      in (recomputePeerFreshness peer)\<lparr>ps_SessionInventory := Some cursor\<rparr>)"

text \<open>The writes of a commit, in their order: present records, omitted records, the peer document.\<close>

definition write_session_batch ::
  "golib \<Rightarrow> SessionInventorySnapshot \<Rightarrow> PeerState \<Rightarrow> RemoteSessionProjection list \<Rightarrow> time \<Rightarrow> unit sop" where
  "write_session_batch g x peer existing now =
     (let items = pending_items (si_pending x);
          present = map (identityKey \<circ> pp_locator) items in
     seq_op (write_present g (si_epoch x) (si_revision x) now items)
    (seq_op (write_gone g (si_epoch x) (si_revision x) now (\<lambda>p. identityKey (rp_Locator p) \<in> set present) existing)
    (seq_op (writePeerLocked (committed_peer x now existing peer))
    (seq_op (publish ChangeSnapshot EntityInventory (si_deviceID x @ ''/sessions''))
            (publish ChangeFreshness EntityPeer (si_deviceID x))))))"

definition commitSessionInventory :: "golib \<Rightarrow> SessionInventorySnapshot \<Rightarrow> unit sop" where
  "commitSessionInventory g x =
     seq_op (read_op (validateSessionInventoryCursorLocked (si_deviceID x) (si_epoch x) (si_revision x)))
    (bind_op (read_op (\<lambda>s. lookup_peer s (si_deviceID x))) (\<lambda>found.
     bind_op (read_op (\<lambda>s. listRemoteSessionsLocked g s (si_deviceID x) [])) (\<lambda>existing.
     bind_op (get_op st_now) (write_session_batch g x (peer_or_new (si_deviceID x) found) existing))))"

definition SessionInventory_Commit :: "golib \<Rightarrow> SessionInventorySnapshot \<Rightarrow> SessionInventorySnapshot sop" where
  "SessionInventory_Commit g x =
     (if si_closed x then fail_op ErrSnapshotClosed
      else seq_op (commitSessionInventory g x) (ret_op (x\<lparr>si_closed := True\<rparr>)))"

section \<open>The artifact inventory\<close>

record ArtifactInventorySnapshot =
  ai_deviceID :: string
  ai_epoch :: string
  ai_revision :: u64
  ai_closed :: bool
  ai_pending :: "(string \<times> ArtifactEnvelope) list"

definition validateArtifactInventoryCursorLocked :: "string \<Rightarrow> string \<Rightarrow> u64 \<Rightarrow> store \<Rightarrow> mesh_error + unit" where
  "validateArtifactInventoryCursorLocked deviceID epoch revision s =
     bind_res (lookup_peer s deviceID) (\<lambda>found.
       case found of
         None \<Rightarrow> Inr ()
       | Some peer \<Rightarrow>
           (case ps_ArtifactInventory peer of
              Some c \<Rightarrow> if ic_SourceEpoch c = epoch \<and> revision \<le> ic_SourceRevision c
                        then Inl ErrStaleSnapshot else Inr ()
            | None \<Rightarrow> Inr ()))"

definition BeginArtifactInventory :: "golib \<Rightarrow> string \<Rightarrow> string \<Rightarrow> u64 \<Rightarrow> ArtifactInventorySnapshot sop" where
  "BeginArtifactInventory g deviceID epoch revision =
     seq_op (check_op (first_err [validateID ''device_id'' deviceID, validateID ''source_epoch'' epoch,
                                  positive_revision revision]))
    (seq_op (read_op (validateArtifactInventoryCursorLocked deviceID epoch revision))
    (seq_op (markArtifactInventorySyncingLocked g deviceID epoch)
       (ret_op \<lparr>ai_deviceID = deviceID, ai_epoch = epoch, ai_revision = revision, ai_closed = False, ai_pending = []\<rparr>)))"

definition ArtifactInventory_Upsert :: "golib \<Rightarrow> ArtifactInventorySnapshot \<Rightarrow> ArtifactEnvelope \<Rightarrow> mesh_error + ArtifactInventorySnapshot" where
  "ArtifactInventory_Upsert g x artifact =
     (if ai_closed x then Inl ErrSnapshotClosed
      else if ae_OriginDeviceID artifact \<noteq> [] then Inl (Invalid ''artifact origin_device_id is store-owned'')
      else if ae_SourceEpoch artifact \<noteq> [] \<or> ae_SourceRevision artifact \<noteq> 0
      then Inl (Invalid ''artifact source cursor is store-owned'')
      else
        let artifact = (if ae_SchemaVersion artifact = 0 then artifact\<lparr>ae_SchemaVersion := SchemaVersion\<rparr> else artifact);
            sourceID = (if ae_SourceID artifact = [] then ae_ID artifact else ae_SourceID artifact)
        in check_res (validateID ''artifact source_id'' sourceID)
          (if ae_ID artifact \<noteq> sourceID then Inl (Invalid ''incoming artifact source_id must equal id'')
           else
             let artifact = artifact\<lparr>ae_SourceID := ae_ID artifact, ae_ReceivedAt := 1000000000,
                   ae_FreshnessChangedAt := 1000000000, ae_Freshness := FreshnessFresh\<rparr>
             in check_res (Artifact_Validate g artifact)
               (Inr (x\<lparr>ai_pending := AList.update (kind_string (ae_Kind artifact) @ [char_of (0 :: nat)] @ sourceID)
                   (artifact\<lparr>ae_OriginDeviceID := ai_deviceID x, ae_SourceID := sourceID,
                      ae_SourceEpoch := ai_epoch x, ae_SourceRevision := ai_revision x\<rparr>) (ai_pending x)\<rparr>))))"

definition ArtifactInventory_Abort :: "ArtifactInventorySnapshot \<Rightarrow> ArtifactInventorySnapshot" where
  "ArtifactInventory_Abort x = x\<lparr>ai_closed := True, ai_pending := []\<rparr>"

definition write_present_artifacts :: "golib \<Rightarrow> time \<Rightarrow> ArtifactEnvelope list \<Rightarrow> unit sop" where
  "write_present_artifacts g now items =
     for_op items (\<lambda>a.
       seq_op (writeRemoteArtifactLocked g
                 (a\<lparr>ae_ReceivedAt := now, ae_FreshnessChangedAt := now, ae_Freshness := FreshnessFresh\<rparr>))
         (publish ChangeUpsert EntityArtifact (artifactRemoteIdentity a)))"

definition write_gone_artifacts ::
  "golib \<Rightarrow> string \<Rightarrow> u64 \<Rightarrow> time \<Rightarrow> string list \<Rightarrow> ArtifactEnvelope list \<Rightarrow> unit sop" where
  "write_gone_artifacts g epoch revision now present existing =
     for_op existing (\<lambda>a.
       if artifactRemoteIdentity a \<in> set present then ret_op ()
       else seq_op (writeRemoteArtifactLocked g
                      (a\<lparr>ae_SourceEpoch := epoch, ae_SourceRevision := revision, ae_ReceivedAt := now,
                         ae_FreshnessChangedAt := now, ae_Freshness := FreshnessGone\<rparr>))
              (publish ChangeFreshness EntityArtifact (artifactRemoteIdentity a)))"

definition committed_artifact_peer :: "ArtifactInventorySnapshot \<Rightarrow> time \<Rightarrow> PeerState \<Rightarrow> PeerState" where
  "committed_artifact_peer x now peer =
     (recomputePeerFreshness (peer\<lparr>ps_SchemaVersion := SchemaVersion, ps_DeviceID := ai_deviceID x,
        ps_SourceEpoch := ai_epoch x, ps_UpdatedAt := now, ps_ArtifactFreshness := FreshnessFresh,
        ps_ArtifactFreshnessChangedAt := now\<rparr>))
     \<lparr>ps_ArtifactInventory := Some \<lparr>ic_SourceEpoch = ai_epoch x, ic_SourceRevision = ai_revision x, ic_CommittedAt = now\<rparr>\<rparr>"

definition write_artifact_batch ::
  "golib \<Rightarrow> ArtifactInventorySnapshot \<Rightarrow> PeerState \<Rightarrow> ArtifactEnvelope list \<Rightarrow> time \<Rightarrow> unit sop" where
  "write_artifact_batch g x peer existing now =
     (let items = pending_items (ai_pending x);
          present = map artifactRemoteIdentity items in
     seq_op (write_present_artifacts g now items)
    (seq_op (write_gone_artifacts g (ai_epoch x) (ai_revision x) now present existing)
    (seq_op (writePeerLocked (committed_artifact_peer x now peer))
    (seq_op (publish ChangeSnapshot EntityInventory (ai_deviceID x @ ''/artifacts''))
            (publish ChangeFreshness EntityPeer (ai_deviceID x))))))"

definition commitArtifactInventory :: "golib \<Rightarrow> ArtifactInventorySnapshot \<Rightarrow> unit sop" where
  "commitArtifactInventory g x =
     seq_op (read_op (validateArtifactInventoryCursorLocked (ai_deviceID x) (ai_epoch x) (ai_revision x)))
    (bind_op (read_op (\<lambda>s. lookup_peer s (ai_deviceID x))) (\<lambda>found.
     bind_op (read_op (\<lambda>s. listRemoteArtifactsRawLocked g s (ai_deviceID x) NoKind)) (\<lambda>existing.
     bind_op (get_op st_now) (write_artifact_batch g x (peer_or_new (ai_deviceID x) found) existing))))"

definition ArtifactInventory_Commit :: "golib \<Rightarrow> ArtifactInventorySnapshot \<Rightarrow> ArtifactInventorySnapshot sop" where
  "ArtifactInventory_Commit g x =
     (if ai_closed x then fail_op ErrSnapshotClosed
      else seq_op (commitArtifactInventory g x) (ret_op (x\<lparr>ai_closed := True\<rparr>)))"

lemma triple_keeps: "keeps_op P m \<Longrightarrow> triple_op P m (\<lambda>_. P) (\<lambda>_. P)"
  by (simp add: keeps_op_def)

lemma triple_read: "triple_op P (read_op f) (\<lambda>x s. P s \<and> f s = Inr x) (\<lambda>_. P)"
  by (simp add: triple_op_def split: sum.split)

lemma triple_mod_any: "(\<And>s. P s \<Longrightarrow> Q () (f s)) \<Longrightarrow> triple_op P (mod_op f) Q E"
  by (simp add: triple_op_def)

lemma triple_publish_last: "triple_op P (seq_op (mod_op f) (mod_op h)) (\<lambda>_ _. True) E"
  by (simp add: triple_op_def seq_op_def)

section \<open>A batch that does not commit stays out of sight\<close>

lemma session_cursor_gate:
  "validateSessionInventoryCursorLocked dev epoch revision s = Inr () \<longleftrightarrow>
     lookup_peer s dev = Inr None \<or> (\<exists>peer. lookup_peer s dev = Inr (Some peer) \<and> \<not> stale_session_cursor epoch revision peer)"
proof (cases "lookup_peer s dev")
  case (Inr found)
  then show ?thesis
    by (cases found)
       (simp_all add: validateSessionInventoryCursorLocked_def stale_session_cursor_def split: option.split)
qed (simp add: validateSessionInventoryCursorLocked_def)

lemma artifact_cursor_gate:
  "validateArtifactInventoryCursorLocked dev epoch revision s = Inr () \<longleftrightarrow>
     lookup_peer s dev = Inr None \<or> (\<exists>peer. lookup_peer s dev = Inr (Some peer) \<and> \<not> stale_artifact_cursor epoch revision peer)"
proof (cases "lookup_peer s dev")
  case (Inr found)
  then show ?thesis
    by (cases found)
       (simp_all add: validateArtifactInventoryCursorLocked_def stale_artifact_cursor_def split: option.split)
qed (simp add: validateArtifactInventoryCursorLocked_def)

lemma lookup_peer_cong: "st_peers s = st_peers t \<Longrightarrow> lookup_peer s dev = lookup_peer t dev"
  by (simp add: lookup_peer_def getPeerLocked_def)

text \<open>
  What a batch of the cursor (epoch, revision) of one device may have done to the session files:
  every file is as before or holds a record of the batch.
\<close>

definition partial_sessions :: "string \<Rightarrow> string \<Rightarrow> u64 \<Rightarrow> store \<Rightarrow> store \<Rightarrow> bool" where
  "partial_sessions dev epoch revision s0 s \<longleftrightarrow>
     st_peers s = st_peers s0 \<and> st_remote_artifacts s = st_remote_artifacts s0
     \<and> st_artifacts s = st_artifacts s0 \<and> st_bindings s = st_bindings s0 \<and> st_now s = st_now s0
     \<and> (\<forall>path. map_of (st_sessions s) path = map_of (st_sessions s0) path
          \<or> (\<exists>p. map_of (st_sessions s) path = Some (File p) \<and> rp_SourceEpoch p = epoch
                \<and> rp_SourceRevision p = revision \<and> loc_DeviceID (rp_Locator p) = dev))"

lemma partial_sessions_refl: "partial_sessions dev epoch revision s s"
  by (simp add: partial_sessions_def)

lemma partial_sessions_faults [simp]:
  "partial_sessions dev epoch revision s0 (s\<lparr>st_faults := fs\<rparr>) = partial_sessions dev epoch revision s0 s"
  by (simp add: partial_sessions_def)

lemma partial_sessions_publish [simp]:
  "partial_sessions dev epoch revision s0 (publishLocked k e key s) = partial_sessions dev epoch revision s0 s"
  by (simp add: partial_sessions_def)

lemma keeps_partial_write:
  assumes "rp_SourceEpoch p = epoch" "rp_SourceRevision p = revision" "loc_DeviceID (rp_Locator p) = dev"
  shows "keeps_op (partial_sessions dev epoch revision s0) (writeRemoteSessionLocked g p)"
proof (rule keeps_opI)
  fix s assume s: "partial_sessions dev epoch revision s0 s"
  obtain s' r where w: "writeRemoteSessionLocked g p s = (s', r)" by fastforce
  from write_session_cases [OF w] s assms show "partial_sessions dev epoch revision s0 (fst (writeRemoteSessionLocked g p s))"
    unfolding w fst_conv by (elim disjE exE conjE) (auto simp: partial_sessions_def projection_stored_def)
qed

lemma keeps_partial_present:
  assumes "\<forall>item \<in> set items. loc_DeviceID (pp_locator item) = dev"
  shows "keeps_op (partial_sessions dev epoch revision s0) (write_present g epoch revision now items)"
  unfolding write_present_def
  by (intro keeps_for keeps_seq keeps_mod keeps_partial_write) (use assms in \<open>auto simp: fresh_projection_def\<close>)

lemma keeps_partial_gone:
  assumes "\<forall>p \<in> set existing. loc_DeviceID (rp_Locator p) = dev"
  shows "keeps_op (partial_sessions dev epoch revision s0) (write_gone g epoch revision now present existing)"
  unfolding write_gone_def
  by (intro keeps_for keeps_if keeps_seq keeps_mod keeps_partial_write keeps_pure)
     (use assms in \<open>auto simp: gone_projection_def\<close>)

lemma list_sessions_device:
  "listRemoteSessionsLocked g s dev scope = Inr ps \<Longrightarrow> dev \<noteq> [] \<Longrightarrow> p \<in> set ps \<Longrightarrow> loc_DeviceID (rp_Locator p) = dev"
  by (auto simp: listRemoteSessionsLocked_def)

lemma triple_write_peer:
  "triple_op (partial_sessions dev epoch revision s0) (writePeerLocked peer) (\<lambda>_ _. True) (\<lambda>_. partial_sessions dev epoch revision s0)"
  by (rule triple_opI) (auto dest!: write_peer_cases)

text \<open>A transaction as its \<open>Upsert\<close> builds it: every pending record is one of its device.\<close>

definition session_tx_ok :: "SessionInventorySnapshot \<Rightarrow> bool" where
  "session_tx_ok x \<longleftrightarrow> si_deviceID x \<noteq> [] \<and> distinct (map fst (si_pending x))
     \<and> (\<forall>(k, item) \<in> set (si_pending x). Locator_Validate (pp_locator item) = None
          \<and> loc_DeviceID (pp_locator item) = si_deviceID x \<and> k = session_key (pp_locator item))"

lemma pending_items_set: "distinct (map fst pending) \<Longrightarrow> set (pending_items pending) = snd ` set pending"
  by (force simp: pending_items_def)

lemma session_batch_error:
  assumes "session_tx_ok x" "\<forall>p \<in> set existing. loc_DeviceID (rp_Locator p) = si_deviceID x"
  shows "triple_op (partial_sessions (si_deviceID x) (si_epoch x) (si_revision x) s0) (write_session_batch g x peer existing now)
    (\<lambda>_ _. True) (\<lambda>_. partial_sessions (si_deviceID x) (si_epoch x) (si_revision x) s0)"
proof -
  have items: "\<forall>item \<in> set (pending_items (si_pending x)). loc_DeviceID (pp_locator item) = si_deviceID x"
    using assms(1) by (auto simp: session_tx_ok_def pending_items_set)
  show ?thesis
    unfolding write_session_batch_def Let_def
    by (rule triple_seq [OF triple_keeps [OF keeps_partial_present [OF items]]
          triple_seq [OF triple_keeps [OF keeps_partial_gone [OF assms(2)]]
            triple_seq [OF triple_write_peer triple_publish_last]]])
qed

text \<open>The exits of a commit: refused before it wrote anything, or stopped in the middle of its batch.\<close>

lemma bind_read: "bind_op (read_op f) k s = (case f s of Inl e \<Rightarrow> (s, Inl e) | Inr x \<Rightarrow> k x s)"
  by (simp add: bind_op_def)

lemma commit_reads:
  assumes "seq_op (read_op v) (bind_op (read_op f) (\<lambda>x. bind_op (read_op h) (\<lambda>y. bind_op (get_op st_now) (k x y)))) s = (s', r)"
  shows "(\<exists>e. r = Inl e \<and> s' = s)
    \<or> (\<exists>x y. v s = Inr () \<and> f s = Inr x \<and> h s = Inr y \<and> k x y (st_now s) s = (s', r))"
proof (cases "v s")
  case (Inl e)
  with assms show ?thesis by (auto simp: seq_op_def bind_read)
next
  case v: (Inr u)
  show ?thesis
  proof (cases "f s")
    case (Inl e)
    with v assms show ?thesis by (auto simp: seq_op_def bind_read)
  next
    case (Inr x)
    with v assms show ?thesis by (cases "h s") (auto simp: seq_op_def bind_read)
  qed
qed

lemma commit_session_cases:
  assumes "commitSessionInventory g x s = (s', r)"
  shows "(\<exists>e. r = Inl e \<and> s' = s)
    \<or> (\<exists>found existing. validateSessionInventoryCursorLocked (si_deviceID x) (si_epoch x) (si_revision x) s = Inr ()
      \<and> lookup_peer s (si_deviceID x) = Inr found \<and> listRemoteSessionsLocked g s (si_deviceID x) [] = Inr existing
      \<and> write_session_batch g x (peer_or_new (si_deviceID x) found) existing (st_now s) s = (s', r))"
  using assms unfolding commitSessionInventory_def by (rule commit_reads)

text \<open>
  C2. A session inventory is visible all at once or not at all: if its commit fails, at whichever of
  its file writes, then every session that afterwards reads as fresh or as gone already read so,
  with the same record, before the commit. Nothing of a half-written batch is ever shown as
  present or as deleted.
\<close>

theorem session_commit_atomic:
  assumes "session_tx_ok x" "commitSessionInventory g x s = (s', Inl e)"
    and "GetRemoteSession g l s' = Inr p" "rp_Freshness p = FreshnessFresh \<or> rp_Freshness p = FreshnessGone"
  shows "GetRemoteSession g l s = Inr p"
  using commit_session_cases [OF assms(2)]
proof (elim disjE exE conjE)
  assume "s' = s" with assms(3) show ?thesis by simp
next
  fix found existing
  let ?dev = "si_deviceID x"
  assume gate: "validateSessionInventoryCursorLocked ?dev (si_epoch x) (si_revision x) s = Inr ()"
    and list: "listRemoteSessionsLocked g s ?dev [] = Inr existing"
    and w: "write_session_batch g x (peer_or_new ?dev found) existing (st_now s) s = (s', Inl e)"
  have "\<forall>p \<in> set existing. loc_DeviceID (rp_Locator p) = ?dev"
    using list_sessions_device [OF list] assms(1) by (auto simp: session_tx_ok_def)
  from triple_op_Inl [OF session_batch_error [OF assms(1) this] partial_sessions_refl w]
  have part: "partial_sessions ?dev (si_epoch x) (si_revision x) s s'" .
  then have peers: "lookup_peer s' d = lookup_peer s d" for d
    by (intro lookup_peer_cong) (simp add: partial_sessions_def)
  obtain path q peer where q: "Locator_Validate l = None" "remoteSessionPath l = Inr path"
      "readJSONFile (st_sessions s') path = Inr q" "Projection_Validate g q = None" "EqualIdentity (rp_Locator q) l"
      "lookup_peer s (loc_DeviceID l) = Inr peer" "p = effectiveSessionProjection q peer"
    using assms(3) by (auto simp: GetRemoteSession_def getRemoteSessionLocked_def peers split: if_splits)
  have old: "map_of (st_sessions s') path = map_of (st_sessions s) path"
  proof (rule ccontr)
    assume "map_of (st_sessions s') path \<noteq> map_of (st_sessions s) path"
    then have new: "rp_SourceEpoch q = si_epoch x" "rp_SourceRevision q = si_revision x" "loc_DeviceID (rp_Locator q) = ?dev"
      using part q(3) by (fastforce simp: partial_sessions_def readJSONFile_def)+
    then have dev: "loc_DeviceID l = ?dev" using q(5) by (simp add: EqualIdentity_def)
    have "rp_Freshness p \<noteq> FreshnessFresh \<and> rp_Freshness p \<noteq> FreshnessGone"
    proof (cases peer)
      case None
      then show ?thesis using session_gate.unsettled_without_peer q(7) by simp
    next
      case (Some peer')
      then have "\<not> stale_session_cursor (rp_SourceEpoch q) (rp_SourceRevision q) peer'"
        using gate q(6) new dev by (simp add: session_cursor_gate)
      then show ?thesis using session_gate.new_batch_invisible q(7) Some by blast
    qed
    with assms(4) show False by blast
  qed
  then show ?thesis using q by (simp add: GetRemoteSession_def getRemoteSessionLocked_def readJSONFile_def)
qed

section \<open>The same for artifacts\<close>

definition partial_artifacts :: "string \<Rightarrow> string \<Rightarrow> u64 \<Rightarrow> store \<Rightarrow> store \<Rightarrow> bool" where
  "partial_artifacts dev epoch revision s0 s \<longleftrightarrow>
     st_peers s = st_peers s0
     \<and> (\<forall>path. map_of (st_remote_artifacts s) path = map_of (st_remote_artifacts s0) path
          \<or> (\<exists>a. map_of (st_remote_artifacts s) path = Some (File a) \<and> ae_SourceEpoch a = epoch
                \<and> ae_SourceRevision a = revision \<and> ae_OriginDeviceID a = dev))"

lemma partial_artifacts_refl: "partial_artifacts dev epoch revision s s"
  by (simp add: partial_artifacts_def)

lemma partial_artifacts_publish:
  "partial_artifacts dev epoch revision s0 s \<Longrightarrow> partial_artifacts dev epoch revision s0 (publishLocked k e key s)"
  by (simp add: partial_artifacts_def)

lemma keeps_partial_artifact:
  assumes "ae_SourceEpoch a = epoch" "ae_SourceRevision a = revision" "ae_OriginDeviceID a = dev"
  shows "keeps_op (partial_artifacts dev epoch revision s0) (writeRemoteArtifactLocked g a)"
proof (rule keeps_opI)
  fix s assume s: "partial_artifacts dev epoch revision s0 s"
  obtain s' r where w: "writeRemoteArtifactLocked g a s = (s', r)" by fastforce
  from write_artifact_cases [OF w] s assms
  show "partial_artifacts dev epoch revision s0 (fst (writeRemoteArtifactLocked g a s))"
    unfolding w fst_conv by (elim disjE exE conjE) (auto simp: partial_artifacts_def artifact_stored_def)
qed

lemma keeps_partial_present_artifacts:
  assumes "\<forall>a \<in> set items. ae_SourceEpoch a = epoch \<and> ae_SourceRevision a = revision \<and> ae_OriginDeviceID a = dev"
  shows "keeps_op (partial_artifacts dev epoch revision s0) (write_present_artifacts g now items)"
  unfolding write_present_artifacts_def
  by (intro keeps_for keeps_seq keeps_mod keeps_partial_artifact partial_artifacts_publish) (use assms in auto)

lemma keeps_partial_gone_artifacts:
  assumes "\<forall>a \<in> set existing. ae_OriginDeviceID a = dev"
  shows "keeps_op (partial_artifacts dev epoch revision s0) (write_gone_artifacts g epoch revision now present existing)"
  unfolding write_gone_artifacts_def
  by (intro keeps_for keeps_if keeps_seq keeps_mod keeps_partial_artifact partial_artifacts_publish keeps_pure)
     (use assms in auto)

lemma triple_write_artifact_peer:
  "triple_op (partial_artifacts dev epoch revision s0) (writePeerLocked peer) (\<lambda>_ _. True) (\<lambda>_. partial_artifacts dev epoch revision s0)"
  by (rule triple_opI) (auto dest!: write_peer_cases simp: partial_artifacts_def)

text \<open>A transaction as its \<open>Upsert\<close> builds it: every pending artifact carries the transaction's origin and cursor.\<close>

definition artifact_tx_ok :: "ArtifactInventorySnapshot \<Rightarrow> bool" where
  "artifact_tx_ok x \<longleftrightarrow> ai_deviceID x \<noteq> [] \<and> distinct (map fst (ai_pending x))
     \<and> (\<forall>(k, a) \<in> set (ai_pending x). ae_OriginDeviceID a = ai_deviceID x \<and> ae_SourceEpoch a = ai_epoch x
          \<and> ae_SourceRevision a = ai_revision x)"

lemma artifact_batch_error:
  assumes "artifact_tx_ok x" "\<forall>a \<in> set existing. ae_OriginDeviceID a = ai_deviceID x"
  shows "triple_op (partial_artifacts (ai_deviceID x) (ai_epoch x) (ai_revision x) s0) (write_artifact_batch g x peer existing now)
    (\<lambda>_ _. True) (\<lambda>_. partial_artifacts (ai_deviceID x) (ai_epoch x) (ai_revision x) s0)"
proof -
  have items: "\<forall>a \<in> set (pending_items (ai_pending x)). ae_SourceEpoch a = ai_epoch x \<and> ae_SourceRevision a = ai_revision x
      \<and> ae_OriginDeviceID a = ai_deviceID x"
    using assms(1) by (auto simp: artifact_tx_ok_def pending_items_set)
  show ?thesis
    unfolding write_artifact_batch_def Let_def
    by (rule triple_seq [OF triple_keeps [OF keeps_partial_present_artifacts [OF items]]
          triple_seq [OF triple_keeps [OF keeps_partial_gone_artifacts [OF assms(2)]]
            triple_seq [OF triple_write_artifact_peer triple_publish_last]]])
qed

lemma commit_artifact_cases:
  assumes "commitArtifactInventory g x s = (s', r)"
  shows "(\<exists>e. r = Inl e \<and> s' = s)
    \<or> (\<exists>found existing. validateArtifactInventoryCursorLocked (ai_deviceID x) (ai_epoch x) (ai_revision x) s = Inr ()
      \<and> lookup_peer s (ai_deviceID x) = Inr found \<and> listRemoteArtifactsRawLocked g s (ai_deviceID x) NoKind = Inr existing
      \<and> write_artifact_batch g x (peer_or_new (ai_deviceID x) found) existing (st_now s) s = (s', r))"
  using assms unfolding commitArtifactInventory_def by (rule commit_reads)

lemma normalize_remote [simp]: "ae_OriginDeviceID a \<noteq> [] \<Longrightarrow> normalize_artifact a = a"
  by (simp add: normalize_artifact_def)

lemma normalize_origin [simp]: "ae_OriginDeviceID (normalize_artifact a) = ae_OriginDeviceID a"
  by (simp add: normalize_artifact_def Let_def)

text \<open>
  An artifact inventory, too, is visible all at once or not at all: if its commit fails, at
  whichever of its file writes, every remote artifact that afterwards reads as fresh or as gone
  already read so, with the same envelope, before the commit.
\<close>

theorem artifact_commit_atomic:
  assumes "artifact_tx_ok x" "commitArtifactInventory g x s = (s', Inl e)"
    and "GetRemoteArtifact g origin kind sid s' = Inr a" "ae_Freshness a = FreshnessFresh \<or> ae_Freshness a = FreshnessGone"
  shows "GetRemoteArtifact g origin kind sid s = Inr a"
  using commit_artifact_cases [OF assms(2)]
proof (elim disjE exE conjE)
  assume "s' = s" with assms(3) show ?thesis by simp
next
  fix found existing
  let ?dev = "ai_deviceID x"
  assume gate: "validateArtifactInventoryCursorLocked ?dev (ai_epoch x) (ai_revision x) s = Inr ()"
    and list: "listRemoteArtifactsRawLocked g s ?dev NoKind = Inr existing"
    and w: "write_artifact_batch g x (peer_or_new ?dev found) existing (st_now s) s = (s', Inl e)"
  have "\<forall>a \<in> set existing. ae_OriginDeviceID a = ?dev"
    using list assms(1) by (auto simp: artifact_tx_ok_def listRemoteArtifactsRawLocked_def sortArtifacts_def)
  from triple_op_Inl [OF artifact_batch_error [OF assms(1) this] partial_artifacts_refl w]
  have part: "partial_artifacts ?dev (ai_epoch x) (ai_revision x) s s'" .
  then have peers: "lookup_peer s' d = lookup_peer s d" for d
    by (intro lookup_peer_cong) (simp add: partial_artifacts_def)
  obtain path q b peer where q: "validateID ''origin_device_id'' origin = None" "Kind_Validate kind = None"
      "validateID ''source_id'' sid = None" "remoteArtifactPath origin kind sid = Inr path"
      "map_of (st_remote_artifacts s') path = Some (File b)" "q = normalize_artifact b" "Artifact_Validate g q = None"
      "ae_OriginDeviceID q = origin" "ae_Kind q = kind" "ae_SourceID q = sid"
      "lookup_peer s origin = Inr peer" "a = effectiveArtifact q peer"
    using assms(3)
    by (auto simp: GetRemoteArtifact_def readArtifactFile_def readJSONFile_def Let_def peers split: if_splits option.splits fnode.splits)
  have remote: "ae_OriginDeviceID q \<noteq> []" using q(1,8) by (auto simp: validateID_def safeID_def id_shape_def)
  then have qb: "q = b" using q(6) by simp
  have old: "map_of (st_remote_artifacts s') path = map_of (st_remote_artifacts s) path"
  proof (rule ccontr)
    assume "map_of (st_remote_artifacts s') path \<noteq> map_of (st_remote_artifacts s) path"
    then obtain a' where "map_of (st_remote_artifacts s') path = Some (File a')" "ae_SourceEpoch a' = ai_epoch x"
        "ae_SourceRevision a' = ai_revision x" "ae_OriginDeviceID a' = ?dev"
      using part unfolding partial_artifacts_def by blast
    then have new: "ae_SourceEpoch q = ai_epoch x" "ae_SourceRevision q = ai_revision x" "origin = ?dev"
      using q(5,8) qb by auto
    have "ae_Freshness a \<noteq> FreshnessFresh \<and> ae_Freshness a \<noteq> FreshnessGone"
    proof (cases peer)
      case None
      then show ?thesis using artifact_gate.unsettled_without_peer [OF remote] q(12) by simp
    next
      case (Some peer')
      then have "\<not> stale_artifact_cursor (ae_SourceEpoch q) (ae_SourceRevision q) peer'"
        using gate q(11) new by (simp add: artifact_cursor_gate)
      then show ?thesis using artifact_gate.new_batch_invisible [OF remote] q(12) Some by blast
    qed
    with assms(4) show False by blast
  qed
  with q(5) have "map_of (st_remote_artifacts s) path = Some (File b)" by simp
  then have "readArtifactFile g (st_remote_artifacts s) path = Inr q"
    using q(6,7) by (simp add: readArtifactFile_def readJSONFile_def Let_def)
  then show ?thesis using q(1-4,8-12) by (simp add: GetRemoteArtifact_def)
qed

section \<open>A batch that commits\<close>

lemma for_op_filter: "for_op xs (\<lambda>x. if P x then ret_op () else f x) = for_op (filter (\<lambda>x. \<not> P x) xs) f"
  by (induction xs) (auto simp: seq_op_def bind_op_def ret_op_def)

lemma for_op_map: "for_op (map h xs) f = for_op xs (\<lambda>x. f (h x))"
  by (induction xs) auto

lemma for_op_append_last:
  "for_op (xs @ [x]) f s = (t, Inr ()) \<longleftrightarrow> (\<exists>u. for_op xs f s = (u, Inr ()) \<and> f x u = (t, Inr ()))"
  by (induction xs arbitrary: s) (auto simp: seq_op_eq_Inr)

text \<open>What a loop of successful writes leaves: each file holds the last record written to it.\<close>

definition write_all :: "golib \<Rightarrow> ChangeType \<Rightarrow> RemoteSessionProjection list \<Rightarrow> unit sop" where
  "write_all g kind ps =
     for_op ps (\<lambda>p. seq_op (writeRemoteSessionLocked g p) (publish kind EntityRemoteSession (identityKey (rp_Locator p))))"

lemma write_present_all: "write_present g e r now items = write_all g ChangeUpsert (map (fresh_projection e r now) items)"
  by (simp add: write_present_def write_all_def for_op_map fresh_projection_def)

lemma write_gone_all:
  "write_gone g e r now present existing =
     write_all g ChangeFreshness (map (gone_projection e r now) (filter (\<lambda>p. \<not> present p) existing))"
  by (simp add: write_gone_def write_all_def for_op_map for_op_filter gone_projection_def)

definition written_to :: "RemoteSessionProjection list \<Rightarrow> path \<Rightarrow> RemoteSessionProjection option" where
  "written_to ps path = find (\<lambda>p. remoteSessionPath (rp_Locator p) = Inr path) (rev ps)"

lemma write_all_ok:
  assumes "write_all g k ps s = (s', Inr ())"
  shows "st_peers s' = st_peers s \<and> st_now s' = st_now s
    \<and> (\<forall>p \<in> set ps. Projection_Validate g p = None)
    \<and> (\<forall>path. map_of (st_sessions s') path =
         (case written_to ps path of None \<Rightarrow> map_of (st_sessions s) path | Some p \<Rightarrow> Some (File (projection_stored p))))"
  using assms
proof (induction ps arbitrary: s' rule: rev_induct)
  case Nil
  then show ?case by (simp add: write_all_def written_to_def)
next
  case (snoc p ps)
  then obtain u v where u: "write_all g k ps s = (u, Inr ())" "writeRemoteSessionLocked g p u = (v, Inr ())"
      "s' = publishLocked k EntityRemoteSession (identityKey (rp_Locator p)) v"
    by (auto simp: write_all_def for_op_append_last seq_op_eq_Inr)
  obtain fs path where v: "Projection_Validate g p = None" "remoteSessionPath (rp_Locator p) = Inr path"
      "v = u\<lparr>st_sessions := AList.update path (File (projection_stored p)) (st_sessions u), st_faults := fs\<rparr>"
    using write_session_cases [OF u(2)] by blast
  show ?case using snoc.IH [OF u(1)] u(3) v by (auto simp: written_to_def)
qed

lemma path_Inr: "store_path segs = Inr path \<longleftrightarrow> path = segs \<and> \<not> list_ex unsafe_segment segs"
  by (auto simp: store_path_def)

lemma session_path_inj:
  "remoteSessionPath l = Inr path \<Longrightarrow> remoteSessionPath m = Inr path \<Longrightarrow>
     loc_DeviceID l = loc_DeviceID m \<and> loc_ProfileScope l = loc_ProfileScope m \<and> loc_SessionID l = loc_SessionID m"
  by (auto simp: remoteSessionPath_def path_Inr)

lemma session_batch_ok:
  assumes "write_session_batch g x peer existing now s = (s', Inr ())"
  obtains fresh gone where
    "fresh = map (fresh_projection (si_epoch x) (si_revision x) now) (pending_items (si_pending x))"
    "gone = map (gone_projection (si_epoch x) (si_revision x) now)
       (filter (\<lambda>p. identityKey (rp_Locator p) \<notin> (identityKey \<circ> pp_locator) ` set (pending_items (si_pending x))) existing)"
    "\<forall>p \<in> set (fresh @ gone). Projection_Validate g p = None"
    "\<forall>path. map_of (st_sessions s') path =
       (case written_to gone path of Some p \<Rightarrow> Some (File (projection_stored p))
        | None \<Rightarrow> (case written_to fresh path of Some p \<Rightarrow> Some (File (projection_stored p))
                   | None \<Rightarrow> map_of (st_sessions s) path))"
    "Peer_Validate (committed_peer x now existing peer) = None"
    "\<exists>path. peerPath (si_deviceID x) = Inr path
       \<and> st_peers s' = AList.update path (File (committed_peer x now existing peer)) (st_peers s)"
proof -
  let ?fresh = "map (fresh_projection (si_epoch x) (si_revision x) now) (pending_items (si_pending x))"
  let ?gone = "map (gone_projection (si_epoch x) (si_revision x) now)
       (filter (\<lambda>p. identityKey (rp_Locator p) \<notin> (identityKey \<circ> pp_locator) ` set (pending_items (si_pending x))) existing)"
  obtain u v w where w: "write_all g ChangeUpsert ?fresh s = (u, Inr ())"
      "write_all g ChangeFreshness ?gone u = (v, Inr ())"
      "writePeerLocked (committed_peer x now existing peer) v = (w, Inr ())"
      "st_sessions s' = st_sessions w" "st_peers s' = st_peers w"
    using assms
    by (auto simp: write_session_batch_def Let_def write_present_all write_gone_all seq_op_eq_Inr)
  have dev: "ps_DeviceID (committed_peer x now existing peer) = si_deviceID x"
    by (simp add: committed_peer_def Let_def)
  obtain fs path where p: "Peer_Validate (committed_peer x now existing peer) = None" "peerPath (si_deviceID x) = Inr path"
      "w = v\<lparr>st_peers := AList.update path (File (committed_peer x now existing peer)) (st_peers v), st_faults := fs\<rparr>"
    using write_peer_cases [OF w(3)] dev by auto
  show ?thesis
  proof (rule that [OF refl refl])
    show "\<forall>p \<in> set (?fresh @ ?gone). Projection_Validate g p = None"
      using write_all_ok [OF w(1)] write_all_ok [OF w(2)] by auto
    show "\<forall>path. map_of (st_sessions s') path =
       (case written_to ?gone path of Some p \<Rightarrow> Some (File (projection_stored p))
        | None \<Rightarrow> (case written_to ?fresh path of Some p \<Rightarrow> Some (File (projection_stored p))
                   | None \<Rightarrow> map_of (st_sessions s) path))"
      using write_all_ok [OF w(1)] write_all_ok [OF w(2)] w(4) p(3) by (auto split: option.split)
  qed (use p w(5) write_all_ok [OF w(1)] write_all_ok [OF w(2)] in auto)
qed

lemma list_sessions_read:
  assumes "listRemoteSessionsLocked g s dev scope = Inr ps" "p \<in> set ps"
  shows "\<exists>path. remoteSessionPath (rp_Locator p) = Inr path \<and> readJSONFile (st_sessions s) path = Inr p \<and> Projection_Validate g p = None"
  using assms by (fastforce simp: listRemoteSessionsLocked_def read_session_def dest!: map_res_mem split: if_splits)

lemma written_to_Some: "written_to ps path = Some p \<Longrightarrow> p \<in> set ps \<and> remoteSessionPath (rp_Locator p) = Inr path"
  by (auto simp: written_to_def dest!: find_SomeD)

lemma written_to_None: "written_to ps path = None \<longleftrightarrow> (\<forall>p \<in> set ps. remoteSessionPath (rp_Locator p) \<noteq> Inr path)"
  by (auto simp: written_to_def find_None_iff)

lemma identityKey_path:
  "remoteSessionPath l = Inr path \<Longrightarrow> remoteSessionPath m = Inr path \<Longrightarrow> identityKey l = identityKey m"
  using session_path_inj [of l path m] by (simp add: identityKey_def)

lemma committed_lookup:
  assumes "Peer_Validate peer = None" "ps_DeviceID peer = dev" "peerPath dev = Inr path"
    "st_peers s = AList.update path (File peer) ps"
  shows "lookup_peer s dev = Inr (Some peer)"
  using assms by (simp add: lookup_peer_def getPeerLocked_def readJSONFile_def)

lemma committed_peer_sel [simp]:
  "ps_DeviceID (committed_peer x now existing peer) = si_deviceID x"
  "ps_SessionFreshness (committed_peer x now existing peer) = FreshnessFresh"
  "ps_SessionInventory (committed_peer x now existing peer) =
     Some \<lparr>ic_SourceEpoch = si_epoch x, ic_SourceRevision = si_revision x, ic_CommittedAt = now\<rparr>"
  by (simp_all add: committed_peer_def Let_def)

lemma effective_under_commit:
  "rp_SourceEpoch p = si_epoch x \<Longrightarrow> rp_SourceRevision p = si_revision x \<Longrightarrow>
     effectiveSessionProjection p (Some (committed_peer x now existing peer)) = p"
  by (simp add: effectiveSessionProjection_def session_committed_def sameCursor_def sessionInventoryFreshness_def)

lemma stored_valid:
  "Projection_Validate g p = None \<Longrightarrow> validateMetadata g (raw_stored (rp_Metadata p)) = None \<Longrightarrow>
     Projection_Validate g (projection_stored p) = None"
  by (simp add: Projection_Validate_def projection_stored_def)

text \<open>Reading a record the batch has just written.\<close>

lemma read_written:
  assumes "Locator_Validate l = None" "remoteSessionPath l = Inr path"
    and "map_of (st_sessions s') path = Some (File (projection_stored p))"
    and "Projection_Validate g p = None" "validateMetadata g (raw_stored (rp_Metadata p)) = None"
    and "EqualIdentity (rp_Locator p) l" "lookup_peer s' (loc_DeviceID l) = Inr (Some (committed_peer x now existing peer))"
    and "rp_SourceEpoch p = si_epoch x" "rp_SourceRevision p = si_revision x"
  shows "GetRemoteSession g l s' = Inr (projection_stored p)"
  using assms stored_valid [OF assms(4,5)] effective_under_commit [of "projection_stored p" x now existing peer]
  by (simp add: GetRemoteSession_def getRemoteSessionLocked_def readJSONFile_def projection_stored_def)

text \<open>Validated identifiers are safe path segments.\<close>

lemma safeID_plain: "safeID s \<Longrightarrow> s \<noteq> [] \<and> list_all plain_char s"
  by (auto simp: safeID_def id_shape_def plain_char_def list_all_iff split: list.splits)

lemma safeID_segment: "validateID f s = None \<Longrightarrow> \<not> unsafe_segment s \<and> \<not> unsafe_segment (s @ ''.json'')"
  using safeID_plain [of s]
  by (intro conjI plain_segment) (auto simp: validateID_def append_eq_Cons_conv plain_char_def char_class_defs byte_of_def)

lemma scope_segment: "ProfileScope_Validate sc = None \<Longrightarrow> \<not> unsafe_segment sc"
proof -
  assume v: "ProfileScope_Validate sc = None"
  show ?thesis
  proof (cases "sc = RootProfileScope")
    case True
    then show ?thesis
      by (intro plain_segment) (simp_all add: RootProfileScope_def plain_char_def char_class_defs byte_of_def)
  next
    case False
    then obtain slug where sc: "sc = ''profile:'' @ slug" "profileSlug slug"
      using v by (auto simp: ProfileScope_Validate_def has_prefix_iff)
    have "list_all plain_char slug"
      using sc(2) by (auto simp: profileSlug_def Let_def list_all_iff plain_char_def is_alnum_def)
    then show ?thesis
      using sc(1) by (intro plain_segment) (simp_all add: plain_char_def char_class_defs byte_of_def)
  qed
qed

lemma valid_session_path:
  assumes "Locator_Validate l = None"
  shows "remoteSessionPath l = Inr [''remote-sessions'', loc_DeviceID l, loc_ProfileScope l, loc_SessionID l @ ''.json'']"
proof -
  have "\<not> unsafe_segment ''remote-sessions''"
    by (intro plain_segment) (simp_all add: plain_char_def char_class_defs byte_of_def)
  then show ?thesis
    using assms safeID_segment [of "''device_id''"] safeID_segment [of "''session_id''"] scope_segment
    by (simp add: Locator_Validate_def remoteSessionPath_def path_Inr)
qed

lemma session_tx_okD:
  assumes "session_tx_ok x" "(k, item) \<in> set (si_pending x)"
  shows "Locator_Validate (pp_locator item) = None" "loc_DeviceID (pp_locator item) = si_deviceID x"
    "k = session_key (pp_locator item)" "item \<in> set (pending_items (si_pending x))"
proof -
  show "Locator_Validate (pp_locator item) = None" "loc_DeviceID (pp_locator item) = si_deviceID x"
    "k = session_key (pp_locator item)"
    using assms by (auto simp: session_tx_ok_def)
  have "distinct (map fst (si_pending x))" using assms(1) by (simp add: session_tx_ok_def)
  with assms(2) show "item \<in> set (pending_items (si_pending x))" by (force simp: pending_items_set)
qed

lemma gone_identity [simp]: "rp_Locator (gone_projection e r now p) = rp_Locator p"
  by (simp add: gone_projection_def)

lemma fresh_identity [simp]: "rp_Locator (fresh_projection e r now item) = pp_locator item"
  by (simp add: fresh_projection_def)

lemma lookup_peer_other:
  assumes "peerPath d' = Inr path" "d \<noteq> d'" "st_peers s' = AList.update path v (st_peers s)"
  shows "lookup_peer s' d = lookup_peer s d"
proof (cases "peerPath d")
  case (Inr q)
  with assms(1,2) have "q \<noteq> path" by (auto simp: peerPath_def path_Inr)
  with Inr assms(3) show ?thesis by (simp add: lookup_peer_def getPeerLocked_def readJSONFile_def)
qed (simp add: lookup_peer_def getPeerLocked_def)

lemma written_by_batch:
  assumes "session_tx_ok x"
  shows "(k, item) \<in> set (si_pending x) \<Longrightarrow> remoteSessionPath (pp_locator item) = Inr path \<Longrightarrow>
      written_to (map (fresh_projection e r now) (pending_items (si_pending x))) path = Some (fresh_projection e r now item)"
proof -
  assume item: "(k, item) \<in> set (si_pending x)" and path: "remoteSessionPath (pp_locator item) = Inr path"
  let ?ps = "map (fresh_projection e r now) (pending_items (si_pending x))"
  have items: "set (pending_items (si_pending x)) = snd ` set (si_pending x)"
    using assms by (simp add: session_tx_ok_def pending_items_set)
  have "item \<in> set (pending_items (si_pending x))" using item items by force
  then have "written_to ?ps path \<noteq> None" using path by (auto simp: written_to_None)
  then obtain p where p: "written_to ?ps path = Some p" by blast
  then obtain k' item' where i: "(k', item') \<in> set (si_pending x)" "p = fresh_projection e r now item'"
      "remoteSessionPath (pp_locator item') = Inr path"
    using written_to_Some [OF p] items by (auto simp: fresh_projection_def)
  have "k' = k"
    unfolding session_tx_okD(3) [OF assms item] session_tx_okD(3) [OF assms i(1)] session_key_def
    using session_path_inj [OF path i(3)] by simp
  with item i(1) assms have "item' = item" by (auto simp: session_tx_ok_def dest: eq_key_imp_eq_value)
  with p i(2) show ?thesis by simp
qed

text \<open>Everything a successful commit leaves behind, for the theorems below.\<close>

lemma commit_session_ok:
  assumes "session_tx_ok x" "commitSessionInventory g x s = (s', Inr ())"
  obtains existing peer fresh gone where
    "listRemoteSessionsLocked g s (si_deviceID x) [] = Inr existing"
    "fresh = map (fresh_projection (si_epoch x) (si_revision x) (st_now s)) (pending_items (si_pending x))"
    "gone = map (gone_projection (si_epoch x) (si_revision x) (st_now s))
       (filter (\<lambda>p. identityKey (rp_Locator p) \<notin> (identityKey \<circ> pp_locator \<circ> snd) ` set (si_pending x)) existing)"
    "\<forall>p \<in> set (fresh @ gone). Projection_Validate g p = None"
    "\<forall>path. map_of (st_sessions s') path =
       (case written_to gone path of Some p \<Rightarrow> Some (File (projection_stored p))
        | None \<Rightarrow> (case written_to fresh path of Some p \<Rightarrow> Some (File (projection_stored p))
                   | None \<Rightarrow> map_of (st_sessions s) path))"
    "lookup_peer s' (si_deviceID x) = Inr (Some (committed_peer x (st_now s) existing peer))"
    "\<forall>d. d \<noteq> si_deviceID x \<longrightarrow> lookup_peer s' d = lookup_peer s d"
proof -
  obtain found existing where c: "listRemoteSessionsLocked g s (si_deviceID x) [] = Inr existing"
      "write_session_batch g x (peer_or_new (si_deviceID x) found) existing (st_now s) s = (s', Inr ())"
    using commit_session_cases [OF assms(2)] by auto
  have items: "set (pending_items (si_pending x)) = snd ` set (si_pending x)"
    using assms(1) by (simp add: session_tx_ok_def pending_items_set)
  from c(2) show ?thesis
  proof (rule session_batch_ok)
    fix fresh gone
    let ?peer = "committed_peer x (st_now s) existing (peer_or_new (si_deviceID x) found)"
    assume b: "fresh = map (fresh_projection (si_epoch x) (si_revision x) (st_now s)) (pending_items (si_pending x))"
      "gone = map (gone_projection (si_epoch x) (si_revision x) (st_now s))
       (filter (\<lambda>p. identityKey (rp_Locator p) \<notin> (identityKey \<circ> pp_locator) ` set (pending_items (si_pending x))) existing)"
      "\<forall>p \<in> set (fresh @ gone). Projection_Validate g p = None"
      "\<forall>path. map_of (st_sessions s') path =
         (case written_to gone path of Some p \<Rightarrow> Some (File (projection_stored p))
          | None \<Rightarrow> (case written_to fresh path of Some p \<Rightarrow> Some (File (projection_stored p))
                     | None \<Rightarrow> map_of (st_sessions s) path))"
      "Peer_Validate ?peer = None"
      "\<exists>path. peerPath (si_deviceID x) = Inr path \<and> st_peers s' = AList.update path (File ?peer) (st_peers s)"
    obtain path where path: "peerPath (si_deviceID x) = Inr path" "st_peers s' = AList.update path (File ?peer) (st_peers s)"
      using b(6) by blast
    have "lookup_peer s' (si_deviceID x) = Inr (Some ?peer)"
      by (rule committed_lookup [OF b(5) _ path]) simp
    moreover have "lookup_peer s' d = lookup_peer s d" if "d \<noteq> si_deviceID x" for d
      by (rule lookup_peer_other [OF path(1) that path(2)])
    ultimately show ?thesis
      using that [OF c(1) b(1) _ b(3,4)] b(2) by (simp add: items image_comp)
  qed
qed

lemma session_commit_reads:
  assumes "session_tx_ok x" "commitSessionInventory g x s = (s', Inr ())"
  shows "(\<forall>(k, item) \<in> set (si_pending x). validateMetadata g (raw_stored (pp_metadata item)) = None \<longrightarrow>
      GetRemoteSession g (pp_locator item) s' =
        Inr (projection_stored (fresh_projection (si_epoch x) (si_revision x) (st_now s) item)))
    \<and> (\<forall>l. loc_DeviceID l \<noteq> si_deviceID x \<longrightarrow> GetRemoteSession g l s' = GetRemoteSession g l s)"
proof (rule commit_session_ok [OF assms], intro conjI ballI allI impI)
  fix existing peer fresh gone
  assume fresh: "fresh = map (fresh_projection (si_epoch x) (si_revision x) (st_now s)) (pending_items (si_pending x))"
    and list: "listRemoteSessionsLocked g s (si_deviceID x) [] = Inr existing"
    and gone: "gone = map (gone_projection (si_epoch x) (si_revision x) (st_now s))
       (filter (\<lambda>p. identityKey (rp_Locator p) \<notin> (identityKey \<circ> pp_locator \<circ> snd) ` set (si_pending x)) existing)"
    and valid: "\<forall>p \<in> set (fresh @ gone). Projection_Validate g p = None"
    and files: "\<forall>path. map_of (st_sessions s') path =
       (case written_to gone path of Some p \<Rightarrow> Some (File (projection_stored p))
        | None \<Rightarrow> (case written_to fresh path of Some p \<Rightarrow> Some (File (projection_stored p))
                   | None \<Rightarrow> map_of (st_sessions s) path))"
    and peer: "lookup_peer s' (si_deviceID x) = Inr (Some (committed_peer x (st_now s) existing peer))"
    and others: "\<forall>d. d \<noteq> si_deviceID x \<longrightarrow> lookup_peer s' d = lookup_peer s d"
  {
    fix kitem assume kitem: "kitem \<in> set (si_pending x)"
    obtain k item where ki: "kitem = (k, item)" by fastforce
    let ?p = "fresh_projection (si_epoch x) (si_revision x) (st_now s) item"
    have l: "Locator_Validate (pp_locator item) = None" "loc_DeviceID (pp_locator item) = si_deviceID x"
      using session_tx_okD [OF assms(1)] kitem ki by auto
    obtain path where path: "remoteSessionPath (pp_locator item) = Inr path" using valid_session_path [OF l(1)] by blast
    have "identityKey (pp_locator item) \<in> (identityKey \<circ> pp_locator \<circ> snd) ` set (si_pending x)"
      using kitem ki by force
    then have "remoteSessionPath (rp_Locator p) \<noteq> Inr path"
      if "p \<in> set existing" "identityKey (rp_Locator p) \<notin> (identityKey \<circ> pp_locator \<circ> snd) ` set (si_pending x)" for p
      using identityKey_path [OF path, of "rp_Locator p"] that(2) by metis
    then have "written_to gone path = None" by (simp add: written_to_None gone)
    then have "map_of (st_sessions s') path = Some (File (projection_stored ?p))"
      using files written_by_batch [OF assms(1) _ path] kitem ki fresh by simp
    moreover have "Projection_Validate g ?p = None"
      using valid session_tx_okD(4) [OF assms(1)] kitem ki fresh by simp
    ultimately show "case kitem of (k, item) \<Rightarrow> validateMetadata g (raw_stored (pp_metadata item)) = None \<longrightarrow>
        GetRemoteSession g (pp_locator item) s' = Inr (projection_stored (fresh_projection (si_epoch x) (si_revision x) (st_now s) item))"
      using read_written [OF l(1) path, of s' ?p g x "st_now s" existing peer] peer l(2) ki
      by (simp add: EqualIdentity_def fresh_projection_def)
  }
  fix l :: RemoteSessionLocator assume other: "loc_DeviceID l \<noteq> si_deviceID x"
  have "map_of (st_sessions s') path = map_of (st_sessions s) path" if "remoteSessionPath l = Inr path" for path
  proof -
    have dev: "loc_DeviceID (rp_Locator p) = si_deviceID x" if "p \<in> set (fresh @ gone)" for p
      using that fresh gone assms(1) list_sessions_device [OF list] by (auto simp: session_tx_ok_def pending_items_set)
    have "written_to ps path = None" if "set ps \<subseteq> set (fresh @ gone)" for ps
      using that dev other session_path_inj [OF \<open>remoteSessionPath l = Inr path\<close>] by (fastforce simp: written_to_None)
    then show ?thesis using files by simp
  qed
  with others other show "GetRemoteSession g l s' = GetRemoteSession g l s"
    by (simp add: GetRemoteSession_def getRemoteSessionLocked_def readJSONFile_def bind_res_def check_res_def split: option.split sum.split)
qed

text \<open>
  After a commit that succeeds, every session of the inventory reads as fresh, with the
  metadata it was announced with and the transaction's cursor (provided the metadata still
  validates in the form it is stored), and sessions of other devices read as before.
\<close>

theorem session_commit_present:
  assumes "session_tx_ok x" "commitSessionInventory g x s = (s', Inr ())"
  shows "(\<forall>(k, item) \<in> set (si_pending x). validateMetadata g (raw_stored (pp_metadata item)) = None \<longrightarrow>
      GetRemoteSession g (pp_locator item) s' =
        Inr (projection_stored (fresh_projection (si_epoch x) (si_revision x) (st_now s) item)))
    \<and> (\<forall>l. loc_DeviceID l \<noteq> si_deviceID x \<longrightarrow> GetRemoteSession g l s' = GetRemoteSession g l s)"
  by (rule session_commit_reads [OF assms])

section \<open>A small mesh\<close>

text \<open>A device with one committed session and a second inventory that adds another.\<close>

definition demo_golib :: golib where
  "demo_golib = \<lparr>gl_lower = (\<lambda>r. r), gl_url = (\<lambda>_. None)\<rparr>"

definition demo_locator :: "string \<Rightarrow> RemoteSessionLocator" where
  "demo_locator sid = \<lparr>loc_SchemaVersion = 1, loc_DeviceID = ''d'', loc_ProfileScope = ''root'', loc_SessionID = sid,
     loc_TransportBindingID = []\<rparr>"

definition demo_projection :: "string \<Rightarrow> RemoteSessionProjection" where
  "demo_projection sid = \<lparr>rp_SchemaVersion = 1, rp_Locator = demo_locator sid, rp_Metadata = ''{}'', rp_ReceivedAt = 3,
     rp_FreshnessChangedAt = 3, rp_SourceEpoch = ''e'', rp_SourceRevision = 1, rp_Freshness = FreshnessFresh\<rparr>"

definition demo_cursor :: "u64 \<Rightarrow> InventoryCursor" where
  "demo_cursor r = \<lparr>ic_SourceEpoch = ''e'', ic_SourceRevision = r, ic_CommittedAt = 3\<rparr>"

definition demo_peer :: PeerState where
  "demo_peer = \<lparr>ps_SchemaVersion = 1, ps_DeviceID = ''d'', ps_Freshness = FreshnessFresh, ps_SourceEpoch = ''e'',
     ps_UpdatedAt = 3, ps_SessionFreshness = FreshnessFresh, ps_SessionFreshnessChangedAt = 3,
     ps_ArtifactFreshness = FreshnessFresh, ps_ArtifactFreshnessChangedAt = 3, ps_DesiredTopics = [],
     ps_Inventories = [(''root'', demo_cursor 1)], ps_SessionInventory = Some (demo_cursor 1),
     ps_ArtifactInventory = Some (demo_cursor 1)\<rparr>"

definition demo_artifact :: "string \<Rightarrow> ArtifactEnvelope" where
  "demo_artifact aid = \<lparr>ae_SchemaVersion = 1, ae_ID = aid, ae_OriginDeviceID = ''d'', ae_SourceID = aid, ae_Kind = ArtifactGoal,
     ae_Title = [], ae_State = [], ae_URL = [], ae_PathHint = [], ae_Repo = None, ae_Session = None,
     ae_Provenance = ''p'', ae_Revision = [], ae_SourceEpoch = ''e'', ae_SourceRevision = 1,
     ae_RemoteObservedAt = None, ae_ReceivedAt = 3, ae_FreshnessChangedAt = 3, ae_Freshness = FreshnessFresh\<rparr>"

definition demo_store :: "bool list \<Rightarrow> store" where
  "demo_store faults = \<lparr>st_sessions = [([''remote-sessions'', ''d'', ''root'', ''a.json''], File (demo_projection ''a''))],
     st_bindings = [], st_artifacts = [],
     st_remote_artifacts = [([''remote-artifacts'', ''d'', ''goal'', ''a.json''], File (demo_artifact ''a''))],
     st_peers = [([''peers'', ''d.json''], File demo_peer)],
     st_now = 5, st_watchers = [], st_nextWatcherID = 0, st_changeSeq = 0, st_faults = faults\<rparr>"

definition demo_tx :: SessionInventorySnapshot where
  "demo_tx = \<lparr>si_deviceID = ''d'', si_epoch = ''e'', si_revision = 2, si_scopes = [''root''], si_closed = False,
     si_pending = [(session_key (demo_locator ''b''), \<lparr>pp_locator = demo_locator ''b'', pp_metadata = ''{}''\<rparr>)]\<rparr>"

definition demo_artifact_tx :: ArtifactInventorySnapshot where
  "demo_artifact_tx = \<lparr>ai_deviceID = ''d'', ai_epoch = ''e'', ai_revision = 2, ai_closed = False,
     ai_pending = [(''goal'' @ [char_of (0 :: nat)] @ ''b'', (demo_artifact ''b'')\<lparr>ae_SourceRevision := 2\<rparr>)]\<rparr>"

lemmas demo_defs = demo_golib_def demo_locator_def demo_projection_def demo_cursor_def demo_peer_def demo_artifact_def

lemma demo_safe [simp]: "safeID ''a''" "safeID ''b''" "safeID ''d''" "safeID ''e''"
  by (simp_all add: safeID_def id_shape_def char_class_defs byte_of_def)

lemma demo_locator_ok [simp]:
  "Locator_Validate (demo_locator ''a'') = None" "Locator_Validate (demo_locator ''b'') = None"
  by (simp_all add: Locator_Validate_def demo_locator_def SchemaVersion_def validateID_def ProfileScope_Validate_def RootProfileScope_def)

lemma demo_metadata_ok [simp]: "validateMetadata demo_golib ''{}'' = None"
  by code_simp

lemma demo_metadata_stored [simp]: "raw_stored ''{}'' = ''{}''"
  by (simp add: raw_stored_def json_ws_def quote_iff byte_of_def has_prefix_rune_ascii Let_def)

lemma demo_projection_ok [simp]:
  "Projection_Validate demo_golib (demo_projection ''a'') = None"
  "loc_DeviceID (demo_locator sid) = ''d''" "loc_ProfileScope (demo_locator sid) = ''root''" "loc_SessionID (demo_locator sid) = sid"
  "rp_Locator (demo_projection sid) = demo_locator sid" "rp_Freshness (demo_projection sid) = FreshnessFresh"
  by (simp_all add: Projection_Validate_def demo_projection_def SchemaVersion_def validateID_def Freshness_Validate_def) (simp_all add: demo_locator_def)

lemma demo_peer_ok [simp]: "Peer_Validate demo_peer = None"
  by (simp add: Peer_Validate_def demo_peer_def SchemaVersion_def validateID_def Freshness_Validate_def
      validateInventoryFreshness_def maxDesiredTopics_def ProfileScope_Validate_def RootProfileScope_def Cursor_Validate_def demo_cursor_def)

lemma demo_paths [simp]:
  "remoteSessionPath (demo_locator ''a'') = Inr [''remote-sessions'', ''d'', ''root'', ''a.json'']"
  "remoteSessionPath (demo_locator ''b'') = Inr [''remote-sessions'', ''d'', ''root'', ''b.json'']"
  by (simp_all add: valid_session_path)

lemma demo_peer_path [simp]: "peerPath ''d'' = Inr [''peers'', ''d.json'']"
  by (simp add: peerPath_def path_Inr plain_segment plain_char_def char_class_defs byte_of_def)

lemma demo_lookup [simp]:
  "st_peers s = [([''peers'', ''d.json''], File demo_peer)] \<Longrightarrow> lookup_peer s ''d'' = Inr (Some demo_peer)"
  by (simp add: lookup_peer_def getPeerLocked_def readJSONFile_def) (simp add: demo_peer_def)

lemma demo_peers [simp]: "st_peers (demo_store fs) = [([''peers'', ''d.json''], File demo_peer)]"
  by (simp add: demo_store_def)

lemma EqualIdentity_refl [simp]: "EqualIdentity l l"
  by (simp add: EqualIdentity_def)

lemma demo_effective [simp]: "effectiveSessionProjection (demo_projection sid) (Some demo_peer) = demo_projection sid"
  by (simp add: effectiveSessionProjection_def session_committed_def sameCursor_def sessionInventoryFreshness_def
      demo_peer_def demo_cursor_def demo_projection_def)

lemma demo_list [simp]: "listRemoteSessionsLocked demo_golib (demo_store fs) ''d'' [] = Inr [demo_projection ''a'']"
  by (simp add: listRemoteSessionsLocked_def collectJSONFiles_def demo_store_def has_suffix_def read_session_def readJSONFile_def)

lemma demo_tx_ok [simp]: "session_tx_ok demo_tx"
  by (simp add: session_tx_ok_def demo_tx_def)

lemma demo_gate [simp]: "validateSessionInventoryCursorLocked ''d'' ''e'' 2 (demo_store fs) = Inr ()"
  by (simp add: validateSessionInventoryCursorLocked_def) (simp add: demo_peer_def demo_cursor_def word_le_nat_alt)

lemma demo_fresh_ok [simp]: "Projection_Validate demo_golib
    (fresh_projection ''e'' 2 5 \<lparr>pp_locator = demo_locator ''b'', pp_metadata = ''{}''\<rparr>) = None"
  by (simp add: Projection_Validate_def fresh_projection_def SchemaVersion_def validateID_def Freshness_Validate_def)

lemma demo_gone_ok [simp]: "Projection_Validate demo_golib (gone_projection ''e'' 2 5 (demo_projection ''a'')) = None"
  by (simp add: Projection_Validate_def gone_projection_def demo_projection_def SchemaVersion_def validateID_def Freshness_Validate_def)

lemma demo_commit:
  "commitSessionInventory demo_golib demo_tx (demo_store fs) =
     write_session_batch demo_golib demo_tx demo_peer [demo_projection ''a''] 5 (demo_store fs)"
  by (simp add: commitSessionInventory_def seq_op_def demo_tx_def peer_or_new_def) (simp add: demo_store_def)

lemmas demo_run = write_session_batch_def demo_tx_def pending_items_def write_present_def write_gone_def
  writeRemoteSessionLocked_def writeJSONLocked_def next_fault_def seq_op_def bind_op_def identityKey_def
  publishLocked_def demo_store_def

lemma demo_commit_fails:
  "snd (commitSessionInventory demo_golib demo_tx (demo_store [False, True])) = Inl (IOFailure ''write'')"
  "GetRemoteSession demo_golib (demo_locator ''a'') (fst (commitSessionInventory demo_golib demo_tx (demo_store [False, True])))
     = Inr (demo_projection ''a'')"
  unfolding demo_commit
  by (simp_all add: demo_run GetRemoteSession_def getRemoteSessionLocked_def readJSONFile_def)

theorem session_commit_atomic_witness:
  "commitSessionInventory demo_golib demo_tx (demo_store [False, True]) =
     (fst (commitSessionInventory demo_golib demo_tx (demo_store [False, True])), Inl (IOFailure ''write''))
   \<and> GetRemoteSession demo_golib (demo_locator ''a'') (demo_store [False, True]) = Inr (demo_projection ''a'')"
proof -
  have c: "commitSessionInventory demo_golib demo_tx (demo_store [False, True]) =
     (fst (commitSessionInventory demo_golib demo_tx (demo_store [False, True])), Inl (IOFailure ''write''))"
    using demo_commit_fails(1) by (metis prod.collapse)
  from session_commit_atomic [OF demo_tx_ok c demo_commit_fails(2)] c show ?thesis by simp
qed

lemma demo_committed_ok [simp]: "Peer_Validate (committed_peer demo_tx 5 [demo_projection ''a''] demo_peer) = None"
  apply (simp add: Let_def committed_peer_def all_scopes_def demo_tx_def ProfileScope_Validate_def RootProfileScope_def)
  by (simp add: Let_def Peer_Validate_def recomputePeerFreshness_def demo_peer_def SchemaVersion_def validateID_def Freshness_Validate_def
      validateInventoryFreshness_def maxDesiredTopics_def ProfileScope_Validate_def RootProfileScope_def Cursor_Validate_def demo_cursor_def)

lemma demo_commit_succeeds: "snd (commitSessionInventory demo_golib demo_tx (demo_store [])) = Inr ()"
proof -
  define peer where "peer = committed_peer demo_tx 5 [demo_projection ''a''] demo_peer"
  have p: "Peer_Validate peer = None" "ps_DeviceID peer = ''d''"
    by (simp_all add: peer_def demo_committed_ok [unfolded peer_def]) (simp add: demo_tx_def)
  show ?thesis
    unfolding demo_commit write_session_batch_def Let_def peer_def [symmetric]
    using p by (simp add: demo_run writePeerLocked_def)
qed

theorem session_commit_present_witness:
  "GetRemoteSession demo_golib (demo_locator ''b'') (fst (commitSessionInventory demo_golib demo_tx (demo_store [])))
     = Inr (projection_stored (fresh_projection ''e'' 2 5 \<lparr>pp_locator = demo_locator ''b'', pp_metadata = ''{}''\<rparr>))"
proof -
  have c: "commitSessionInventory demo_golib demo_tx (demo_store []) =
     (fst (commitSessionInventory demo_golib demo_tx (demo_store [])), Inr ())"
    using demo_commit_succeeds by (metis prod.collapse)
  from session_commit_present [OF demo_tx_ok c] show ?thesis
    by (simp add: demo_tx_def) (simp add: demo_store_def)
qed

end
