(* ===== verification/Mesh_Commit.thy ===== *)
theory Mesh_Commit
  imports Mesh_Inventory
begin

text \<open>
  What a finished inventory transaction means for its readers: which sessions are gone, which
  later transactions are refused, and that transactions built by \<open>Begin\<close> and \<open>Upsert\<close> are the
  well-formed ones.
\<close>

section \<open>Omitted sessions\<close>

lemma collected_files: "collectJSONFiles n d = Inr files \<Longrightarrow> set files = fst ` set d"
  unfolding collectJSONFiles_def by (simp split: if_splits) (drule sym, simp)

lemma listed_session:
  assumes "listRemoteSessionsLocked g s dev [] = Inr ps" "readJSONFile (st_sessions s) path = Inr q"
    and "loc_DeviceID (rp_Locator q) = dev"
  shows "q \<in> set ps \<and> remoteSessionPath (rp_Locator q) = Inr path \<and> Projection_Validate g q = None"
proof -
  obtain files all where l: "collectJSONFiles 4 (st_sessions s) = Inr files" "map_res (read_session g s) files = Inr all"
      "set ps = {p \<in> set all. dev = [] \<or> loc_DeviceID (rp_Locator p) = dev}"
    using assms(1) by (auto simp: listRemoteSessionsLocked_def)
  have "path \<in> fst ` set (st_sessions s)"
    using assms(2) by (auto simp: readJSONFile_def image_iff split: option.splits dest!: map_of_SomeD) force
  then have "path \<in> set files" using collected_files [OF l(1)] by simp
  with l(2) obtain p where "p \<in> set all" "read_session g s path = Inr p" using map_res_hit by metis
  with assms(2,3) l(3) show ?thesis by (auto simp: read_session_def split: if_splits)
qed

lemma listed_session_unique:
  assumes "listRemoteSessionsLocked g s dev [] = Inr ps" "readJSONFile (st_sessions s) path = Inr q"
    and "p \<in> set ps" "remoteSessionPath (rp_Locator p) = Inr path"
  shows "p = q"
  using list_sessions_read [OF assms(1,3)] assms(2,4) by auto

lemma scope_plain: "ProfileScope_Validate sc = None \<Longrightarrow> list_all plain_char sc"
proof (cases "sc = RootProfileScope")
  case True
  then show ?thesis by (simp add: RootProfileScope_def plain_char_def char_class_defs byte_of_def)
next
  case False
  assume "ProfileScope_Validate sc = None"
  with False obtain slug where sc: "sc = ''profile:'' @ slug" "profileSlug slug"
    by (auto simp: ProfileScope_Validate_def has_prefix_iff)
  have "list_all plain_char slug"
    using sc(2) by (auto simp: profileSlug_def Let_def list_all_iff plain_char_def is_alnum_def)
  then show ?thesis using sc(1) by (simp add: plain_char_def char_class_defs byte_of_def)
qed

lemma append_sep: "a @ x # b = c @ x # d \<Longrightarrow> x \<notin> set a \<Longrightarrow> x \<notin> set c \<Longrightarrow> a = c \<and> b = d"
  by (induction a arbitrary: c) (case_tac c, auto)+

lemma identityKey_inj:
  assumes "Locator_Validate l = None" "Locator_Validate m = None" "identityKey l = identityKey m"
  shows "loc_DeviceID l = loc_DeviceID m \<and> loc_ProfileScope l = loc_ProfileScope m \<and> loc_SessionID l = loc_SessionID m"
proof -
  have plain: "CHR ''/'' \<notin> set (loc_DeviceID k)" "CHR ''/'' \<notin> set (loc_ProfileScope k)" if "Locator_Validate k = None" for k
    using that safeID_plain [of "loc_DeviceID k"] scope_plain [of "loc_ProfileScope k"]
    by (auto simp: Locator_Validate_def validateID_def dest: plain_no_slash)
  have "loc_DeviceID l @ CHR ''/'' # (loc_ProfileScope l @ CHR ''/'' # loc_SessionID l) =
      loc_DeviceID m @ CHR ''/'' # (loc_ProfileScope m @ CHR ''/'' # loc_SessionID m)"
    using assms(3) by (simp add: identityKey_def)
  from append_sep [OF this plain(1) [OF assms(1)] plain(1) [OF assms(2)]]
  have "loc_DeviceID l = loc_DeviceID m"
    "loc_ProfileScope l @ CHR ''/'' # loc_SessionID l = loc_ProfileScope m @ CHR ''/'' # loc_SessionID m" by auto
  with append_sep [OF this(2) plain(2) [OF assms(1)] plain(2) [OF assms(2)]] show ?thesis by simp
qed

lemma gone_effective [simp]:
  "gone_projection e r now (effectiveSessionProjection q peer) = gone_projection e r now q"
proof (cases peer)
  case (Some p)
  then show ?thesis
    using effectiveSessionProjection_cases [of q p]
    by (auto simp: setEffectiveSessionFreshness_def gone_projection_def)
qed (simp add: effectiveSessionProjection_def gone_projection_def)

lemma gone_metadata [simp]: "rp_Metadata (gone_projection e r now p) = rp_Metadata p"
  by (simp add: gone_projection_def)

lemma effective_metadata [simp]: "rp_Metadata (effectiveSessionProjection q peer) = rp_Metadata q"
proof (cases peer)
  case (Some p)
  then show ?thesis using effectiveSessionProjection_cases [of q p] by (auto simp: setEffectiveSessionFreshness_def)
qed (simp add: effectiveSessionProjection_def)

lemma session_commit_gone:
  assumes "session_tx_ok x" "commitSessionInventory g x s = (s', Inr ())"
    and "GetRemoteSession g l s = Inr p" "loc_DeviceID l = si_deviceID x" "session_key l \<notin> fst ` set (si_pending x)"
    and "validateMetadata g (raw_stored (rp_Metadata p)) = None"
  shows "GetRemoteSession g l s' = Inr (projection_stored (gone_projection (si_epoch x) (si_revision x) (st_now s) p))"
proof (rule commit_session_ok [OF assms(1,2)])
  fix existing peer fresh gone
  assume list: "listRemoteSessionsLocked g s (si_deviceID x) [] = Inr existing"
    and fresh: "fresh = map (fresh_projection (si_epoch x) (si_revision x) (st_now s)) (pending_items (si_pending x))"
    and gone: "gone = map (gone_projection (si_epoch x) (si_revision x) (st_now s))
       (filter (\<lambda>p. identityKey (rp_Locator p) \<notin> (identityKey \<circ> pp_locator \<circ> snd) ` set (si_pending x)) existing)"
    and valid: "\<forall>p \<in> set (fresh @ gone). Projection_Validate g p = None"
    and files: "\<forall>path. map_of (st_sessions s') path =
       (case written_to gone path of Some p \<Rightarrow> Some (File (projection_stored p))
        | None \<Rightarrow> (case written_to fresh path of Some p \<Rightarrow> Some (File (projection_stored p))
                   | None \<Rightarrow> map_of (st_sessions s) path))"
    and peer: "lookup_peer s' (si_deviceID x) = Inr (Some (committed_peer x (st_now s) existing peer))"
  obtain path q pr where q: "Locator_Validate l = None" "remoteSessionPath l = Inr path" "readJSONFile (st_sessions s) path = Inr q"
      "EqualIdentity (rp_Locator q) l" "p = effectiveSessionProjection q pr"
    using assms(3) by (auto simp: GetRemoteSession_def getRemoteSessionLocked_def split: if_splits)
  have dev: "loc_DeviceID (rp_Locator q) = si_deviceID x" using q(4) assms(4) by (simp add: EqualIdentity_def)
  have listed: "q \<in> set existing" "remoteSessionPath (rp_Locator q) = Inr path" "Projection_Validate g q = None"
    using listed_session [OF list q(3) dev] by auto
  have "identityKey (rp_Locator q) \<noteq> identityKey (pp_locator item)" if "(k, item) \<in> set (si_pending x)" for k item
  proof
    assume eq: "identityKey (rp_Locator q) = identityKey (pp_locator item)"
    have "Locator_Validate (rp_Locator q) = None" using listed(3) by (simp add: Projection_Validate_def)
    from identityKey_inj [OF this session_tx_okD(1) [OF assms(1) that] eq] q(4)
    have "session_key l = session_key (pp_locator item)" by (simp add: EqualIdentity_def session_key_def)
    with session_tx_okD(3) [OF assms(1) that] assms(5) that show False by force
  qed
  then have omitted: "identityKey (rp_Locator q) \<notin> (identityKey \<circ> pp_locator \<circ> snd) ` set (si_pending x)" by force
  let ?gone = "gone_projection (si_epoch x) (si_revision x) (st_now s)"
  have "?gone q \<in> set gone" using listed(1) omitted gone by simp
  then have "written_to gone path \<noteq> None" using listed(2) by (metis written_to_None gone_identity)
  then obtain p' where p': "written_to gone path = Some p'" by blast
  from written_to_Some [OF p'] gone obtain q' where "p' = ?gone q'" "q' \<in> set existing" "remoteSessionPath (rp_Locator q') = Inr path"
    by auto
  with listed_session_unique [OF list q(3)] have "p' = ?gone q" by blast
  with files p' have wrote: "map_of (st_sessions s') path = Some (File (projection_stored (?gone q)))" by simp
  have "rp_Metadata (?gone q) = rp_Metadata p"
    unfolding q(5) by simp
  then have "GetRemoteSession g l s' = Inr (projection_stored (?gone q))"
    using read_written [OF q(1,2) wrote, of g x "st_now s" existing peer] valid \<open>?gone q \<in> set gone\<close> assms(4,6) peer q(4)
    by (simp add: gone_projection_def)
  then show ?thesis by (simp add: q(5))
qed

text \<open>
  A successful commit settles every session it did not announce: a session of the device that
  could be read before and is not in the inventory reads as gone, with its metadata and the new
  cursor (provided the metadata still validates in the form it is stored).
\<close>

theorem session_commit_omitted:
  assumes "session_tx_ok x" "commitSessionInventory g x s = (s', Inr ())"
    and "GetRemoteSession g l s = Inr p" "loc_DeviceID l = si_deviceID x" "session_key l \<notin> fst ` set (si_pending x)"
    and "validateMetadata g (raw_stored (rp_Metadata p)) = None"
  shows "GetRemoteSession g l s' = Inr (projection_stored (gone_projection (si_epoch x) (si_revision x) (st_now s) p))"
  by (rule session_commit_gone [OF assms])

section \<open>Transactions are well formed\<close>

text \<open>The transactions a client can hold: begun, filled by \<open>Upsert\<close>, aborted or committed.\<close>

inductive session_tx :: "golib \<Rightarrow> SessionInventorySnapshot \<Rightarrow> bool" for g where
  begun: "BeginSessionInventory g dev scopes epoch revision s = (s', Inr x) \<Longrightarrow> session_tx g x"
| upserted: "session_tx g x \<Longrightarrow> SessionInventory_Upsert g x l md = Inr x' \<Longrightarrow> session_tx g x'"
| aborted: "session_tx g x \<Longrightarrow> session_tx g (SessionInventory_Abort x)"
| committed: "session_tx g x \<Longrightarrow> SessionInventory_Commit g x s = (s', Inr x') \<Longrightarrow> session_tx g x'"

definition session_tx_typed :: "golib \<Rightarrow> SessionInventorySnapshot \<Rightarrow> bool" where
  "session_tx_typed g x \<longleftrightarrow> session_tx_ok x \<and> validateID ''device_id'' (si_deviceID x) = None
     \<and> validateID ''source_epoch'' (si_epoch x) = None \<and> si_revision x \<noteq> 0
     \<and> si_scopes x \<noteq> [] \<and> distinct (si_scopes x) \<and> list_all (\<lambda>sc. ProfileScope_Validate sc = None) (si_scopes x)
     \<and> list_all (\<lambda>(k, item). loc_ProfileScope (pp_locator item) \<in> set (si_scopes x)
          \<and> validateMetadata g (pp_metadata item) = None) (si_pending x)"

lemma scope_set_ok:
  "scope_set seen scopes = Inr out \<Longrightarrow> distinct seen \<Longrightarrow> list_all (\<lambda>sc. ProfileScope_Validate sc = None) seen \<Longrightarrow>
     out = seen @ scopes \<and> distinct out \<and> list_all (\<lambda>sc. ProfileScope_Validate sc = None) out"
  by (induction seen scopes rule: scope_set.induct) (auto split: if_splits)

lemma begin_typed:
  assumes "BeginSessionInventory g dev scopes epoch revision s = (s', Inr x)"
  shows "session_tx_typed g x"
proof -
  obtain out where o: "scope_set [] scopes = Inr out" "validateID ''device_id'' dev = None" "validateID ''source_epoch'' epoch = None"
      "revision \<noteq> 0" "scopes \<noteq> []"
      "x = \<lparr>si_deviceID = dev, si_epoch = epoch, si_revision = revision, si_scopes = out, si_closed = False, si_pending = []\<rparr>"
    using assms by (auto simp: BeginSessionInventory_def seq_op_eq_Inr bind_op_eq_Inr positive_revision_def)
  moreover have "dev \<noteq> []" using o(2) by (auto simp: validateID_def safeID_def id_shape_def)
  ultimately show ?thesis
    using scope_set_ok [OF o(1)] by (auto simp: session_tx_typed_def session_tx_ok_def)
qed

lemma AList_update_set: "(k, v) \<in> set (AList.update k' v' m) \<Longrightarrow> (k, v) = (k', v') \<or> (k, v) \<in> set m"
  by (induction m) (auto split: if_splits)

lemma upsert_typed:
  assumes "session_tx_typed g x" "SessionInventory_Upsert g x l md = Inr x'"
  shows "session_tx_typed g x'"
proof -
  have u: "Locator_Validate l = None" "loc_DeviceID l = si_deviceID x" "loc_ProfileScope l \<in> set (si_scopes x)"
      "validateMetadata g md = None"
      "x' = x\<lparr>si_pending := AList.update (session_key l) \<lparr>pp_locator = l, pp_metadata = md\<rparr> (si_pending x)\<rparr>"
    using assms(2) by (auto simp: SessionInventory_Upsert_def split: if_splits)
  show ?thesis
    using assms(1) u
    by (fastforce simp: session_tx_typed_def session_tx_ok_def list_all_iff dest!: AList_update_set)
qed

text \<open>
  C32. Every session transaction a client can come to hold is well formed: its identifiers and
  scopes validate, its scopes are distinct, and every pending session is a valid locator of its
  device in a declared scope, filed under its own key, with metadata that passed the sensitive-key
  check.
\<close>

theorem session_tx_well_formed:
  assumes "session_tx g x"
  shows "session_tx_typed g x"
  using assms
proof (induction rule: session_tx.induct)
  case (begun dev scopes epoch revision s s' x)
  then show ?case by (rule begin_typed)
next
  case (upserted x l md x')
  then show ?case by (blast intro: upsert_typed)
next
  case (aborted x)
  then show ?case by (simp add: SessionInventory_Abort_def session_tx_typed_def session_tx_ok_def)
next
  case (committed x s s' x')
  then show ?case
    by (auto simp: SessionInventory_Commit_def session_tx_typed_def session_tx_ok_def seq_op_eq_Inr split: if_splits)
qed

section \<open>Replayed inventories are refused\<close>

text \<open>
  C15. After a commit no inventory of the same epoch with the same or an older revision gets in:
  a new transaction is refused as stale, and so is one that was begun earlier, and neither changes
  the store.
\<close>

theorem session_replay_refused:
  assumes "session_tx_ok x" "commitSessionInventory g x s = (s', Inr ())"
    and "validateID ''device_id'' (si_deviceID x) = None" "validateID ''source_epoch'' (si_epoch x) = None"
    and "r \<noteq> 0" "r \<le> si_revision x" "scopes \<noteq> []" "scope_set [] scopes = Inr out"
  shows "BeginSessionInventory g (si_deviceID x) scopes (si_epoch x) r s' = (s', Inl ErrStaleSnapshot)
    \<and> (\<forall>y. si_deviceID y = si_deviceID x \<longrightarrow> si_epoch y = si_epoch x \<longrightarrow> si_revision y \<le> si_revision x \<longrightarrow>
         commitSessionInventory g y s' = (s', Inl ErrStaleSnapshot))"
proof (rule commit_session_ok [OF assms(1,2)])
  fix existing peer
  assume "lookup_peer s' (si_deviceID x) = Inr (Some (committed_peer x (st_now s) existing peer))"
  then have stale: "validateSessionInventoryCursorLocked (si_deviceID x) (si_epoch x) r' s' = Inl ErrStaleSnapshot"
    if "r' \<le> si_revision x" for r'
    using that by (simp add: validateSessionInventoryCursorLocked_def)
  show ?thesis
    using assms(3-8) stale
    by (auto simp: BeginSessionInventory_def commitSessionInventory_def positive_revision_def seq_op_def bind_op_def)
qed

section \<open>Instances\<close>

definition demo_empty :: store where
  "demo_empty = \<lparr>st_sessions = [], st_bindings = [], st_artifacts = [], st_remote_artifacts = [], st_peers = [],
     st_now = 5, st_watchers = [], st_nextWatcherID = 0, st_changeSeq = 0, st_faults = []\<rparr>"

lemma demo_read_a [simp]: "GetRemoteSession demo_golib (demo_locator ''a'') (demo_store fs) = Inr (demo_projection ''a'')"
  by (simp add: GetRemoteSession_def getRemoteSessionLocked_def readJSONFile_def demo_store_def)

lemma demo_commit_ok:
  "commitSessionInventory demo_golib demo_tx (demo_store []) =
     (fst (commitSessionInventory demo_golib demo_tx (demo_store [])), Inr ())"
  using demo_commit_succeeds by (metis prod.collapse)

theorem session_commit_omitted_witness:
  "GetRemoteSession demo_golib (demo_locator ''a'') (fst (commitSessionInventory demo_golib demo_tx (demo_store []))) =
     Inr (projection_stored (gone_projection ''e'' 2 5 (demo_projection ''a'')))"
proof -
  have "session_key (demo_locator ''a'') \<notin> fst ` set (si_pending demo_tx)" by (simp add: demo_tx_def session_key_def)
  from session_commit_omitted [OF demo_tx_ok demo_commit_ok demo_read_a _ this] show ?thesis
    by (simp add: demo_tx_def) (simp add: demo_store_def demo_projection_def)
qed

lemma demo_begin:
  "snd (BeginSessionInventory demo_golib ''d'' [''root''] ''e'' 1 demo_empty) =
     Inr \<lparr>si_deviceID = ''d'', si_epoch = ''e'', si_revision = 1, si_scopes = [''root''], si_closed = False, si_pending = []\<rparr>"
  apply (simp add: BeginSessionInventory_def seq_op_def bind_op_def positive_revision_def validateID_def ProfileScope_Validate_def RootProfileScope_def)
  apply (simp add: validateSessionInventoryCursorLocked_def lookup_peer_def getPeerLocked_def readJSONFile_def
      markSessionInventorySyncingLocked_def markPeerInventoriesSyncingLocked_def seq_op_def bind_op_def listRemoteSessionsLocked_def
      collectJSONFiles_def mark_sessions_def peer_or_new_def new_peer_def initializeLegacyTopicFreshness_def recomputePeerFreshness_def
      writePeerLocked_def demo_empty_def Peer_Validate_def SchemaVersion_def validateID_def Freshness_Validate_def validateInventoryFreshness_def
      maxDesiredTopics_def writeJSONLocked_def next_fault_def Let_def)
  done

theorem session_tx_well_formed_witness:
  "session_tx_typed demo_golib \<lparr>si_deviceID = ''d'', si_epoch = ''e'', si_revision = 1, si_scopes = [''root''],
     si_closed = False, si_pending = []\<rparr>"
proof (rule session_tx_well_formed, rule session_tx.begun)
  show "BeginSessionInventory demo_golib ''d'' [''root''] ''e'' 1 demo_empty =
      (fst (BeginSessionInventory demo_golib ''d'' [''root''] ''e'' 1 demo_empty),
       Inr \<lparr>si_deviceID = ''d'', si_epoch = ''e'', si_revision = 1, si_scopes = [''root''], si_closed = False, si_pending = []\<rparr>)"
    by (rule prod_eqI) (simp_all add: demo_begin)
qed

theorem session_replay_refused_witness:
  "snd (BeginSessionInventory demo_golib ''d'' [''root''] ''e'' 2 (fst (commitSessionInventory demo_golib demo_tx (demo_store []))))
     = Inl ErrStaleSnapshot"
  using session_replay_refused [OF demo_tx_ok demo_commit_ok, of 2 "[''root'']" "[''root'']"]
  by (simp add: demo_tx_def validateID_def ProfileScope_Validate_def RootProfileScope_def)

end
