(* ===== verification/Mesh_Docs.thy ===== *)
theory Mesh_Docs
  imports Mesh_Commit
begin

text \<open>
  The store as its clients see it: collections of documents that behave as finite maps under
  writes that may fail, the desired topics of a peer, and the two ways a whole inventory changes
  its freshness, disconnection and the start of a synchronisation.
\<close>

section \<open>Documents form a map\<close>

text \<open>
  A client's run of writes: failed writes are skipped, and the log records under which key each
  successful one stored what.
\<close>

primrec run_writes ::
  "('v \<Rightarrow> unit sop) \<Rightarrow> ('v \<Rightarrow> 'k) \<Rightarrow> (store \<Rightarrow> 'v \<Rightarrow> 'v) \<Rightarrow> 'v list \<Rightarrow> store \<Rightarrow> store \<times> ('k \<times> 'v) list" where
  "run_writes wr key stored [] s = (s, [])"
| "run_writes wr key stored (v # vs) s =
     (case wr v s of
        (s', Inr _) \<Rightarrow> apsnd ((#) (key v, stored s v)) (run_writes wr key stored vs s')
      | (s', Inl _) \<Rightarrow> run_writes wr key stored vs s')"

locale document_map =
  fixes doc :: "'k \<Rightarrow> store \<Rightarrow> 'v option"
    and wr :: "'v \<Rightarrow> unit sop"
    and key :: "'v \<Rightarrow> 'k"
    and stored :: "store \<Rightarrow> 'v \<Rightarrow> 'v"
    and clean :: "'v \<Rightarrow> bool"
  assumes write_ok: "clean v \<Longrightarrow> wr v s = (s', Inr u) \<Longrightarrow> doc k s' = (if k = key v then Some (stored s v) else doc k s)"
    and write_err: "wr v s = (s', Inl e) \<Longrightarrow> doc k s' = doc k s"
begin

lemma run_refines:
  assumes "list_all clean vs" "run_writes wr key stored vs s = (s', entries)"
  shows "(\<lambda>k. doc k s') = fold (\<lambda>(k, v) m. m(k \<mapsto> v)) entries (\<lambda>k. doc k s)"
  using assms
proof (induction vs arbitrary: s entries)
  case (Cons v vs)
  obtain t r where w: "wr v s = (t, r)" by fastforce
  show ?case
  proof (cases r)
    case (Inl e)
    with Cons.prems w have "run_writes wr key stored vs t = (s', entries)" by simp
    from Cons.IH [OF _ this] Cons.prems(1) write_err [OF w [unfolded Inl]] show ?thesis by simp
  next
    case (Inr u)
    with Cons.prems w obtain entries' where l: "run_writes wr key stored vs t = (s', entries')" "entries = (key v, stored s v) # entries'"
      by (cases "run_writes wr key stored vs t") auto
    have "(\<lambda>k. doc k t) = (\<lambda>k. doc k s)(key v \<mapsto> stored s v)"
      using write_ok [OF _ w [unfolded Inr]] Cons.prems(1) by auto
    with Cons.IH [OF _ l(1)] Cons.prems(1) l(2) show ?thesis by (simp add: fun_upd_def)
  qed
qed simp

end

definition peer_doc :: "string \<Rightarrow> store \<Rightarrow> PeerState option" where
  "peer_doc dev s = (case getPeerLocked s dev of Inr p \<Rightarrow> Some p | Inl _ \<Rightarrow> None)"

definition artifact_doc :: "golib \<Rightarrow> ArtifactKind \<times> string \<Rightarrow> store \<Rightarrow> ArtifactEnvelope option" where
  "artifact_doc g k s = (case GetArtifact g (fst k) (snd k) s of Inr a \<Rightarrow> Some a | Inl _ \<Rightarrow> None)"

text \<open>What \<open>PutArtifact\<close> makes of its argument at a given time.\<close>

definition stamped_artifact :: "store \<Rightarrow> ArtifactEnvelope \<Rightarrow> ArtifactEnvelope" where
  "stamped_artifact s a =
     (let a = (if ae_SchemaVersion a = 0 then a\<lparr>ae_SchemaVersion := SchemaVersion\<rparr> else a)
      in a\<lparr>ae_SourceID := ae_ID a, ae_ReceivedAt := st_now s, ae_FreshnessChangedAt := st_now s, ae_Freshness := FreshnessFresh\<rparr>)"

interpretation peer_map: document_map peer_doc writePeerLocked ps_DeviceID "\<lambda>_ p. p" "\<lambda>_. True"
proof (unfold_locales, goal_cases)
  case (1 p s s' u dev)
  obtain fs path where w: "Peer_Validate p = None" "peerPath (ps_DeviceID p) = Inr path"
      "s' = s\<lparr>st_peers := AList.update path (File p) (st_peers s), st_faults := fs\<rparr>"
    using write_peer_cases [OF 1(2)] by auto
  show ?case
  proof (cases "dev = ps_DeviceID p")
    case True
    with w show ?thesis by (simp add: peer_doc_def getPeerLocked_def readJSONFile_def)
  next
    case False
    with w(2) have "peerPath dev \<noteq> Inr path" by (auto simp: peerPath_def path_Inr)
    with w(3) False show ?thesis
      by (cases "peerPath dev") (simp_all add: peer_doc_def getPeerLocked_def readJSONFile_def)
  qed
next
  case (2 p s s' e dev)
  then show ?case using write_peer_cases [OF 2] by (auto simp: peer_doc_def getPeerLocked_def)
qed

lemma kind_string_inj: "Kind_Validate k = None \<Longrightarrow> Kind_Validate k' = None \<Longrightarrow> kind_string k = kind_string k' \<Longrightarrow> k = k'"
  by (cases k; cases k') (simp_all add: Kind_Validate_def kind_string_def)

lemma stamped_sel [simp]:
  "ae_Kind (stamped_artifact s a) = ae_Kind a" "ae_ID (stamped_artifact s a) = ae_ID a" "ae_SourceID (stamped_artifact s a) = ae_ID a"
  "ae_OriginDeviceID (stamped_artifact s a) = ae_OriginDeviceID a" "ae_Freshness (stamped_artifact s a) = FreshnessFresh"
  "ae_FreshnessChangedAt (stamped_artifact s a) = st_now s"
  by (simp_all add: stamped_artifact_def Let_def)

lemma seq_check: "seq_op (check_op (fail_if b e)) m s = (if b then (s, Inl e) else m s)"
  by (simp add: seq_op_def bind_op_def)

lemma bind_get: "bind_op (get_op f) k s = k (f s) s"
  by (simp add: bind_op_def)

lemma put_artifact_eval:
  "PutArtifact g a s =
     (if ae_OriginDeviceID a \<noteq> [] then (s, Inl (Invalid ''PutArtifact only accepts locally-authored artifacts''))
      else if ae_SourceEpoch a \<noteq> [] \<or> ae_SourceRevision a \<noteq> 0 then (s, Inl (Invalid ''source cursor''))
      else if ae_SourceID a \<noteq> [] \<and> ae_SourceID a \<noteq> ae_ID a then (s, Inl (Invalid ''source_id''))
      else seq_op (check_op (Artifact_Validate g (stamped_artifact s a)))
        (bind_op (lift_op (artifactPath (ae_Kind a) (ae_ID a))) (\<lambda>path.
          seq_op (writeJSONLocked st_artifacts st_artifacts_update path (artifact_stored (stamped_artifact s a)))
            (publish ChangeUpsert EntityArtifact (kind_string (ae_Kind a) @ ''/'' @ ae_ID a)))) s)"
  by (simp add: PutArtifact_def seq_check bind_get stamped_artifact_def Let_def)

lemma artifacts_update:
  "st_artifacts_update f (s\<lparr>st_faults := fs\<rparr>) = s\<lparr>st_artifacts := f (st_artifacts s), st_faults := fs\<rparr>"
  by (cases s) simp

lemma put_artifact_cases:
  assumes "PutArtifact g a s = (s', r)"
  shows "(\<exists>e fs. r = Inl e \<and> s' = s\<lparr>st_faults := fs\<rparr>)
    \<or> (\<exists>path fs. r = Inr () \<and> Artifact_Validate g (stamped_artifact s a) = None \<and> ae_OriginDeviceID a = []
        \<and> artifactPath (ae_Kind a) (ae_ID a) = Inr path
        \<and> s' = publishLocked ChangeUpsert EntityArtifact (kind_string (ae_Kind a) @ ''/'' @ ae_ID a)
             (s\<lparr>st_artifacts := AList.update path (File (artifact_stored (stamped_artifact s a))) (st_artifacts s), st_faults := fs\<rparr>))"
  (is "?err \<or> ?ok")
proof -
  have same: "s = s\<lparr>st_faults := st_faults s\<rparr>" by simp
  have refused: ?thesis if "PutArtifact g a s = (s, Inl e)" for e
    using that assms same by (metis prod.inject)
  show ?thesis
  proof (cases "ae_OriginDeviceID a \<noteq> [] \<or> (ae_SourceEpoch a \<noteq> [] \<or> ae_SourceRevision a \<noteq> 0)
      \<or> (ae_SourceID a \<noteq> [] \<and> ae_SourceID a \<noteq> ae_ID a)")
    case True
    then have "\<exists>e. PutArtifact g a s = (s, Inl e)" unfolding put_artifact_eval by simp
    then show ?thesis using refused by blast
  next
    case False
    then have run: "PutArtifact g a s = seq_op (check_op (Artifact_Validate g (stamped_artifact s a)))
        (bind_op (lift_op (artifactPath (ae_Kind a) (ae_ID a))) (\<lambda>path.
          seq_op (writeJSONLocked st_artifacts st_artifacts_update path (artifact_stored (stamped_artifact s a)))
            (publish ChangeUpsert EntityArtifact (kind_string (ae_Kind a) @ ''/'' @ ae_ID a)))) s"
      unfolding put_artifact_eval by auto
    show ?thesis
    proof (cases "Artifact_Validate g (stamped_artifact s a)")
      case (Some e)
      then show ?thesis using refused [of e] run by (simp add: seq_op_def bind_op_def)
    next
      case valid: None
      show ?thesis
      proof (cases "artifactPath (ae_Kind a) (ae_ID a)")
        case (Inl e)
        then show ?thesis using refused [of e] run valid by (simp add: seq_op_def bind_op_def)
      next
        case (Inr path)
        obtain t r' where w: "writeJSONLocked st_artifacts st_artifacts_update path (artifact_stored (stamped_artifact s a)) s = (t, r')"
          by fastforce
        have "ae_OriginDeviceID a = []" using False by simp
        with writeJSON_cases [OF w] assms run valid Inr w show ?thesis
          by (auto simp: seq_op_def bind_op_def artifacts_update)
      qed
    qed
  qed
qed

lemma stamped_clean: "artifact_stored a = a \<Longrightarrow> artifact_stored (stamped_artifact s a) = stamped_artifact s a"
  by (cases a) (simp add: artifact_stored_def stamped_artifact_def Let_def)

text \<open>A local artifact whose free text is valid UTF-8 is read back as it was stamped.\<close>

lemma artifact_read_back:
  assumes "Artifact_Validate g a = None" "ae_OriginDeviceID a = []" "ae_Freshness a = FreshnessFresh"
    and "ae_SourceID a = ae_ID a" "map_of d path = Some (File a)"
  shows "readArtifactFile g d path = Inr a"
proof -
  have "\<not> IsZero (ae_FreshnessChangedAt a)" "ae_ID a \<noteq> []"
    using assms(1) by (auto simp: Artifact_Validate_def validateID_def safeID_def id_shape_def)
  with assms have "normalize_artifact a = a" by (simp add: normalize_artifact_def)
  with assms show ?thesis by (simp add: readArtifactFile_def readJSONFile_def)
qed

lemma artifact_path_inj:
  "Kind_Validate k = None \<Longrightarrow> Kind_Validate k' = None \<Longrightarrow> artifactPath k i = Inr path \<Longrightarrow> artifactPath k' i' = Inr path \<Longrightarrow>
     k = k' \<and> i = i'"
  by (auto simp: artifactPath_def path_Inr dest: kind_string_inj)

lemma artifact_doc_other:
  assumes "artifactPath k i = Inr path" "Kind_Validate k = None" "(k', i') \<noteq> (k, i)"
    and "st_artifacts s' = AList.update path v (st_artifacts s)"
  shows "artifact_doc g (k', i') s' = artifact_doc g (k', i') s"
proof (cases "artifactPath k' i'")
  case (Inr path')
  have "path' \<noteq> path" if "Kind_Validate k' = None"
    using artifact_path_inj [OF that assms(2) Inr] assms(1,3) by auto
  then show ?thesis
    using Inr assms(4)
    by (cases "Kind_Validate k'") (simp_all add: artifact_doc_def GetArtifact_def readArtifactFile_def readJSONFile_def)
qed (cases "Kind_Validate k'"; cases "validateID ''artifact id'' i'"; simp add: artifact_doc_def GetArtifact_def)

interpretation artifact_map: document_map "artifact_doc g" "PutArtifact g" "\<lambda>a. (ae_Kind a, ae_ID a)" stamped_artifact
  "\<lambda>a. artifact_stored a = a"
  for g
proof (unfold_locales, goal_cases)
  case (1 a s s' u k)
  let ?st = "stamped_artifact s a"
  have st: "artifact_stored ?st = ?st" by (rule stamped_clean [OF 1(1)])
  obtain path fs where w: "Artifact_Validate g ?st = None" "ae_OriginDeviceID a = []" "artifactPath (ae_Kind a) (ae_ID a) = Inr path"
      "st_artifacts s' = AList.update path (File ?st) (st_artifacts s)"
    using put_artifact_cases [OF 1(2)] st by auto
  have kind: "Kind_Validate (ae_Kind a) = None" "validateID ''artifact id'' (ae_ID a) = None"
    using w(1) by (simp_all add: Artifact_Validate_def)
  show ?case
  proof (cases "k = (ae_Kind a, ae_ID a)")
    case True
    have "readArtifactFile g (st_artifacts s') path = Inr ?st" by (rule artifact_read_back) (use w in simp_all)
    with True w kind show ?thesis by (simp add: artifact_doc_def GetArtifact_def)
  next
    case False
    with artifact_doc_other [OF w(3) kind(1) _ w(4), of "fst k" "snd k"] show ?thesis by simp
  qed
next
  case (2 a s s' e k)
  then show ?case using put_artifact_cases [OF 2] by (auto simp: artifact_doc_def GetArtifact_def)
qed



definition demo_local :: ArtifactEnvelope where
  "demo_local = (demo_artifact ''a'')\<lparr>ae_OriginDeviceID := [], ae_SourceEpoch := [], ae_SourceRevision := 0\<rparr>"

lemma demo_local_clean: "artifact_stored demo_local = demo_local"
  by (simp add: demo_local_def demo_artifact_def artifact_stored_def is_ascii_def byte_of_def)

lemma demo_provenance: "validateBounded f ''p'' 512 True = None" "validateBounded f [] n False = None"
  by (simp_all add: validateBounded_def validateNoControls_def ascii_eval is_control_def)

lemma demo_local_valid: "Artifact_Validate g (stamped_artifact demo_empty demo_local) = None"
  by (simp add: Artifact_Validate_def stamped_artifact_def demo_local_def demo_artifact_def SchemaVersion_def validateID_def
      artifact_source_check_def Kind_Validate_def demo_provenance validateHTTPSURL_def validatePathHint_def demo_empty_def Freshness_Validate_def)

lemma demo_local_path: "artifactPath ArtifactGoal ''a'' = Inr [''artifacts'', ''goal'', ''a.json'']"
  by (simp add: artifactPath_def path_Inr kind_string_def plain_segment plain_char_def char_class_defs byte_of_def)

lemma demo_put: "snd (PutArtifact g demo_local demo_empty) = Inr ()"
proof -
  have "ae_OriginDeviceID demo_local = []" "ae_SourceEpoch demo_local = []" "ae_SourceRevision demo_local = 0"
    "ae_SourceID demo_local = ae_ID demo_local" "ae_Kind demo_local = ArtifactGoal" "ae_ID demo_local = ''a''"
    by (simp_all add: demo_local_def demo_artifact_def)
  then show ?thesis
    by (simp add: put_artifact_eval demo_local_valid demo_local_path seq_op_def bind_op_def writeJSONLocked_def next_fault_def)
       (simp add: demo_empty_def)
qed


section \<open>Disconnection\<close>

lemma lookup_doc: "lookup_peer s dev = Inr (Some p) \<longleftrightarrow> peer_doc dev s = Some p"
  by (cases "getPeerLocked s dev") (auto simp: lookup_peer_def peer_doc_def split: mesh_error.split)

lemma write_publish_peer:
  assumes "seq_op (writePeerLocked p) (publish k e key) s = (s', Inr ())"
  shows "lookup_peer s' (ps_DeviceID p) = Inr (Some p)"
    "dev \<noteq> ps_DeviceID p \<Longrightarrow> lookup_peer s' dev = lookup_peer s dev"
    "st_sessions s' = st_sessions s" "st_remote_artifacts s' = st_remote_artifacts s"
proof -
  obtain t where t: "writePeerLocked p s = (t, Inr ())" "s' = publishLocked k e key t"
    using assms by (auto simp: seq_op_eq_Inr)
  have same: "lookup_peer s' d = lookup_peer t d" for d by (rule lookup_peer_cong) (simp add: t(2))
  show "lookup_peer s' (ps_DeviceID p) = Inr (Some p)"
    using peer_map.write_ok [OF TrueI t(1), of "ps_DeviceID p"] by (simp add: same lookup_doc)
  obtain fs path where w: "peerPath (ps_DeviceID p) = Inr path"
      "t = s\<lparr>st_peers := AList.update path (File p) (st_peers s), st_faults := fs\<rparr>"
    using write_peer_cases [OF t(1)] by auto
  show "lookup_peer s' dev = lookup_peer s dev" if "dev \<noteq> ps_DeviceID p"
    using lookup_peer_other [OF w(1) that, of s' "File p" s] w(2) t(2) by simp
  show "st_sessions s' = st_sessions s" "st_remote_artifacts s' = st_remote_artifacts s" using w(2) t(2) by simp_all
qed

lemma lookup_device: "lookup_peer s dev = Inr (Some p) \<Longrightarrow> ps_DeviceID p = dev"
  by (auto simp: lookup_doc peer_doc_def getPeerLocked_def split: if_splits sum.splits)

lemma peer_or_new_device: "lookup_peer s dev = Inr found \<Longrightarrow> ps_DeviceID (peer_or_new dev found) = dev"
  by (cases found) (auto simp: peer_or_new_def new_peer_def dest: lookup_device)

lemma disconnected_peer:
  assumes "MarkPeerDisconnected g dev s = (s', Inr ())"
  obtains p where "lookup_peer s' dev = Inr (Some p)" "ps_SessionFreshness p = FreshnessStale" "ps_ArtifactFreshness p = FreshnessStale"
    "ps_Freshness p = FreshnessStale"
proof -
  obtain t found p where t: "lookup_peer t dev = Inr found"
      "p = recomputePeerFreshness ((peer_or_new dev found)\<lparr>ps_UpdatedAt := st_now s, ps_SessionFreshness := FreshnessStale,
         ps_SessionFreshnessChangedAt := st_now s, ps_ArtifactFreshness := FreshnessStale, ps_ArtifactFreshnessChangedAt := st_now s\<rparr>)"
      "seq_op (writePeerLocked p) (publish ChangeFreshness EntityPeer dev) t = (s', Inr ())"
    using assms by (auto simp: MarkPeerDisconnected_def seq_op_eq_Inr bind_op_eq_Inr Let_def)
  have "ps_DeviceID p = dev" using peer_or_new_device [OF t(1)] t(2) by simp
  with that [of p] write_publish_peer(1) [OF t(3)] t(2) show ?thesis by (simp add: recompute_summary)
qed

text \<open>
  C34. Once a peer is marked disconnected nothing of it is told as live: every session and every
  artifact of the device that can be read is stale or gone, and the device's peer document says
  stale for both inventories.
\<close>

theorem disconnect_hides_live:
  assumes "MarkPeerDisconnected g dev s = (s', Inr ())"
  shows "(\<forall>l p. loc_DeviceID l = dev \<longrightarrow> GetRemoteSession g l s' = Inr p \<longrightarrow>
           rp_Freshness p = FreshnessStale \<or> rp_Freshness p = FreshnessGone)
    \<and> (\<forall>kind sid a. GetRemoteArtifact g dev kind sid s' = Inr a \<longrightarrow>
           ae_Freshness a = FreshnessStale \<or> ae_Freshness a = FreshnessGone)
    \<and> (\<exists>p. GetPeer dev s' = Inr p \<and> ps_SessionFreshness p = FreshnessStale \<and> ps_ArtifactFreshness p = FreshnessStale
         \<and> ps_Freshness p = FreshnessStale)"
proof (rule disconnected_peer [OF assms], intro conjI allI impI)
  fix peer
  assume peer: "lookup_peer s' dev = Inr (Some peer)" "ps_SessionFreshness peer = FreshnessStale" "ps_ArtifactFreshness peer = FreshnessStale"
    "ps_Freshness peer = FreshnessStale"
  show "rp_Freshness p = FreshnessStale \<or> rp_Freshness p = FreshnessGone"
    if r: "loc_DeviceID l = dev" "GetRemoteSession g l s' = Inr p" for l p
  proof -
    obtain q where "p = effectiveSessionProjection q (Some peer)"
      using r peer(1) by (auto simp: GetRemoteSession_def getRemoteSessionLocked_def split: if_splits)
    then show ?thesis
      using session_view.stale_inventory [of peer q] peer(2) by (auto simp: sessionInventoryFreshness_def)
  qed
  show "ae_Freshness a = FreshnessStale \<or> ae_Freshness a = FreshnessGone"
    if r: "GetRemoteArtifact g dev kind sid s' = Inr a" for kind sid a
  proof -
    obtain q where q: "a = effectiveArtifact q (Some peer)" "ae_OriginDeviceID q = dev" "validateID ''origin_device_id'' dev = None"
      using r peer(1) by (auto simp: GetRemoteArtifact_def split: if_splits)
    then have "ae_OriginDeviceID q \<noteq> []" by (auto simp: validateID_def safeID_def id_shape_def)
    from artifact_view.stale_inventory [OF this, of peer] q(1) peer(3) show ?thesis
      by (auto simp: artifactInventoryFreshness_def)
  qed
  have "validateID ''device_id'' dev = None" using assms by (auto simp: MarkPeerDisconnected_def seq_op_eq_Inr)
  then show "\<exists>p. GetPeer dev s' = Inr p \<and> ps_SessionFreshness p = FreshnessStale \<and> ps_ArtifactFreshness p = FreshnessStale
      \<and> ps_Freshness p = FreshnessStale"
    using peer
    by (auto simp: GetPeer_def lookup_doc peer_doc_def split: sum.splits)
qed


section \<open>The topics are independent\<close>

lemma write_session_frame:
  "st_peers (fst (writeRemoteSessionLocked g p s)) = st_peers s"
  "st_remote_artifacts (fst (writeRemoteSessionLocked g p s)) = st_remote_artifacts s"
  using write_session_cases [of g p s "fst (writeRemoteSessionLocked g p s)" "snd (writeRemoteSessionLocked g p s)"] by auto

lemma session_sync_peer:
  assumes "MarkSessionSyncing g dev epoch s = (s', Inr ())" "lookup_peer s dev = Inr (Some peer)" "ps_ArtifactFreshness peer \<noteq> NoFreshness"
  obtains peer' where "lookup_peer s' dev = Inr (Some peer')" "ps_ArtifactFreshness peer' = ps_ArtifactFreshness peer"
    "ps_ArtifactFreshnessChangedAt peer' = ps_ArtifactFreshnessChangedAt peer" "ps_ArtifactInventory peer' = ps_ArtifactInventory peer"
    "ps_SessionFreshness peer' = FreshnessSyncing" "st_remote_artifacts s' = st_remote_artifacts s"
    "\<forall>d. d \<noteq> dev \<longrightarrow> lookup_peer s' d = lookup_peer s d"
proof -
  define same where "same t \<longleftrightarrow> st_peers t = st_peers s \<and> st_remote_artifacts t = st_remote_artifacts s" for t :: store
  have keeps: "keeps_op same (mark_sessions g f now sc ps)" for f now sc ps
    unfolding mark_sessions_def
    by (intro keeps_for keeps_if keeps_seq keeps_mod keeps_pure keeps_opI)
       (auto simp: same_def write_session_frame)
  obtain ps t found where u: "mark_sessions g FreshnessSyncing (st_now s) None ps s = (t, Inr ())"
      "lookup_peer t dev = Inr found"
      "seq_op (writePeerLocked (recomputePeerFreshness ((initializeLegacyTopicFreshness (peer_or_new dev found))\<lparr>ps_SourceEpoch := epoch,
         ps_UpdatedAt := st_now s, ps_SessionFreshness := FreshnessSyncing, ps_SessionFreshnessChangedAt := st_now s\<rparr>)))
         (publish ChangeFreshness EntityPeer dev) t = (s', Inr ())"
    using assms(1)
    by (auto simp: MarkSessionSyncing_def markSessionInventorySyncingLocked_def markPeerInventoriesSyncingLocked_def
        seq_op_eq_Inr bind_op_eq_Inr Let_def)
  have t: "same t" using keeps_opD [OF keeps, of s] u(1) by (metis same_def fst_conv)
  then have look: "lookup_peer t d = lookup_peer s d" for d by (intro lookup_peer_cong) (simp add: same_def)
  define p where "p = recomputePeerFreshness ((initializeLegacyTopicFreshness peer)\<lparr>ps_SourceEpoch := epoch,
         ps_UpdatedAt := st_now s, ps_SessionFreshness := FreshnessSyncing, ps_SessionFreshnessChangedAt := st_now s\<rparr>)"
  have w: "seq_op (writePeerLocked p) (publish ChangeFreshness EntityPeer dev) t = (s', Inr ())"
    using u(2,3) look [of dev] assms(2) by (auto simp: p_def peer_or_new_def)
  have init: "initializeLegacyTopicFreshness peer = peer \<or> (\<exists>f c. initializeLegacyTopicFreshness peer =
      peer\<lparr>ps_SessionFreshness := f, ps_SessionFreshnessChangedAt := c\<rparr>)"
    using assms(3) by (auto simp: initializeLegacyTopicFreshness_def Let_def)
  have "ps_DeviceID p = dev" using lookup_device [OF assms(2)] init by (auto simp: p_def)
  moreover have "ps_ArtifactFreshness p = ps_ArtifactFreshness peer" "ps_SessionFreshness p = FreshnessSyncing"
    "ps_ArtifactFreshnessChangedAt p = ps_ArtifactFreshnessChangedAt peer" "ps_ArtifactInventory p = ps_ArtifactInventory peer"
    using init by (auto simp: p_def)
  ultimately show ?thesis
    using that [of p] write_publish_peer [OF w] look t by (simp add: same_def)
qed

text \<open>
  A session synchronisation does not touch the artifacts: when it has begun, every session of
  the device reads as not fresh, while every remote artifact, of this and of every other device,
  reads exactly as before.
\<close>

theorem session_sync_keeps_artifacts:
  assumes "MarkSessionSyncing g dev epoch s = (s', Inr ())" "GetPeer dev s = Inr peer" "ps_ArtifactFreshness peer \<noteq> NoFreshness"
  shows "(\<forall>origin kind sid. GetRemoteArtifact g origin kind sid s' = GetRemoteArtifact g origin kind sid s)
    \<and> (\<forall>l p. loc_DeviceID l = dev \<longrightarrow> GetRemoteSession g l s' = Inr p \<longrightarrow> rp_Freshness p \<noteq> FreshnessFresh)"
proof -
  have "lookup_peer s dev = Inr (Some peer)" using assms(2) by (auto simp: GetPeer_def lookup_peer_def)
  show ?thesis
  proof (rule session_sync_peer [OF assms(1) \<open>lookup_peer s dev = Inr (Some peer)\<close> assms(3)], intro conjI allI impI)
    fix peer'
    assume p: "lookup_peer s' dev = Inr (Some peer')" "ps_ArtifactFreshness peer' = ps_ArtifactFreshness peer"
      "ps_ArtifactFreshnessChangedAt peer' = ps_ArtifactFreshnessChangedAt peer" "ps_ArtifactInventory peer' = ps_ArtifactInventory peer"
      "ps_SessionFreshness peer' = FreshnessSyncing" "st_remote_artifacts s' = st_remote_artifacts s"
      "\<forall>d. d \<noteq> dev \<longrightarrow> lookup_peer s' d = lookup_peer s d"
    have eff: "effectiveArtifact a (Some peer') = effectiveArtifact a (Some peer)" for a
      using p(2-4) assms(3) by (simp add: effectiveArtifact_def artifactInventoryFreshness_def artifact_committed_def)
    show "GetRemoteArtifact g origin kind sid s' = GetRemoteArtifact g origin kind sid s" for origin kind sid
      using p(6,7) p(1) eff \<open>lookup_peer s dev = Inr (Some peer)\<close>
      by (cases "origin = dev") (simp_all add: GetRemoteArtifact_def cong: if_cong)
    show "rp_Freshness q \<noteq> FreshnessFresh" if r: "loc_DeviceID l = dev" "GetRemoteSession g l s' = Inr q" for l and q :: RemoteSessionProjection
    proof -
      obtain q' where "q = effectiveSessionProjection q' (Some peer')"
        using r p(1) by (auto simp: GetRemoteSession_def getRemoteSessionLocked_def split: if_splits)
      then show ?thesis
        using session_view.unsettled_inventory [of peer' q'] p(5) by (simp add: sessionInventoryFreshness_def)
    qed
  qed
qed


section \<open>Desired topics\<close>

lemma unique_topics_spec:
  "unique_topics acc ts = Inr out \<Longrightarrow> distinct acc \<Longrightarrow>
     distinct out \<and> set out = set acc \<union> set ts \<and> (\<forall>t \<in> set ts. validateID ''desired topic'' t = None)"
  by (induction acc ts rule: unique_topics.induct) (auto split: if_splits)

lemma canonical_topics:
  assumes "unique_topics [] ts = Inr out"
  shows "sort out = sorted_list_of_set (set ts)"
  using unique_topics_spec [OF assms] by (metis distinct.simps(1) list.set(1) set_empty sorted_list_of_set_sort_remdups remdups_id_iff_distinct sup_bot_left)

text \<open>
  The desired topics survive a round trip in canonical form: what \<open>SetDesiredTopics\<close> accepted
  is read back sorted and without duplicates, the rest of the peer document is as it was (in
  particular its freshness and its cursors), and setting the same topics again changes nothing,
  not even the change feed.
\<close>

theorem desired_topics_roundtrip:
  assumes "SetDesiredTopics dev topics s = (s', Inr ())" "topics \<noteq> [] \<or> lookup_peer s dev \<noteq> Inr None"
  shows "DesiredTopics dev s' = Inr (sorted_list_of_set (set topics))
    \<and> (\<forall>p. GetPeer dev s = Inr p \<longrightarrow> GetPeer dev s' = Inr (p\<lparr>ps_DesiredTopics := sorted_list_of_set (set topics)\<rparr>))
    \<and> SetDesiredTopics dev topics s' = (s', Inr ())"
proof -
  let ?canon = "sorted_list_of_set (set topics)"
  obtain unique found where u: "validateID ''device_id'' dev = None" "length topics \<le> maxDesiredTopics"
      "unique_topics [] topics = Inr unique" "lookup_peer s dev = Inr found"
    using assms(1) by (auto simp: SetDesiredTopics_def seq_op_eq_Inr bind_op_eq_Inr Let_def)
  have canon: "sort unique = ?canon" by (rule canonical_topics [OF u(3)])
  have nonempty: "\<not> (found = None \<and> ?canon = [])" using assms(2) u(4) by auto
  define peer where "peer = (case found of Some p \<Rightarrow> p
     | None \<Rightarrow> (new_peer dev)\<lparr>ps_Freshness := FreshnessStale, ps_UpdatedAt := st_now s\<rparr>)"
  have dev: "ps_DeviceID peer = dev"
    using u(4) by (auto simp: peer_def new_peer_def split: option.split dest: lookup_device)
  have set: "SetDesiredTopics dev topics t =
      (let q = (case f of Some p \<Rightarrow> p | None \<Rightarrow> (new_peer dev)\<lparr>ps_Freshness := FreshnessStale, ps_UpdatedAt := st_now t\<rparr>)
       in if ps_DesiredTopics q = ?canon then (t, Inr ())
          else seq_op (writePeerLocked (q\<lparr>ps_DesiredTopics := ?canon\<rparr>)) (publish ChangeUpsert EntityPeer dev) t)"
    if "lookup_peer t dev = Inr f" "\<not> (f = None \<and> ?canon = [])" for t f
    using that u(1-3) canon by (simp add: SetDesiredTopics_def seq_op_def bind_op_def Let_def new_peer_def)
  have "lookup_peer s' dev = Inr (Some (peer\<lparr>ps_DesiredTopics := ?canon\<rparr>))"
  proof (cases "ps_DesiredTopics peer = ?canon")
    case True
    then have "s' = s" using set [OF u(4) nonempty] assms(1) by (simp add: peer_def Let_def)
    moreover have "found \<noteq> None" using True nonempty by (cases found) (auto simp: peer_def new_peer_def)
    ultimately show ?thesis using True u(4) by (auto simp: peer_def)
  next
    case False
    then have "seq_op (writePeerLocked (peer\<lparr>ps_DesiredTopics := ?canon\<rparr>)) (publish ChangeUpsert EntityPeer dev) s = (s', Inr ())"
      using set [OF u(4) nonempty] assms(1) by (simp add: peer_def Let_def)
    from write_publish_peer(1) [OF this] dev show ?thesis by simp
  qed
  then have after: "getPeerLocked s' dev = Inr (peer\<lparr>ps_DesiredTopics := ?canon\<rparr>)"
    "lookup_peer s' dev = Inr (Some (peer\<lparr>ps_DesiredTopics := ?canon\<rparr>))"
    by (auto simp: lookup_doc peer_doc_def split: sum.splits)
  moreover have "p = peer" if "GetPeer dev s = Inr p" for p
    using that u(4) by (auto simp: GetPeer_def lookup_peer_def peer_def)
  ultimately show ?thesis
    using set [OF after(2)] u(1) by (auto simp: DesiredTopics_def GetPeer_def)
qed


section \<open>Instances\<close>

lemma demo_artifact_ok [simp]: "Artifact_Validate g (demo_artifact ''a'') = None"
  "Artifact_Validate g ((demo_artifact ''a'')\<lparr>ae_Freshness := FreshnessStale, ae_FreshnessChangedAt := 5\<rparr>) = None"
  by (simp_all add: Artifact_Validate_def demo_artifact_def SchemaVersion_def validateID_def
      artifact_source_check_def Kind_Validate_def demo_provenance validateHTTPSURL_def validatePathHint_def Freshness_Validate_def)

lemma demo_artifact_sel [simp]: "ae_OriginDeviceID (demo_artifact aid) = ''d''" "ae_Kind (demo_artifact aid) = ArtifactGoal"
    "ae_SourceID (demo_artifact aid) = aid" "ae_Freshness (demo_artifact aid) = FreshnessFresh"
  by (simp_all add: demo_artifact_def)

lemma demo_artifact_path [simp]: "remoteArtifactPath ''d'' ArtifactGoal ''a'' = Inr [''remote-artifacts'', ''d'', ''goal'', ''a.json'']"
  by (simp add: remoteArtifactPath_def path_Inr kind_string_def plain_segment plain_char_def char_class_defs byte_of_def)

lemma demo_remote_artifacts [simp]:
  "st_remote_artifacts s = [([''remote-artifacts'', ''d'', ''goal'', ''a.json''], File (demo_artifact ''a''))] \<Longrightarrow>
     listRemoteArtifactsRawLocked g s ''d'' NoKind = Inr [demo_artifact ''a'']"
  by (simp add: listRemoteArtifactsRawLocked_def collectJSONFiles_def has_suffix_def read_remote_artifact_def readArtifactFile_def
      readJSONFile_def sortArtifacts_def)

lemma demo_sessions [simp]:
  "st_sessions s = [([''remote-sessions'', ''d'', ''root'', ''a.json''], File (demo_projection ''a''))] \<Longrightarrow>
     listRemoteSessionsLocked demo_golib s ''d'' [] = Inr [demo_projection ''a'']"
  by (simp add: listRemoteSessionsLocked_def collectJSONFiles_def has_suffix_def read_session_def readJSONFile_def)

lemma demo_marked_ok [simp]: "f = FreshnessStale \<or> f = FreshnessSyncing \<Longrightarrow>
    Projection_Validate demo_golib ((demo_projection ''a'')\<lparr>rp_Freshness := f, rp_FreshnessChangedAt := 5\<rparr>) = None"
  by (auto simp: Projection_Validate_def demo_projection_def SchemaVersion_def validateID_def Freshness_Validate_def)

lemma demo_peer_sel [simp]: "ps_DeviceID demo_peer = ''d''" "ps_DesiredTopics demo_peer = []"
    "ps_SessionFreshness demo_peer = FreshnessFresh" "ps_ArtifactFreshness demo_peer = FreshnessFresh"
  by (simp_all add: demo_peer_def)

lemmas demo_peer_eval = Peer_Validate_def recomputePeerFreshness_def demo_peer_def SchemaVersion_def validateID_def Freshness_Validate_def
  validateInventoryFreshness_def maxDesiredTopics_def ProfileScope_Validate_def RootProfileScope_def Cursor_Validate_def demo_cursor_def
  initializeLegacyTopicFreshness_def Let_def

lemma demo_disconnect: "snd (MarkPeerDisconnected demo_golib ''d'' (demo_store [])) = Inr ()"
proof -
  define peer where "peer = recomputePeerFreshness (demo_peer\<lparr>ps_UpdatedAt := 5, ps_SessionFreshness := FreshnessStale,
     ps_SessionFreshnessChangedAt := 5, ps_ArtifactFreshness := FreshnessStale, ps_ArtifactFreshnessChangedAt := 5\<rparr>)"
  have p: "Peer_Validate peer = None" "ps_DeviceID peer = ''d''" by (simp_all add: peer_def demo_peer_eval)
  show ?thesis
    by (simp add: MarkPeerDisconnected_def validateID_def seq_op_def bind_op_def mark_sessions_def mark_artifacts_def
        writeRemoteSessionLocked_def writeRemoteArtifactLocked_def writeJSONLocked_def next_fault_def peer_or_new_def
        Let_def peer_def [symmetric] writePeerLocked_def p demo_store_def)
qed


theorem disconnect_hides_live_witness:
  "\<exists>s' p. MarkPeerDisconnected demo_golib ''d'' (demo_store []) = (s', Inr ()) \<and> GetPeer ''d'' s' = Inr p \<and> ps_Freshness p = FreshnessStale"
proof -
  obtain s' where "MarkPeerDisconnected demo_golib ''d'' (demo_store []) = (s', Inr ())"
    using demo_disconnect by (metis prod.collapse)
  with disconnect_hides_live [OF this] show ?thesis by blast
qed

lemma demo_legacy [simp]: "initializeLegacyTopicFreshness demo_peer = demo_peer"
  by (simp add: initializeLegacyTopicFreshness_def)

lemma demo_sync: "snd (MarkSessionSyncing demo_golib ''d'' ''e'' (demo_store [])) = Inr ()"
proof -
  define peer where "peer = recomputePeerFreshness (demo_peer\<lparr>ps_SourceEpoch := ''e'', ps_UpdatedAt := 5,
     ps_SessionFreshness := FreshnessSyncing, ps_SessionFreshnessChangedAt := 5\<rparr>)"
  have p: "Peer_Validate peer = None" "ps_DeviceID peer = ''d''" by (simp_all add: peer_def demo_peer_eval)
  show ?thesis
    by (simp add: MarkSessionSyncing_def markSessionInventorySyncingLocked_def markPeerInventoriesSyncingLocked_def validateSyncingPeer_def
        validateID_def seq_op_def bind_op_def mark_sessions_def writeRemoteSessionLocked_def writeJSONLocked_def next_fault_def
        peer_or_new_def Let_def peer_def [symmetric] writePeerLocked_def p demo_store_def)
qed

theorem session_sync_keeps_artifacts_witness:
  "\<exists>s'. MarkSessionSyncing demo_golib ''d'' ''e'' (demo_store []) = (s', Inr ())
     \<and> GetRemoteArtifact demo_golib ''d'' ArtifactGoal ''a'' s' = GetRemoteArtifact demo_golib ''d'' ArtifactGoal ''a'' (demo_store [])"
proof -
  obtain s' where r: "MarkSessionSyncing demo_golib ''d'' ''e'' (demo_store []) = (s', Inr ())"
    using demo_sync by (metis prod.collapse)
  have "peer_doc ''d'' (demo_store []) = Some demo_peer" using lookup_doc [of "demo_store []" "''d''" demo_peer] by simp
  then have "GetPeer ''d'' (demo_store []) = Inr demo_peer"
    by (auto simp: GetPeer_def validateID_def peer_doc_def split: sum.splits)
  from session_sync_keeps_artifacts [OF r this] r show ?thesis by simp
qed

lemma demo_topics: "snd (SetDesiredTopics ''d'' [''b'', ''a'', ''b''] (demo_store [])) = Inr ()"
proof -
  define peer where "peer = demo_peer\<lparr>ps_DesiredTopics := [''a'', ''b'']\<rparr>"
  have p: "Peer_Validate peer = None" "ps_DeviceID peer = ''d''"
    by (simp_all add: peer_def demo_peer_eval less_char_def less_eq_char_def)
  show ?thesis
    by (simp add: SetDesiredTopics_def seq_op_def bind_op_def validateID_def maxDesiredTopics_def Let_def
        peer_def [symmetric] writePeerLocked_def p writeJSONLocked_def next_fault_def) (simp add: demo_store_def)
qed

theorem desired_topics_roundtrip_witness:
  "\<exists>s'. SetDesiredTopics ''d'' [''b'', ''a'', ''b''] (demo_store []) = (s', Inr ()) \<and> DesiredTopics ''d'' s' = Inr [''a'', ''b'']"
proof -
  obtain s' where r: "SetDesiredTopics ''d'' [''b'', ''a'', ''b''] (demo_store []) = (s', Inr ())"
    using demo_topics by (metis prod.collapse)
  have "insort ''b'' (sorted_list_of_set ({''a'', ''b''} - {''b''})) = [''a'', ''b'']"
    by (simp add: insert_Diff_if less_char_def less_eq_char_def)
  with desired_topics_roundtrip [OF r] r show ?thesis by simp
qed

lemma demo_artifact_tx_ok: "artifact_tx_ok demo_artifact_tx"
  by (simp add: artifact_tx_ok_def demo_artifact_tx_def) (simp add: demo_artifact_def)

lemma demo_artifact_new [simp]: "Artifact_Validate g ((demo_artifact ''b'')\<lparr>ae_SourceRevision := 2, ae_ReceivedAt := 5, ae_FreshnessChangedAt := 5, ae_Freshness := FreshnessFresh\<rparr>) = None"
  by (simp add: Artifact_Validate_def demo_artifact_def SchemaVersion_def validateID_def
      artifact_source_check_def Kind_Validate_def demo_provenance validateHTTPSURL_def validatePathHint_def Freshness_Validate_def)

lemma demo_artifact_path_b [simp]: "remoteArtifactPath ''d'' ArtifactGoal ''b'' = Inr [''remote-artifacts'', ''d'', ''goal'', ''b.json'']"
  by (simp add: remoteArtifactPath_def path_Inr kind_string_def plain_segment plain_char_def char_class_defs byte_of_def)

lemma demo_artifact_gate [simp]: "validateArtifactInventoryCursorLocked ''d'' ''e'' 2 (demo_store fs) = Inr ()"
  by (simp add: validateArtifactInventoryCursorLocked_def) (simp add: demo_peer_def demo_cursor_def word_le_nat_alt)

lemma demo_artifact_effective [simp]: "effectiveArtifact (demo_artifact ''a'') (Some demo_peer) = demo_artifact ''a''"
  by (simp add: effectiveArtifact_def artifact_committed_def sameCursor_def artifactInventoryFreshness_def demo_peer_def demo_cursor_def demo_artifact_def)

lemma demo_artifact_commit:
  "commitArtifactInventory demo_golib demo_artifact_tx (demo_store fs) =
     write_artifact_batch demo_golib demo_artifact_tx demo_peer [demo_artifact ''a''] 5 (demo_store fs)"
proof -
  have "st_remote_artifacts (demo_store fs) = [([''remote-artifacts'', ''d'', ''goal'', ''a.json''], File (demo_artifact ''a''))]"
    "st_now (demo_store fs) = 5"
    by (simp_all add: demo_store_def)
  then show ?thesis by (simp add: commitArtifactInventory_def seq_op_def demo_artifact_tx_def peer_or_new_def)
qed

lemma demo_gone_artifact [simp]: "Artifact_Validate g ((demo_artifact ''a'')\<lparr>ae_SourceEpoch := ''e'', ae_SourceRevision := 2, ae_ReceivedAt := 5,
    ae_FreshnessChangedAt := 5, ae_Freshness := FreshnessGone\<rparr>) = None"
  by (simp add: Artifact_Validate_def demo_artifact_def SchemaVersion_def validateID_def
      artifact_source_check_def Kind_Validate_def demo_provenance validateHTTPSURL_def validatePathHint_def Freshness_Validate_def)

lemma demo_artifact_fails:
  "snd (commitArtifactInventory demo_golib demo_artifact_tx (demo_store [False, True])) = Inl (IOFailure ''write'')"
  "GetRemoteArtifact demo_golib ''d'' ArtifactGoal ''a'' (fst (commitArtifactInventory demo_golib demo_artifact_tx (demo_store [False, True])))
     = Inr (demo_artifact ''a'')"
  unfolding demo_artifact_commit
  by (simp_all add: write_artifact_batch_def demo_artifact_tx_def pending_items_def write_present_artifacts_def write_gone_artifacts_def
      writeRemoteArtifactLocked_def writeJSONLocked_def next_fault_def seq_op_def bind_op_def artifactRemoteIdentity_def kind_string_def
      publishLocked_def demo_store_def GetRemoteArtifact_def readArtifactFile_def readJSONFile_def validateID_def Kind_Validate_def)

theorem artifact_commit_atomic_witness:
  "commitArtifactInventory demo_golib demo_artifact_tx (demo_store [False, True]) =
     (fst (commitArtifactInventory demo_golib demo_artifact_tx (demo_store [False, True])), Inl (IOFailure ''write''))
   \<and> GetRemoteArtifact demo_golib ''d'' ArtifactGoal ''a'' (demo_store [False, True]) = Inr (demo_artifact ''a'')"
proof -
  have c: "commitArtifactInventory demo_golib demo_artifact_tx (demo_store [False, True]) =
     (fst (commitArtifactInventory demo_golib demo_artifact_tx (demo_store [False, True])), Inl (IOFailure ''write''))"
    using demo_artifact_fails(1) by (metis prod.collapse)
  from artifact_commit_atomic [OF demo_artifact_tx_ok c demo_artifact_fails(2)] c show ?thesis by simp
qed

end
