(* ===== verification/Mesh_Bindings.thy ===== *)
theory Mesh_Bindings
  imports Mesh_Docs
begin

text \<open>
  Surface bindings and the change feed: a bound surface keeps its target, what was bound is what
  resolves, and a subscriber that falls behind is told so.
\<close>

section \<open>Bindings keep their target\<close>

lemma hex_plain: "is_hex c \<Longrightarrow> plain_char c"
  by (auto simp: plain_char_def char_class_defs)

lemma uuid_chars: "uuidRE s \<Longrightarrow> list_all plain_char s \<and> s \<noteq> []"
proof -
  assume u: "uuidRE s"
  have "\<forall>p \<in> set (split_at (CHR ''-'') s). list_all is_hex p" using u by (simp add: uuidRE_def Let_def list_all_iff)
  then have parts: "list_all plain_char p" if "p \<in> set (split_at (CHR ''-'') s)" for p
    using that hex_plain by (auto simp: list_all_iff)
  have "list_all plain_char (join_with [CHR ''-''] ps)" if "\<forall>p \<in> set ps. list_all plain_char p" for ps
    using that by (induction "[CHR ''-'']" ps rule: join_with.induct) (auto simp: plain_char_def)
  with parts have "list_all plain_char s" by (metis join_split_at)
  moreover have "s \<noteq> []" using u by (auto simp: uuidRE_def Let_def)
  ultimately show ?thesis by simp
qed

lemma binding_path: "uuidRE sid \<Longrightarrow> surfaceBindingPath sid = Inr [''surface-bindings'', ''cmux'', sid @ ''.json'']"
proof -
  assume "uuidRE sid"
  then have c: "list_all plain_char sid" "sid \<noteq> []" using uuid_chars by auto
  have "\<not> unsafe_segment (sid @ ''.json'')"
    by (rule plain_segment) (use c in \<open>auto simp: append_eq_Cons_conv plain_char_def char_class_defs byte_of_def\<close>)
  then show ?thesis
    by (simp add: surfaceBindingPath_def path_Inr plain_segment plain_char_def char_class_defs byte_of_def)
qed

lemma stamp_sel [simp]:
  "sb_SurfaceID (stamp_binding now b) = sb_SurfaceID b" "sb_Locator (stamp_binding now b) = sb_Locator b"
  "sb_UpdatedAt (stamp_binding now b) = now" "sb_Source (stamp_binding now b) = sb_Source b"
  "sb_BindingID (stamp_binding now b) = sb_BindingID b" "sb_LocalDeviceID (stamp_binding now b) = sb_LocalDeviceID b"
  "sb_Mux (stamp_binding now b) = sb_Mux b" "sb_WorkspaceID (stamp_binding now b) = sb_WorkspaceID b"
  "sameTarget old (stamp_binding now b) = sameTarget old b"
  by (simp_all add: stamp_binding_def sameTarget_def Let_def)

lemma merged_same:
  assumes "sameTarget old b"
  shows "merge_binding old b = b\<lparr>sb_CreatedAt := sb_CreatedAt old, sb_Source := sb_Source old,
    sb_Locator := (if loc_TransportBindingID (sb_Locator b) = []
       then (sb_Locator b)\<lparr>loc_TransportBindingID := loc_TransportBindingID (sb_Locator old)\<rparr> else sb_Locator b)\<rparr>"
  using assms by (cases b) (simp add: merge_binding_def)

lemma merged_valid:
  assumes "sameTarget old b" "Binding_Validate old = None" "Binding_Validate b = None"
  shows "Binding_Validate (merge_binding old b) = None"
  using assms by (auto simp: merged_same Binding_Validate_def Locator_Validate_def)

lemma bindings_update:
  "st_bindings_update f (s\<lparr>st_faults := fs\<rparr>) = s\<lparr>st_bindings := f (st_bindings s), st_faults := fs\<rparr>"
  by (cases s) simp

lemma put_binding_cases:
  assumes "putSurfaceBindingLocked b replace s = (s', r)" "surfaceBindingPath (sb_SurfaceID b) = Inr path"
  shows "(\<exists>e fs. r = Inl e \<and> s' = s\<lparr>st_faults := fs\<rparr>)
    \<or> (\<exists>m fs. r = Inr ()
        \<and> (case readJSONFile (st_bindings s) path of Inr old \<Rightarrow> (sameTarget old b \<or> replace) \<and> m = merge_binding old b
           | Inl e \<Rightarrow> e = ErrNotFound \<and> m = b)
        \<and> s' = publishLocked ChangeUpsert EntitySurfaceBinding (sb_SurfaceID b)
             (s\<lparr>st_bindings := AList.update path (File (binding_stored m)) (st_bindings s), st_faults := fs\<rparr>))"
proof -
  let ?pick = "case readJSONFile (st_bindings s) path of
          Inr existing \<Rightarrow> if \<not> sameTarget existing b \<and> \<not> replace then Inl ErrConflict else Inr (merge_binding existing b)
        | Inl ErrNotFound \<Rightarrow> Inr b | Inl e \<Rightarrow> Inl e"
  have run: "putSurfaceBindingLocked b replace s = (case ?pick of Inl e \<Rightarrow> (s, Inl e)
      | Inr m \<Rightarrow> seq_op (writeJSONLocked st_bindings st_bindings_update path (binding_stored m))
          (publish ChangeUpsert EntitySurfaceBinding (sb_SurfaceID b)) s)"
    using assms(2) by (simp add: putSurfaceBindingLocked_def bind_op_def)
  have same: "s = s\<lparr>st_faults := st_faults s\<rparr>" by simp
  show ?thesis
  proof (cases ?pick)
    case (Inl e)
    then have "putSurfaceBindingLocked b replace s = (s, Inl e)" unfolding run by simp
    with assms(1) same show ?thesis by (metis prod.inject)
  next
    case (Inr m)
    then have m: "case readJSONFile (st_bindings s) path of Inr old \<Rightarrow> (sameTarget old b \<or> replace) \<and> m = merge_binding old b
           | Inl e \<Rightarrow> e = ErrNotFound \<and> m = b"
      by (auto split: sum.splits if_splits mesh_error.splits)
    obtain t r' where w: "writeJSONLocked st_bindings st_bindings_update path (binding_stored m) s = (t, r')" by fastforce
    have "seq_op (writeJSONLocked st_bindings st_bindings_update path (binding_stored m))
          (publish ChangeUpsert EntitySurfaceBinding (sb_SurfaceID b)) s = (s', r)"
      using assms(1) Inr unfolding run by simp
    with writeJSON_cases [OF w] w have "(\<exists>e fs. r = Inl e \<and> s' = s\<lparr>st_faults := fs\<rparr>)
      \<or> (\<exists>fs. r = Inr () \<and> s' = publishLocked ChangeUpsert EntitySurfaceBinding (sb_SurfaceID b)
             (s\<lparr>st_bindings := AList.update path (File (binding_stored m)) (st_bindings s), st_faults := fs\<rparr>))"
      by (auto simp: seq_op_def bind_op_def bindings_update)
    with m show ?thesis by blast
  qed
qed


lemma binding_other:
  assumes "uuidRE sid" "sid' \<noteq> sid" "surfaceBindingPath sid = Inr path" "st_bindings s' = AList.update path v (st_bindings s)"
  shows "GetSurfaceBinding sid' s' = GetSurfaceBinding sid' s"
proof (cases "surfaceBindingPath sid'")
  case (Inr path')
  with assms(2,3) have "path' \<noteq> path" by (auto simp: surfaceBindingPath_def path_Inr)
  with Inr assms(4) show ?thesis by (simp add: GetSurfaceBinding_def getSurfaceBindingLocked_def readJSONFile_def)
qed (simp add: GetSurfaceBinding_def getSurfaceBindingLocked_def)

lemma put_binding_run:
  "PutSurfaceBinding b replace s = (case Binding_Validate (stamp_binding (st_now s) b) of Some e \<Rightarrow> (s, Inl e)
     | None \<Rightarrow> putSurfaceBindingLocked (stamp_binding (st_now s) b) replace s)"
  by (simp add: PutSurfaceBinding_def seq_op_def bind_op_def split: option.split)



lemma seq_check_opt: "seq_op (check_op v) m s = (case v of Some e \<Rightarrow> (s, Inl e) | None \<Rightarrow> m s)"
  by (cases v) (simp_all add: seq_op_def bind_op_def)

section \<open>What is bound is what resolves\<close>

lemma merge_identity: "EqualIdentity (sb_Locator (merge_binding old b)) (sb_Locator b)"
  by (simp add: merge_binding_def EqualIdentity_def Let_def)

lemma equal_identity_path: "EqualIdentity l m \<Longrightarrow> remoteSessionPath l = remoteSessionPath m"
  by (simp add: EqualIdentity_def remoteSessionPath_def)

lemma put_binding_ok:
  assumes "putSurfaceBindingLocked b replace s = (s', Inr ())"
  obtains path m where "surfaceBindingPath (sb_SurfaceID b) = Inr path" "EqualIdentity (sb_Locator m) (sb_Locator b)"
    "readJSONFile (st_bindings s') path = Inr (binding_stored m)" "st_sessions s' = st_sessions s" "st_peers s' = st_peers s"
proof -
  obtain path where path: "surfaceBindingPath (sb_SurfaceID b) = Inr path"
    using assms by (auto simp: putSurfaceBindingLocked_def bind_op_eq_Inr)
  obtain m fs where m: "m = b \<or> (\<exists>old. m = merge_binding old b)"
      "s' = publishLocked ChangeUpsert EntitySurfaceBinding (sb_SurfaceID b)
             (s\<lparr>st_bindings := AList.update path (File (binding_stored m)) (st_bindings s), st_faults := fs\<rparr>)"
    using put_binding_cases [OF assms path] by (cases "readJSONFile (st_bindings s) path") auto
  have "EqualIdentity (sb_Locator m) (sb_Locator b)" using m(1) merge_identity by auto
  with that [OF path this] m(2) show ?thesis by (simp add: readJSONFile_def)
qed

text \<open>
  Binding a surface to a session is safe against the session's end: a session that reads as
  gone is refused and the store unchanged, and after a successful bind the surface resolves to
  exactly the record that was returned, with the projection the decision was made on.
\<close>

theorem bind_resolves:
  assumes "ValidateAndPutSurfaceBinding g b replace s = (s', r)"
  shows "(\<forall>p. GetRemoteSession g (sb_Locator b) s = Inr p \<longrightarrow> rp_Freshness p = FreshnessGone \<longrightarrow> s' = s \<and> (\<exists>e. r = Inl e))
    \<and> (\<forall>rb. r = Inr rb \<longrightarrow> ResolveSurfaceBinding g (sb_SurfaceID b) s' = Inr rb
         \<and> GetRemoteSession g (sb_Locator b) s' = GetRemoteSession g (sb_Locator b) s
         \<and> rb_EffectiveFreshness rb \<noteq> FreshnessGone)"
proof (intro conjI allI impI)
  let ?b = "stamp_binding (st_now s) b"
  fix p assume p: "GetRemoteSession g (sb_Locator b) s = Inr p" "rp_Freshness p = FreshnessGone"
  then have "getRemoteSessionLocked g s (sb_Locator ?b) = Inr p" by (simp add: GetRemoteSession_def)
  then have "\<exists>e. ValidateAndPutSurfaceBinding g b replace s = (s, Inl e)"
    using p(2)
    by (simp add: ValidateAndPutSurfaceBinding_def bind_get bind_read seq_check_opt Let_def split: option.split)
  then show "s' = s" "\<exists>e. r = Inl e" using assms by auto
next
  let ?b = "stamp_binding (st_now s) b"
  fix rb assume rb: "r = Inr rb"
  obtain p t stored peer where o: "Binding_Validate ?b = None" "getRemoteSessionLocked g s (sb_Locator b) = Inr p"
      "rp_Freshness p \<noteq> FreshnessGone" "putSurfaceBindingLocked ?b replace s = (s', Inr ())"
      "getSurfaceBindingLocked s' (sb_SurfaceID b) = Inr stored" "lookup_peer s' (loc_DeviceID (sb_Locator b)) = Inr peer"
      "rb = \<lparr>rb_Binding = stored, rb_Projection = Some p, rb_Peer = peer,
         rb_PeerFreshness = (case peer of None \<Rightarrow> FreshnessStale | Some p \<Rightarrow> ps_Freshness p), rb_EffectiveFreshness = rp_Freshness p\<rparr>"
    using assms rb by (auto simp: ValidateAndPutSurfaceBinding_def seq_op_eq_Inr bind_op_eq_Inr Let_def)
  obtain path m where w: "surfaceBindingPath (sb_SurfaceID b) = Inr path" "EqualIdentity (sb_Locator m) (sb_Locator b)"
      "readJSONFile (st_bindings s') path = Inr (binding_stored m)" "st_sessions s' = st_sessions s" "st_peers s' = st_peers s"
    using put_binding_ok [OF o(4)] by auto
  have peers: "lookup_peer s' d = lookup_peer s d" for d by (rule lookup_peer_cong) (rule w(5))
  show "GetRemoteSession g (sb_Locator b) s' = GetRemoteSession g (sb_Locator b) s"
    by (simp add: GetRemoteSession_def getRemoteSessionLocked_def w(4) peers cong: if_cong)
  show "rb_EffectiveFreshness rb \<noteq> FreshnessGone" using o(3,7) by simp
  have stored: "EqualIdentity (sb_Locator stored) (sb_Locator b)"
    using o(5) w(1-3) by (auto simp: getSurfaceBindingLocked_def binding_stored_def split: if_splits)
  then have loc: "loc_DeviceID (sb_Locator stored) = loc_DeviceID (sb_Locator b)" "remoteSessionPath (sb_Locator stored) = remoteSessionPath (sb_Locator b)"
    by (auto simp: EqualIdentity_def remoteSessionPath_def)
  obtain spath q where q: "remoteSessionPath (sb_Locator b) = Inr spath" "readJSONFile (st_sessions s) spath = Inr q"
      "Projection_Validate g q = None" "EqualIdentity (rp_Locator q) (sb_Locator b)" "p = effectiveSessionProjection q peer"
    using o(2,6) peers by (auto simp: getRemoteSessionLocked_def split: if_splits)
  have "EqualIdentity (rp_Locator q) (sb_Locator stored)" using q(4) stored by (simp add: EqualIdentity_def)
  moreover have "uuidRE (sb_SurfaceID b)" using o(1) by (simp add: Binding_Validate_def)
  ultimately show "ResolveSurfaceBinding g (sb_SurfaceID b) s' = Inr rb"
    using o(5-7) q loc w(4) by (simp add: ResolveSurfaceBinding_def Let_def)
qed


section \<open>The change feed\<close>

text \<open>A subscriber's view: publications and its own receives, in any interleaving.\<close>

datatype feed_event = Published ChangeType EntityType string | Received

definition receive :: "u64 \<Rightarrow> store \<Rightarrow> store \<times> Change list" where
  "receive wid s =
     (case map_of (st_watchers s) wid of
        None \<Rightarrow> (s, [])
      | Some w \<Rightarrow> (s\<lparr>st_watchers := AList.update wid (w\<lparr>wa_queue := drop 1 (wa_queue w)\<rparr>) (st_watchers s)\<rparr>, take 1 (wa_queue w)))"

fun feed :: "u64 \<Rightarrow> feed_event list \<Rightarrow> store \<Rightarrow> store \<times> Change list" where
  "feed wid [] s = (s, [])"
| "feed wid (Published kind entity key # es) s = feed wid es (publishLocked kind entity key s)"
| "feed wid (Received # es) s = (let (s', got) = receive wid s in apsnd ((@) got) (feed wid es s'))"

text \<open>
  \<open>linked n cs m\<close>: the changes lead from sequence number \<open>n\<close> to \<open>m\<close>, each the successor of the one
  before it unless it is a gap marker.
\<close>

fun linked :: "u64 \<Rightarrow> Change list \<Rightarrow> u64 \<Rightarrow> bool" where
  "linked n [] m \<longleftrightarrow> n = m"
| "linked n (c # cs) m \<longleftrightarrow> (ch_Type c = ChangeGap \<or> ch_Sequence c = n + 1) \<and> linked (ch_Sequence c) cs m"

lemma linked_append: "linked n (xs @ ys) m \<longleftrightarrow> (\<exists>k. linked n xs k \<and> linked k ys m)"
  by (induction xs arbitrary: n) auto

definition feed_ok :: "u64 \<Rightarrow> nat \<Rightarrow> u64 \<Rightarrow> store \<Rightarrow> bool" where
  "feed_ok wid cap n s \<longleftrightarrow> (\<exists>w. map_of (st_watchers s) wid = Some w \<and> wa_cap w = cap \<and> 1 \<le> wa_cap w \<and> length (wa_queue w) \<le> wa_cap w
     \<and> linked n (wa_queue w) (st_changeSeq s))"

lemma deliver_linked:
  assumes "1 \<le> wa_cap w" "length (wa_queue w) \<le> wa_cap w" "linked n (wa_queue w) sq" "ch_Sequence ev = sq + 1"
  shows "wa_cap (deliver ev now w) = wa_cap w \<and> length (wa_queue (deliver ev now w)) \<le> wa_cap w
    \<and> linked n (wa_queue (deliver ev now w)) (sq + 1)"
  using assms by (auto simp: deliver_def try_send_def drainChannel_def linked_append)

lemma publish_feed: "feed_ok wid cap n s \<Longrightarrow> feed_ok wid cap n (publishLocked kind entity key s)"
proof -
  assume "feed_ok wid cap n s"
  then obtain w where w: "map_of (st_watchers s) wid = Some w" "1 \<le> wa_cap w" "length (wa_queue w) \<le> wa_cap w"
      "linked n (wa_queue w) (st_changeSeq s)" "wa_cap w = cap" by (auto simp: feed_ok_def)
  define ev where "ev = \<lparr>ch_Sequence = st_changeSeq s + 1, ch_Type = kind, ch_Entity = entity, ch_Key = key, ch_At = st_now s\<rparr>"
  have d: "wa_cap (deliver ev (st_now s) w) = wa_cap w \<and> length (wa_queue (deliver ev (st_now s) w)) \<le> wa_cap w
    \<and> linked n (wa_queue (deliver ev (st_now s) w)) (st_changeSeq s + 1)"
    by (rule deliver_linked [OF w(2-4)]) (simp add: ev_def)
  have "map_of (map (\<lambda>(wid, w). (wid, deliver ev (st_now s) w)) (st_watchers s)) wid = Some (deliver ev (st_now s) w)"
    using w(1) by (simp add: map_of_map)
  with d w(2,5) show ?thesis by (auto simp: feed_ok_def publishLocked_def Let_def ev_def)
qed

lemma receive_feed:
  assumes "feed_ok wid cap n s" "receive wid s = (s', got)"
  shows "\<exists>k. linked n got k \<and> feed_ok wid cap k s'"
proof -
  obtain w where w: "map_of (st_watchers s) wid = Some w" "1 \<le> wa_cap w" "length (wa_queue w) \<le> wa_cap w"
      "linked n (take 1 (wa_queue w) @ drop 1 (wa_queue w)) (st_changeSeq s)" "wa_cap w = cap" using assms(1) by (auto simp: feed_ok_def)
  then obtain k where "linked n (take 1 (wa_queue w)) k" "linked k (drop 1 (wa_queue w)) (st_changeSeq s)"
    unfolding linked_append by blast
  with w assms(2) show ?thesis by (auto simp: receive_def feed_ok_def intro!: exI [of _ k])
qed

lemma feed_linked: "feed_ok wid cap n s \<Longrightarrow> feed wid es s = (s', got) \<Longrightarrow> \<exists>k. linked n got k \<and> feed_ok wid cap k s'"
proof (induction wid es s arbitrary: n got rule: feed.induct)
  case (2 wid kind entity key es s)
  then show ?case using publish_feed by simp
next
  case (3 wid es s)
  obtain t g1 where r: "receive wid s = (t, g1)" by fastforce
  with 3(3) obtain g2 where g: "feed wid es t = (s', g2)" "got = g1 @ g2"
    by (cases "feed wid es t") auto
  obtain k where k: "linked n g1 k" "feed_ok wid cap k t" using receive_feed [OF 3(2) r] by blast
  from 3(1) [OF r [symmetric] refl k(2) g(1)] k(1) g(2) show ?case by (auto simp: linked_append)
qed auto

text \<open>
  C26. A subscriber never loses a change silently. Over any interleaving of publications and
  receives, the changes it has received followed by those still queued run from the sequence
  number at the subscription to the current one, each the successor of the one before it unless it
  is an explicit gap marker; and its queue never holds more than the buffer.
\<close>

theorem watcher_no_silent_loss:
  assumes "Watch buffer s = (s0, wid)" "feed wid es s0 = (s', got)"
  shows "\<exists>w. map_of (st_watchers s') wid = Some w \<and> length (wa_queue w) \<le> max 1 (nat buffer)
    \<and> linked (st_changeSeq s) (got @ wa_queue w) (st_changeSeq s')"
proof -
  have s0: "feed_ok wid (max 1 (nat buffer)) (st_changeSeq s) s0" using assms(1) by (auto simp: Watch_def feed_ok_def Let_def)
  obtain k w where k: "linked (st_changeSeq s) got k" "map_of (st_watchers s') wid = Some w"
      "length (wa_queue w) \<le> max 1 (nat buffer)" "linked k (wa_queue w) (st_changeSeq s')"
    using feed_linked [OF s0 assms(2)] by (auto simp: feed_ok_def)
  then show ?thesis by (auto simp: linked_append)
qed


section \<open>Instances\<close>

definition demo_surface :: string where
  "demo_surface = ''00000000-0000-0000-0000-000000000000''"

definition demo_binding :: SurfaceBinding where
  "demo_binding = \<lparr>sb_SchemaVersion = 1, sb_BindingID = ''b'', sb_LocalDeviceID = ''d'', sb_Mux = ''cmux'', sb_SurfaceID = demo_surface,
     sb_WorkspaceID = demo_surface, sb_Locator = demo_locator ''a'', sb_Source = ''p'', sb_CreatedAt = 2, sb_UpdatedAt = 2\<rparr>"

definition demo_bound :: store where
  "demo_bound = (demo_store [])\<lparr>st_bindings := [([''surface-bindings'', ''cmux'', demo_surface @ ''.json''], File demo_binding)]\<rparr>"

lemma demo_uuid [simp]: "uuidRE demo_surface"
  by (simp add: uuidRE_def demo_surface_def char_class_defs byte_of_def)

lemma demo_binding_ok [simp]: "Binding_Validate (demo_binding\<lparr>sb_UpdatedAt := now, sb_BindingID := bid\<rparr>) = None"
  if "now \<noteq> 0" "safeID bid" "bid \<noteq> ''.''" "bid \<noteq> ''..''"
  using that by (simp add: Binding_Validate_def demo_binding_def SchemaVersion_def validateID_def validateBounded_def validateNoControls_def
      maxStateRunes_def ascii_eval is_control_def)

lemma demo_get_bound: "GetSurfaceBinding demo_surface demo_bound = Inr demo_binding"
proof -
  have "demo_binding = demo_binding\<lparr>sb_UpdatedAt := 2, sb_BindingID := ''b''\<rparr>" by (simp add: demo_binding_def)
  then have "Binding_Validate demo_binding = None" using demo_binding_ok [of 2 "''b''"] by simp
  then show ?thesis
    by (simp add: GetSurfaceBinding_def getSurfaceBindingLocked_def binding_path readJSONFile_def demo_bound_def)
       (simp add: demo_binding_def)
qed



lemma demo_stamped: "stamp_binding (st_now (demo_store [])) demo_binding = demo_binding\<lparr>sb_UpdatedAt := 5, sb_BindingID := ''b''\<rparr>"
  by (simp add: stamp_binding_def demo_store_def) (simp add: demo_binding_def)

lemma demo_binding_stored: "binding_stored (demo_binding\<lparr>sb_UpdatedAt := 5, sb_BindingID := ''b''\<rparr>) =
    demo_binding\<lparr>sb_UpdatedAt := 5, sb_BindingID := ''b''\<rparr>"
  by (simp add: binding_stored_def demo_binding_def is_ascii_def byte_of_def)

lemma demo_bind: "\<exists>rb. snd (ValidateAndPutSurfaceBinding demo_golib demo_binding False (demo_store [])) = Inr rb"
proof -
  let ?b = "demo_binding\<lparr>sb_UpdatedAt := 5, sb_BindingID := ''b''\<rparr>"
  have b: "sb_Locator demo_binding = demo_locator ''a''" "sb_SurfaceID demo_binding = demo_surface" by (simp_all add: demo_binding_def)
  have p: "getRemoteSessionLocked demo_golib (demo_store []) (demo_locator ''a'') = Inr (demo_projection ''a'')"
    using demo_read_a [of "[]"] by (simp add: GetRemoteSession_def)
  have put: "putSurfaceBindingLocked ?b False (demo_store []) =
      (publishLocked ChangeUpsert EntitySurfaceBinding demo_surface ((demo_store [])\<lparr>st_bindings :=
         [([''surface-bindings'', ''cmux'', demo_surface @ ''.json''], File ?b)]\<rparr>), Inr ())"
    by (simp add: putSurfaceBindingLocked_def b binding_path bind_op_def seq_op_def readJSONFile_def demo_binding_stored
        writeJSONLocked_def next_fault_def demo_store_def)
  show ?thesis
    by (simp add: ValidateAndPutSurfaceBinding_def bind_get bind_read seq_check_opt demo_stamped b p put seq_op_def bind_op_def
        getSurfaceBindingLocked_def binding_path readJSONFile_def Let_def)
qed

theorem bind_resolves_witness:
  "\<exists>s' rb. ValidateAndPutSurfaceBinding demo_golib demo_binding False (demo_store []) = (s', Inr rb)
     \<and> ResolveSurfaceBinding demo_golib demo_surface s' = Inr rb"
proof -
  obtain s' rb where r: "ValidateAndPutSurfaceBinding demo_golib demo_binding False (demo_store []) = (s', Inr rb)"
    using demo_bind by (metis prod.collapse)
  have "sb_SurfaceID demo_binding = demo_surface" by (simp add: demo_binding_def)
  with bind_resolves [OF r] r show ?thesis by auto
qed

theorem watcher_no_silent_loss_witness:
  "\<exists>w. map_of (st_watchers (fst (feed 1 [Published ChangeUpsert EntityPeer ''d'', Published ChangeUpsert EntityPeer ''d'', Received]
        (fst (Watch 1 demo_empty))))) 1 = Some w \<and> length (wa_queue w) \<le> 1"
proof -
  have w: "Watch 1 demo_empty = (fst (Watch 1 demo_empty), 1)" by (simp add: Watch_def demo_empty_def)
  show ?thesis
    using watcher_no_silent_loss [OF w prod.collapse [symmetric],
        of "[Published ChangeUpsert EntityPeer ''d'', Published ChangeUpsert EntityPeer ''d'', Received]"]
    by (elim exE conjE) (rule exI, simp del: feed.simps)
qed

end
