(* ===== verification/Safetext.thy ===== *)
theory Safetext
  imports Go_Prelude
begin

text \<open>
  The credential screen (\<open>internal/safetext/credentials.go\<close>): nine regular expressions, and a text
  is rejected when one of them matches somewhere in it. The fragment of \<open>regexp\<close> they use is
  modelled as a syntax of expressions whose repetitions range over character classes; \<open>ends\<close> computes
  the ends of all matches that start at a position, over the runes of the text.
\<close>

datatype re =
    Eps
  | Boundary
  | One "rune \<Rightarrow> bool"
  | Many nat "rune \<Rightarrow> bool"
  | Seq re re
  | Alt re re

definition word_rune :: "rune \<Rightarrow> bool" where
  "word_rune r \<longleftrightarrow> 48 \<le> r \<and> r \<le> 57 \<or> 65 \<le> r \<and> r \<le> 90 \<or> 97 \<le> r \<and> r \<le> 122 \<or> r = 95"

definition at_boundary :: "rune list \<Rightarrow> nat \<Rightarrow> bool" where
  "at_boundary s i \<longleftrightarrow> (0 < i \<and> word_rune (s ! (i - 1))) \<noteq> (i < length s \<and> word_rune (s ! i))"

fun ends :: "re \<Rightarrow> rune list \<Rightarrow> nat \<Rightarrow> nat list" where
  "ends Eps s i = [i]"
| "ends Boundary s i = (if at_boundary s i then [i] else [])"
| "ends (One P) s i = (if i < length s \<and> P (s ! i) then [Suc i] else [])"
| "ends (Many n P) s i = [i + n ..< Suc (i + length (takeWhile P (drop i s)))]"
| "ends (Seq a b) s i = concat (map (ends b s) (ends a s i))"
| "ends (Alt a b) s i = ends a s i @ ends b s i"

definition MatchString :: "re \<Rightarrow> rune list \<Rightarrow> bool" where
  "MatchString r s = list_ex (\<lambda>i. ends r s i \<noteq> []) [0 ..< Suc (length s)]"

section \<open>The patterns\<close>

definition among :: "string \<Rightarrow> rune \<Rightarrow> bool" where
  "among cs r \<longleftrightarrow> r \<in> byte_of ` set cs"

definition range_of :: "char \<Rightarrow> char \<Rightarrow> rune \<Rightarrow> bool" where
  "range_of a b r \<longleftrightarrow> byte_of a \<le> r \<and> r \<le> byte_of b"

definition alnum_or :: "string \<Rightarrow> rune \<Rightarrow> bool" where
  "alnum_or cs r \<longleftrightarrow> range_of (CHR ''A'') (CHR ''Z'') r \<or> range_of (CHR ''a'') (CHR ''z'') r
     \<or> range_of (CHR ''0'') (CHR ''9'') r \<or> among cs r"

definition upnum_or :: "string \<Rightarrow> rune \<Rightarrow> bool" where
  "upnum_or cs r \<longleftrightarrow> range_of (CHR ''A'') (CHR ''Z'') r \<or> range_of (CHR ''0'') (CHR ''9'') r \<or> among cs r"

text \<open>
  A class under \<open>(?i)\<close>: the other case of an ASCII letter, and the two non-ASCII runes that fold to
  one, U+017F to s and U+212A to k.
\<close>

definition ci :: "(rune \<Rightarrow> bool) \<Rightarrow> rune \<Rightarrow> bool" where
  "ci P r \<longleftrightarrow> P r \<or> range_of (CHR ''A'') (CHR ''Z'') r \<and> P (r + 32) \<or> range_of (CHR ''a'') (CHR ''z'') r \<and> P (r - 32)
     \<or> r = 383 \<and> (P 115 \<or> P 83) \<or> r = 8490 \<and> (P 107 \<or> P 75)"

definition re_space :: "rune \<Rightarrow> bool" where
  "re_space r \<longleftrightarrow> r \<in> {9, 10, 12, 13, 32}"

primrec seqs :: "re list \<Rightarrow> re" where
  "seqs [] = Eps"
| "seqs (r # rs) = Seq r (seqs rs)"

fun alts :: "re list \<Rightarrow> re" where
  "alts [] = Eps"
| "alts [r] = r"
| "alts (r # rs) = Alt r (alts rs)"

definition opt :: "re \<Rightarrow> re" where "opt r = Alt r Eps"

definition lit :: "string \<Rightarrow> re" where "lit s = seqs (map (\<lambda>c. One (among [c])) s)"

definition ilit :: "string \<Rightarrow> re" where "ilit s = seqs (map (\<lambda>c. One (ci (among [c]))) s)"

definition exactly :: "nat \<Rightarrow> (rune \<Rightarrow> bool) \<Rightarrow> re" where "exactly n P = seqs (replicate n (One P))"

definition value_rune :: "rune \<Rightarrow> bool" where
  "value_rune r \<longleftrightarrow> \<not> re_space r \<and> r \<notin> {44, 34, 39, 59}"

text \<open>The common tail of the two assignment patterns: a separator, an optional quote and a value.\<close>

definition assigned :: re where
  "assigned = seqs [Many 0 re_space, One (among '':=''), Many 0 re_space, opt (One (\<lambda>r. r = 34 \<or> r = 39)), Many 4 value_rune]"

definition sep :: re where "sep = opt (One (among ''_-''))"
definition wide_sep :: re where "wide_sep = opt (One (among '' _-''))"

definition credentialPatterns :: "re list" where
  "credentialPatterns =
    [seqs [Boundary, One (ci (range_of (CHR ''a'') (CHR ''z''))),
       Many 0 (ci (\<lambda>r. range_of (CHR ''a'') (CHR ''z'') r \<or> range_of (CHR ''0'') (CHR ''9'') r \<or> among ''+.-'' r)),
       lit ''://'', Many 1 (\<lambda>r. \<not> re_space r \<and> \<not> among ''/@'' r), lit ''@''],
     seqs [ilit ''-----BEGIN '', Many 0 (ci (upnum_or '' '')), ilit ''PRIVATE KEY-----''],
     seqs [Boundary, opt (seqs [ilit ''authorization'', Many 0 re_space, One (among '':=''), Many 0 re_space]),
       alts [ilit ''bearer'', ilit ''basic''], Many 1 re_space, Many 8 (ci (alnum_or ''._~+/=-''))],
     seqs [Boundary, lit ''eyJ'', Many 5 (alnum_or ''_-''), lit ''.'', Many 5 (alnum_or ''_-''), lit ''.'',
       Many 5 (alnum_or ''_-''), Boundary],
     seqs [Boundary, Many 0 (ci (upnum_or ''_'')),
       alts [seqs [ilit ''API'', sep, ilit ''KEY''], seqs [ilit ''ACCESS'', sep, ilit ''KEY''],
         seqs [ilit ''SECRET'', opt (seqs [sep, ilit ''ACCESS'', sep, ilit ''KEY''])],
         ilit ''TOKEN'', ilit ''PASSWORD'', ilit ''PASSWD'', seqs [ilit ''PRIVATE'', sep, ilit ''KEY''],
         ilit ''CREDENTIALS'', ilit ''AUTHORIZATION''],
       Many 0 (ci (upnum_or ''_'')), assigned],
     seqs [Boundary,
       alts [seqs [ilit ''api'', wide_sep, ilit ''key''],
         seqs [ilit ''access'', wide_sep, alts [ilit ''key'', ilit ''token'']],
         seqs [ilit ''auth'', wide_sep, ilit ''token''], ilit ''authorization'', ilit ''password'', ilit ''passwd'',
         seqs [ilit ''secret'', opt (seqs [wide_sep, ilit ''access'', wide_sep, ilit ''key''])],
         seqs [ilit ''private'', wide_sep, ilit ''key''], seqs [ilit ''credential'', opt (ilit ''s'')]],
       assigned],
     seqs [Boundary,
       alts [seqs [ilit ''ghp'', One (among ''_-'')], seqs [ilit ''github_pat'', One (among ''_-'')],
         seqs [ilit ''xox'', One (ci (among ''baprs'')), lit ''-''], seqs [ilit ''xai'', One (among ''_-'')],
         seqs [ilit ''sk'', One (among ''_-''), opt (seqs [ilit ''proj'', One (among ''_-'')])]],
       Many 8 (ci (alnum_or ''_-''))],
     seqs [Boundary, alts [lit ''AKIA'', lit ''ASIA''], exactly 16 (upnum_or []), Boundary],
     seqs [Boundary, lit ''AIza'', Many 20 (alnum_or ''_-''), Boundary]]"

definition ContainsCredentialLike :: "string \<Rightarrow> bool" where
  "ContainsCredentialLike v = list_ex (\<lambda>p. MatchString p (runes_of v)) credentialPatterns"

section \<open>The matcher is the language of the expression\<close>

text \<open>The reference meaning of an expression: which \<open>m\<close> it matches between a given left and right context.\<close>

fun accepts :: "re \<Rightarrow> rune list \<Rightarrow> rune list \<Rightarrow> rune list \<Rightarrow> bool" where
  "accepts Eps p m q \<longleftrightarrow> m = []"
| "accepts Boundary p m q \<longleftrightarrow> m = [] \<and> (p \<noteq> [] \<and> word_rune (last p)) \<noteq> (q \<noteq> [] \<and> word_rune (hd q))"
| "accepts (One P) p m q \<longleftrightarrow> (\<exists>r. m = [r] \<and> P r)"
| "accepts (Many n P) p m q \<longleftrightarrow> n \<le> length m \<and> list_all P m"
| "accepts (Seq a b) p m q \<longleftrightarrow> (\<exists>m1 m2. m = m1 @ m2 \<and> accepts a p m1 (m2 @ q) \<and> accepts b (p @ m1) m2 q)"
| "accepts (Alt a b) p m q \<longleftrightarrow> accepts a p m q \<or> accepts b p m q"

lemma boundary_context: "at_boundary (p @ q) (length p) \<longleftrightarrow> (p \<noteq> [] \<and> word_rune (last p)) \<noteq> (q \<noteq> [] \<and> word_rune (hd q))"
  by (cases p rule: rev_cases; cases q) (auto simp: at_boundary_def nth_append)

lemma takeWhile_prefix: "k \<le> length (takeWhile P xs) \<longleftrightarrow> k \<le> length xs \<and> list_all P (take k xs)"
proof (induction xs arbitrary: k)
  case (Cons x xs)
  then show ?case by (cases k) auto
qed simp

lemma many_ends:
  "j \<in> set (ends (Many n P) (p @ t) (length p)) \<longleftrightarrow> (\<exists>m q. t = m @ q \<and> j = length p + length m \<and> accepts (Many n P) p m q)"
proof
  assume "j \<in> set (ends (Many n P) (p @ t) (length p))"
  then have j: "length p + n \<le> j" "j - length p \<le> length (takeWhile P t)" by auto
  then have "list_all P (take (j - length p) t)" "j - length p \<le> length t" by (simp_all add: takeWhile_prefix)
  then show "\<exists>m q. t = m @ q \<and> j = length p + length m \<and> accepts (Many n P) p m q"
    using j(1) by (intro exI [of _ "take (j - length p) t"] exI [of _ "drop (j - length p) t"]) auto
next
  assume "\<exists>m q. t = m @ q \<and> j = length p + length m \<and> accepts (Many n P) p m q"
  then obtain m q where m: "t = m @ q" "j = length p + length m" "n \<le> length m" "list_all P m" by auto
  then have "length m \<le> length (takeWhile P t)" by (simp add: takeWhile_prefix)
  with m show "j \<in> set (ends (Many n P) (p @ t) (length p))" by simp linarith
qed

lemma ends_iff:
  "j \<in> set (ends r (p @ t) (length p)) \<longleftrightarrow> (\<exists>m q. t = m @ q \<and> j = length p + length m \<and> accepts r p m q)"
proof (induction r arbitrary: p t j)
  case Boundary
  then show ?case by (auto simp: boundary_context)
next
  case (One P)
  have "(\<exists>m q. t = m @ q \<and> j = length p + length m \<and> accepts (One P) p m q) \<longleftrightarrow>
      (\<exists>r q. t = [r] @ q \<and> j = length p + length [r] \<and> P r)"
    unfolding accepts.simps by blast
  then show ?case by (cases t) auto
next
  case (Many n P)
  then show ?case by (rule many_ends)
next
  case (Seq a b)
  have "j \<in> set (ends (Seq a b) (p @ t) (length p)) \<longleftrightarrow>
      (\<exists>i. i \<in> set (ends a (p @ t) (length p)) \<and> j \<in> set (ends b (p @ t) i))"
    by auto
  also have "\<dots> \<longleftrightarrow>
      (\<exists>i m1 q1. t = m1 @ q1 \<and> i = length p + length m1 \<and> accepts a p m1 q1 \<and> j \<in> set (ends b (p @ t) i))"
    unfolding Seq.IH(1) by blast
  also have "\<dots> \<longleftrightarrow>
      (\<exists>m1 q1. t = m1 @ q1 \<and> accepts a p m1 q1 \<and> j \<in> set (ends b ((p @ m1) @ q1) (length (p @ m1))))"
    by auto
  also have "\<dots> \<longleftrightarrow> (\<exists>m1 q1. t = m1 @ q1 \<and> accepts a p m1 q1
      \<and> (\<exists>m2 q. q1 = m2 @ q \<and> j = length (p @ m1) + length m2 \<and> accepts b (p @ m1) m2 q))"
    unfolding Seq.IH(2) ..
  also have "\<dots> \<longleftrightarrow> (\<exists>m1 m2 q. t = (m1 @ m2) @ q \<and> j = length p + length (m1 @ m2) \<and> accepts a p m1 (m2 @ q) \<and> accepts b (p @ m1) m2 q)"
    unfolding length_append append_assoc add.assoc by blast
  also have "\<dots> \<longleftrightarrow> (\<exists>m q. t = m @ q \<and> j = length p + length m \<and> accepts (Seq a b) p m q)"
    unfolding accepts.simps by blast
  finally show ?case .
qed auto

primrec shortest :: "re \<Rightarrow> nat" where
  "shortest Eps = 0"
| "shortest Boundary = 0"
| "shortest (One P) = 1"
| "shortest (Many n P) = n"
| "shortest (Seq a b) = shortest a + shortest b"
| "shortest (Alt a b) = min (shortest a) (shortest b)"

lemma accepts_shortest: "accepts r p m q \<Longrightarrow> shortest r \<le> length m"
proof (induction r arbitrary: p m q)
  case (Seq a b)
  then show ?case by fastforce
qed (auto simp: min_le_iff_disj)

lemma ends_shortest:
  assumes "MatchString r s"
  shows "shortest r \<le> length s"
proof -
  from assms obtain i j where "i \<le> length s" "j \<in> set (ends r s i)"
    unfolding MatchString_def list_ex_iff
    by (metis atLeastLessThan_iff less_Suc_eq_le set_upt list.set_intros(1) neq_Nil_conv)
  then have "j \<in> set (ends r (take i s @ drop i s) (length (take i s)))" by simp
  then obtain m q where "drop i s = m @ q" "accepts r (take i s) m q" unfolding ends_iff by blast
  then show ?thesis using accepts_shortest [of r "take i s" m q] by (metis length_append length_drop diff_le_self le_trans le_add1)
qed

lemma credential_length: "ContainsCredentialLike v \<Longrightarrow> 6 \<le> length (runes_of v)"
proof -
  have "\<forall>r \<in> set credentialPatterns. 6 \<le> shortest r"
    by (simp add: credentialPatterns_def assigned_def sep_def wide_sep_def lit_def ilit_def opt_def exactly_def eval_nat_numeral)
  then show "ContainsCredentialLike v \<Longrightarrow> 6 \<le> length (runes_of v)"
    using ends_shortest by (auto simp: ContainsCredentialLike_def list_ex_iff)  (meson le_trans)
qed


end
