(* ===== verification/Handoff_Manifest.thy ===== *)
theory Handoff_Manifest
  imports Safetext
begin

text \<open>
  The handoff manifest (\<open>internal/handoff/manifest.go\<close>) and its validation, with the bounded typed
  fields of the durable records (\<open>record.go\<close>). A time carries, besides its instant, whether its
  location is UTC, which the validators test; the zero time is instant 0.

  \<open>json.Marshal\<close> of a manifest and SHA-256 in lowercase hexadecimal are the fields of \<open>hlib\<close>, which the
  definitions take as an argument: nothing below depends on which functions they are.
\<close>

record Time =
  tm_at :: time
  tm_UTC :: bool

definition zero_time :: Time where "zero_time = \<lparr>tm_at = 0, tm_UTC = True\<rparr>"

abbreviation time_IsZero :: "Time \<Rightarrow> bool" where "time_IsZero t \<equiv> IsZero (tm_at t)"

abbreviation time_Before :: "Time \<Rightarrow> Time \<Rightarrow> bool" where "time_Before a b \<equiv> tm_at a < tm_at b"

text \<open>\<open>Invalid\<close> carries the name of the rejected field; the sentinel errors have constructors of their own.\<close>

datatype handoff_error =
    ErrNotFound
  | ErrManifestConflict
  | ErrCASConflict
  | ErrIllegalTransition
  | ErrAcknowledgementUnavailable
  | ErrTargetNotAccepted
  | ErrContextNotLoaded
  | Invalid string
  | IOFailure string

definition ManifestVersion :: int where "ManifestVersion = 1"
definition maxArtifacts :: nat where "maxArtifacts = 64"
definition maxGoalRunes :: nat where "maxGoalRunes = 2048"
definition maxHistoryBytes :: int where "maxHistoryBytes = 67108864"
definition maxPatchBytes :: int where "maxPatchBytes = 268435456"
definition maxRefRunes :: nat where "maxRefRunes = 256"

definition safeID :: "string \<Rightarrow> bool" where
  "safeID s = id_shape is_alnum (\<lambda>c. is_alnum c \<or> c \<in> set ''._-'') 127 s"

definition profile_slug :: "string \<Rightarrow> bool" where
  "profile_slug s \<longleftrightarrow>
     (let lowdig = (\<lambda>c. is_lower_char c \<or> is_digit c) in
      s \<noteq> [] \<and> lowdig (hd s) \<and> lowdig (last s) \<and> length s \<le> 63
      \<and> list_all (\<lambda>c. lowdig c \<or> c \<in> set ''_-'') s)"

definition profileScope :: "string \<Rightarrow> bool" where
  "profileScope s \<longleftrightarrow> s = ''root'' \<or> has_prefix ''profile:'' s \<and> profile_slug (drop 8 s)"

definition repoSlug :: "string \<Rightarrow> bool" where
  "repoSlug s \<longleftrightarrow>
     (let parts = split_at (CHR ''/'') s in
      length parts = 2 \<and> list_all (\<lambda>p. p \<noteq> [] \<and> list_all (\<lambda>c. is_alnum c \<or> c \<in> set ''._-'') p) parts)"

definition lower_hex :: "char \<Rightarrow> bool" where
  "lower_hex c \<longleftrightarrow> is_digit c \<or> 97 \<le> byte_of c \<and> byte_of c \<le> 102"

definition objectID :: "string \<Rightarrow> bool" where
  "objectID s \<longleftrightarrow> 40 \<le> length s \<and> length s \<le> 64 \<and> list_all lower_hex s"

definition sha256Hex :: "string \<Rightarrow> bool" where
  "sha256Hex s \<longleftrightarrow> length s = 64 \<and> list_all lower_hex s"

definition validateID :: "string \<Rightarrow> string \<Rightarrow> handoff_error option" where
  "validateID name v = fail_if (\<not> safeID v) (Invalid name)"

definition validateOperatorText :: "string \<Rightarrow> string \<Rightarrow> nat \<Rightarrow> bool \<Rightarrow> handoff_error option" where
  "validateOperatorText name v maxRunes required =
     (let v = trim_space v in
      first_err [fail_if (required \<and> v = []) (Invalid name),
                 fail_if (length (runes_of v) > maxRunes) (Invalid name),
                 fail_if (list_ex is_control (runes_of v)) (Invalid name),
                 fail_if (ContainsCredentialLike v) (Invalid name)])"

definition validateOpaqueRevision :: "string \<Rightarrow> handoff_error option" where
  "validateOpaqueRevision v =
     first_err [fail_if (v = [] \<or> length (runes_of v) > 128) (Invalid ''validation revision''),
                fail_if (list_ex (\<lambda>r. is_control r \<or> is_space r \<or> r \<in> {47, 92, 58, 61}) (runes_of v))
                  (Invalid ''validation revision'')]"

definition validateUTCTime :: "string \<Rightarrow> Time \<Rightarrow> handoff_error option" where
  "validateUTCTime name t = fail_if (time_IsZero t \<or> \<not> tm_UTC t) (Invalid name)"

definition validateGitRef :: "string \<Rightarrow> handoff_error option" where
  "validateGitRef v =
     first_err [fail_if (v = [] \<or> length (runes_of v) > maxRefRunes \<or> has_prefix ''-'' v \<or> has_prefix ''/'' v \<or> has_suffix ''/'' v
                   \<or> has_prefix ''.'' v \<or> has_suffix ''.'' v \<or> contains v ''..'' \<or> contains v ''//'' \<or> contains v [CHR ''@'', CHR ''{'']
                   \<or> contains v [backslash] \<or> has_suffix ''.lock'' v) (Invalid ''branch''),
                fail_if (list_ex (\<lambda>c. c = [] \<or> has_prefix ''.'' c \<or> has_suffix ''.lock'' c) (split_at (CHR ''/'') v))
                  (Invalid ''branch''),
                fail_if (list_ex (\<lambda>r. r \<le> 32 \<or> r = 127 \<or> r \<in> byte_of ` set ''~^:?*['') (runes_of v)) (Invalid ''branch'')]"

section \<open>The manifest\<close>

record SourceSession =
  so_DeviceID :: string
  so_ProfileScope :: string
  so_SessionID :: string

record TargetAgent =
  ta_DeviceID :: string
  ta_Profile :: string

record GoalSummary =
  gs_Text :: string
  gs_Provenance :: string
  gs_UpdatedAt :: Time

record HistoryRef =
  hr_ArtifactID :: string
  hr_Basename :: string
  hr_SHA256 :: string
  hr_SizeBytes :: int
  hr_ConversationID :: string

datatype TransferMode = TransferRemoteBranch | TransferStoredPatch | TransferOther string

datatype RepositoryCleanliness = RepositoryClean | RepositoryDirty | CleanlinessOther string

record StoredPatchRef =
  sp_ArtifactID :: string
  sp_SHA256 :: string
  sp_SizeBytes :: int
  sp_ResultTree :: string

record RepositorySnapshot =
  rs_ProjectSlug :: string
  rs_RepoSlug :: string
  rs_Branch :: string
  rs_SourceHead :: string
  rs_BaseCommit :: string
  rs_TreeDigest :: string
  rs_Cleanliness :: RepositoryCleanliness
  rs_Transfer :: TransferMode
  rs_Patch :: "StoredPatchRef option"

datatype ArtifactKind =
    ArtifactGoal | ArtifactSessionHistory | ArtifactDocument | ArtifactBranch | ArtifactCommit | ArtifactPullRequest
  | ArtifactOther string

record ArtifactRepoRef =
  ar_Repo :: string
  ar_Commit :: string

record ArtifactSessionRef =
  as_ProfileScope :: string
  as_SessionID :: string

record ArtifactRef =
  af_Kind :: ArtifactKind
  af_ID :: string
  af_Repo :: "ArtifactRepoRef option"
  af_Session :: "ArtifactSessionRef option"

datatype ValidationState = ValidationNotRun | ValidationPassed | ValidationFailed | ValidationOther string

record ValidationEvidence =
  ve_State :: ValidationState
  ve_RepositoryRevision :: string
  ve_CompletedAt :: "Time option"

text \<open>\<open>mf_Artifacts\<close> is None for a nil slice, which JSON writes as null.\<close>

record Manifest =
  mf_SchemaVersion :: int
  mf_HandoffID :: string
  mf_TraceID :: string
  mf_ParentHandoffID :: string
  mf_Source :: SourceSession
  mf_SourceAgent :: string
  mf_Target :: TargetAgent
  mf_Goal :: GoalSummary
  mf_History :: HistoryRef
  mf_Repository :: RepositorySnapshot
  mf_Artifacts :: "ArtifactRef list option"
  mf_Validation :: ValidationEvidence
  mf_CreatedAt :: Time

definition SourceSession_validate :: "SourceSession \<Rightarrow> handoff_error option" where
  "SourceSession_validate s =
     first_err [validateID ''device_id'' (so_DeviceID s),
                fail_if (\<not> profileScope (so_ProfileScope s)) (Invalid ''profile_scope''),
                validateID ''session_id'' (so_SessionID s)]"

definition TargetAgent_validate :: "TargetAgent \<Rightarrow> handoff_error option" where
  "TargetAgent_validate t =
     first_err [validateID ''device_id'' (ta_DeviceID t), validateID ''profile'' (ta_Profile t)]"

definition Goal_validate :: "GoalSummary \<Rightarrow> handoff_error option" where
  "Goal_validate g =
     first_err [validateOperatorText ''text'' (gs_Text g) maxGoalRunes True,
                fail_if (gs_Provenance g \<noteq> ''explicit_operator'') (Invalid ''provenance''),
                validateUTCTime ''updated_at'' (gs_UpdatedAt g)]"

definition History_Validate :: "HistoryRef \<Rightarrow> handoff_error option" where
  "History_Validate h =
     first_err [validateID ''artifact_id'' (hr_ArtifactID h),
                fail_if (hr_Basename h = [] \<or> length (runes_of (hr_Basename h)) > 255 \<or> path_base (hr_Basename h) \<noteq> hr_Basename h
                   \<or> hr_Basename h = ''.'' \<or> hr_Basename h = ''..''
                   \<or> list_ex (\<lambda>c. byte_of c \<in> {47, 92, 0, 13, 10}) (hr_Basename h)) (Invalid ''basename''),
                fail_if (\<not> sha256Hex (hr_SHA256 h)) (Invalid ''sha256''),
                fail_if (hr_SizeBytes h \<le> 0 \<or> hr_SizeBytes h > maxHistoryBytes) (Invalid ''size_bytes''),
                (if hr_ConversationID h \<noteq> [] then validateID ''conversation_id'' (hr_ConversationID h) else None)]"

definition Patch_validate :: "StoredPatchRef \<Rightarrow> handoff_error option" where
  "Patch_validate p =
     first_err [validateID ''patch artifact_id'' (sp_ArtifactID p),
                fail_if (\<not> sha256Hex (sp_SHA256 p)) (Invalid ''patch sha256''),
                fail_if (sp_SizeBytes p \<le> 0 \<or> sp_SizeBytes p > maxPatchBytes) (Invalid ''patch size_bytes''),
                fail_if (\<not> objectID (sp_ResultTree p)) (Invalid ''patch result_tree'')]"

definition Repository_validate :: "RepositorySnapshot \<Rightarrow> handoff_error option" where
  "Repository_validate r =
     first_err [validateID ''project_slug'' (rs_ProjectSlug r),
                fail_if (\<not> repoSlug (rs_RepoSlug r) \<or> contains (rs_RepoSlug r) ''..'') (Invalid ''repo_slug''),
                validateGitRef (rs_Branch r),
                fail_if (\<not> objectID (rs_SourceHead r)) (Invalid ''source_head''),
                fail_if (\<not> objectID (rs_BaseCommit r)) (Invalid ''base_commit''),
                fail_if (\<not> objectID (rs_TreeDigest r)) (Invalid ''tree_digest''),
                (case rs_Cleanliness r of CleanlinessOther _ \<Rightarrow> Some (Invalid ''cleanliness'') | _ \<Rightarrow> None),
                (case rs_Transfer r of
                   TransferRemoteBranch \<Rightarrow>
                     first_err [fail_if (rs_Patch r \<noteq> None) (Invalid ''patch''),
                                fail_if (rs_Cleanliness r \<noteq> RepositoryClean) (Invalid ''cleanliness'')]
                 | TransferStoredPatch \<Rightarrow>
                     (case rs_Patch r of
                        None \<Rightarrow> Some (Invalid ''patch'')
                      | Some p \<Rightarrow> first_err [Patch_validate p,
                          fail_if (sp_ResultTree p \<noteq> rs_TreeDigest r) (Invalid ''result_tree'')])
                 | TransferOther _ \<Rightarrow> Some (Invalid ''transfer''))]"

definition ArtifactRef_validate :: "ArtifactRef \<Rightarrow> handoff_error option" where
  "ArtifactRef_validate a =
     first_err [(case af_Kind a of ArtifactOther _ \<Rightarrow> Some (Invalid ''kind'') | _ \<Rightarrow> None),
                validateID ''id'' (af_ID a),
                (case af_Repo a of
                   None \<Rightarrow> None
                 | Some r \<Rightarrow> first_err [fail_if (\<not> repoSlug (ar_Repo r) \<or> contains (ar_Repo r) ''..'') (Invalid ''artifact repo''),
                     fail_if (ar_Commit r \<noteq> [] \<and> \<not> objectID (ar_Commit r)) (Invalid ''artifact repo commit'')]),
                (case af_Session a of
                   None \<Rightarrow> None
                 | Some s \<Rightarrow> first_err [fail_if (\<not> profileScope (as_ProfileScope s)) (Invalid ''artifact profile_scope''),
                     validateID ''artifact session_id'' (as_SessionID s)])]"

text \<open>The artifact loop: each is valid and differs from all before it.\<close>

fun artifacts_validate :: "(ArtifactKind \<times> string) list \<Rightarrow> ArtifactRef list \<Rightarrow> handoff_error option" where
  "artifacts_validate seen [] = None"
| "artifacts_validate seen (a # rest) =
     first_err [ArtifactRef_validate a,
                fail_if ((af_Kind a, af_ID a) \<in> set seen) (Invalid ''duplicate artifact''),
                artifacts_validate ((af_Kind a, af_ID a) # seen) rest]"

definition Validation_validate :: "ValidationEvidence \<Rightarrow> RepositorySnapshot \<Rightarrow> handoff_error option" where
  "Validation_validate v repository =
     (case ve_State v of
        ValidationNotRun \<Rightarrow> fail_if (ve_RepositoryRevision v \<noteq> [] \<or> ve_CompletedAt v \<noteq> None) (Invalid ''validation'')
      | ValidationOther _ \<Rightarrow> Some (Invalid ''validation state'')
      | _ \<Rightarrow>
          (case validateOpaqueRevision (ve_RepositoryRevision v) of
             Some e \<Rightarrow> Some e
           | None \<Rightarrow>
               (case (rs_Transfer repository, rs_Patch repository) of
                  (TransferStoredPatch, None) \<Rightarrow> Some (Invalid ''stored_patch validation'')
                | (TransferStoredPatch, Some p) \<Rightarrow>
                    first_err [fail_if (sp_ResultTree p \<noteq> rs_TreeDigest repository) (Invalid ''validation revision''),
                               fail_if (ve_RepositoryRevision v \<noteq> sp_ResultTree p) (Invalid ''validation revision''),
                               (case ve_CompletedAt v of None \<Rightarrow> Some (Invalid ''completed_at'')
                                | Some t \<Rightarrow> validateUTCTime ''completed_at'' t)]
                | _ \<Rightarrow>
                    first_err [fail_if (ve_RepositoryRevision v \<noteq> rs_SourceHead repository) (Invalid ''validation revision''),
                               (case ve_CompletedAt v of None \<Rightarrow> Some (Invalid ''completed_at'')
                                | Some t \<Rightarrow> validateUTCTime ''completed_at'' t)])))"

definition Manifest_Validate :: "Manifest \<Rightarrow> handoff_error option" where
  "Manifest_Validate m =
     first_err [fail_if (mf_SchemaVersion m \<noteq> ManifestVersion) (Invalid ''schema_version''),
                validateID ''handoff_id'' (mf_HandoffID m),
                validateID ''trace_id'' (mf_TraceID m),
                (if mf_ParentHandoffID m \<noteq> []
                 then first_err [validateID ''parent_handoff_id'' (mf_ParentHandoffID m),
                        fail_if (mf_ParentHandoffID m = mf_HandoffID m) (Invalid ''parent_handoff_id'')] else None),
                SourceSession_validate (mf_Source m),
                validateID ''source_agent'' (mf_SourceAgent m),
                TargetAgent_validate (mf_Target m),
                fail_if (so_DeviceID (mf_Source m) = ta_DeviceID (mf_Target m)) (Invalid ''devices''),
                Goal_validate (mf_Goal m),
                History_Validate (mf_History m),
                Repository_validate (mf_Repository m),
                (case mf_Artifacts m of
                   None \<Rightarrow> Some (Invalid ''artifacts'')
                 | Some as \<Rightarrow> first_err [fail_if (length as > maxArtifacts) (Invalid ''artifacts''), artifacts_validate [] as]),
                Validation_validate (mf_Validation m) (mf_Repository m),
                validateUTCTime ''created_at'' (mf_CreatedAt m)]"

record hlib =
  hl_json :: "Manifest \<Rightarrow> string"
  hl_sha256 :: "string \<Rightarrow> string"

definition Manifest_Digest :: "hlib \<Rightarrow> Manifest \<Rightarrow> handoff_error + string" where
  "Manifest_Digest lib m = check_res (Manifest_Validate m) (Inr (hl_sha256 lib (hl_json lib m)))"

end
