(* ===== verification/Handoff_Store.thy ===== *)
theory Handoff_Store
  imports Handoff_Manifest
begin

text \<open>
  The durable handoff records (\<open>internal/handoff/record.go\<close>) and their store (\<open>store.go\<close>). A record is
  changed only by operations that name the revision they expect; each runs under the store's
  mutex, so it is one step on the state below: the two directories of record files, by base name,
  and the clock.

  \<open>writeJSONFile\<close> renames a temporary file over the record and then may still fail (the final chmod
  and the directory sync), so a write has three outcomes, chosen by \<open>ho_faults\<close>. Text fields are read
  back with invalid bytes replaced (\<open>stored\<close> below).
\<close>

definition RecordVersion :: int where "RecordVersion = 1"

datatype SourceState =
    SourceQueued | SourcePreparingRemote | SourceRemotePrepared | SourceLaunchingRemote | SourceAccepted
  | SourceRetryWait | SourceLaunchRetryWait | SourceFailed | SourceOther string

datatype TargetState =
    TargetReceived | TargetValidating | TargetPrepared | TargetWaitingAssets | TargetLaunching
  | TargetLaunchWaitingAssets | TargetAccepted | TargetRejected | TargetOther string

datatype FailureCode =
    FailureUnavailable | FailureUnauthorized | FailureInvalidManifest | FailureConflict | FailureMissingAsset
  | FailureVerification | FailureLaunch | FailureInternal | FailureOther string

record Failure =
  fl_Code :: FailureCode
  fl_Message :: string
  fl_Retryable :: bool
  fl_At :: Time

record TargetLocator =
  tl_DeviceID :: string
  tl_ProfileScope :: string
  tl_SessionID :: string

datatype AcknowledgementPhase = ContextLoadedPhase | PhaseOther string

record ContextAcknowledgement =
  ca_Phase :: AcknowledgementPhase
  ca_ManifestDigest :: string
  ca_TargetLocator :: TargetLocator
  ca_AcknowledgedAt :: Time

datatype RetirementMode = RetirementImmediate | RetirementAfterTurnEnd | ModeOther string

datatype RetirementState = RetirementPending | RetirementRetired | RetirementOther string

record TurnObservation =
  to_TurnCount :: int
  to_LastTurnEndAt :: "Time option"

record SourceRetirement =
  sr_Mode :: RetirementMode
  sr_State :: RetirementState
  sr_RequestedAt :: Time
  sr_TimeoutSeconds :: int
  sr_BaselineTurnCount :: int
  sr_BaselineLastTurnEndAt :: "Time option"
  sr_RetiredAt :: "Time option"

record SourceRecord =
  src_Version :: int
  src_Manifest :: Manifest
  src_Digest :: string
  src_State :: SourceState
  src_Attempts :: "32 word"
  src_NextRetry :: "Time option"
  src_Failure :: "Failure option"
  src_TargetLocator :: "TargetLocator option"
  src_ContextLoaded :: "ContextAcknowledgement option"
  src_Retirement :: "SourceRetirement option"
  src_Revision :: u64
  src_Updated :: Time

record TargetRecord =
  tgt_Version :: int
  tgt_Manifest :: Manifest
  tgt_Digest :: string
  tgt_State :: TargetState
  tgt_Attempts :: "32 word"
  tgt_NextRetry :: "Time option"
  tgt_Failure :: "Failure option"
  tgt_TargetLocator :: "TargetLocator option"
  tgt_ContextLoaded :: "ContextAcknowledgement option"
  tgt_Revision :: u64
  tgt_Updated :: Time

record Transition =
  tr_At :: Time
  tr_NextRetry :: "Time option"
  tr_Failure :: "Failure option"
  tr_TargetLocator :: "TargetLocator option"

section \<open>Validation\<close>

definition Locator_validate :: "TargetLocator \<Rightarrow> handoff_error option" where
  "Locator_validate l =
     first_err [validateID ''target locator device_id'' (tl_DeviceID l),
                fail_if (\<not> profileScope (tl_ProfileScope l)) (Invalid ''target locator profile_scope''),
                validateID ''target locator session_id'' (tl_SessionID l)]"

definition Failure_validate :: "Failure \<Rightarrow> handoff_error option" where
  "Failure_validate f =
     first_err [(case fl_Code f of FailureOther _ \<Rightarrow> Some (Invalid ''failure code'') | _ \<Rightarrow> None),
                fail_if (length (runes_of (fl_Message f)) > 256 \<or> list_ex (\<lambda>c. byte_of c \<in> {13, 10, 0}) (fl_Message f))
                  (Invalid ''failure detail''),
                fail_if (time_IsZero (fl_At f) \<or> \<not> tm_UTC (fl_At f)) (Invalid ''failure timestamp'')]"

definition Acknowledgement_validate :: "ContextAcknowledgement \<Rightarrow> string \<Rightarrow> TargetLocator \<Rightarrow> handoff_error option" where
  "Acknowledgement_validate a digest locator =
     first_err [fail_if (ca_Phase a \<noteq> ContextLoadedPhase) (Invalid ''acknowledgement phase''),
                fail_if (ca_ManifestDigest a \<noteq> digest \<or> ca_TargetLocator a \<noteq> locator) (Invalid ''acknowledgement identity''),
                fail_if (time_IsZero (ca_AcknowledgedAt a) \<or> \<not> tm_UTC (ca_AcknowledgedAt a)) (Invalid ''acknowledgement timestamp''),
                Locator_validate (ca_TargetLocator a)]"

definition Retirement_validate :: "SourceRetirement \<Rightarrow> handoff_error option" where
  "Retirement_validate r =
     first_err [(case sr_Mode r of ModeOther _ \<Rightarrow> Some (Invalid ''retirement mode'') | _ \<Rightarrow> None),
                (case sr_State r of RetirementOther _ \<Rightarrow> Some (Invalid ''retirement state'') | _ \<Rightarrow> None),
                fail_if (time_IsZero (sr_RequestedAt r) \<or> \<not> tm_UTC (sr_RequestedAt r)) (Invalid ''retirement requested_at''),
                fail_if (sr_TimeoutSeconds r < 1 \<or> sr_TimeoutSeconds r > 300) (Invalid ''retirement timeout_seconds''),
                fail_if (sr_BaselineTurnCount r < 0) (Invalid ''retirement baseline turn count''),
                (case sr_BaselineLastTurnEndAt r of
                   None \<Rightarrow> None
                 | Some t \<Rightarrow> fail_if (time_IsZero t \<or> \<not> tm_UTC t) (Invalid ''retirement baseline turn end'')),
                fail_if (sr_State r = RetirementPending \<and> sr_RetiredAt r \<noteq> None) (Invalid ''retired_at''),
                (if sr_State r = RetirementRetired
                 then (case sr_RetiredAt r of
                         None \<Rightarrow> Some (Invalid ''retired_at'')
                       | Some t \<Rightarrow> fail_if (time_IsZero t \<or> \<not> tm_UTC t \<or> time_Before t (sr_RequestedAt r)) (Invalid ''retired_at''))
                 else None)]"

definition validateStoredManifest :: "hlib \<Rightarrow> Manifest \<Rightarrow> string \<Rightarrow> handoff_error option" where
  "validateStoredManifest lib m digest =
     (case Manifest_Digest lib m of
        Inl e \<Rightarrow> Some e
      | Inr got \<Rightarrow> fail_if (digest \<noteq> got) (Invalid ''stored manifest digest''))"

definition validateRecordFields ::
  "TargetAgent \<Rightarrow> Time option \<Rightarrow> Failure option \<Rightarrow> TargetLocator option \<Rightarrow> u64 \<Rightarrow> Time \<Rightarrow>
   bool \<Rightarrow> bool \<Rightarrow> bool \<Rightarrow> bool \<Rightarrow> handoff_error option" where
  "validateRecordFields target nextRetry failure locator revision updated retry terminalFailure locatorAllowed locatorRequired =
     first_err [fail_if (revision = 0) (Invalid ''revision''),
                fail_if (time_IsZero updated \<or> \<not> tm_UTC updated) (Invalid ''updated''),
                (if retry then
                   first_err [(case nextRetry of None \<Rightarrow> Some (Invalid ''next_retry'')
                               | Some t \<Rightarrow> fail_if (\<not> time_Before updated t \<or> \<not> tm_UTC t) (Invalid ''next_retry'')),
                              (case failure of None \<Rightarrow> Some (Invalid ''failure'')
                               | Some f \<Rightarrow> fail_if (\<not> fl_Retryable f) (Invalid ''failure''))]
                 else fail_if (nextRetry \<noteq> None) (Invalid ''next_retry'')),
                fail_if (terminalFailure \<and> failure = None) (Invalid ''failure''),
                fail_if (\<not> retry \<and> \<not> terminalFailure \<and> failure \<noteq> None) (Invalid ''failure''),
                (case failure of None \<Rightarrow> None
                 | Some f \<Rightarrow> first_err [Failure_validate f, fail_if (time_Before updated (fl_At f)) (Invalid ''failure timestamp'')]),
                fail_if (locatorRequired \<and> locator = None) (Invalid ''target locator''),
                (case locator of None \<Rightarrow> None
                 | Some l \<Rightarrow> first_err [fail_if (\<not> locatorAllowed) (Invalid ''target locator''), Locator_validate l,
                     fail_if (tl_DeviceID l \<noteq> ta_DeviceID target) (Invalid ''target locator device'')])]"

definition validSourceState :: "SourceState \<Rightarrow> bool" where
  "validSourceState st = (case st of SourceOther _ \<Rightarrow> False | _ \<Rightarrow> True)"

definition validTargetState :: "TargetState \<Rightarrow> bool" where
  "validTargetState st = (case st of TargetOther _ \<Rightarrow> False | _ \<Rightarrow> True)"

definition SourceRecord_validate :: "hlib \<Rightarrow> SourceRecord \<Rightarrow> handoff_error option" where
  "SourceRecord_validate lib r =
     first_err [fail_if (src_Version r \<noteq> RecordVersion) (Invalid ''source record version''),
                validateStoredManifest lib (src_Manifest r) (src_Digest r),
                fail_if (\<not> validSourceState (src_State r)) (Invalid ''source state''),
                validateRecordFields (mf_Target (src_Manifest r)) (src_NextRetry r) (src_Failure r) (src_TargetLocator r)
                  (src_Revision r) (src_Updated r)
                  (src_State r = SourceRetryWait \<or> src_State r = SourceLaunchRetryWait)
                  (src_State r = SourceFailed) (src_State r = SourceAccepted) (src_State r = SourceAccepted),
                (case src_ContextLoaded r of None \<Rightarrow> None
                 | Some a \<Rightarrow>
                     (case src_TargetLocator r of
                        None \<Rightarrow> Some (Invalid ''context-loaded source proof'')
                      | Some l \<Rightarrow> first_err [fail_if (src_State r \<noteq> SourceAccepted) (Invalid ''context-loaded source proof''),
                          Acknowledgement_validate a (src_Digest r) l])),
                (case src_Retirement r of None \<Rightarrow> None
                 | Some x \<Rightarrow> first_err [fail_if (src_State r \<noteq> SourceAccepted \<or> src_ContextLoaded r = None) (Invalid ''source retirement''),
                     Retirement_validate x])]"

definition TargetRecord_validate :: "hlib \<Rightarrow> TargetRecord \<Rightarrow> handoff_error option" where
  "TargetRecord_validate lib r =
     first_err [fail_if (tgt_Version r \<noteq> RecordVersion) (Invalid ''target record version''),
                validateStoredManifest lib (tgt_Manifest r) (tgt_Digest r),
                fail_if (\<not> validTargetState (tgt_State r)) (Invalid ''target state''),
                validateRecordFields (mf_Target (tgt_Manifest r)) (tgt_NextRetry r) (tgt_Failure r) (tgt_TargetLocator r)
                  (tgt_Revision r) (tgt_Updated r)
                  (tgt_State r = TargetWaitingAssets \<or> tgt_State r = TargetLaunchWaitingAssets)
                  (tgt_State r = TargetRejected)
                  (tgt_State r = TargetLaunching \<or> tgt_State r = TargetLaunchWaitingAssets \<or> tgt_State r = TargetAccepted)
                  (tgt_State r = TargetAccepted),
                (case tgt_ContextLoaded r of None \<Rightarrow> None
                 | Some a \<Rightarrow>
                     (case tgt_TargetLocator r of
                        None \<Rightarrow> Some (Invalid ''context-loaded target proof'')
                      | Some l \<Rightarrow> first_err [fail_if (tgt_State r \<noteq> TargetAccepted) (Invalid ''context-loaded target proof''),
                          Acknowledgement_validate a (tgt_Digest r) l]))]"

section \<open>The state machines\<close>

definition legalSourceTransition :: "SourceState \<Rightarrow> SourceState \<Rightarrow> bool" where
  "legalSourceTransition from to_state =
     (case from of
        SourceQueued \<Rightarrow> to_state = SourcePreparingRemote \<or> to_state = SourceFailed
      | SourcePreparingRemote \<Rightarrow> to_state = SourceRemotePrepared \<or> to_state = SourceRetryWait \<or> to_state = SourceFailed
      | SourceRemotePrepared \<Rightarrow> to_state = SourceLaunchingRemote \<or> to_state = SourceRetryWait \<or> to_state = SourceFailed
      | SourceLaunchingRemote \<Rightarrow> to_state = SourceAccepted \<or> to_state = SourceLaunchRetryWait \<or> to_state = SourceFailed
      | SourceRetryWait \<Rightarrow> to_state = SourcePreparingRemote \<or> to_state = SourceFailed
      | SourceLaunchRetryWait \<Rightarrow> to_state = SourceLaunchingRemote \<or> to_state = SourceFailed
      | _ \<Rightarrow> False)"

definition legalTargetTransition :: "TargetState \<Rightarrow> TargetState \<Rightarrow> bool" where
  "legalTargetTransition from to_state =
     (case from of
        TargetReceived \<Rightarrow> to_state = TargetValidating \<or> to_state = TargetRejected
      | TargetValidating \<Rightarrow> to_state = TargetPrepared \<or> to_state = TargetWaitingAssets \<or> to_state = TargetRejected
      | TargetWaitingAssets \<Rightarrow> to_state = TargetValidating \<or> to_state = TargetRejected
      | TargetPrepared \<Rightarrow> to_state = TargetLaunching \<or> to_state = TargetRejected
      | TargetLaunching \<Rightarrow> to_state = TargetAccepted \<or> to_state = TargetLaunchWaitingAssets \<or> to_state = TargetRejected
      | TargetLaunchWaitingAssets \<Rightarrow> to_state = TargetLaunching \<or> to_state = TargetRejected
      | _ \<Rightarrow> False)"


section \<open>The store\<close>

datatype dir_state = DirPrivate | DirTooOpen | DirBad

datatype write_fault = WriteOK | FailsBefore | FailsAfter

record hstore =
  ho_source :: "(string \<times> SourceRecord fnode) list"
  ho_target :: "(string \<times> TargetRecord fnode) list"
  ho_source_dir :: dir_state
  ho_target_dir :: dir_state
  ho_now :: time
  ho_faults :: "write_fault list"

type_synonym 'a hop = "(hstore, handoff_error, 'a) op"

definition manifest_stored :: "Manifest \<Rightarrow> Manifest" where
  "manifest_stored m =
     m\<lparr>mf_Goal := (mf_Goal m)\<lparr>gs_Text := to_valid_utf8 (gs_Text (mf_Goal m))\<rparr>,
       mf_History := (mf_History m)\<lparr>hr_Basename := to_valid_utf8 (hr_Basename (mf_History m))\<rparr>,
       mf_Repository := (mf_Repository m)\<lparr>rs_Branch := to_valid_utf8 (rs_Branch (mf_Repository m))\<rparr>\<rparr>"

definition failure_stored :: "Failure \<Rightarrow> Failure" where
  "failure_stored f = f\<lparr>fl_Message := to_valid_utf8 (fl_Message f)\<rparr>"

definition source_stored :: "SourceRecord \<Rightarrow> SourceRecord" where
  "source_stored r = r\<lparr>src_Manifest := manifest_stored (src_Manifest r), src_Failure := map_option failure_stored (src_Failure r)\<rparr>"

definition target_stored :: "TargetRecord \<Rightarrow> TargetRecord" where
  "target_stored r = r\<lparr>tgt_Manifest := manifest_stored (tgt_Manifest r), tgt_Failure := map_option failure_stored (tgt_Failure r)\<rparr>"

definition utc_now :: "hstore \<Rightarrow> Time" where
  "utc_now s = \<lparr>tm_at = ho_now s, tm_UTC = True\<rparr>"

text \<open>A record's file within its side's directory.\<close>

definition recordPath :: "string \<Rightarrow> handoff_error + string" where
  "recordPath rid =
     check_res (validateID ''handoff id'' rid)
       (if unsafe_segment (rid @ ''.json'') then Inl (Invalid ''unsafe handoff state path segment'') else Inr (rid @ ''.json''))"

definition readJSONFile :: "(string \<times> 'a fnode) list \<Rightarrow> string \<Rightarrow> handoff_error + 'a" where
  "readJSONFile d name =
     (case map_of d name of
        None \<Rightarrow> Inl ErrNotFound
      | Some (File x) \<Rightarrow> Inr x
      | Some Undecodable \<Rightarrow> Inl (IOFailure ''decode'')
      | Some TooOpen \<Rightarrow> Inl (IOFailure ''permissions'')
      | Some NotRegular \<Rightarrow> Inl (IOFailure ''not regular''))"

definition verifyPrivateDir :: "dir_state \<Rightarrow> handoff_error option" where
  "verifyPrivateDir d = fail_if (d \<noteq> DirPrivate) (IOFailure ''directory'')"

text \<open>
  One write: the directory is made private first, a non-regular file is never replaced, and a fault
  hits before or after the rename.
\<close>

definition writeJSONFile ::
  "(hstore \<Rightarrow> dir_state) \<Rightarrow> (hstore \<Rightarrow> hstore) \<Rightarrow> (hstore \<Rightarrow> (string \<times> 'a fnode) list) \<Rightarrow>
   (((string \<times> 'a fnode) list \<Rightarrow> (string \<times> 'a fnode) list) \<Rightarrow> hstore \<Rightarrow> hstore) \<Rightarrow> string \<Rightarrow> 'a \<Rightarrow> unit hop" where
  "writeJSONFile dir repair get upd name doc s =
     (if dir s = DirBad then (s, Inl (IOFailure ''directory''))
      else
        let s = repair s;
            (fault, s) = (case ho_faults s of [] \<Rightarrow> (WriteOK, s) | f # fs \<Rightarrow> (f, s\<lparr>ho_faults := fs\<rparr>))
        in if map_of (get s) name = Some NotRegular then (s, Inl (IOFailure ''not regular''))
           else case fault of
                  WriteOK \<Rightarrow> (upd (AList.update name (File doc)) s, Inr ())
                | FailsBefore \<Rightarrow> (s, Inl (IOFailure ''write''))
                | FailsAfter \<Rightarrow> (upd (AList.update name (File doc)) s, Inl (IOFailure ''sync'')))"

definition write_source :: "string \<Rightarrow> SourceRecord \<Rightarrow> unit hop" where
  "write_source name r =
     writeJSONFile ho_source_dir (\<lambda>s. s\<lparr>ho_source_dir := DirPrivate\<rparr>) ho_source ho_source_update name (source_stored r)"

definition write_target :: "string \<Rightarrow> TargetRecord \<Rightarrow> unit hop" where
  "write_target name r =
     writeJSONFile ho_target_dir (\<lambda>s. s\<lparr>ho_target_dir := DirPrivate\<rparr>) ho_target ho_target_update name (target_stored r)"

definition Source_validatePath :: "hlib \<Rightarrow> SourceRecord \<Rightarrow> string \<Rightarrow> handoff_error option" where
  "Source_validatePath lib r name =
     first_err [SourceRecord_validate lib r,
                fail_if (recordPath (mf_HandoffID (src_Manifest r)) \<noteq> Inr name) (Invalid ''source record/path mismatch'')]"

definition Target_validatePath :: "hlib \<Rightarrow> TargetRecord \<Rightarrow> string \<Rightarrow> handoff_error option" where
  "Target_validatePath lib r name =
     first_err [TargetRecord_validate lib r,
                fail_if (recordPath (mf_HandoffID (tgt_Manifest r)) \<noteq> Inr name) (Invalid ''target record/path mismatch'')]"

definition getSourceLocked :: "hlib \<Rightarrow> hstore \<Rightarrow> string \<Rightarrow> handoff_error + SourceRecord" where
  "getSourceLocked lib s rid =
     bind_res (recordPath rid) (\<lambda>file.
     check_res (verifyPrivateDir (ho_source_dir s))
     (bind_res (readJSONFile (ho_source s) file) (\<lambda>r.
     check_res (Source_validatePath lib r file) (Inr r))))"

definition getTargetLocked :: "hlib \<Rightarrow> hstore \<Rightarrow> string \<Rightarrow> handoff_error + TargetRecord" where
  "getTargetLocked lib s rid =
     bind_res (recordPath rid) (\<lambda>file.
     check_res (verifyPrivateDir (ho_target_dir s))
     (bind_res (readJSONFile (ho_target s) file) (\<lambda>r.
     check_res (Target_validatePath lib r file) (Inr r))))"

definition GetSource :: "hlib \<Rightarrow> string \<Rightarrow> hstore \<Rightarrow> handoff_error + SourceRecord" where
  "GetSource lib rid s = check_res (validateID ''handoff id'' rid) (getSourceLocked lib s rid)"

definition GetTarget :: "hlib \<Rightarrow> string \<Rightarrow> hstore \<Rightarrow> handoff_error + TargetRecord" where
  "GetTarget lib rid s = check_res (validateID ''handoff id'' rid) (getTargetLocked lib s rid)"

definition isGeneratedHandoffTemp :: "string \<Rightarrow> bool" where
  "isGeneratedHandoffTemp name \<longleftrightarrow>
     has_prefix ''.handoff-'' name \<and> has_suffix ''.tmp'' name
     \<and> (let middle = drop 9 name; random = (if has_suffix ''.tmp'' middle then take (length middle - 4) middle else middle)
        in random \<noteq> [] \<and> list_all (\<lambda>r. 48 \<le> r \<and> r \<le> 57) (runes_of random))"

fun record_files :: "(string \<times> 'a fnode) list \<Rightarrow> handoff_error + string list" where
  "record_files [] = Inr []"
| "record_files ((name, node) # d) =
     (if isGeneratedHandoffTemp name then
        if node = NotRegular \<or> node = TooOpen then Inl (IOFailure ''unsafe handoff crash temp'') else record_files d
      else if node = NotRegular \<or> \<not> has_suffix ''.json'' name then Inl (IOFailure ''unexpected handoff state entry'')
      else bind_res (record_files d) (\<lambda>names. Inr (name # names)))"

definition recordFiles :: "dir_state \<Rightarrow> (string \<times> 'a fnode) list \<Rightarrow> handoff_error + string list" where
  "recordFiles dir d = check_res (verifyPrivateDir dir) (record_files (sort_key fst d))"

definition ListSource :: "hlib \<Rightarrow> hstore \<Rightarrow> handoff_error + SourceRecord list" where
  "ListSource lib s =
     bind_res (recordFiles (ho_source_dir s) (ho_source s))
       (map_res (\<lambda>file. bind_res (readJSONFile (ho_source s) file) (\<lambda>r. check_res (Source_validatePath lib r file) (Inr r))))"

definition ListTarget :: "hlib \<Rightarrow> hstore \<Rightarrow> handoff_error + TargetRecord list" where
  "ListTarget lib s =
     bind_res (recordFiles (ho_target_dir s) (ho_target s))
       (map_res (\<lambda>file. bind_res (readJSONFile (ho_target s) file) (\<lambda>r. check_res (Target_validatePath lib r file) (Inr r))))"

definition due :: "Time option \<Rightarrow> Time \<Rightarrow> bool" where
  "due nextRetry tm = (case nextRetry of None \<Rightarrow> False | Some t \<Rightarrow> \<not> time_Before tm t)"

definition DueSource :: "hlib \<Rightarrow> Time \<Rightarrow> hstore \<Rightarrow> handoff_error + SourceRecord list" where
  "DueSource lib tm s =
     check_res (fail_if (time_IsZero tm) (Invalid ''due time''))
       (bind_res (ListSource lib s) (\<lambda>rs.
          Inr (filter (\<lambda>r. (src_State r = SourceRetryWait \<or> src_State r = SourceLaunchRetryWait) \<and> due (src_NextRetry r) tm) rs)))"

definition DueTarget :: "hlib \<Rightarrow> Time \<Rightarrow> hstore \<Rightarrow> handoff_error + TargetRecord list" where
  "DueTarget lib tm s =
     check_res (fail_if (time_IsZero tm) (Invalid ''due time''))
       (bind_res (ListTarget lib s) (\<lambda>rs.
          Inr (filter (\<lambda>r. (tgt_State r = TargetWaitingAssets \<or> tgt_State r = TargetLaunchWaitingAssets) \<and> due (tgt_NextRetry r) tm) rs)))"

definition source_runnable :: "Time \<Rightarrow> SourceRecord \<Rightarrow> bool" where
  "source_runnable tm r =
     (case src_State r of
        SourceQueued \<Rightarrow> True | SourcePreparingRemote \<Rightarrow> True | SourceLaunchingRemote \<Rightarrow> True
      | SourceRetryWait \<Rightarrow> due (src_NextRetry r) tm | SourceLaunchRetryWait \<Rightarrow> due (src_NextRetry r) tm
      | SourceAccepted \<Rightarrow> (case src_Retirement r of None \<Rightarrow> False | Some x \<Rightarrow> sr_State x = RetirementPending)
      | _ \<Rightarrow> False)"

definition RunnableSource :: "hlib \<Rightarrow> Time \<Rightarrow> hstore \<Rightarrow> handoff_error + SourceRecord list" where
  "RunnableSource lib tm s =
     check_res (fail_if (time_IsZero tm) (Invalid ''runnable time''))
       (bind_res (ListSource lib s) (\<lambda>rs. Inr (filter (source_runnable tm) rs)))"

definition target_recoverable :: "Time \<Rightarrow> TargetRecord \<Rightarrow> bool" where
  "target_recoverable tm r =
     (case tgt_State r of
        TargetReceived \<Rightarrow> True | TargetValidating \<Rightarrow> True | TargetLaunching \<Rightarrow> True
      | TargetWaitingAssets \<Rightarrow> due (tgt_NextRetry r) tm | TargetLaunchWaitingAssets \<Rightarrow> due (tgt_NextRetry r) tm
      | _ \<Rightarrow> False)"

definition RecoverableTarget :: "hlib \<Rightarrow> Time \<Rightarrow> hstore \<Rightarrow> handoff_error + TargetRecord list" where
  "RecoverableTarget lib tm s =
     check_res (fail_if (time_IsZero tm) (Invalid ''recovery time''))
       (bind_res (ListTarget lib s) (\<lambda>rs. Inr (filter (target_recoverable tm) rs)))"


section \<open>Changing a record\<close>

text \<open>The time of a change: the caller's, or the clock's where that is zero; it is UTC and not before the record.\<close>

definition change_time :: "hstore \<Rightarrow> Time \<Rightarrow> Time" where
  "change_time s tm = (if time_IsZero tm then utc_now s else tm)"

definition bad_change_time :: "Time \<Rightarrow> Time \<Rightarrow> bool" where
  "bad_change_time tm updated \<longleftrightarrow> \<not> tm_UTC tm \<or> time_Before tm updated"

text \<open>The common end of every change: validate the record, write it, return it.\<close>

definition save_source :: "hlib \<Rightarrow> string \<Rightarrow> SourceRecord \<Rightarrow> 'a \<Rightarrow> 'a hop" where
  "save_source lib rid r result s =
     (case check_res (SourceRecord_validate lib r) (recordPath rid) of
        Inl e \<Rightarrow> (s, Inl e)
      | Inr file \<Rightarrow>
          (case write_source file r s of
             (s', Inl e) \<Rightarrow> (s', Inl e)
           | (s', Inr _) \<Rightarrow> (s', Inr result)))"

definition save_target :: "hlib \<Rightarrow> string \<Rightarrow> TargetRecord \<Rightarrow> 'a \<Rightarrow> 'a hop" where
  "save_target lib rid r result s =
     (case check_res (TargetRecord_validate lib r) (recordPath rid) of
        Inl e \<Rightarrow> (s, Inl e)
      | Inr file \<Rightarrow>
          (case write_target file r s of
             (s', Inl e) \<Rightarrow> (s', Inl e)
           | (s', Inr _) \<Rightarrow> (s', Inr result)))"

definition QueueSource :: "hlib \<Rightarrow> Manifest \<Rightarrow> (SourceRecord \<times> bool) hop" where
  "QueueSource lib m s =
     (case bind_res (Manifest_Digest lib m) (\<lambda>digest. bind_res (recordPath (mf_HandoffID m)) (\<lambda>file. Inr (digest, file))) of
        Inl e \<Rightarrow> (s, Inl e)
      | Inr (digest, file) \<Rightarrow>
          (case readJSONFile (ho_source s) file of
             Inr existing \<Rightarrow>
               (case SourceRecord_validate lib existing of
                  Some e \<Rightarrow> (s, Inl e)
                | None \<Rightarrow>
                    if mf_HandoffID (src_Manifest existing) \<noteq> mf_HandoffID m \<or> src_Digest existing \<noteq> digest
                    then (s, Inl ErrManifestConflict)
                    else (s, Inr (existing, True)))
           | Inl e \<Rightarrow>
               if e \<noteq> ErrNotFound then (s, Inl e)
               else
                 let r = \<lparr>src_Version = RecordVersion, src_Manifest = m, src_Digest = digest, src_State = SourceQueued,
                          src_Attempts = 0, src_NextRetry = None, src_Failure = None, src_TargetLocator = None,
                          src_ContextLoaded = None, src_Retirement = None, src_Revision = 1, src_Updated = utc_now s\<rparr>
                 in save_source lib (mf_HandoffID m) r (r, False) s))"

definition ReceiveTarget :: "hlib \<Rightarrow> Manifest \<Rightarrow> (TargetRecord \<times> bool) hop" where
  "ReceiveTarget lib m s =
     (case bind_res (Manifest_Digest lib m) (\<lambda>digest. bind_res (recordPath (mf_HandoffID m)) (\<lambda>file. Inr (digest, file))) of
        Inl e \<Rightarrow> (s, Inl e)
      | Inr (digest, file) \<Rightarrow>
          (case readJSONFile (ho_target s) file of
             Inr existing \<Rightarrow>
               (case TargetRecord_validate lib existing of
                  Some e \<Rightarrow> (s, Inl e)
                | None \<Rightarrow>
                    if mf_HandoffID (tgt_Manifest existing) \<noteq> mf_HandoffID m \<or> tgt_Digest existing \<noteq> digest
                    then (s, Inl ErrManifestConflict)
                    else (s, Inr (existing, True)))
           | Inl e \<Rightarrow>
               if e \<noteq> ErrNotFound then (s, Inl e)
               else
                 let r = \<lparr>tgt_Version = RecordVersion, tgt_Manifest = m, tgt_Digest = digest, tgt_State = TargetReceived,
                          tgt_Attempts = 0, tgt_NextRetry = None, tgt_Failure = None, tgt_TargetLocator = None,
                          tgt_ContextLoaded = None, tgt_Revision = 1, tgt_Updated = utc_now s\<rparr>
                 in save_target lib (mf_HandoffID m) r (r, False) s))"

text \<open>
  \<open>applyTransition\<close> on the three fields it is given; the first two are cleared unless the next state
  takes them, and the locator survives only where the next state allows one.
\<close>

definition applyTransition ::
  "TargetLocator option \<Rightarrow> Transition \<Rightarrow> bool \<Rightarrow> bool \<Rightarrow> bool \<Rightarrow>
   handoff_error + (Time option \<times> Failure option \<times> TargetLocator option)" where
  "applyTransition locator tr retry terminalFailure locatorAllowed =
     (if tr_TargetLocator tr \<noteq> None \<and> \<not> locatorAllowed then Inl (Invalid ''target locator is not allowed'')
      else Inr (if retry then tr_NextRetry tr else None,
                if retry \<or> terminalFailure then tr_Failure tr else None,
                if \<not> locatorAllowed then None
                else (case tr_TargetLocator tr of None \<Rightarrow> locator | Some l \<Rightarrow> Some l)))"

definition TransitionSource :: "hlib \<Rightarrow> string \<Rightarrow> u64 \<Rightarrow> SourceState \<Rightarrow> Transition \<Rightarrow> SourceRecord hop" where
  "TransitionSource lib rid expectedRevision nxt tr s =
     (if \<not> validSourceState nxt then (s, Inl (Invalid ''source state''))
      else case getSourceLocked lib s rid of
        Inl e \<Rightarrow> (s, Inl e)
      | Inr r \<Rightarrow>
          if src_Revision r \<noteq> expectedRevision then (s, Inl ErrCASConflict)
          else if \<not> legalSourceTransition (src_State r) nxt then (s, Inl ErrIllegalTransition)
          else
            let tm = change_time s (tr_At tr) in
            if bad_change_time tm (src_Updated r) then (s, Inl (Invalid ''transition time''))
            else
              case applyTransition (src_TargetLocator r) tr (nxt = SourceRetryWait \<or> nxt = SourceLaunchRetryWait)
                     (nxt = SourceFailed) (nxt = SourceAccepted) of
                Inl e \<Rightarrow> (s, Inl e)
              | Inr (nextRetry, failure, locator) \<Rightarrow>
                  let r' = r\<lparr>src_State := nxt, src_Revision := src_Revision r + 1, src_Updated := tm,
                             src_NextRetry := nextRetry, src_Failure := failure, src_TargetLocator := locator,
                             src_Attempts := (if nxt = SourcePreparingRemote then src_Attempts r + 1 else src_Attempts r)\<rparr>
                  in save_source lib rid r' r' s)"

definition TransitionTarget :: "hlib \<Rightarrow> string \<Rightarrow> u64 \<Rightarrow> TargetState \<Rightarrow> Transition \<Rightarrow> TargetRecord hop" where
  "TransitionTarget lib rid expectedRevision nxt tr s =
     (if \<not> validTargetState nxt then (s, Inl (Invalid ''target state''))
      else case getTargetLocked lib s rid of
        Inl e \<Rightarrow> (s, Inl e)
      | Inr r \<Rightarrow>
          if tgt_Revision r \<noteq> expectedRevision then (s, Inl ErrCASConflict)
          else if \<not> legalTargetTransition (tgt_State r) nxt then (s, Inl ErrIllegalTransition)
          else
            let tm = change_time s (tr_At tr) in
            if bad_change_time tm (tgt_Updated r) then (s, Inl (Invalid ''transition time''))
            else
              case applyTransition (tgt_TargetLocator r) tr (nxt = TargetWaitingAssets \<or> nxt = TargetLaunchWaitingAssets)
                     (nxt = TargetRejected) (nxt = TargetLaunching \<or> nxt = TargetLaunchWaitingAssets \<or> nxt = TargetAccepted) of
                Inl e \<Rightarrow> (s, Inl e)
              | Inr (nextRetry, failure, locator) \<Rightarrow>
                  let r' = r\<lparr>tgt_State := nxt, tgt_Revision := tgt_Revision r + 1, tgt_Updated := tm,
                             tgt_NextRetry := nextRetry, tgt_Failure := failure, tgt_TargetLocator := locator,
                             tgt_Attempts := (if nxt = TargetValidating then tgt_Attempts r + 1 else tgt_Attempts r)\<rparr>
                  in save_target lib rid r' r' s)"

definition RecordTargetLaunchLocator :: "hlib \<Rightarrow> string \<Rightarrow> u64 \<Rightarrow> TargetLocator \<Rightarrow> Time \<Rightarrow> TargetRecord hop" where
  "RecordTargetLaunchLocator lib rid expectedRevision locator tm s =
     (case check_res (Locator_validate locator) (getTargetLocked lib s rid) of
        Inl e \<Rightarrow> (s, Inl e)
      | Inr r \<Rightarrow>
          if tgt_Revision r \<noteq> expectedRevision then (s, Inl ErrCASConflict)
          else if tgt_State r \<noteq> TargetLaunching then (s, Inl ErrIllegalTransition)
          else if tl_DeviceID locator \<noteq> ta_DeviceID (mf_Target (tgt_Manifest r)) then (s, Inl (Invalid ''target locator device''))
          else
            case tgt_TargetLocator r of
              Some l \<Rightarrow> if l \<noteq> locator then (s, Inl ErrManifestConflict) else (s, Inr r)
            | None \<Rightarrow>
                let tm = change_time s tm in
                if bad_change_time tm (tgt_Updated r) then (s, Inl (Invalid ''locator time''))
                else
                  let r' = r\<lparr>tgt_TargetLocator := Some locator, tgt_Revision := tgt_Revision r + 1, tgt_Updated := tm\<rparr>
                  in save_target lib rid r' r' s)"

definition launchMarkerPrefix :: string where "launchMarkerPrefix = ''arcmux-handoff-v1:''"

definition LaunchMarker :: "hlib \<Rightarrow> string \<Rightarrow> string \<Rightarrow> string" where
  "LaunchMarker lib handoffID digest =
     launchMarkerPrefix @ hl_sha256 lib (''arcmux-handoff-prompt-v1'' @ [CHR 0x00] @ handoffID @ [CHR 0x00] @ digest)"

definition validLaunchMarker :: "string \<Rightarrow> bool" where
  "validLaunchMarker marker \<longleftrightarrow>
     has_prefix launchMarkerPrefix marker
     \<and> length (drop (length launchMarkerPrefix) marker) = 64
     \<and> list_all lower_hex (drop (length launchMarkerPrefix) marker)"

text \<open>The loop of \<open>AcknowledgeTarget\<close> over the record files.\<close>

fun acknowledge_scan :: "hlib \<Rightarrow> string \<Rightarrow> string \<Rightarrow> string \<Rightarrow> Time \<Rightarrow> string list \<Rightarrow> (TargetRecord \<times> bool) hop" where
  "acknowledge_scan lib marker scope sid tm [] s = (s, Inl ErrAcknowledgementUnavailable)"
| "acknowledge_scan lib marker scope sid tm (name # files) s =
     (case bind_res (readJSONFile (ho_target s) name) (\<lambda>r. check_res (Target_validatePath lib r name) (Inr r)) of
        Inl _ \<Rightarrow> (s, Inl ErrAcknowledgementUnavailable)
      | Inr r \<Rightarrow>
          if LaunchMarker lib (mf_HandoffID (tgt_Manifest r)) (tgt_Digest r) \<noteq> marker
          then acknowledge_scan lib marker scope sid tm files s
          else
            case tgt_TargetLocator r of
              None \<Rightarrow> (s, Inl ErrTargetNotAccepted)
            | Some l \<Rightarrow>
                if tgt_State r \<noteq> TargetAccepted then (s, Inl ErrTargetNotAccepted)
                else if tl_ProfileScope l \<noteq> scope \<or> tl_SessionID l \<noteq> sid then (s, Inl ErrAcknowledgementUnavailable)
                else if tgt_ContextLoaded r \<noteq> None then (s, Inr (r, True))
                else
                  let tm = change_time s tm in
                  if bad_change_time tm (tgt_Updated r) then (s, Inl (Invalid ''acknowledgement time''))
                  else
                    let ack = \<lparr>ca_Phase = ContextLoadedPhase, ca_ManifestDigest = tgt_Digest r, ca_TargetLocator = l,
                               ca_AcknowledgedAt = tm\<rparr>;
                        r' = r\<lparr>tgt_ContextLoaded := Some ack, tgt_Revision := tgt_Revision r + 1, tgt_Updated := tm\<rparr>
                    in save_target lib (mf_HandoffID (tgt_Manifest r)) r' (r', False) s)"

definition AcknowledgeTarget ::
  "hlib \<Rightarrow> string \<Rightarrow> AcknowledgementPhase \<Rightarrow> string \<Rightarrow> string \<Rightarrow> Time \<Rightarrow> (TargetRecord \<times> bool) hop" where
  "AcknowledgeTarget lib marker phase scope sid tm s =
     (if \<not> validLaunchMarker marker \<or> phase \<noteq> ContextLoadedPhase \<or> scope = [] \<or> sid = []
      then (s, Inl ErrAcknowledgementUnavailable)
      else case recordFiles (ho_target_dir s) (ho_target s) of
             Inl _ \<Rightarrow> (s, Inl ErrAcknowledgementUnavailable)
           | Inr files \<Rightarrow> acknowledge_scan lib marker scope sid tm files s)"

definition RecordSourceContextLoaded ::
  "hlib \<Rightarrow> string \<Rightarrow> u64 \<Rightarrow> ContextAcknowledgement \<Rightarrow> Time \<Rightarrow> (SourceRecord \<times> bool) hop" where
  "RecordSourceContextLoaded lib rid expectedRevision ack tm s =
     (case getSourceLocked lib s rid of
        Inl e \<Rightarrow> (s, Inl e)
      | Inr r \<Rightarrow>
          (case src_TargetLocator r of
             None \<Rightarrow> (s, Inl ErrTargetNotAccepted)
           | Some l \<Rightarrow>
               if src_State r \<noteq> SourceAccepted then (s, Inl ErrTargetNotAccepted)
               else if Acknowledgement_validate ack (src_Digest r) l \<noteq> None then (s, Inl ErrManifestConflict)
               else
                 case src_ContextLoaded r of
                   Some a \<Rightarrow> if a \<noteq> ack then (s, Inl ErrManifestConflict) else (s, Inr (r, True))
                 | None \<Rightarrow>
                     if src_Revision r \<noteq> expectedRevision then (s, Inl ErrCASConflict)
                     else
                       let tm = change_time s tm in
                       if bad_change_time tm (src_Updated r) then (s, Inl (Invalid ''verification time''))
                       else
                         let r' = r\<lparr>src_ContextLoaded := Some ack, src_Revision := src_Revision r + 1, src_Updated := tm\<rparr>
                         in save_source lib rid r' (r', False) s))"

definition second_ns :: int where "second_ns = 1000000000"

definition RequestSourceRetirement ::
  "hlib \<Rightarrow> string \<Rightarrow> u64 \<Rightarrow> RetirementMode \<Rightarrow> int \<Rightarrow> TurnObservation \<Rightarrow> Time \<Rightarrow> (SourceRecord \<times> bool) hop" where
  "RequestSourceRetirement lib rid expectedRevision mode timeout baseline tm s =
     (if mode \<noteq> RetirementImmediate \<and> mode \<noteq> RetirementAfterTurnEnd then (s, Inl (Invalid ''source retirement mode''))
      else if timeout < second_ns \<or> timeout > 300 * second_ns \<or> timeout mod second_ns \<noteq> 0
      then (s, Inl (Invalid ''retirement timeout''))
      else if to_TurnCount baseline < 0
              \<or> (case to_LastTurnEndAt baseline of None \<Rightarrow> False | Some t \<Rightarrow> time_IsZero t \<or> \<not> tm_UTC t)
      then (s, Inl (Invalid ''source turn observation''))
      else
        case getSourceLocked lib s rid of
          Inl e \<Rightarrow> (s, Inl e)
        | Inr r \<Rightarrow>
            if src_State r \<noteq> SourceAccepted \<or> src_ContextLoaded r = None then (s, Inl ErrContextNotLoaded)
            else
              case src_Retirement r of
                Some x \<Rightarrow>
                  if sr_Mode x \<noteq> mode \<or> sr_TimeoutSeconds x \<noteq> timeout div second_ns then (s, Inl ErrManifestConflict)
                  else (s, Inr (r, True))
              | None \<Rightarrow>
                  if src_Revision r \<noteq> expectedRevision then (s, Inl ErrCASConflict)
                  else
                    let tm = change_time s tm in
                    if bad_change_time tm (src_Updated r) then (s, Inl (Invalid ''retirement time''))
                    else
                      let x = \<lparr>sr_Mode = mode, sr_State = RetirementPending, sr_RequestedAt = tm,
                               sr_TimeoutSeconds = timeout div second_ns, sr_BaselineTurnCount = to_TurnCount baseline,
                               sr_BaselineLastTurnEndAt = to_LastTurnEndAt baseline, sr_RetiredAt = None\<rparr>;
                          r' = r\<lparr>src_Retirement := Some x, src_Revision := src_Revision r + 1, src_Updated := tm\<rparr>
                      in save_source lib rid r' (r', False) s)"

definition CompleteSourceRetirement :: "hlib \<Rightarrow> string \<Rightarrow> u64 \<Rightarrow> Time \<Rightarrow> (SourceRecord \<times> bool) hop" where
  "CompleteSourceRetirement lib rid expectedRevision tm s =
     (case getSourceLocked lib s rid of
        Inl e \<Rightarrow> (s, Inl e)
      | Inr r \<Rightarrow>
          (case src_Retirement r of
             None \<Rightarrow> (s, Inl ErrContextNotLoaded)
           | Some x \<Rightarrow>
               if sr_State x = RetirementRetired then (s, Inr (r, True))
               else if src_Revision r \<noteq> expectedRevision then (s, Inl ErrCASConflict)
               else
                 let tm = change_time s tm in
                 if bad_change_time tm (src_Updated r) \<or> time_Before tm (sr_RequestedAt x) then (s, Inl (Invalid ''retired time''))
                 else
                   let x' = x\<lparr>sr_State := RetirementRetired, sr_RetiredAt := Some tm\<rparr>;
                       r' = r\<lparr>src_Retirement := Some x', src_Revision := src_Revision r + 1, src_Updated := tm\<rparr>
                   in save_source lib rid r' (r', False) s))"

end
