(* ===== verification/Handoff_Runs.thy ===== *)
theory Handoff_Runs
  imports Handoff_Store "HOL-Library.Sublist"
begin

text \<open>
  Runs of the handoff store. Every operation that changes a record replaces one file by the next
  version of the record it read, and the next version is one the protocol allows: that is the locale
  \<open>record_writer\<close>, interpreted for each operation on the side it writes. Along a run of operations,
  clock changes and write faults, records therefore evolve; what a record holds can be traced back
  to the calls that put it there.
\<close>

section \<open>Valid records\<close>

lemma valid_source:
  assumes "SourceRecord_validate lib r = None"
  shows "src_Revision r \<noteq> 0"
    and "src_State r = SourceAccepted \<longleftrightarrow> src_TargetLocator r \<noteq> None"
    and "src_TargetLocator r = Some l \<Longrightarrow> tl_DeviceID l = ta_DeviceID (mf_Target (src_Manifest r))"
    and "src_ContextLoaded r = Some a \<Longrightarrow> src_State r = SourceAccepted \<and> ca_ManifestDigest a = src_Digest r
           \<and> src_TargetLocator r = Some (ca_TargetLocator a)"
    and "src_Retirement r = Some x \<Longrightarrow> src_State r = SourceAccepted \<and> src_ContextLoaded r \<noteq> None"
    and "src_State r = SourceRetryWait \<or> src_State r = SourceLaunchRetryWait \<Longrightarrow> src_NextRetry r \<noteq> None"
  using assms
  by (auto simp: SourceRecord_validate_def validateRecordFields_def Acknowledgement_validate_def split: option.splits if_splits)

lemma valid_retirement:
  assumes "SourceRecord_validate lib r = None" "src_Retirement r = Some x"
  shows "sr_State x = RetirementPending \<or> sr_State x = RetirementRetired"
  using assms by (auto simp: SourceRecord_validate_def Retirement_validate_def split: RetirementState.splits option.splits)

lemma valid_target:
  assumes "TargetRecord_validate lib r = None"
  shows "tgt_Revision r \<noteq> 0"
    and "tgt_State r = TargetAccepted \<Longrightarrow> tgt_TargetLocator r \<noteq> None"
    and "tgt_TargetLocator r = Some l \<Longrightarrow> tl_DeviceID l = ta_DeviceID (mf_Target (tgt_Manifest r))"
    and "tgt_ContextLoaded r = Some a \<Longrightarrow> tgt_State r = TargetAccepted \<and> ca_ManifestDigest a = tgt_Digest r
           \<and> tgt_TargetLocator r = Some (ca_TargetLocator a)"
  using assms
  by (auto simp: TargetRecord_validate_def validateRecordFields_def Acknowledgement_validate_def split: option.splits if_splits)

lemma manifest_stored_idem [simp]: "manifest_stored (manifest_stored m) = manifest_stored m"
  by (simp add: manifest_stored_def)

lemma failure_stored_idem [simp]: "failure_stored (failure_stored f) = failure_stored f"
  by (simp add: failure_stored_def)

lemma source_stored_idem [simp]: "source_stored (source_stored r) = source_stored r"
  by (cases "src_Failure r") (simp_all add: source_stored_def)

lemma target_stored_idem [simp]: "target_stored (target_stored r) = target_stored r"
  by (cases "tgt_Failure r") (simp_all add: target_stored_def)

lemma failure_stored_valid: "Failure_validate f = None \<Longrightarrow> Failure_validate (failure_stored f) = None"
  using to_valid_utf8_low
  by (fastforce simp: Failure_validate_def failure_stored_def list_ex_iff split: FailureCode.splits)

lemma source_stored_valid:
  assumes "SourceRecord_validate lib r = None" "manifest_stored (src_Manifest r) = src_Manifest r"
  shows "SourceRecord_validate lib (source_stored r) = None"
  using assms failure_stored_valid
  by (cases "src_Failure r")
   (auto simp: SourceRecord_validate_def validateRecordFields_def source_stored_def failure_stored_def split: option.splits if_splits)

lemma target_stored_valid:
  assumes "TargetRecord_validate lib r = None" "manifest_stored (tgt_Manifest r) = tgt_Manifest r"
  shows "TargetRecord_validate lib (target_stored r) = None"
  using assms failure_stored_valid
  by (cases "tgt_Failure r")
   (auto simp: TargetRecord_validate_def validateRecordFields_def target_stored_def failure_stored_def split: option.splits if_splits)

section \<open>What a save does to the files\<close>

lemma writeJSONFile_frame_source [simp]:
  "ho_target (fst (write_source name r s)) = ho_target s" "ho_now (fst (write_source name r s)) = ho_now s"
  by (auto simp: write_source_def writeJSONFile_def Let_def split: list.splits write_fault.splits prod.splits)

lemma writeJSONFile_frame_target [simp]:
  "ho_source (fst (write_target name r s)) = ho_source s" "ho_now (fst (write_target name r s)) = ho_now s"
  by (auto simp: write_target_def writeJSONFile_def Let_def split: list.splits write_fault.splits prod.splits)

lemma write_source_files:
  "map_of (ho_source (fst (write_source name r s))) \<in>
     {map_of (ho_source s), (map_of (ho_source s))(name \<mapsto> File (source_stored r))}"
  "snd (write_source name r s) = Inr u \<Longrightarrow>
     map_of (ho_source (fst (write_source name r s))) = (map_of (ho_source s))(name \<mapsto> File (source_stored r))
     \<and> ho_source_dir (fst (write_source name r s)) = DirPrivate"
  by (auto simp: write_source_def writeJSONFile_def Let_def split: list.splits write_fault.splits prod.splits if_splits)

lemma write_target_files:
  "map_of (ho_target (fst (write_target name r s))) \<in>
     {map_of (ho_target s), (map_of (ho_target s))(name \<mapsto> File (target_stored r))}"
  "snd (write_target name r s) = Inr u \<Longrightarrow>
     map_of (ho_target (fst (write_target name r s))) = (map_of (ho_target s))(name \<mapsto> File (target_stored r))
     \<and> ho_target_dir (fst (write_target name r s)) = DirPrivate"
  by (auto simp: write_target_def writeJSONFile_def Let_def split: list.splits write_fault.splits prod.splits if_splits)


section \<open>Calls and runs\<close>

datatype call =
    Queue Manifest
  | Receive Manifest
  | ToSource string u64 SourceState Transition
  | ToTarget string u64 TargetState Transition
  | BindLaunch string u64 TargetLocator Time
  | Acknowledge string AcknowledgementPhase string string Time
  | Loaded string u64 ContextAcknowledgement Time
  | Retire string u64 RetirementMode int TurnObservation Time
  | Retired string u64 Time
  | Clock time
  | Faults "write_fault list"

text \<open>One step of the store: a call, or the environment setting the clock or the outcome of coming writes.\<close>

fun call_step :: "hlib \<Rightarrow> call \<Rightarrow> hstore \<Rightarrow> hstore" where
  "call_step lib (Queue m) s = fst (QueueSource lib m s)"
| "call_step lib (Receive m) s = fst (ReceiveTarget lib m s)"
| "call_step lib (ToSource rid v nxt tr) s = fst (TransitionSource lib rid v nxt tr s)"
| "call_step lib (ToTarget rid v nxt tr) s = fst (TransitionTarget lib rid v nxt tr s)"
| "call_step lib (BindLaunch rid v l tm) s = fst (RecordTargetLaunchLocator lib rid v l tm s)"
| "call_step lib (Acknowledge marker phase scope sid tm) s = fst (AcknowledgeTarget lib marker phase scope sid tm s)"
| "call_step lib (Loaded rid v ack tm) s = fst (RecordSourceContextLoaded lib rid v ack tm s)"
| "call_step lib (Retire rid v mode t b tm) s = fst (RequestSourceRetirement lib rid v mode t b tm s)"
| "call_step lib (Retired rid v tm) s = fst (CompleteSourceRetirement lib rid v tm s)"
| "call_step lib (Clock t) s = s\<lparr>ho_now := t\<rparr>"
| "call_step lib (Faults fs) s = s\<lparr>ho_faults := fs\<rparr>"

definition store_run :: "hlib \<Rightarrow> call list \<Rightarrow> hstore \<Rightarrow> hstore" where
  "store_run lib cs s = fold (call_step lib) cs s"

text \<open>
  The interface of one side's records: a step either keeps every file or replaces one by the stored
  form of a valid record, allowed as the next version of the valid record that was there.
\<close>

locale record_writer =
  fixes files :: "hstore \<Rightarrow> string \<Rightarrow> 'r fnode option"
    and stored :: "'r \<Rightarrow> 'r"
    and valid :: "'r \<Rightarrow> bool"
    and change :: "call \<Rightarrow> string \<Rightarrow> 'r option \<Rightarrow> 'r \<Rightarrow> bool"
    and perform :: "call \<Rightarrow> hstore \<Rightarrow> hstore"
    and evolves :: "'r \<Rightarrow> 'r \<Rightarrow> bool"
  assumes stored_idem: "stored (stored r) = stored r"
    and writes: "files (perform c s) = files s \<or>
      (\<exists>name r'. files (perform c s) = (files s)(name \<mapsto> File (stored r')) \<and> valid r' \<and>
        (files s name = None \<and> change c name None r'
         \<or> (\<exists>r. files s name = Some (File r) \<and> valid r \<and> change c name (Some r) r')))"
    and change_evolves: "change c name (Some r) r' \<Longrightarrow> valid r \<Longrightarrow> valid r' \<Longrightarrow> stored r = r \<Longrightarrow> evolves r (stored r')"
begin

lemma step_evolves:
  assumes "files s name = Some (File r)" "stored r = r"
  obtains r' where "files (perform c s) name = Some (File r')" "stored r' = r'" "r' = r \<or> evolves r r'"
  using writes [of c s]
proof (elim disjE exE conjE, goal_cases)
  case 1
  then show ?thesis using assms that by simp
next
  case (2 n r')
  then show ?thesis using assms that by (cases "n = name") auto
next
  case (3 n r' r0)
  then show ?thesis using assms that [of "if n = name then stored r' else r"] change_evolves [of c n r0 r'] stored_idem
    by (cases "n = name") auto
qed

lemma run_evolves:
  assumes "files s name = Some (File r)" "stored r = r"
  obtains r' where "files (fold perform cs s) name = Some (File r')" "stored r' = r'" "evolves\<^sup>*\<^sup>* r r'"
  using assms
proof (induction cs arbitrary: s r thesis)
  case Nil
  then show ?case by auto
next
  case (Cons c cs)
  from Cons.prems(2,3) obtain r1 where r1: "files (perform c s) name = Some (File r1)" "stored r1 = r1" "r1 = r \<or> evolves r r1"
    by (rule step_evolves)
  from Cons.IH [OF _ r1(1,2)] obtain r' where
    r': "files (fold perform cs (perform c s)) name = Some (File r')" "stored r' = r'" "evolves\<^sup>*\<^sup>* r1 r'"
    by blast
  have "evolves\<^sup>*\<^sup>* r r'" using r1(3) r'(3) by (metis converse_rtranclp_into_rtranclp)
  then show ?case using Cons.prems(1) [of r'] r'(1,2) by simp
qed

text \<open>What is true of every new version in view of the calls made so far, and stays true with more calls, holds of all records of a run.\<close>

lemma run_traced:
  assumes created: "\<And>cs c name r. change c name None r \<Longrightarrow> valid r \<Longrightarrow> P (cs @ [c]) name (stored r)"
    and changed: "\<And>cs c name r r'. P cs name r \<Longrightarrow> change c name (Some r) r' \<Longrightarrow> valid r \<Longrightarrow> valid r' \<Longrightarrow> P (cs @ [c]) name (stored r')"
    and kept: "\<And>cs c name r. P cs name r \<Longrightarrow> P (cs @ [c]) name r"
    and start: "\<And>name. files s name = None"
  shows "files (fold perform cs s) name = Some (File r) \<Longrightarrow> P cs name r"
proof (induction cs arbitrary: name r rule: rev_induct)
  case Nil
  then show ?case using start by simp
next
  case (snoc c cs)
  let ?s = "fold perform cs s"
  from snoc.prems have now: "files (perform c ?s) name = Some (File r)" by simp
  show ?case using writes [of c ?s]
  proof (elim disjE exE conjE, goal_cases)
    case 1
    then show ?case using now snoc.IH kept by metis
  next
    case (2 n r')
    then show ?case using now snoc.IH kept created [of c n r' cs] by (cases "n = name") auto
  next
    case (3 n r' r0)
    then show ?case using now snoc.IH kept changed [of cs n r0 c r'] by (cases "n = name") auto
  qed
qed

end


section \<open>What each call changes\<close>

definition source_successor :: "SourceRecord \<Rightarrow> SourceRecord \<Rightarrow> bool" where
  "source_successor r r' \<longleftrightarrow> src_Manifest r' = src_Manifest r \<and> src_Digest r' = src_Digest r
     \<and> src_Revision r' = src_Revision r + 1 \<and> tm_at (src_Updated r) \<le> tm_at (src_Updated r')"

fun source_change :: "hlib \<Rightarrow> call \<Rightarrow> string \<Rightarrow> SourceRecord option \<Rightarrow> SourceRecord \<Rightarrow> bool" where
  "source_change lib (Queue m) name None r' \<longleftrightarrow>
     recordPath (mf_HandoffID m) = Inr name \<and> src_Manifest r' = m \<and> Manifest_Digest lib m = Inr (src_Digest r')
     \<and> src_State r' = SourceQueued \<and> src_Revision r' = 1 \<and> src_ContextLoaded r' = None \<and> src_Retirement r' = None"
| "source_change lib (ToSource rid v nxt tr) name (Some r) r' \<longleftrightarrow>
     recordPath rid = Inr name \<and> source_successor r r' \<and> src_Revision r = v
     \<and> legalSourceTransition (src_State r) nxt \<and> src_State r' = nxt
     \<and> src_ContextLoaded r' = src_ContextLoaded r \<and> src_Retirement r' = src_Retirement r"
| "source_change lib (Loaded rid v ack tm) name (Some r) r' \<longleftrightarrow>
     recordPath rid = Inr name \<and> source_successor r r' \<and> src_Revision r = v \<and> src_State r' = src_State r
     \<and> src_TargetLocator r' = src_TargetLocator r
     \<and> src_ContextLoaded r = None \<and> src_ContextLoaded r' = Some ack \<and> src_Retirement r' = src_Retirement r"
| "source_change lib (Retire rid v mode t b tm) name (Some r) r' \<longleftrightarrow>
     recordPath rid = Inr name \<and> source_successor r r' \<and> src_Revision r = v \<and> src_State r' = src_State r
     \<and> src_TargetLocator r' = src_TargetLocator r \<and> src_ContextLoaded r' = src_ContextLoaded r
     \<and> src_Retirement r = None
     \<and> (\<exists>x. src_Retirement r' = Some x \<and> sr_Mode x = mode \<and> sr_State x = RetirementPending
          \<and> sr_TimeoutSeconds x * second_ns = t)"
| "source_change lib (Retired rid v tm) name (Some r) r' \<longleftrightarrow>
     recordPath rid = Inr name \<and> source_successor r r' \<and> src_Revision r = v \<and> src_State r' = src_State r
     \<and> src_TargetLocator r' = src_TargetLocator r \<and> src_ContextLoaded r' = src_ContextLoaded r
     \<and> (\<exists>x. src_Retirement r = Some x \<and> sr_State x \<noteq> RetirementRetired
          \<and> src_Retirement r' = Some (x\<lparr>sr_State := RetirementRetired, sr_RetiredAt := Some (src_Updated r')\<rparr>))"
| "source_change lib _ name _ r' \<longleftrightarrow> False"

definition target_successor :: "TargetRecord \<Rightarrow> TargetRecord \<Rightarrow> bool" where
  "target_successor r r' \<longleftrightarrow> tgt_Manifest r' = tgt_Manifest r \<and> tgt_Digest r' = tgt_Digest r
     \<and> tgt_Revision r' = tgt_Revision r + 1 \<and> tm_at (tgt_Updated r) \<le> tm_at (tgt_Updated r')"

fun target_change :: "hlib \<Rightarrow> call \<Rightarrow> string \<Rightarrow> TargetRecord option \<Rightarrow> TargetRecord \<Rightarrow> bool" where
  "target_change lib (Receive m) name None r' \<longleftrightarrow>
     recordPath (mf_HandoffID m) = Inr name \<and> tgt_Manifest r' = m \<and> Manifest_Digest lib m = Inr (tgt_Digest r')
     \<and> tgt_State r' = TargetReceived \<and> tgt_Revision r' = 1 \<and> tgt_ContextLoaded r' = None"
| "target_change lib (ToTarget rid v nxt tr) name (Some r) r' \<longleftrightarrow>
     recordPath rid = Inr name \<and> target_successor r r' \<and> tgt_Revision r = v
     \<and> legalTargetTransition (tgt_State r) nxt \<and> tgt_State r' = nxt \<and> tgt_ContextLoaded r' = tgt_ContextLoaded r"
| "target_change lib (BindLaunch rid v l tm) name (Some r) r' \<longleftrightarrow>
     recordPath rid = Inr name \<and> target_successor r r' \<and> tgt_Revision r = v \<and> tgt_State r = TargetLaunching
     \<and> tgt_State r' = TargetLaunching \<and> tgt_TargetLocator r = None \<and> tgt_TargetLocator r' = Some l
     \<and> tgt_ContextLoaded r' = tgt_ContextLoaded r"
| "target_change lib (Acknowledge marker phase scope sid tm) name (Some r) r' \<longleftrightarrow>
     target_successor r r' \<and> tgt_State r = TargetAccepted \<and> tgt_State r' = TargetAccepted
     \<and> tgt_TargetLocator r' = tgt_TargetLocator r \<and> tgt_ContextLoaded r = None \<and> phase = ContextLoadedPhase
     \<and> marker = LaunchMarker lib (mf_HandoffID (tgt_Manifest r)) (tgt_Digest r)
     \<and> (\<exists>a. tgt_ContextLoaded r' = Some a \<and> tl_ProfileScope (ca_TargetLocator a) = scope
          \<and> tl_SessionID (ca_TargetLocator a) = sid \<and> ca_AcknowledgedAt a = tgt_Updated r')"
| "target_change lib _ name _ r' \<longleftrightarrow> False"

lemma change_time_ok: "\<not> bad_change_time tm updated \<Longrightarrow> tm_at updated \<le> tm_at tm"
  by (simp add: bad_change_time_def)

lemma readJSONFile_Inr [simp]: "readJSONFile d name = Inr x \<longleftrightarrow> map_of d name = Some (File x)"
  by (auto simp: readJSONFile_def split: option.splits fnode.splits)

lemma readJSONFile_absent [simp]: "readJSONFile d name = Inl ErrNotFound \<longleftrightarrow> map_of d name = None"
  by (auto simp: readJSONFile_def split: option.splits fnode.splits)

lemma get_source:
  assumes "getSourceLocked lib s rid = Inr r"
  obtains name where "recordPath rid = Inr name" "map_of (ho_source s) name = Some (File r)" "SourceRecord_validate lib r = None"
    "recordPath (mf_HandoffID (src_Manifest r)) = Inr name" "ho_source_dir s = DirPrivate"
  using assms
  by (auto simp: getSourceLocked_def Source_validatePath_def verifyPrivateDir_def)

lemma get_target:
  assumes "getTargetLocked lib s rid = Inr r"
  obtains name where "recordPath rid = Inr name" "map_of (ho_target s) name = Some (File r)" "TargetRecord_validate lib r = None"
    "recordPath (mf_HandoffID (tgt_Manifest r)) = Inr name" "ho_target_dir s = DirPrivate"
  using assms
  by (auto simp: getTargetLocked_def Target_validatePath_def verifyPrivateDir_def)

text \<open>A step on the source files that is allowed for the call.\<close>

definition source_writes :: "hlib \<Rightarrow> call \<Rightarrow> hstore \<Rightarrow> hstore \<Rightarrow> bool" where
  "source_writes lib c s s' \<longleftrightarrow> map_of (ho_source s') = map_of (ho_source s) \<or>
     (\<exists>name r'. map_of (ho_source s') = (map_of (ho_source s))(name \<mapsto> File (source_stored r')) \<and> SourceRecord_validate lib r' = None \<and>
        (map_of (ho_source s) name = None \<and> source_change lib c name None r'
         \<or> (\<exists>r. map_of (ho_source s) name = Some (File r) \<and> SourceRecord_validate lib r = None
              \<and> source_change lib c name (Some r) r')))"

definition target_writes :: "hlib \<Rightarrow> call \<Rightarrow> hstore \<Rightarrow> hstore \<Rightarrow> bool" where
  "target_writes lib c s s' \<longleftrightarrow> map_of (ho_target s') = map_of (ho_target s) \<or>
     (\<exists>name r'. map_of (ho_target s') = (map_of (ho_target s))(name \<mapsto> File (target_stored r')) \<and> TargetRecord_validate lib r' = None \<and>
        (map_of (ho_target s) name = None \<and> target_change lib c name None r'
         \<or> (\<exists>r. map_of (ho_target s) name = Some (File r) \<and> TargetRecord_validate lib r = None
              \<and> target_change lib c name (Some r) r')))"

lemma source_writes_refl [simp]: "source_writes lib c s s"
  by (simp add: source_writes_def)

lemma target_writes_refl [simp]: "target_writes lib c s s"
  by (simp add: target_writes_def)

lemma save_source_files:
  assumes "recordPath rid = Inr name"
  shows "map_of (ho_source (fst (save_source lib rid r' res s))) = map_of (ho_source s)
    \<or> SourceRecord_validate lib r' = None
      \<and> map_of (ho_source (fst (save_source lib rid r' res s))) = (map_of (ho_source s))(name \<mapsto> File (source_stored r'))"
  using assms write_source_files(1) [of name r' s]
  by (cases "SourceRecord_validate lib r'") (auto simp: save_source_def split: prod.splits sum.splits)

lemma save_source_writes:
  assumes "recordPath rid = Inr name" "map_of (ho_source s) name = Some (File r)" "SourceRecord_validate lib r = None"
    and "source_change lib c name (Some r) r'"
  shows "source_writes lib c s (fst (save_source lib rid r' res s))"
  using assms(2-4) save_source_files [OF assms(1), of lib r' res s] unfolding source_writes_def by blast

lemma save_source_creates:
  assumes "recordPath rid = Inr name" "map_of (ho_source s) name = None" "source_change lib c name None r'"
  shows "source_writes lib c s (fst (save_source lib rid r' res s))"
  using assms(2,3) save_source_files [OF assms(1), of lib r' res s] unfolding source_writes_def by blast

lemma save_target_files:
  assumes "recordPath rid = Inr name"
  shows "map_of (ho_target (fst (save_target lib rid r' res s))) = map_of (ho_target s)
    \<or> TargetRecord_validate lib r' = None
      \<and> map_of (ho_target (fst (save_target lib rid r' res s))) = (map_of (ho_target s))(name \<mapsto> File (target_stored r'))"
  using assms write_target_files(1) [of name r' s]
  by (cases "TargetRecord_validate lib r'") (auto simp: save_target_def split: prod.splits sum.splits)

lemma save_target_writes:
  assumes "recordPath rid = Inr name" "map_of (ho_target s) name = Some (File r)" "TargetRecord_validate lib r = None"
    and "target_change lib c name (Some r) r'"
  shows "target_writes lib c s (fst (save_target lib rid r' res s))"
  using assms(2-4) save_target_files [OF assms(1), of lib r' res s] unfolding target_writes_def by blast

lemma save_target_creates:
  assumes "recordPath rid = Inr name" "map_of (ho_target s) name = None" "target_change lib c name None r'"
  shows "target_writes lib c s (fst (save_target lib rid r' res s))"
  using assms(2,3) save_target_files [OF assms(1), of lib r' res s] unfolding target_writes_def by blast

lemma save_source_frame [simp]: "ho_target (fst (save_source lib rid r res s)) = ho_target s"
  by (auto simp: save_source_def split: prod.split sum.split) (metis writeJSONFile_frame_source(1) fst_conv)+

lemma save_target_frame [simp]: "ho_source (fst (save_target lib rid r res s)) = ho_source s"
  by (auto simp: save_target_def split: prod.split sum.split) (metis writeJSONFile_frame_target(1) fst_conv)+


lemma QueueSource_writes: "source_writes lib (Queue m) s (fst (QueueSource lib m s))"
  by (auto simp: QueueSource_def Let_def split: sum.splits option.splits
      intro: save_source_creates)

lemma ReceiveTarget_writes: "target_writes lib (Receive m) s (fst (ReceiveTarget lib m s))"
  by (auto simp: ReceiveTarget_def Let_def split: sum.splits option.splits
      intro: save_target_creates)

lemma TransitionSource_writes: "source_writes lib (ToSource rid v nxt tr) s (fst (TransitionSource lib rid v nxt tr s))"
proof (cases "getSourceLocked lib s rid")
  case (Inr r)
  then obtain name where "recordPath rid = Inr name" "map_of (ho_source s) name = Some (File r)" "SourceRecord_validate lib r = None"
    by (rule get_source)
  then show ?thesis using Inr
    by (auto simp: TransitionSource_def Let_def source_successor_def change_time_ok split: sum.splits intro!: save_source_writes)
qed (simp add: TransitionSource_def)

lemma TransitionTarget_writes: "target_writes lib (ToTarget rid v nxt tr) s (fst (TransitionTarget lib rid v nxt tr s))"
proof (cases "getTargetLocked lib s rid")
  case (Inr r)
  then obtain name where "recordPath rid = Inr name" "map_of (ho_target s) name = Some (File r)" "TargetRecord_validate lib r = None"
    by (rule get_target)
  then show ?thesis using Inr
    by (auto simp: TransitionTarget_def Let_def target_successor_def change_time_ok split: sum.splits intro!: save_target_writes)
qed (simp add: TransitionTarget_def)

lemma RecordTargetLaunchLocator_writes:
  "target_writes lib (BindLaunch rid v l tm) s (fst (RecordTargetLaunchLocator lib rid v l tm s))"
proof (cases "getTargetLocked lib s rid")
  case (Inr r)
  then obtain name where "recordPath rid = Inr name" "map_of (ho_target s) name = Some (File r)" "TargetRecord_validate lib r = None"
    by (rule get_target)
  then show ?thesis using Inr
    by (cases "Locator_validate l")
      (auto simp: RecordTargetLaunchLocator_def Let_def target_successor_def change_time_ok split: option.splits intro!: save_target_writes)
qed (cases "Locator_validate l"; simp add: RecordTargetLaunchLocator_def)

lemma acknowledge_scan_writes:
  "target_writes lib (Acknowledge marker ContextLoadedPhase scope sid tm) s (fst (acknowledge_scan lib marker scope sid tm files s))"
proof (induction files)
  case (Cons name files)
  then show ?case
    by (auto simp: Let_def target_successor_def change_time_ok Target_validatePath_def
        split: sum.splits option.splits intro!: save_target_writes)
qed simp

lemma AcknowledgeTarget_writes:
  "target_writes lib (Acknowledge marker phase scope sid tm) s (fst (AcknowledgeTarget lib marker phase scope sid tm s))"
  using acknowledge_scan_writes by (auto simp: AcknowledgeTarget_def split: sum.splits)

lemma RecordSourceContextLoaded_writes:
  "source_writes lib (Loaded rid v ack tm) s (fst (RecordSourceContextLoaded lib rid v ack tm s))"
proof (cases "getSourceLocked lib s rid")
  case (Inr r)
  then obtain name where "recordPath rid = Inr name" "map_of (ho_source s) name = Some (File r)" "SourceRecord_validate lib r = None"
    by (rule get_source)
  then show ?thesis using Inr
    by (auto simp: RecordSourceContextLoaded_def Let_def source_successor_def change_time_ok split: option.splits intro!: save_source_writes)
qed (simp add: RecordSourceContextLoaded_def)

lemma RequestSourceRetirement_writes:
  "source_writes lib (Retire rid v mode t b tm) s (fst (RequestSourceRetirement lib rid v mode t b tm s))"
proof (cases "getSourceLocked lib s rid")
  case (Inr r)
  then obtain name where "recordPath rid = Inr name" "map_of (ho_source s) name = Some (File r)" "SourceRecord_validate lib r = None"
    by (rule get_source)
  then show ?thesis using Inr
    by (auto simp: RequestSourceRetirement_def Let_def source_successor_def change_time_ok split: option.splits intro!: save_source_writes)
qed (simp add: RequestSourceRetirement_def)

lemma CompleteSourceRetirement_writes:
  "source_writes lib (Retired rid v tm) s (fst (CompleteSourceRetirement lib rid v tm s))"
proof (cases "getSourceLocked lib s rid")
  case (Inr r)
  then obtain name where "recordPath rid = Inr name" "map_of (ho_source s) name = Some (File r)" "SourceRecord_validate lib r = None"
    by (rule get_source)
  then show ?thesis using Inr
    by (auto simp: CompleteSourceRetirement_def Let_def source_successor_def change_time_ok split: option.splits intro!: save_source_writes)
qed (simp add: CompleteSourceRetirement_def)


lemma source_calls_frame:
  "ho_target (fst (QueueSource lib m s)) = ho_target s"
  "ho_target (fst (TransitionSource lib rid v nxt tr s)) = ho_target s"
  "ho_target (fst (RecordSourceContextLoaded lib rid v ack tm s)) = ho_target s"
  "ho_target (fst (RequestSourceRetirement lib rid v mode t b tm s)) = ho_target s"
  "ho_target (fst (CompleteSourceRetirement lib rid v tm s)) = ho_target s"
  by (auto simp: QueueSource_def TransitionSource_def RecordSourceContextLoaded_def RequestSourceRetirement_def
      CompleteSourceRetirement_def Let_def split: sum.split option.split)

lemma acknowledge_scan_frame: "ho_source (fst (acknowledge_scan lib marker scope sid tm files s)) = ho_source s"
  by (induction files) (auto simp: Let_def split: sum.split option.split)

lemma target_calls_frame:
  "ho_source (fst (ReceiveTarget lib m s)) = ho_source s"
  "ho_source (fst (TransitionTarget lib rid v nxt' tr s)) = ho_source s"
  "ho_source (fst (RecordTargetLaunchLocator lib rid v l tm s)) = ho_source s"
  "ho_source (fst (AcknowledgeTarget lib marker phase scope sid tm s)) = ho_source s"
  by (auto simp: ReceiveTarget_def TransitionTarget_def RecordTargetLaunchLocator_def AcknowledgeTarget_def
      acknowledge_scan_frame Let_def split: sum.split option.split)

lemmas source_call_writes =
  QueueSource_writes TransitionSource_writes RecordSourceContextLoaded_writes RequestSourceRetirement_writes
  CompleteSourceRetirement_writes

lemmas target_call_writes =
  ReceiveTarget_writes TransitionTarget_writes RecordTargetLaunchLocator_writes AcknowledgeTarget_writes

lemma call_step_source: "source_writes lib c s (call_step lib c s)"
  by (cases c) (simp_all add: source_call_writes, simp_all add: source_writes_def target_calls_frame)

lemma call_step_target: "target_writes lib c s (call_step lib c s)"
  by (cases c) (simp_all add: target_call_writes, simp_all add: target_writes_def source_calls_frame)

section \<open>How records evolve\<close>

definition source_evolves :: "hlib \<Rightarrow> SourceRecord \<Rightarrow> SourceRecord \<Rightarrow> bool" where
  "source_evolves lib r r' \<longleftrightarrow>
     SourceRecord_validate lib r' = None \<and> src_Manifest r' = src_Manifest r \<and> src_Digest r' = src_Digest r
     \<and> unat (src_Revision r) < unat (src_Revision r') \<and> tm_at (src_Updated r) \<le> tm_at (src_Updated r')
     \<and> (src_State r' = src_State r \<and> src_TargetLocator r' = src_TargetLocator r \<or> legalSourceTransition (src_State r) (src_State r'))
     \<and> (src_ContextLoaded r \<noteq> None \<longrightarrow> src_ContextLoaded r' = src_ContextLoaded r)
     \<and> (\<forall>x. src_Retirement r = Some x \<longrightarrow>
          (\<exists>x'. src_Retirement r' = Some x' \<and> sr_Mode x' = sr_Mode x \<and> sr_TimeoutSeconds x' = sr_TimeoutSeconds x
             \<and> sr_RequestedAt x' = sr_RequestedAt x \<and> (sr_State x = RetirementRetired \<longrightarrow> x' = x)))"

definition target_evolves :: "hlib \<Rightarrow> TargetRecord \<Rightarrow> TargetRecord \<Rightarrow> bool" where
  "target_evolves lib r r' \<longleftrightarrow>
     TargetRecord_validate lib r' = None \<and> tgt_Manifest r' = tgt_Manifest r \<and> tgt_Digest r' = tgt_Digest r
     \<and> unat (tgt_Revision r) < unat (tgt_Revision r') \<and> tm_at (tgt_Updated r) \<le> tm_at (tgt_Updated r')
     \<and> (tgt_State r' = tgt_State r \<or> legalTargetTransition (tgt_State r) (tgt_State r'))
     \<and> (tgt_State r' = tgt_State r \<and> tgt_TargetLocator r \<noteq> None \<longrightarrow> tgt_TargetLocator r' = tgt_TargetLocator r)
     \<and> (tgt_ContextLoaded r \<noteq> None \<longrightarrow> tgt_ContextLoaded r' = tgt_ContextLoaded r)"

lemma legalSourceTransition_irrefl [simp]: "\<not> legalSourceTransition st st"
  by (cases st) (simp_all add: legalSourceTransition_def)

lemma legalTargetTransition_irrefl [simp]: "\<not> legalTargetTransition st st"
  by (cases st) (simp_all add: legalTargetTransition_def)

lemma unat_next_revision: "(v :: u64) + 1 \<noteq> 0 \<Longrightarrow> unat v < unat (v + 1)"
  using unatSuc [of v] by (simp add: add.commute)

lemma source_change_evolves:
  assumes "source_change lib c name (Some r) r'" "SourceRecord_validate lib r = None" "SourceRecord_validate lib r' = None"
    and "source_stored r = r"
  shows "source_evolves lib r (source_stored r')"
proof -
  have m: "manifest_stored (src_Manifest r) = src_Manifest r" using assms(4) by (cases r) (simp add: source_stored_def)
  have v: "source_successor r r' \<Longrightarrow> unat (src_Revision r) < unat (src_Revision r')"
    using valid_source(1) [OF assms(3)] by (simp add: source_successor_def unat_next_revision)
  have "source_successor r r' \<Longrightarrow> SourceRecord_validate lib (source_stored r') = None"
    using source_stored_valid [OF assms(3)] m by (simp add: source_successor_def)
  with assms(1) v m show ?thesis by (cases c) (auto simp: source_evolves_def source_stored_def source_successor_def)
qed

lemma target_change_evolves:
  assumes "target_change lib c name (Some r) r'" "TargetRecord_validate lib r = None" "TargetRecord_validate lib r' = None"
    and "target_stored r = r"
  shows "target_evolves lib r (target_stored r')"
proof -
  have m: "manifest_stored (tgt_Manifest r) = tgt_Manifest r" using assms(4) by (cases r) (simp add: target_stored_def)
  have v: "target_successor r r' \<Longrightarrow> unat (tgt_Revision r) < unat (tgt_Revision r')"
    using valid_target(1) [OF assms(3)] by (simp add: target_successor_def unat_next_revision)
  have "target_successor r r' \<Longrightarrow> TargetRecord_validate lib (target_stored r') = None"
    using target_stored_valid [OF assms(3)] m by (simp add: target_successor_def)
  with assms(1) v m show ?thesis by (cases c) (auto simp: target_evolves_def target_stored_def target_successor_def)
qed

interpretation source_side: record_writer "\<lambda>s. map_of (ho_source s)" source_stored "\<lambda>r. SourceRecord_validate lib r = None"
  "source_change lib" "call_step lib" "source_evolves lib" for lib
proof (unfold_locales, goal_cases)
  case (2 c s)
  then show ?case using call_step_source [of lib c s] unfolding source_writes_def .
qed (simp_all add: source_change_evolves)

interpretation target_side: record_writer "\<lambda>s. map_of (ho_target s)" target_stored "\<lambda>r. TargetRecord_validate lib r = None"
  "target_change lib" "call_step lib" "target_evolves lib" for lib
proof (unfold_locales, goal_cases)
  case (2 c s)
  then show ?case using call_step_target [of lib c s] unfolding target_writes_def .
qed (simp_all add: target_change_evolves)

lemma source_evolution:
  assumes "(source_evolves lib)\<^sup>*\<^sup>* r r'"
  shows "SourceRecord_validate lib r = None \<Longrightarrow> SourceRecord_validate lib r' = None"
    and "src_Manifest r' = src_Manifest r \<and> src_Digest r' = src_Digest r"
    and "r' = r \<or> unat (src_Revision r) < unat (src_Revision r')"
    and "tm_at (src_Updated r) \<le> tm_at (src_Updated r')"
    and "legalSourceTransition\<^sup>*\<^sup>* (src_State r) (src_State r')"
    and "src_State r \<in> {SourceAccepted, SourceFailed} \<Longrightarrow> src_State r' = src_State r \<and> src_TargetLocator r' = src_TargetLocator r"
    and "src_ContextLoaded r \<noteq> None \<Longrightarrow> src_ContextLoaded r' = src_ContextLoaded r"
    and "src_Retirement r = Some x \<Longrightarrow> \<exists>x'. src_Retirement r' = Some x' \<and> sr_Mode x' = sr_Mode x
           \<and> sr_TimeoutSeconds x' = sr_TimeoutSeconds x \<and> sr_RequestedAt x' = sr_RequestedAt x
           \<and> (sr_State x = RetirementRetired \<longrightarrow> x' = x)"
proof -
  show "SourceRecord_validate lib r' = None" if "SourceRecord_validate lib r = None"
    using assms that by induction (simp_all add: source_evolves_def)
  show "src_Manifest r' = src_Manifest r \<and> src_Digest r' = src_Digest r"
    using assms by induction (simp_all add: source_evolves_def)
  show "r' = r \<or> unat (src_Revision r) < unat (src_Revision r')"
    using assms by induction (auto simp: source_evolves_def)
  show "tm_at (src_Updated r) \<le> tm_at (src_Updated r')"
    using assms by induction (auto simp: source_evolves_def)
  show "legalSourceTransition\<^sup>*\<^sup>* (src_State r) (src_State r')"
    using assms
  proof induction
    case (step y z)
    then show ?case by (metis rtranclp.rtrancl_into_rtrancl source_evolves_def)
  qed simp
  show "src_State r' = src_State r \<and> src_TargetLocator r' = src_TargetLocator r" if "src_State r \<in> {SourceAccepted, SourceFailed}"
    using assms that by induction (auto simp: source_evolves_def legalSourceTransition_def)
  show "src_ContextLoaded r' = src_ContextLoaded r" if "src_ContextLoaded r \<noteq> None"
    using assms that by induction (auto simp: source_evolves_def)
  show "\<exists>x'. src_Retirement r' = Some x' \<and> sr_Mode x' = sr_Mode x
           \<and> sr_TimeoutSeconds x' = sr_TimeoutSeconds x \<and> sr_RequestedAt x' = sr_RequestedAt x
           \<and> (sr_State x = RetirementRetired \<longrightarrow> x' = x)" if "src_Retirement r = Some x"
    using assms that
  proof induction
    case (step y z)
    then show ?case unfolding source_evolves_def by metis
  qed simp
qed

lemma target_evolution:
  assumes "(target_evolves lib)\<^sup>*\<^sup>* r r'"
  shows "TargetRecord_validate lib r = None \<Longrightarrow> TargetRecord_validate lib r' = None"
    and "tgt_Manifest r' = tgt_Manifest r \<and> tgt_Digest r' = tgt_Digest r"
    and "r' = r \<or> unat (tgt_Revision r) < unat (tgt_Revision r')"
    and "tm_at (tgt_Updated r) \<le> tm_at (tgt_Updated r')"
    and "legalTargetTransition\<^sup>*\<^sup>* (tgt_State r) (tgt_State r')"
    and "tgt_State r \<in> {TargetAccepted, TargetRejected} \<Longrightarrow> tgt_State r' = tgt_State r
           \<and> (tgt_TargetLocator r \<noteq> None \<longrightarrow> tgt_TargetLocator r' = tgt_TargetLocator r)"
    and "tgt_ContextLoaded r \<noteq> None \<Longrightarrow> tgt_ContextLoaded r' = tgt_ContextLoaded r"
proof -
  show "TargetRecord_validate lib r' = None" if "TargetRecord_validate lib r = None"
    using assms that by induction (simp_all add: target_evolves_def)
  show "tgt_Manifest r' = tgt_Manifest r \<and> tgt_Digest r' = tgt_Digest r"
    using assms by induction (simp_all add: target_evolves_def)
  show "r' = r \<or> unat (tgt_Revision r) < unat (tgt_Revision r')"
    using assms by induction (auto simp: target_evolves_def)
  show "tm_at (tgt_Updated r) \<le> tm_at (tgt_Updated r')"
    using assms by induction (auto simp: target_evolves_def)
  show "legalTargetTransition\<^sup>*\<^sup>* (tgt_State r) (tgt_State r')"
    using assms
  proof induction
    case (step y z)
    then show ?case by (metis rtranclp.rtrancl_into_rtrancl target_evolves_def)
  qed simp
  show "tgt_State r' = tgt_State r \<and> (tgt_TargetLocator r \<noteq> None \<longrightarrow> tgt_TargetLocator r' = tgt_TargetLocator r)"
    if "tgt_State r \<in> {TargetAccepted, TargetRejected}"
    using assms that by induction (auto simp: target_evolves_def legalTargetTransition_def)
  show "tgt_ContextLoaded r' = tgt_ContextLoaded r" if "tgt_ContextLoaded r \<noteq> None"
    using assms that by induction (auto simp: target_evolves_def)
qed

section \<open>Tracing records back to calls\<close>

lemma recordPath_inj: "recordPath rid = Inr name \<Longrightarrow> recordPath rid' = Inr name \<Longrightarrow> rid' = rid"
  by (auto simp: recordPath_def split: if_splits)

definition source_traced :: "call list \<Rightarrow> string \<Rightarrow> SourceRecord \<Rightarrow> bool" where
  "source_traced cs name r \<longleftrightarrow>
     (\<forall>a. src_ContextLoaded r = Some a \<longrightarrow> (\<exists>rid v tm. recordPath rid = Inr name \<and> subseq [Loaded rid v a tm] cs
        \<and> (\<forall>x. src_Retirement r = Some x \<longrightarrow>
             (\<exists>v' b tm'. subseq [Loaded rid v a tm, Retire rid v' (sr_Mode x) (sr_TimeoutSeconds x * second_ns) b tm'] cs
                \<and> (sr_State x = RetirementRetired \<longrightarrow>
                     (\<exists>v'' tm''. subseq [Loaded rid v a tm, Retire rid v' (sr_Mode x) (sr_TimeoutSeconds x * second_ns) b tm',
                                         Retired rid v'' tm''] cs))))))"

lemma subseq_snoc: "subseq xs cs \<Longrightarrow> subseq (xs @ [c]) (cs @ [c])" "subseq xs cs \<Longrightarrow> subseq xs (cs @ [c])"
  by (simp_all add: list_emb_append_mono subseq_rev_drop_many)

lemma source_traced_kept: "source_traced cs name r \<Longrightarrow> source_traced (cs @ [c]) name r"
  unfolding source_traced_def by (meson subseq_snoc(2))

lemma source_traced_stored [simp]: "source_traced cs name (source_stored r) = source_traced cs name r"
  by (simp add: source_traced_def source_stored_def)

lemma source_traced_same:
  assumes "source_traced cs name r" "src_ContextLoaded r' = src_ContextLoaded r" "src_Retirement r' = src_Retirement r"
  shows "source_traced (cs @ [c]) name r'"
  using source_traced_kept [OF assms(1), of c] assms(2,3) by (simp add: source_traced_def)

lemma source_traced_changed:
  assumes "source_traced cs name r" "source_change lib c name (Some r) r'"
    and "SourceRecord_validate lib r = None" "SourceRecord_validate lib r' = None"
  shows "source_traced (cs @ [c]) name r'"
proof (cases c)
  case (ToSource rid v nxt tr)
  then show ?thesis using assms by (auto intro: source_traced_same)
next
  case (Loaded rid v ack tm)
  moreover from this have "src_Retirement r' = None" using assms(2) valid_source(5) [OF assms(3)] by (cases "src_Retirement r") auto
  ultimately show ?thesis using assms(2) subseq_snoc(1) [of "[]" cs c] by (auto simp: source_traced_def)
next
  case (Retire rid v mode t b tm)
  with assms(2) obtain x where x: "src_Retirement r' = Some x" "sr_Mode x = mode" "sr_State x = RetirementPending"
    "sr_TimeoutSeconds x * second_ns = t" "recordPath rid = Inr name" "src_ContextLoaded r' = src_ContextLoaded r" by auto
  from valid_source(5) [OF assms(4) x(1)] obtain a where a: "src_ContextLoaded r' = Some a" by auto
  with assms(1) x(5,6) obtain v1 tm1 where "subseq [Loaded rid v1 a tm1] cs"
    unfolding source_traced_def by (metis recordPath_inj)
  from subseq_snoc [OF this, of c] have "subseq [Loaded rid v1 a tm1] (cs @ [c])" "subseq [Loaded rid v1 a tm1, c] (cs @ [c])" by simp_all
  then show ?thesis using x a Retire unfolding source_traced_def by auto blast
next
  case (Retired rid v tm)
  with assms(2) obtain x where x: "src_Retirement r = Some x" "recordPath rid = Inr name" "src_ContextLoaded r' = src_ContextLoaded r"
    "src_Retirement r' = Some (x\<lparr>sr_State := RetirementRetired, sr_RetiredAt := Some (src_Updated r')\<rparr>)" by auto
  from valid_source(5) [OF assms(3) x(1)] obtain a where a: "src_ContextLoaded r = Some a" by auto
  let ?r = "\<lambda>v b tm. Retire rid v (sr_Mode x) (sr_TimeoutSeconds x * second_ns) b tm"
  from assms(1) x(1,2) a obtain v1 tm1 v2 b tm2 where l: "subseq [Loaded rid v1 a tm1, ?r v2 b tm2] cs" "subseq [Loaded rid v1 a tm1] cs"
    unfolding source_traced_def by (metis recordPath_inj)
  from subseq_snoc(1) [OF l(1), of c] subseq_snoc(2) [OF l(1), of c] subseq_snoc(2) [OF l(2), of c]
  have "subseq [Loaded rid v1 a tm1, ?r v2 b tm2, c] (cs @ [c])" "subseq [Loaded rid v1 a tm1, ?r v2 b tm2] (cs @ [c])"
    "subseq [Loaded rid v1 a tm1] (cs @ [c])" by simp_all
  then show ?thesis using x a Retired unfolding source_traced_def by auto blast
qed (use assms(2) in auto)

lemma source_created_traced: "source_change lib c name None r \<Longrightarrow> source_traced (cs @ [c]) name r"
  by (cases c) (simp_all add: source_traced_def)

lemma source_run_traced:
  assumes "ho_source s = []" "map_of (ho_source (store_run lib cs s)) name = Some (File r)"
  shows "source_traced cs name r"
  using assms(2) unfolding store_run_def
proof (rule source_side.run_traced [where lib = lib and P = source_traced and s = s, rotated -1], goal_cases)
  case (1 cs c name r)
  then show ?case by (simp add: source_created_traced)
next
  case (2 cs c name r r')
  then show ?case by (simp add: source_traced_changed)
next
  case (3 cs c name r)
  then show ?case by (simp add: source_traced_kept)
next
  case (4 name)
  then show ?case by (simp add: assms(1))
qed

definition target_traced :: "hlib \<Rightarrow> call list \<Rightarrow> string \<Rightarrow> TargetRecord \<Rightarrow> bool" where
  "target_traced lib cs name r \<longleftrightarrow>
     (\<forall>a. tgt_ContextLoaded r = Some a \<longrightarrow>
        (\<exists>tm. Acknowledge (LaunchMarker lib (mf_HandoffID (tgt_Manifest r)) (tgt_Digest r)) ContextLoadedPhase
               (tl_ProfileScope (ca_TargetLocator a)) (tl_SessionID (ca_TargetLocator a)) tm \<in> set cs))"

lemma target_traced_stored [simp]: "target_traced lib cs name (target_stored r) = target_traced lib cs name r"
  by (simp add: target_traced_def target_stored_def manifest_stored_def)

lemma target_traced_changed:
  assumes "target_traced lib cs name r" "target_change lib c name (Some r) r'"
  shows "target_traced lib (cs @ [c]) name r'"
  using assms by (cases c) (auto simp: target_traced_def target_successor_def)

lemma target_run_traced:
  assumes "ho_target s = []" "map_of (ho_target (store_run lib cs s)) name = Some (File r)"
  shows "target_traced lib cs name r"
  using assms(2) unfolding store_run_def
proof (rule target_side.run_traced [where lib = lib and P = "target_traced lib" and s = s, rotated -1], goal_cases)
  case (1 cs c name r)
  then show ?case by (cases c) (simp_all add: target_traced_def target_stored_def)
next
  case (2 cs c name r r')
  then show ?case by (simp add: target_traced_changed)
next
  case (3 cs c name r)
  then show ?case by (auto simp: target_traced_def)
next
  case (4 name)
  then show ?case by (simp add: assms(1))
qed

section \<open>Successful calls\<close>

lemma save_source_success:
  assumes "save_source lib rid r res s = (s', Inr x)" "recordPath rid = Inr name"
  shows "x = res" "SourceRecord_validate lib r = None" "map_of (ho_source s') name = Some (File (source_stored r))"
    "ho_source_dir s' = DirPrivate"
  using assms write_source_files(2) [of name r s "()"]
  by (cases "SourceRecord_validate lib r"; auto simp: save_source_def split: prod.splits sum.splits)+

lemma TransitionSource_result:
  assumes "TransitionSource lib rid v nxt tr s = (s1, Inr r1)"
  shows "\<exists>name. recordPath rid = Inr name \<and> map_of (ho_source s1) name = Some (File (source_stored r1))
    \<and> unat v < unat (src_Revision r1)"
proof -
  from assms obtain r where r: "getSourceLocked lib s rid = Inr r"
    by (cases "getSourceLocked lib s rid") (auto simp: TransitionSource_def split: if_splits)
  then obtain name where n: "recordPath rid = Inr name" by (rule get_source)
  from assms r obtain r2 where r2: "save_source lib rid r2 r2 s = (s1, Inr r1)" "src_Revision r2 = v + 1"
    by (auto simp: TransitionSource_def Let_def split: if_splits sum.splits)
  note saved = save_source_success [OF r2(1) n]
  with n r2(2) show ?thesis using valid_source(1) [OF saved(2)] by (simp add: unat_next_revision)
qed

lemma QueueSource_result:
  assumes "QueueSource lib m s = (s1, Inr (r, False))" "manifest_stored m = m"
  shows "\<exists>name. recordPath (mf_HandoffID m) = Inr name \<and> map_of (ho_source s1) name = Some (File r) \<and> source_stored r = r
    \<and> SourceRecord_validate lib r = None \<and> src_Manifest r = m \<and> Manifest_Digest lib m = Inr (src_Digest r)
    \<and> ho_source_dir s1 = DirPrivate"
proof -
  from assms(1) obtain name r2 where n: "save_source lib (mf_HandoffID m) r2 (r2, False) s = (s1, Inr (r, False))"
    "recordPath (mf_HandoffID m) = Inr name" "Manifest_Digest lib m = Inr (src_Digest r2)" "src_Manifest r2 = m" "src_Failure r2 = None"
    by (auto simp: QueueSource_def Let_def split: if_splits sum.splits option.splits)
  from n(4,5) assms(2) have "source_stored r2 = r2" by (cases r2) (simp add: source_stored_def)
  then show ?thesis using save_source_success [OF n(1,2)] n by auto
qed

section \<open>A sample manifest\<close>

definition demo_oid :: string where "demo_oid = replicate 40 (CHR ''0'')"
definition demo_sha :: string where "demo_sha = replicate 64 (CHR ''0'')"
definition demo_time :: Time where "demo_time = \<lparr>tm_at = 1, tm_UTC = True\<rparr>"

definition demo_manifest :: Manifest where
  "demo_manifest =
     \<lparr>mf_SchemaVersion = 1, mf_HandoffID = ''h1'', mf_TraceID = ''t1'', mf_ParentHandoffID = '''',
      mf_Source = \<lparr>so_DeviceID = ''dev-a'', so_ProfileScope = ''root'', so_SessionID = ''s1''\<rparr>,
      mf_SourceAgent = ''codex'', mf_Target = \<lparr>ta_DeviceID = ''dev-b'', ta_Profile = ''codex''\<rparr>,
      mf_Goal = \<lparr>gs_Text = ''go'', gs_Provenance = ''explicit_operator'', gs_UpdatedAt = demo_time\<rparr>,
      mf_History = \<lparr>hr_ArtifactID = ''a1'', hr_Basename = ''h.md'', hr_SHA256 = demo_sha, hr_SizeBytes = 10, hr_ConversationID = ''''\<rparr>,
      mf_Repository = \<lparr>rs_ProjectSlug = ''p'', rs_RepoSlug = ''o/r'', rs_Branch = ''main'', rs_SourceHead = demo_oid,
        rs_BaseCommit = demo_oid, rs_TreeDigest = demo_oid, rs_Cleanliness = RepositoryClean, rs_Transfer = TransferRemoteBranch, rs_Patch = None\<rparr>,
      mf_Artifacts = Some [], mf_Validation = \<lparr>ve_State = ValidationNotRun, ve_RepositoryRevision = '''', ve_CompletedAt = None\<rparr>,
      mf_CreatedAt = demo_time\<rparr>"

lemmas manifest_eval = demo_manifest_def demo_oid_def demo_sha_def demo_time_def validateID_def safeID_def id_shape_def is_alnum_def
  is_digit_def is_lower_char_def is_upper_char_def lower_hex_def profileScope_def validateUTCTime_def ascii_eval

lemma demo_goal: "Goal_validate (mf_Goal demo_manifest) = None"
proof -
  have "\<not> ContainsCredentialLike ''go''" using credential_length [of "''go''"] by (auto simp: ascii_eval)
  then show ?thesis
    by (simp add: Goal_validate_def validateOperatorText_def maxGoalRunes_def is_control_def manifest_eval)
qed

lemma demo_history: "History_Validate (mf_History demo_manifest) = None"
  by (simp add: History_Validate_def path_base_plain sha256Hex_def maxHistoryBytes_def manifest_eval)

lemma demo_repository: "Repository_validate (mf_Repository demo_manifest) = None"
  by (simp add: Repository_validate_def repoSlug_def validateGitRef_def objectID_def maxRefRunes_def has_suffix_def backslash_def char_of_eq_iff manifest_eval)

lemma demo_valid: "Manifest_Validate demo_manifest = None"
  using demo_goal demo_history demo_repository
  by (simp add: Manifest_Validate_def ManifestVersion_def SourceSession_validate_def TargetAgent_validate_def Validation_validate_def manifest_eval)

lemma demo_stored: "manifest_stored demo_manifest = demo_manifest"
  by (simp add: manifest_stored_def demo_manifest_def is_ascii_def byte_of_def)


section \<open>Sample runs\<close>

definition demo_lib :: hlib where "demo_lib = \<lparr>hl_json = (\<lambda>_. []), hl_sha256 = (\<lambda>_. demo_sha)\<rparr>"

definition demo_store :: hstore where
  "demo_store = \<lparr>ho_source = [], ho_target = [], ho_source_dir = DirPrivate, ho_target_dir = DirPrivate, ho_now = 5, ho_faults = []\<rparr>"

definition demo_locator :: TargetLocator where
  "demo_locator = \<lparr>tl_DeviceID = ''dev-b'', tl_ProfileScope = ''root'', tl_SessionID = ''s2''\<rparr>"

definition demo_ack :: ContextAcknowledgement where
  "demo_ack = \<lparr>ca_Phase = ContextLoadedPhase, ca_ManifestDigest = demo_sha, ca_TargetLocator = demo_locator, ca_AcknowledgedAt = demo_time\<rparr>"

definition plain_transition :: "TargetLocator option \<Rightarrow> Transition" where
  "plain_transition l = \<lparr>tr_At = zero_time, tr_NextRetry = None, tr_Failure = None, tr_TargetLocator = l\<rparr>"

lemma eq_char_of_iff: "n < 256 \<Longrightarrow> c = char_of n \<longleftrightarrow> byte_of c = n"
  using char_of_eq_iff [of n c] by auto

lemma demo_digest [simp]: "Manifest_Digest demo_lib demo_manifest = Inr demo_sha"
  by (simp add: Manifest_Digest_def demo_valid demo_lib_def)

lemma demo_path [simp]: "recordPath ''h1'' = Inr ''h1.json''" "validateID ''handoff id'' ''h1'' = None"
  by (simp_all add: recordPath_def unsafe_segment_def path_base_plain backslash_def eq_char_of_iff manifest_eval)

lemma handoff_locator_ok [simp]: "Locator_validate demo_locator = None" "tl_DeviceID demo_locator = ''dev-b''"
  by (simp_all add: Locator_validate_def demo_locator_def manifest_eval)

lemma demo_ack_ok [simp]: "Acknowledgement_validate demo_ack demo_sha demo_locator = None"
  by (simp add: Acknowledgement_validate_def demo_ack_def demo_time_def)

lemma demo_manifest_fields [simp]: "mf_HandoffID demo_manifest = ''h1''" "ta_DeviceID (mf_Target demo_manifest) = ''dev-b''"
  by (simp_all add: demo_manifest_def)

lemmas source_eval = store_run_def QueueSource_def TransitionSource_def RecordSourceContextLoaded_def RequestSourceRetirement_def
  CompleteSourceRetirement_def getSourceLocked_def readJSONFile_def Source_validatePath_def SourceRecord_validate_def
  validateStoredManifest_def validateRecordFields_def Retirement_validate_def save_source_def write_source_def writeJSONFile_def
  verifyPrivateDir_def applyTransition_def change_time_def bad_change_time_def utc_now_def zero_time_def source_stored_def
  legalSourceTransition_def validSourceState_def RecordVersion_def second_ns_def plain_transition_def demo_stored demo_store_def Let_def

definition demo_calls :: "call list" where
  "demo_calls = [Queue demo_manifest, ToSource ''h1'' 1 SourcePreparingRemote (plain_transition None),
     ToSource ''h1'' 2 SourceRemotePrepared (plain_transition None), ToSource ''h1'' 3 SourceLaunchingRemote (plain_transition None),
     ToSource ''h1'' 4 SourceAccepted (plain_transition (Some demo_locator)), Loaded ''h1'' 5 demo_ack zero_time,
     Retire ''h1'' 6 RetirementImmediate 1000000000 \<lparr>to_TurnCount = 0, to_LastTurnEndAt = None\<rparr> zero_time, Retired ''h1'' 7 zero_time]"

definition demo_record :: SourceRecord where
  "demo_record = \<lparr>src_Version = 1, src_Manifest = demo_manifest, src_Digest = demo_sha, src_State = SourceQueued, src_Attempts = 0,
     src_NextRetry = None, src_Failure = None, src_TargetLocator = None, src_ContextLoaded = None, src_Retirement = None,
     src_Revision = 1, src_Updated = \<lparr>tm_at = 5, tm_UTC = True\<rparr>\<rparr>"

lemma demo_queue: "QueueSource demo_lib demo_manifest demo_store = (demo_store\<lparr>ho_source := [(''h1.json'', File demo_record)]\<rparr>, Inr (demo_record, False))"
  by (simp add: source_eval demo_record_def)

lemma source_demo_run:
  "\<exists>r x. GetSource demo_lib ''h1'' (store_run demo_lib demo_calls demo_store) = Inr r \<and> src_Retirement r = Some x \<and> sr_State x = RetirementRetired"
  by (simp add: demo_calls_def source_eval GetSource_def)


lemmas target_eval = store_run_def ReceiveTarget_def TransitionTarget_def RecordTargetLaunchLocator_def AcknowledgeTarget_def
  getTargetLocked_def readJSONFile_def Target_validatePath_def TargetRecord_validate_def
  validateStoredManifest_def validateRecordFields_def save_target_def write_target_def writeJSONFile_def
  verifyPrivateDir_def applyTransition_def change_time_def bad_change_time_def utc_now_def zero_time_def target_stored_def
  legalTargetTransition_def validTargetState_def RecordVersion_def plain_transition_def demo_stored demo_store_def Let_def

definition demo_target :: TargetRecord where
  "demo_target = \<lparr>tgt_Version = 1, tgt_Manifest = demo_manifest, tgt_Digest = demo_sha, tgt_State = TargetReceived, tgt_Attempts = 0,
     tgt_NextRetry = None, tgt_Failure = None, tgt_TargetLocator = None, tgt_ContextLoaded = None,
     tgt_Revision = 1, tgt_Updated = \<lparr>tm_at = 5, tm_UTC = True\<rparr>\<rparr>"

definition demo_target_calls :: "call list" where
  "demo_target_calls = [Receive demo_manifest, ToTarget ''h1'' 1 TargetValidating (plain_transition None),
     ToTarget ''h1'' 2 TargetPrepared (plain_transition None), ToTarget ''h1'' 3 TargetLaunching (plain_transition None),
     BindLaunch ''h1'' 4 demo_locator zero_time, ToTarget ''h1'' 5 TargetAccepted (plain_transition None),
     Acknowledge (LaunchMarker demo_lib ''h1'' demo_sha) ContextLoadedPhase ''root'' ''s2'' zero_time]"

lemma demo_marker [simp]: "validLaunchMarker (LaunchMarker demo_lib ''h1'' demo_sha)"
  by (simp add: validLaunchMarker_def LaunchMarker_def launchMarkerPrefix_def demo_lib_def manifest_eval)

lemma demo_target_run:
  "\<exists>r a. GetTarget demo_lib ''h1'' (store_run demo_lib demo_target_calls demo_store) = Inr r \<and> tgt_ContextLoaded r = Some a
     \<and> tgt_Digest r = demo_sha \<and> ca_TargetLocator a = demo_locator"
  by (simp add: demo_target_calls_def target_eval GetTarget_def recordFiles_def isGeneratedHandoffTemp_def has_suffix_def
      Acknowledgement_validate_def) (simp add: demo_locator_def)

section \<open>Properties\<close>

text \<open>
  C11. Whatever calls, clock changes and write faults follow, a source record keeps its manifest and
  digest, its revision only grows, its time never goes back and its states follow legal
  transitions; an accepted or failed record stays so with its locator, a recorded acknowledgement is
  never changed, and a retirement keeps its terms and, once complete, everything.
\<close>

theorem source_record_history:
  assumes "map_of (ho_source s) name = Some (File r)" "source_stored r = r"
  shows "\<exists>r'. map_of (ho_source (store_run lib cs s)) name = Some (File r')
    \<and> (SourceRecord_validate lib r = None \<longrightarrow> SourceRecord_validate lib r' = None)
    \<and> src_Manifest r' = src_Manifest r \<and> src_Digest r' = src_Digest r
    \<and> (r' = r \<or> unat (src_Revision r) < unat (src_Revision r'))
    \<and> tm_at (src_Updated r) \<le> tm_at (src_Updated r')
    \<and> legalSourceTransition\<^sup>*\<^sup>* (src_State r) (src_State r')
    \<and> (src_State r \<in> {SourceAccepted, SourceFailed} \<longrightarrow> src_State r' = src_State r \<and> src_TargetLocator r' = src_TargetLocator r)
    \<and> (src_ContextLoaded r \<noteq> None \<longrightarrow> src_ContextLoaded r' = src_ContextLoaded r)
    \<and> (\<forall>x. src_Retirement r = Some x \<longrightarrow> (\<exists>x'. src_Retirement r' = Some x' \<and> sr_Mode x' = sr_Mode x
         \<and> sr_TimeoutSeconds x' = sr_TimeoutSeconds x \<and> sr_RequestedAt x' = sr_RequestedAt x
         \<and> (sr_State x = RetirementRetired \<longrightarrow> x' = x)))"
proof -
  from assms obtain r' where "map_of (ho_source (store_run lib cs s)) name = Some (File r')" and e: "(source_evolves lib)\<^sup>*\<^sup>* r r'"
    unfolding store_run_def by (rule source_side.run_evolves)
  then show ?thesis using source_evolution [OF e] by (intro exI [of _ r'] conjI impI allI) auto
qed

theorem source_record_history_witness:
  "\<exists>r'. map_of (ho_source (store_run demo_lib (tl demo_calls) (demo_store\<lparr>ho_source := [(''h1.json'', File demo_record)]\<rparr>))) ''h1.json''
         = Some (File r') \<and> src_Manifest r' = demo_manifest"
proof -
  have "source_stored demo_record = demo_record" by (simp add: source_stored_def demo_record_def demo_stored)
  then show ?thesis
    using source_record_history [of "demo_store\<lparr>ho_source := [(''h1.json'', File demo_record)]\<rparr>" "''h1.json''" demo_record demo_lib "tl demo_calls"]
    by (auto simp: demo_record_def)
qed

text \<open>
  The same for a target record: manifest, digest, growing revision, legal states, and once it is
  accepted the session it was launched in and the acknowledgement are fixed.
\<close>

theorem target_record_history:
  assumes "map_of (ho_target s) name = Some (File r)" "target_stored r = r"
  shows "\<exists>r'. map_of (ho_target (store_run lib cs s)) name = Some (File r')
    \<and> (TargetRecord_validate lib r = None \<longrightarrow> TargetRecord_validate lib r' = None)
    \<and> tgt_Manifest r' = tgt_Manifest r \<and> tgt_Digest r' = tgt_Digest r
    \<and> (r' = r \<or> unat (tgt_Revision r) < unat (tgt_Revision r'))
    \<and> tm_at (tgt_Updated r) \<le> tm_at (tgt_Updated r')
    \<and> legalTargetTransition\<^sup>*\<^sup>* (tgt_State r) (tgt_State r')
    \<and> (tgt_State r \<in> {TargetAccepted, TargetRejected} \<longrightarrow> tgt_State r' = tgt_State r
         \<and> (tgt_TargetLocator r \<noteq> None \<longrightarrow> tgt_TargetLocator r' = tgt_TargetLocator r))
    \<and> (tgt_ContextLoaded r \<noteq> None \<longrightarrow> tgt_ContextLoaded r' = tgt_ContextLoaded r)"
proof -
  from assms obtain r' where "map_of (ho_target (store_run lib cs s)) name = Some (File r')" and e: "(target_evolves lib)\<^sup>*\<^sup>* r r'"
    unfolding store_run_def by (rule target_side.run_evolves)
  then show ?thesis using target_evolution [OF e] by (intro exI [of _ r'] conjI impI allI) auto
qed

theorem target_record_history_witness:
  "\<exists>r'. map_of (ho_target (store_run demo_lib demo_target_calls (demo_store\<lparr>ho_target := [(''h1.json'', File demo_target)]\<rparr>))) ''h1.json''
         = Some (File r') \<and> tgt_Manifest r' = demo_manifest"
proof -
  have "target_stored demo_target = demo_target" by (simp add: target_stored_def demo_target_def demo_stored)
  then show ?thesis
    using target_record_history [of "demo_store\<lparr>ho_target := [(''h1.json'', File demo_target)]\<rparr>" "''h1.json''" demo_target demo_lib demo_target_calls]
    by (auto simp: demo_target_def)
qed

text \<open>
  C12. In a store that started without source records, a record that is to be retired was first
  acknowledged, by a call with the record's digest and launch locator, and then requested by a call
  with exactly its mode and timeout; a retired one was also completed, in that order.
\<close>

theorem retirement_needs_acknowledgement:
  assumes "ho_source s = []" "GetSource lib rid (store_run lib cs s) = Inr r" "src_Retirement r = Some x"
  shows "\<exists>v ack tm v' b tm'. src_TargetLocator r = Some (ca_TargetLocator ack) \<and> ca_ManifestDigest ack = src_Digest r
    \<and> subseq [Loaded rid v ack tm, Retire rid v' (sr_Mode x) (sr_TimeoutSeconds x * second_ns) b tm'] cs
    \<and> (sr_State x = RetirementRetired \<longrightarrow>
         (\<exists>v'' tm''. subseq [Loaded rid v ack tm, Retire rid v' (sr_Mode x) (sr_TimeoutSeconds x * second_ns) b tm',
                             Retired rid v'' tm''] cs))"
proof -
  from assms(2) have "getSourceLocked lib (store_run lib cs s) rid = Inr r" by (simp add: GetSource_def)
  then obtain name where n: "recordPath rid = Inr name" "map_of (ho_source (store_run lib cs s)) name = Some (File r)"
    "SourceRecord_validate lib r = None"
    by (rule get_source)
  from valid_source(5) [OF n(3) assms(3)] obtain a where a: "src_ContextLoaded r = Some a" by auto
  note valid_source(4) [OF n(3) a]
  moreover from source_run_traced [OF assms(1) n(2)] a assms(3) obtain rid' v tm v' b tm' where "recordPath rid' = Inr name"
    "subseq [Loaded rid' v a tm, Retire rid' v' (sr_Mode x) (sr_TimeoutSeconds x * second_ns) b tm'] cs"
    "sr_State x = RetirementRetired \<longrightarrow> (\<exists>v'' tm''. subseq [Loaded rid' v a tm,
         Retire rid' v' (sr_Mode x) (sr_TimeoutSeconds x * second_ns) b tm', Retired rid' v'' tm''] cs)"
    unfolding source_traced_def by metis
  ultimately show ?thesis using recordPath_inj [OF n(1)] by metis
qed

theorem retirement_needs_acknowledgement_witness:
  "\<exists>rid v ack tm v' mode t b tm' v'' tm''. subseq [Loaded rid v ack tm, Retire rid v' mode t b tm', Retired rid v'' tm''] demo_calls"
proof -
  obtain r x where "GetSource demo_lib ''h1'' (store_run demo_lib demo_calls demo_store) = Inr r" "src_Retirement r = Some x"
    "sr_State x = RetirementRetired" using source_demo_run by blast
  then show ?thesis using retirement_needs_acknowledgement [of demo_store demo_lib "''h1''" demo_calls r x]
    by (simp add: demo_store_def) blast
qed

text \<open>
  C13. In a store that started without target records, a record carries a context acknowledgement only if
  it is accepted and a call presented exactly its launch marker together with the profile scope and
  session the record was launched in; the acknowledgement names the record's digest and locator.
\<close>

theorem acknowledgement_authentic:
  assumes "ho_target s = []" "GetTarget lib rid (store_run lib cs s) = Inr r" "tgt_ContextLoaded r = Some a"
  shows "tgt_State r = TargetAccepted \<and> ca_ManifestDigest a = tgt_Digest r \<and> tgt_TargetLocator r = Some (ca_TargetLocator a)
    \<and> (\<exists>tm. Acknowledge (LaunchMarker lib rid (tgt_Digest r)) ContextLoadedPhase
               (tl_ProfileScope (ca_TargetLocator a)) (tl_SessionID (ca_TargetLocator a)) tm \<in> set cs)"
proof -
  from assms(2) have "getTargetLocked lib (store_run lib cs s) rid = Inr r" by (simp add: GetTarget_def)
  then obtain name where n: "recordPath rid = Inr name" "map_of (ho_target (store_run lib cs s)) name = Some (File r)"
    "TargetRecord_validate lib r = None" "recordPath (mf_HandoffID (tgt_Manifest r)) = Inr name"
    by (rule get_target)
  from target_run_traced [OF assms(1) n(2)] assms(3) recordPath_inj [OF n(1,4)] valid_target(4) [OF n(3) assms(3)]
  show ?thesis by (auto simp: target_traced_def)
qed

theorem acknowledgement_authentic_witness:
  "\<exists>tm. Acknowledge (LaunchMarker demo_lib ''h1'' demo_sha) ContextLoadedPhase ''root'' ''s2'' tm \<in> set demo_target_calls"
proof -
  obtain r a where "GetTarget demo_lib ''h1'' (store_run demo_lib demo_target_calls demo_store) = Inr r" "tgt_ContextLoaded r = Some a"
    "tgt_Digest r = demo_sha" "ca_TargetLocator a = demo_locator"
    using demo_target_run by blast
  then show ?thesis using acknowledgement_authentic [of demo_store demo_lib "''h1''" demo_target_calls r a]
    by (simp add: demo_store_def demo_locator_def)
qed

text \<open>
  A revision is used at most once: after a source transition that expected it has succeeded, and
  after any further calls, another one that expects the same revision fails and changes nothing.
\<close>

theorem revision_used_once:
  assumes "TransitionSource lib rid v nxt tr s = (s1, Inr r1)"
  shows "\<exists>e. TransitionSource lib rid v nxt' tr' (store_run lib cs s1) = (store_run lib cs s1, Inl e)"
proof -
  from TransitionSource_result [OF assms] obtain name where n: "recordPath rid = Inr name"
    "map_of (ho_source s1) name = Some (File (source_stored r1))" "unat v < unat (src_Revision r1)" by blast
  from n(2) obtain r' where r': "map_of (ho_source (store_run lib cs s1)) name = Some (File r')"
    "(source_evolves lib)\<^sup>*\<^sup>* (source_stored r1) r'"
    unfolding store_run_def by (rule source_side.run_evolves) simp
  then have "src_Revision r' \<noteq> v" using source_evolution(3) [OF r'(2)] n(3) by (auto simp: source_stored_def)
  then show ?thesis using r'(1) n(1)
    by (cases "getSourceLocked lib (store_run lib cs s1) rid") (auto simp: TransitionSource_def elim: get_source)
qed

theorem revision_used_once_witness:
  "\<exists>s1 e. TransitionSource demo_lib ''h1'' 1 SourcePreparingRemote (plain_transition None) s1 = (s1, Inl e)"
proof -
  let ?s = "demo_store\<lparr>ho_source := [(''h1.json'', File demo_record)]\<rparr>"
  obtain r1 s1 where "TransitionSource demo_lib ''h1'' 1 SourceFailed
      ((plain_transition None)\<lparr>tr_Failure := Some \<lparr>fl_Code = FailureInternal, fl_Message = [], fl_Retryable = False, fl_At = demo_time\<rparr>\<rparr>) ?s = (s1, Inr r1)"
    by (simp add: source_eval demo_record_def Failure_validate_def demo_time_def)
  from revision_used_once [OF this, of SourcePreparingRemote "plain_transition None" "[]"] show ?thesis
    by (auto simp: store_run_def)
qed



text \<open>
  No source record is stranded: every listed record is terminal without a pending retirement,
  waits for an explicit launch, or is enumerated as runnable at every time from some moment on.
\<close>

theorem no_stranded_source:
  assumes "ListSource lib s = Inr rs" "r \<in> set rs"
  shows "src_State r = SourceRemotePrepared \<or> src_State r = SourceFailed
    \<or> src_State r = SourceAccepted \<and> (\<forall>x. src_Retirement r = Some x \<longrightarrow> sr_State x = RetirementRetired)
    \<or> (\<exists>from. \<forall>tm. from \<le> tm_at tm \<and> \<not> time_IsZero tm \<longrightarrow> (\<exists>out. RunnableSource lib tm s = Inr out \<and> r \<in> set out))"
proof -
  from assms obtain name where "Source_validatePath lib r name = None"
    unfolding ListSource_def by (auto dest!: map_res_mem)
  then have v: "SourceRecord_validate lib r = None" by (simp add: Source_validatePath_def)
  have listed: "\<exists>out. RunnableSource lib tm s = Inr out \<and> r \<in> set out" if "source_runnable tm r" "\<not> time_IsZero tm" for tm
    using that assms by (simp add: RunnableSource_def)
  have later: ?thesis if "\<And>tm. t \<le> tm_at tm \<Longrightarrow> source_runnable tm r" for t using that listed by blast
  show ?thesis
  proof (cases "src_State r")
    case SourceAccepted
    then show ?thesis using later [of 0] valid_retirement [OF v] by (cases "src_Retirement r") (auto simp: source_runnable_def)
  next
    case SourceRetryWait
    with valid_source(6) [OF v] obtain t where "src_NextRetry r = Some t" by auto
    with SourceRetryWait show ?thesis using later [of "tm_at t"] by (simp add: source_runnable_def due_def)
  next
    case SourceLaunchRetryWait
    with valid_source(6) [OF v] obtain t where "src_NextRetry r = Some t" by auto
    with SourceLaunchRetryWait show ?thesis using later [of "tm_at t"] by (simp add: source_runnable_def due_def)
  next
    case (SourceOther x)
    then show ?thesis using v by (simp add: SourceRecord_validate_def validSourceState_def)
  qed (use later [of 0] in \<open>simp_all add: source_runnable_def\<close>)
qed

theorem no_stranded_source_witness:
  "\<exists>from. \<forall>tm. from \<le> tm_at tm \<and> \<not> time_IsZero tm \<longrightarrow>
     (\<exists>out. RunnableSource demo_lib tm (demo_store\<lparr>ho_source := [(''h1.json'', File demo_record)]\<rparr>) = Inr out \<and> demo_record \<in> set out)"
proof -
  have "ListSource demo_lib (demo_store\<lparr>ho_source := [(''h1.json'', File demo_record)]\<rparr>) = Inr [demo_record]"
    by (simp add: ListSource_def recordFiles_def isGeneratedHandoffTemp_def has_suffix_def source_eval demo_record_def)
  from no_stranded_source [OF this, of demo_record] show ?thesis by (simp add: demo_record_def)
qed


end
