(* ===== verification/Screenstitch.thy ===== *)
theory Screenstitch
  imports Go_Prelude
begin

text \<open>
  Screen stitching (\<open>internal/screenstitch/screenstitch.go\<close>): successive captures of a terminal are merged
  into a transcript that logs each line once. Frames are lists of lines; a line is a byte string.

  \<open>ScrollDelta\<close> ranges over a Go map, whose iteration order is unspecified: the order in which it
  visits the candidate deltas is the argument \<open>visit\<close>, a function from the list of them, and
  \<open>range_order\<close> states what Go promises of it. Nothing else depends on an iteration order.
\<close>

definition AnchorMinLen :: nat where "AnchorMinLen = 12"
definition AnchorMinDistinct :: nat where "AnchorMinDistinct = 6"
definition MinAgreeingAnchors :: nat where "MinAgreeingAnchors = 2"
definition RuleMinLen :: nat where "RuleMinLen = 30"
definition DedupLookback :: nat where "DedupLookback = 200"

section \<open>Lines\<close>

text \<open>The inner loop of \<open>StripUniversal\<close>: what follows the final byte of an escape sequence.\<close>

fun after_csi :: "rune list \<Rightarrow> rune list" where
  "after_csi [] = []"
| "after_csi (n # rs) = (if 64 \<le> n \<and> n \<le> 126 then rs else after_csi rs)"

lemma after_csi_length: "length (after_csi rs) \<le> length rs"
  by (induction rs) auto

function strip_runes :: "rune list \<Rightarrow> rune list" where
  "strip_runes [] = []"
| "strip_runes (c # rs) =
     (if c = 27 then (case rs of [] \<Rightarrow> [] | n # rs' \<Rightarrow> if n = 91 then strip_runes (after_csi rs') else strip_runes rs)
      else c # strip_runes rs)"
  by pat_completeness auto
termination
  by (relation "measure length") (auto intro: le_less_trans [OF after_csi_length])

definition StripUniversal :: "string \<Rightarrow> string" where
  "StripUniversal line = trim_right [CHR '' '', CHR 0x09, CHR 0x0D, CHR 0x0A] (string_of (strip_runes (runes_of line)))"

definition Normalize :: "string \<Rightarrow> string list" where
  "Normalize raw =
     (let ls = split_at (CHR 0x0A) raw;
          ls = (if ls \<noteq> [] \<and> last ls = [] then butlast ls else ls)
      in map StripUniversal ls)"

definition isRule :: "string \<Rightarrow> bool" where
  "isRule line \<longleftrightarrow>
     (let t = runes_of (trim_space line) in RuleMinLen \<le> length t \<and> list_all (\<lambda>c. c = 9472 \<or> c = 32) t)"

definition blank_set :: string where "blank_set = [CHR '' '', CHR 0x09]"

text \<open>The last index below \<open>n\<close>, not below \<open>from\<close>, that satisfies a test.\<close>

fun last_index :: "(nat \<Rightarrow> bool) \<Rightarrow> nat \<Rightarrow> nat \<Rightarrow> nat option" where
  "last_index P from 0 = None"
| "last_index P from (Suc n) = (if n < from then None else if P n then Some n else last_index P from n)"

definition TranscriptRegion :: "string list \<Rightarrow> string list" where
  "TranscriptRegion frame =
     (let prompt = last_index (\<lambda>i. has_prefix (string_of [10095]) (trim_left blank_set (frame ! i))) 0 (length frame);
          cut = (case prompt of
                   Some p \<Rightarrow> (case last_index (\<lambda>i. isRule (frame ! i)) 0 p of Some i \<Rightarrow> i | None \<Rightarrow> p)
                 | None \<Rightarrow>
                     (case last_index (\<lambda>i. isRule (frame ! i)) (length frame * 2 div 3) (length frame) of
                        Some i \<Rightarrow> i | None \<Rightarrow> length frame))
      in take cut frame)"

definition ascii_alnum :: "rune \<Rightarrow> bool" where
  "ascii_alnum c \<longleftrightarrow> 48 \<le> c \<and> c \<le> 57 \<or> 65 \<le> c \<and> c \<le> 90 \<or> 97 \<le> c \<and> c \<le> 122"

definition isAnchor :: "string \<Rightarrow> bool" where
  "isAnchor line \<longleftrightarrow>
     (let t = runes_of (trim_space line)
      in AnchorMinLen \<le> length t \<and> AnchorMinDistinct \<le> length (remdups (map lower_ascii (filter ascii_alnum t))))"

section \<open>Alignment\<close>

text \<open>The map of \<open>uniqueAnchorIndex\<close> as an association list in the order of the frame.\<close>

definition uniqueAnchorIndex :: "string list \<Rightarrow> (string \<times> nat) list" where
  "uniqueAnchorIndex frame =
     filter (\<lambda>(line, i). isAnchor line \<and> count_list frame line = 1) (zip frame [0 ..< length frame])"

text \<open>The votes: for every line that is a unique anchor of both frames, how far it moved up.\<close>

definition votes_of :: "string list \<Rightarrow> string list \<Rightarrow> int list" where
  "votes_of prv cur =
     concat (map (\<lambda>(line, i). case map_of (uniqueAnchorIndex cur) line of None \<Rightarrow> [] | Some j \<Rightarrow> [int i - int j])
       (uniqueAnchorIndex prv))"

type_synonym visit = "int list \<Rightarrow> int list"

definition range_order :: "visit \<Rightarrow> bool" where
  "range_order visit \<longleftrightarrow> (\<forall>ds. distinct ds \<longrightarrow> distinct (visit ds) \<and> set (visit ds) = set ds)"

fun best_vote :: "int list \<Rightarrow> int list \<Rightarrow> int \<times> nat \<Rightarrow> int \<times> nat" where
  "best_vote ds [] best = best"
| "best_vote ds (d # rest) (bestD, bestN) =
     best_vote ds rest (if bestN < count_list ds d then (d, count_list ds d) else (bestD, bestN))"

definition ScrollDelta :: "visit \<Rightarrow> string list \<Rightarrow> string list \<Rightarrow> int \<times> bool \<times> nat" where
  "ScrollDelta visit prv cur =
     (let ds = votes_of prv cur;
          (bestD, bestN) = best_vote ds (visit (remdups ds)) (0, 0)
      in if MinAgreeingAnchors \<le> bestN then (bestD, True, bestN) else (0, False, 0))"

definition NewLines :: "visit \<Rightarrow> string list \<Rightarrow> string list \<Rightarrow> string list" where
  "NewLines visit prv cur =
     (case ScrollDelta visit prv cur of (d, ok, _) \<Rightarrow>
        if \<not> ok then cur
        else if d = 0 then []
        else if 0 < d \<and> d \<le> int (length cur) then drop (length cur - nat d) cur
        else cur)"

section \<open>Volatile lines\<close>

fun common_prefix :: "'a list \<Rightarrow> 'a list \<Rightarrow> nat" where
  "common_prefix (x # xs) (y # ys) = (if x = y then Suc (common_prefix xs ys) else 0)"
| "common_prefix _ _ = 0"

definition section_sign :: rune where "section_sign = 167"

definition MaskVolatile :: "string \<Rightarrow> string \<Rightarrow> string" where
  "MaskVolatile a b =
     (if a = b then a
      else let av = runes_of a; bv = runes_of b;
               p = common_prefix av bv;
               k = common_prefix (rev (drop p av)) (rev (drop p bv))
           in string_of (take p av) @ string_of [section_sign] @ string_of (drop (length av - k) av))"

text \<open>\<open>stableRatio(msk) >= 0.5\<close>: both counts are exact as floats, so the quotient is at least a half exactly when this holds.\<close>

definition stable_half :: "string \<Rightarrow> bool" where
  "stable_half msk \<longleftrightarrow>
     (let t = runes_of msk;
          alnum = length (filter ascii_alnum t);
          nonspace = length (filter (\<lambda>c. \<not> is_space c) t)
      in max 1 nonspace \<le> 2 * alnum)"

definition isStatusUpdate :: "string \<Rightarrow> string \<Rightarrow> bool" where
  "isStatusUpdate prevTail curTail \<longleftrightarrow>
     prevTail \<noteq> curTail
     \<and> (let msk = MaskVolatile prevTail curTail in contains msk (string_of [section_sign]) \<and> stable_half msk)"

definition lastNonblank :: "string list \<Rightarrow> int" where
  "lastNonblank ls = (case last_index (\<lambda>i. trim_space (ls ! i) \<noteq> []) 0 (length ls) of Some i \<Rightarrow> int i | None \<Rightarrow> - 1)"

text \<open>\<open>strings.Cut\<close> at a separator.\<close>

fun cut_at :: "string \<Rightarrow> string \<Rightarrow> string \<Rightarrow> (string \<times> string) option" where
  "cut_at sep before [] = (if sep = [] then Some (before, []) else None)"
| "cut_at sep before (c # s) =
     (if has_prefix sep (c # s) then Some (before, drop (length sep) (c # s)) else cut_at sep (before @ [c]) s)"

definition sameSkeleton :: "string \<Rightarrow> string \<Rightarrow> bool" where
  "sameSkeleton line skeleton =
     (case cut_at (string_of [section_sign]) [] skeleton of
        None \<Rightarrow> False
      | Some (pre, suf) \<Rightarrow>
          let lt = trim_space line;
              p = trim_left blank_set pre;
              s = trim_right blank_set suf
          in (p = [] \<or> has_prefix p lt) \<and> (s = [] \<or> has_suffix s lt)
             \<and> length (runes_of (trim_space pre)) \<le> length (runes_of lt))"

section \<open>The merger\<close>

record Merger =
  mg_prev :: "string list"
  mg_havePrev :: bool
  mg_transcript :: "string list"
  mg_maxLines :: int
  mg_lookback :: nat

definition NewMerger :: "int \<Rightarrow> Merger" where
  "NewMerger maxLines =
     \<lparr>mg_prev = [], mg_havePrev = False, mg_transcript = [], mg_maxLines = maxLines, mg_lookback = DedupLookback\<rparr>"

definition dedupKey :: "string \<Rightarrow> string" where
  "dedupKey s = trim_right blank_set s"

text \<open>The closure \<open>add\<close> on the recent keys and the kept lines, and the loop over the lines given to it.\<close>

definition add_line :: "string \<Rightarrow> string list \<times> string list \<Rightarrow> string list \<times> string list" where
  "add_line l = (\<lambda>(recent, kept).
     let k = dedupKey l in
     if k = [] \<or> k \<in> set recent then (recent, kept) else (k # recent, kept @ [l]))"

text \<open>The aligned diff: line \<open>i\<close> of the new frame sat at \<open>i + d\<close>.\<close>

definition skipped :: "string list \<Rightarrow> int \<Rightarrow> nat \<Rightarrow> string \<Rightarrow> bool" where
  "skipped prv d i l \<longleftrightarrow>
     (let pj = int i + d in
      0 \<le> pj \<and> pj < int (length prv)
      \<and> (dedupKey (prv ! nat pj) = dedupKey l \<or> isStatusUpdate (prv ! nat pj) l))"

definition merge_trim :: "Merger \<Rightarrow> Merger" where
  "merge_trim m =
     (if 0 < mg_maxLines m \<and> mg_maxLines m < int (length (mg_transcript m))
      then m\<lparr>mg_transcript := drop (length (mg_transcript m) - nat (mg_maxLines m)) (mg_transcript m)\<rparr> else m)"

definition new_lines :: "visit \<Rightarrow> Merger \<Rightarrow> string list \<Rightarrow> string list" where
  "new_lines visit m cur =
     (if \<not> mg_havePrev m then cur
      else case ScrollDelta visit (mg_prev m) cur of (d, ok, _) \<Rightarrow>
        if \<not> ok then cur
        else map snd (filter (\<lambda>(i, l). \<not> skipped (mg_prev m) d i l) (zip [0 ..< length cur] cur)))"

definition Ingest :: "visit \<Rightarrow> string \<Rightarrow> Merger \<Rightarrow> Merger \<times> string list" where
  "Ingest visit raw m =
     (let cur = Normalize raw;
          start = length (mg_transcript m) - mg_lookback m;
          recent = map dedupKey (drop start (mg_transcript m));
          kept = snd (fold add_line (new_lines visit m cur) (recent, []));
          m = merge_trim (m\<lparr>mg_transcript := mg_transcript m @ kept\<rparr>)
      in (m\<lparr>mg_prev := cur, mg_havePrev := True\<rparr>, kept))"


text \<open>A line of ASCII text without escape and trailing white space is unchanged.\<close>

lemma strip_runes_plain: "27 \<notin> set rs \<Longrightarrow> strip_runes rs = rs"
  by (induction rs rule: strip_runes.induct) auto

lemma StripUniversal_plain:
  assumes "is_ascii l" "27 \<notin> byte_of ` set l" "last l \<notin> {CHR '' '', CHR 0x09, CHR 0x0D, CHR 0x0A}"
  shows "StripUniversal l = l"
proof -
  have "strip_runes (runes_of l) = runes_of l" using assms(2) by (intro strip_runes_plain) (simp add: runes_of_ascii [OF assms(1)])
  then have "StripUniversal l = trim_right [CHR '' '', CHR 0x09, CHR 0x0D, CHR 0x0A] l"
    using to_valid_utf8_ascii [OF assms(1)] by (simp add: StripUniversal_def to_valid_utf8_def)
  then show ?thesis using assms(3) by (cases l rule: rev_cases) (simp_all add: trim_right_def)
qed

section \<open>The transcript\<close>

text \<open>No two lines at most \<open>w\<close> apart have the same key.\<close>

definition window_distinct :: "nat \<Rightarrow> string list \<Rightarrow> bool" where
  "window_distinct w t \<longleftrightarrow> (\<forall>j < length t. \<forall>i < j. j \<le> i + w \<longrightarrow> dedupKey (t ! i) \<noteq> dedupKey (t ! j))"

lemma window_distinct_drop: "window_distinct w t \<Longrightarrow> window_distinct w (drop n t)"
  by (auto simp: window_distinct_def)

lemma window_distinct_append:
  assumes "window_distinct w t" "distinct (map dedupKey kept)"
    and "set (map dedupKey kept) \<inter> set (map dedupKey (drop (length t - w) t)) = {}"
  shows "window_distinct w (t @ kept)"
  unfolding window_distinct_def
proof (intro allI impI)
  fix j i
  assume j: "j < length (t @ kept)" "i < j" "j \<le> i + w"
  consider "j < length t" | "length t \<le> i" | "i < length t" "length t \<le> j" by linarith
  then show "dedupKey ((t @ kept) ! i) \<noteq> dedupKey ((t @ kept) ! j)"
  proof cases
    case 1
    then show ?thesis using assms(1) j by (simp add: window_distinct_def nth_append)
  next
    case 2
    then have "map dedupKey kept ! (i - length t) \<noteq> map dedupKey kept ! (j - length t)"
      using assms(2) j 2 by (subst nth_eq_iff_index_eq) auto
    with 2 j show ?thesis by (simp add: nth_append)
  next
    case 3
    then have "i - (length t - w) < length (drop (length t - w) t)" "t ! i = drop (length t - w) t ! (i - (length t - w))"
      using j by auto
    then have "t ! i \<in> set (drop (length t - w) t)" by (metis nth_mem)
    moreover have "kept ! (j - length t) \<in> set kept" using 3 j by simp
    ultimately have "dedupKey (t ! i) \<noteq> dedupKey (kept ! (j - length t))" using assms(3) by auto
    with 3 show ?thesis by (simp add: nth_append)
  qed
qed

lemma add_line_apply [simp]:
  "add_line l (recent, kept) = (if dedupKey l = [] \<or> dedupKey l \<in> set recent then (recent, kept) else (dedupKey l # recent, kept @ [l]))"
  by (simp add: add_line_def Let_def)

text \<open>What one pass of \<open>add\<close> over some lines keeps, given the keys it starts from.\<close>

lemma fold_add:
  assumes "fold add_line ls (recent, kept) = (recent', kept')"
  shows "\<exists>new. kept' = kept @ new \<and> set recent' = set recent \<union> set (map dedupKey new)
    \<and> set new \<subseteq> set ls \<and> distinct (map dedupKey new) \<and> [] \<notin> set (map dedupKey new)
    \<and> set (map dedupKey new) \<inter> set recent = {}
    \<and> (\<forall>l \<in> set ls. dedupKey l \<noteq> [] \<longrightarrow> dedupKey l \<in> set recent')"
  using assms
proof (induction ls arbitrary: recent kept)
  case (Cons l ls)
  show ?case
  proof (cases "dedupKey l = [] \<or> dedupKey l \<in> set recent")
    case True
    then have "fold add_line ls (recent, kept) = (recent', kept')" using Cons.prems by simp
    from Cons.IH [OF this] True show ?thesis by auto
  next
    case False
    then have "fold add_line ls (dedupKey l # recent, kept @ [l]) = (recent', kept')"
      using Cons.prems by simp
    from Cons.IH [OF this] obtain new where new: "kept' = (kept @ [l]) @ new" "set recent' = set (dedupKey l # recent) \<union> set (map dedupKey new)"
      "set new \<subseteq> set ls" "distinct (map dedupKey new)" "[] \<notin> set (map dedupKey new)"
      "set (map dedupKey new) \<inter> set (dedupKey l # recent) = {}" "\<forall>l \<in> set ls. dedupKey l \<noteq> [] \<longrightarrow> dedupKey l \<in> set recent'"
      by blast
    then show ?thesis using False by (intro exI [of _ "l # new"]) auto
  qed
qed simp

text \<open>One call of \<open>Ingest\<close>: the lines it keeps, and the state after it.\<close>

lemma Ingest_kept:
  fixes m :: Merger
  assumes "Ingest visit raw m = (m', kept)"
  shows "set kept \<subseteq> set (new_lines visit m (Normalize raw))" "distinct (map dedupKey kept)" "[] \<notin> set (map dedupKey kept)"
    "set (map dedupKey kept) \<inter> set (map dedupKey (drop (length (mg_transcript m) - mg_lookback m) (mg_transcript m))) = {}"
    "l \<in> set (new_lines visit m (Normalize raw)) \<Longrightarrow> dedupKey l \<noteq> [] \<Longrightarrow> dedupKey l \<in> dedupKey ` set (mg_transcript m @ kept)"
    "m' = (merge_trim (m\<lparr>mg_transcript := mg_transcript m @ kept\<rparr>))\<lparr>mg_prev := Normalize raw, mg_havePrev := True\<rparr>"
proof -
  let ?recent = "map dedupKey (drop (length (mg_transcript m) - mg_lookback m) (mg_transcript m))"
  obtain recent' k where f: "fold add_line (new_lines visit m (Normalize raw)) (?recent, []) = (recent', k)" by (cases "fold add_line (new_lines visit m (Normalize raw)) (?recent, [])")
  then have k: "k = kept" and m': "m' = (merge_trim (m\<lparr>mg_transcript := mg_transcript m @ kept\<rparr>))\<lparr>mg_prev := Normalize raw, mg_havePrev := True\<rparr>"
    using assms by (auto simp: Ingest_def Let_def)
  note new = fold_add [OF f, simplified k, simplified]
  then show "set kept \<subseteq> set (new_lines visit m (Normalize raw))" "distinct (map dedupKey kept)" "[] \<notin> set (map dedupKey kept)"
    "set (map dedupKey kept) \<inter> set ?recent = {}" by auto
  show "m' = (merge_trim (m\<lparr>mg_transcript := mg_transcript m @ kept\<rparr>))\<lparr>mg_prev := Normalize raw, mg_havePrev := True\<rparr>" by (rule m')
  show "dedupKey l \<in> dedupKey ` set (mg_transcript m @ kept)" if "l \<in> set (new_lines visit m (Normalize raw))" "dedupKey l \<noteq> []"
  proof -
    from new that have "dedupKey l \<in> dedupKey ` set (drop (length (mg_transcript m) - mg_lookback m) (mg_transcript m)) \<union> dedupKey ` set kept" by auto
    then show ?thesis by (auto dest: in_set_dropD)
  qed
qed

definition merger_ok :: "Merger \<Rightarrow> bool" where
  "merger_ok m \<longleftrightarrow>
     window_distinct (mg_lookback m) (mg_transcript m) \<and> (\<forall>l \<in> set (mg_transcript m). dedupKey l \<noteq> [])
     \<and> (0 < mg_maxLines m \<longrightarrow> int (length (mg_transcript m)) \<le> mg_maxLines m)"

lemma merge_trim_sel [simp]:
  "mg_lookback (merge_trim m) = mg_lookback m" "mg_maxLines (merge_trim m) = mg_maxLines m"
  by (simp_all add: merge_trim_def)

lemma merge_trim_ok:
  assumes "window_distinct (mg_lookback m) (mg_transcript m)" "\<forall>l \<in> set (mg_transcript m). dedupKey l \<noteq> []"
  shows "merger_ok (merge_trim m)"
  using assms window_distinct_drop by (auto simp: merger_ok_def merge_trim_def dest: in_set_dropD)

lemma Ingest_ok:
  assumes "merger_ok m"
  shows "merger_ok (fst (Ingest visit raw m))"
proof -
  obtain m' kept where i: "Ingest visit raw m = (m', kept)" by (cases "Ingest visit raw m")
  note k = Ingest_kept [OF i]
  have "window_distinct (mg_lookback m) (mg_transcript m @ kept)"
    using window_distinct_append [of "mg_lookback m" "mg_transcript m" kept] assms k(2,4) by (simp add: merger_ok_def)
  moreover have "\<forall>l \<in> set (mg_transcript m @ kept). dedupKey l \<noteq> []" using assms k(3) by (auto simp: merger_ok_def) (metis image_eqI)+
  ultimately have "merger_ok (merge_trim (m\<lparr>mg_transcript := mg_transcript m @ kept\<rparr>))" by (intro merge_trim_ok) simp_all
  then show ?thesis using i k(6) by (simp add: merger_ok_def)
qed

text \<open>A run: each capture with the iteration order its alignment happens to use.\<close>

definition ingest_all :: "(visit \<times> string) list \<Rightarrow> Merger \<Rightarrow> Merger" where
  "ingest_all cs m = fold (\<lambda>(visit, raw) m. fst (Ingest visit raw m)) cs m"

lemma ingest_all_ok: "merger_ok m \<Longrightarrow> merger_ok (ingest_all cs m)"
  unfolding ingest_all_def by (induction cs arbitrary: m) (auto simp: Ingest_ok)

lemma ingest_all_keeps [simp]: "mg_lookback (ingest_all cs m) = mg_lookback m" "mg_maxLines (ingest_all cs m) = mg_maxLines m"
  unfolding ingest_all_def by (induction cs arbitrary: m) (auto simp: Ingest_def Let_def)

text \<open>
  C40. Whatever captures a new merger is given, its transcript never holds more than the configured number
  of lines, never a blank line, and never the same line twice within any 201 consecutive lines.
\<close>

theorem transcript_deduplicated:
  "let t = mg_transcript (ingest_all cs (NewMerger maxLines)) in
     (0 < maxLines \<longrightarrow> int (length t) \<le> maxLines) \<and> (\<forall>l \<in> set t. dedupKey l \<noteq> [])
     \<and> (\<forall>j < length t. \<forall>i < j. j \<le> i + DedupLookback \<longrightarrow> dedupKey (t ! i) \<noteq> dedupKey (t ! j))"
  using ingest_all_ok [of "NewMerger maxLines" cs] by (simp add: merger_ok_def window_distinct_def NewMerger_def)

theorem transcript_deduplicated_witness:
  "int (length (mg_transcript (ingest_all [(id, ''one'' @ [CHR 0x0A] @ ''two'')] (NewMerger 1)))) \<le> 1"
  using transcript_deduplicated [of "[(id, ''one'' @ [CHR 0x0A] @ ''two'')]" 1] by (simp add: Let_def)


section \<open>Nothing on the screen is missed\<close>

text \<open>A line and what it becomes: the same up to trailing blanks, or one volatile span changed.\<close>

definition tick_of :: "string \<Rightarrow> string \<Rightarrow> bool" where
  "tick_of p l \<longleftrightarrow> dedupKey p = dedupKey l \<or> isStatusUpdate p l"

lemma section_runes: "runes_of (string_of [section_sign]) = [section_sign]"
  by (rule runes_of_string_of) (simp add: section_sign_def valid_rune_def)

lemma no_update_of_empty: "\<not> isStatusUpdate [] l"
proof -
  have "MaskVolatile [] l = string_of [section_sign]" if "l \<noteq> []"
    using that by (simp add: MaskVolatile_def Let_def string_of_def)
  moreover have "\<not> stable_half (string_of [section_sign])"
    unfolding stable_half_def section_runes Let_def by (simp add: section_sign_def ascii_alnum_def)
  ultimately show ?thesis by (auto simp: isStatusUpdate_def)
qed

lemma StripUniversal_key: "dedupKey (StripUniversal l) = StripUniversal l"
proof (cases "StripUniversal l = []")
  case False
  then have "last (StripUniversal l) \<notin> set blank_set"
    unfolding StripUniversal_def by (auto simp: blank_set_def dest!: trim_right_last)
  with False show ?thesis by (cases "StripUniversal l" rule: rev_cases) (simp_all add: dedupKey_def trim_right_def)
qed (simp add: dedupKey_def trim_right_def)

lemma Normalize_key: "l \<in> set (Normalize raw) \<Longrightarrow> dedupKey l = l"
  by (auto simp: Normalize_def Let_def StripUniversal_key split: if_splits)

lemma new_lines_missed:
  assumes "l \<in> set cur" "l \<notin> set (new_lines visit m cur)"
  obtains i d where "i < length cur" "l = cur ! i" "skipped (mg_prev m) d i l"
proof -
  obtain i where i: "i < length cur" "l = cur ! i" using assms(1) by (auto simp: in_set_conv_nth)
  then have z: "(i, l) \<in> set (zip [0 ..< length cur] cur)" by (auto simp: in_set_zip intro!: exI [of _ i])
  obtain d ok n where sd: "ScrollDelta visit (mg_prev m) cur = (d, ok, n)" by (cases "ScrollDelta visit (mg_prev m) cur")
  then have d: "mg_havePrev m" "ScrollDelta visit (mg_prev m) cur = (d, True, n)"
    using assms by (auto simp: new_lines_def split: if_splits)
  have "skipped (mg_prev m) d i l"
  proof (rule ccontr)
    assume "\<not> skipped (mg_prev m) d i l"
    with z have "(i, l) \<in> set (filter (\<lambda>(i, l). \<not> skipped (mg_prev m) d i l) (zip [0 ..< length cur] cur))" by simp
    then have "snd (i, l) \<in> snd ` set (filter (\<lambda>(i, l). \<not> skipped (mg_prev m) d i l) (zip [0 ..< length cur] cur))" by (rule imageI)
    with assms(2) d show False by (simp add: new_lines_def)
  qed
  with i that show thesis by blast
qed

lemma screen_logged:
  assumes "\<forall>l \<in> set (mg_prev m). dedupKey l \<noteq> [] \<longrightarrow> (\<exists>l0 \<in> set (mg_transcript m). tick_of\<^sup>*\<^sup>* l0 l)"
    and "\<forall>l \<in> set (mg_prev m). dedupKey l = [] \<longrightarrow> l = []" "mg_maxLines m \<le> 0"
    and "Ingest visit raw m = (m', kept)"
  shows "\<forall>l \<in> set (mg_prev m'). dedupKey l \<noteq> [] \<longrightarrow> (\<exists>l0 \<in> set (mg_transcript m'). tick_of\<^sup>*\<^sup>* l0 l)"
proof (intro ballI impI)
  fix l assume l: "l \<in> set (mg_prev m')" "dedupKey l \<noteq> []"
  note k = Ingest_kept [OF assms(4)]
  have t: "mg_transcript m' = mg_transcript m @ kept" and cur: "l \<in> set (Normalize raw)"
    using k(6) assms(3) l(1) by (simp_all add: merge_trim_def)
  show "\<exists>l0 \<in> set (mg_transcript m'). tick_of\<^sup>*\<^sup>* l0 l"
  proof (cases "l \<in> set (new_lines visit m (Normalize raw))")
    case True
    from k(5) [OF this l(2)] obtain l0 where "l0 \<in> set (mg_transcript m')" "dedupKey l = dedupKey l0" unfolding t by auto
    then have "tick_of l0 l" by (simp add: tick_of_def)
    with \<open>l0 \<in> set (mg_transcript m')\<close> show ?thesis by blast
  next
    case False
    with cur obtain i d where "skipped (mg_prev m) d i l" by (rule new_lines_missed)
    then obtain p where p: "p \<in> set (mg_prev m)" "tick_of p l"
      unfolding skipped_def tick_of_def Let_def by (metis nat_less_iff nth_mem)
    then have "dedupKey p \<noteq> []" using assms(2) l(2) no_update_of_empty by (auto simp: tick_of_def)
    with assms(1) p obtain l0 where "l0 \<in> set (mg_transcript m)" "tick_of\<^sup>*\<^sup>* l0 p" by blast
    then show ?thesis using p(2) unfolding t by (metis UnI1 rtranclp.rtrancl_into_rtrancl set_append)
  qed
qed


text \<open>
  With an unbounded transcript, after any captures every non-blank line of the last screen is a logged
  line or came from one by steps that each changed only trailing blanks or one volatile span.
\<close>

theorem screen_never_missed:
  assumes "maxLines \<le> 0" "l \<in> set (mg_prev (ingest_all cs (NewMerger maxLines)))" "dedupKey l \<noteq> []"
  shows "\<exists>l0 \<in> set (mg_transcript (ingest_all cs (NewMerger maxLines))). tick_of\<^sup>*\<^sup>* l0 l"
proof -
  have "(\<forall>l \<in> set (mg_prev (ingest_all cs m)). dedupKey l = l \<and>
           (dedupKey l \<noteq> [] \<longrightarrow> (\<exists>l0 \<in> set (mg_transcript (ingest_all cs m)). tick_of\<^sup>*\<^sup>* l0 l)))"
    if "\<forall>l \<in> set (mg_prev m). dedupKey l = l \<and> (dedupKey l \<noteq> [] \<longrightarrow> (\<exists>l0 \<in> set (mg_transcript m). tick_of\<^sup>*\<^sup>* l0 l))"
      "mg_maxLines m \<le> 0" for m :: Merger
    using that
  proof (induction cs arbitrary: m)
    case (Cons c cs)
    obtain visit raw m' kept where c: "c = (visit, raw)" "Ingest visit raw m = (m', kept)" by (cases c; cases "Ingest (fst c) (snd c) m") auto
    have "\<forall>l \<in> set (mg_prev m'). dedupKey l \<noteq> [] \<longrightarrow> (\<exists>l0 \<in> set (mg_transcript m'). tick_of\<^sup>*\<^sup>* l0 l)"
      by (rule screen_logged [OF _ _ Cons.prems(2) c(2)]) (use Cons.prems(1) in auto)
    moreover have "\<forall>l \<in> set (mg_prev m'). dedupKey l = l" "mg_maxLines m' \<le> 0"
      using Ingest_kept(6) [OF c(2)] Cons.prems(2) Normalize_key by simp_all
    ultimately have "\<forall>l \<in> set (mg_prev (ingest_all cs m')). dedupKey l = l \<and>
           (dedupKey l \<noteq> [] \<longrightarrow> (\<exists>l0 \<in> set (mg_transcript (ingest_all cs m')). tick_of\<^sup>*\<^sup>* l0 l))"
      by (intro Cons.IH) auto
    then show ?case using c by (simp add: ingest_all_def)
  qed (simp add: ingest_all_def)
  from this [of "NewMerger maxLines"] assms show ?thesis by (simp add: NewMerger_def)
qed

theorem screen_never_missed_witness:
  "\<exists>l0 \<in> set (mg_transcript (ingest_all [(id, ''ab'')] (NewMerger 0))). tick_of\<^sup>*\<^sup>* l0 ''ab''"
proof -
  have "Normalize ''ab'' = [''ab'']"
    by (simp add: Normalize_def StripUniversal_plain is_ascii_def byte_of_def)
  then have "mg_prev (ingest_all [(id, ''ab'')] (NewMerger 0)) = [''ab'']" by (simp add: ingest_all_def Ingest_def Let_def)
  then show ?thesis using screen_never_missed [of 0 "''ab''" "[(id, ''ab'')]"]
    by (simp add: dedupKey_def trim_right_def blank_set_def)
qed

section \<open>A screen that does not change\<close>

lemma unique_anchor_mem: "(line, i) \<in> set (uniqueAnchorIndex frame) \<longleftrightarrow>
    i < length frame \<and> frame ! i = line \<and> isAnchor line \<and> count_list frame line = 1"
  by (auto simp: uniqueAnchorIndex_def in_set_zip)

lemma unique_anchor_map: "(line, i) \<in> set (uniqueAnchorIndex frame) \<Longrightarrow> map_of (uniqueAnchorIndex frame) line = Some i"
proof -
  assume i: "(line, i) \<in> set (uniqueAnchorIndex frame)"
  then have "card {k. k < length frame \<and> line = frame ! k} = 1"
    by (simp add: unique_anchor_mem count_list_eq_length_filter length_filter_conv_card)
  then obtain k where k: "{k. k < length frame \<and> line = frame ! k} = {k}" by (auto simp: card_1_singleton_iff)
  from i obtain j where j: "map_of (uniqueAnchorIndex frame) line = Some j" by (metis weak_map_of_SomeI)
  from i map_of_SomeD [OF j] have "i \<in> {k}" "j \<in> {k}" unfolding k [symmetric] by (auto simp: unique_anchor_mem)
  with j show "map_of (uniqueAnchorIndex frame) line = Some i" by simp
qed

lemma votes_of_self: "votes_of frame frame = replicate (length (uniqueAnchorIndex frame)) 0"
proof -
  have m: "map (\<lambda>(line, i). case map_of (uniqueAnchorIndex frame) line of None \<Rightarrow> [] | Some j \<Rightarrow> [int i - int j]) (uniqueAnchorIndex frame)
      = map (\<lambda>_. [0]) (uniqueAnchorIndex frame)"
    by (rule map_cong) (auto simp: unique_anchor_map)
  have "concat (map (\<lambda>_. [0 :: int]) xs) = replicate (length xs) 0" for xs :: "(string \<times> nat) list" by (induction xs) auto
  then show ?thesis unfolding votes_of_def m .
qed

lemma ScrollDelta_self:
  assumes "range_order visit" "MinAgreeingAnchors \<le> length (uniqueAnchorIndex frame)"
  shows "ScrollDelta visit frame frame = (0, True, length (uniqueAnchorIndex frame))"
proof -
  let ?n = "length (uniqueAnchorIndex frame)"
  have n: "0 < ?n" using assms(2) unfolding MinAgreeingAnchors_def by linarith
  have "0 < k \<Longrightarrow> remdups (replicate k (0 :: int)) = [0]" for k by (induction k) auto
  with n have "remdups (replicate ?n (0 :: int)) = [0]" by blast
  moreover have "visit [0] = [0]"
  proof -
    have "distinct (visit [0])" "set (visit [0]) = {0}" using assms(1) by (simp_all add: range_order_def)
    then show ?thesis by (cases "visit [0]" rule: remdups_adj.cases) auto
  qed
  moreover have "count_list (replicate k (0 :: int)) 0 = k" for k by (induction k) auto
  ultimately show ?thesis using n assms(2) by (simp add: ScrollDelta_def votes_of_self Let_def)
qed

text \<open>
  A screen that shows at least two recognisable lines and does not change adds nothing: the second of
  two equal captures appends no line and leaves the transcript as it is.
\<close>

theorem unchanged_screen_silent:
  assumes "range_order visit'" "MinAgreeingAnchors \<le> length (uniqueAnchorIndex (Normalize raw))"
  shows "let m1 = fst (Ingest visit raw m) in snd (Ingest visit' raw m1) = []
    \<and> mg_transcript (fst (Ingest visit' raw m1)) = mg_transcript m1"
proof -
  obtain m1 kept where i: "Ingest visit raw m = (m1, kept)" by (cases "Ingest visit raw m")
  let ?f = "Normalize raw"
  from Ingest_kept(6) [OF i] have m1: "mg_prev m1 = ?f" "mg_havePrev m1"
    and short: "0 < mg_maxLines m1 \<longrightarrow> int (length (mg_transcript m1)) \<le> mg_maxLines m1"
    by (auto simp: merge_trim_def)
  have "skipped ?f 0 k l" if "(k, l) \<in> set (zip [0 ..< length ?f] ?f)" for k l
    using that by (auto simp: in_set_zip skipped_def)
  then have "new_lines visit' m1 ?f = []"
    using m1 ScrollDelta_self [OF assms] by (auto simp: new_lines_def filter_empty_conv)
  moreover obtain m2 kept2 where i2: "Ingest visit' raw m1 = (m2, kept2)" by (cases "Ingest visit' raw m1")
  ultimately have "kept2 = []" using Ingest_kept(1) [OF i2] by simp
  moreover from this have "mg_transcript m2 = mg_transcript m1" using Ingest_kept(6) [OF i2] short by (auto simp: merge_trim_def)
  ultimately show ?thesis using i i2 by simp
qed

theorem unchanged_screen_silent_witness:
  "snd (Ingest id (''abcdefghijkl'' @ [CHR 0x0A] @ ''abcdefghijkm'') (fst (Ingest id (''abcdefghijkl'' @ [CHR 0x0A] @ ''abcdefghijkm'') (NewMerger 0)))) = []"
proof -
  let ?raw = "''abcdefghijkl'' @ [CHR 0x0A] @ ''abcdefghijkm''"
  have n: "Normalize ?raw = [''abcdefghijkl'', ''abcdefghijkm'']"
    by (simp add: Normalize_def StripUniversal_plain is_ascii_def byte_of_def)
  have "isAnchor ''abcdefghijkl''" "isAnchor ''abcdefghijkm''"
    by (simp_all add: isAnchor_def ascii_eval AnchorMinLen_def AnchorMinDistinct_def ascii_alnum_def lower_ascii_def)
  then have "MinAgreeingAnchors \<le> length (uniqueAnchorIndex (Normalize ?raw))"
    unfolding n by (simp add: uniqueAnchorIndex_def MinAgreeingAnchors_def)
  moreover have "range_order id" by (simp add: range_order_def)
  ultimately show ?thesis using unchanged_screen_silent [of id ?raw id "NewMerger 0"] by (simp add: Let_def)
qed

end
