(* ===== verification/Session_View.thy ===== *)
theory Session_View
  imports Session Hooks Safetext "HOL-Library.Product_Lexorder"
begin

text \<open>
  The safe view of local sessions (\<open>internal/sessionview/sessionview.go\<close>) and the catalog that builds it
  (\<open>internal/daemon/session_catalog.go\<close>). The view is an allowlist: what of a session and its hook document
  reaches it is what \<open>Build\<close> copies, and \<open>view_independent\<close> states what does not.

  Text fields pass three substitutions by regular expressions, written in the syntax of \<open>Safetext\<close>. Each of them
  has, for a given start, a unique decomposition up to its last repetition, so the match Go reports
  is the longest one; matches are replaced from left to right.
\<close>

section \<open>Locators\<close>

definition LocatorVersion :: int where "LocatorVersion = 1"
definition View_RootProfileScope :: string where "View_RootProfileScope = ''root''"
definition View_maxGoalRunes :: nat where "View_maxGoalRunes = 1024"
definition maxOverallGoalRunes :: nat where "maxOverallGoalRunes = 4096"
definition maxCurrentWorkRunes :: nat where "maxCurrentWorkRunes = 240"
definition maxSourceRunes :: nat where "maxSourceRunes = 128"
definition maxCWDRunes :: nat where "maxCWDRunes = 4096"

datatype view_error = ViewInvalid string

definition profileNamePattern :: "string \<Rightarrow> bool" where
  "profileNamePattern s \<longleftrightarrow>
     (let lowdig = (\<lambda>c. is_lower_char c \<or> is_digit c) in
      s \<noteq> [] \<and> lowdig (hd s) \<and> lowdig (last s) \<and> length s \<le> 63
      \<and> list_all (\<lambda>c. lowdig c \<or> c \<in> set ''_-'') s)"

definition sessionIDPattern :: "string \<Rightarrow> bool" where
  "sessionIDPattern s = id_shape is_alnum (\<lambda>c. is_alnum c \<or> c \<in> set ''._:-'') 255 s"

definition View_NamedProfileScope :: "string \<Rightarrow> view_error + string" where
  "View_NamedProfileScope n = (if profileNamePattern n then Inr (''profile:'' @ n) else Inl (ViewInvalid ''profile name''))"

definition ProfileName :: "string \<Rightarrow> string option" where
  "ProfileName s = (if has_prefix ''profile:'' s \<and> profileNamePattern (drop 8 s) then Some (drop 8 s) else None)"

definition Scope_Validate :: "string \<Rightarrow> view_error option" where
  "Scope_Validate s =
     (if s = View_RootProfileScope then None
      else fail_if (\<not> (has_prefix ''profile:'' s \<and> profileNamePattern (drop 8 s))) (ViewInvalid ''profile scope''))"

record Locator =
  lc_Version :: int
  lc_ProfileScope :: string
  lc_SessionID :: string

definition View_Locator_Validate :: "Locator \<Rightarrow> view_error option" where
  "View_Locator_Validate l =
     first_err [fail_if (lc_Version l \<noteq> LocatorVersion) (ViewInvalid ''locator version''),
                Scope_Validate (lc_ProfileScope l),
                fail_if (\<not> sessionIDPattern (lc_SessionID l)) (ViewInvalid ''session id'')]"

definition NewLocator :: "string \<Rightarrow> string \<Rightarrow> view_error + Locator" where
  "NewLocator scope sid =
     (let l = \<lparr>lc_Version = LocatorVersion, lc_ProfileScope = scope, lc_SessionID = sid\<rparr>
      in check_res (View_Locator_Validate l) (Inr l))"

section \<open>Text\<close>

definition secret_keyword :: re where
  "secret_keyword =
     alts [seqs [ilit ''api'', wide_sep, ilit ''key''], seqs [ilit ''access'', wide_sep, ilit ''token''],
           seqs [ilit ''auth'', wide_sep, ilit ''token''], ilit ''password'', ilit ''secret'']"

definition secretAssignment :: re where
  "secretAssignment =
     seqs [Boundary, secret_keyword, Many 0 re_space, One (among '':=''), Many 0 re_space,
           Many 1 (\<lambda>r. \<not> re_space r \<and> r \<noteq> 44 \<and> r \<noteq> 59)]"

definition bearerToken :: re where
  "bearerToken =
     seqs [Boundary, ilit ''bearer'', Many 1 re_space,
           Many 8 (ci (\<lambda>r. range_of (CHR ''a'') (CHR ''z'') r \<or> range_of (CHR ''0'') (CHR ''9'') r \<or> among ''._~+/=-'' r))]"

definition commonToken :: re where
  "commonToken =
     seqs [Boundary, alts [lit ''sk'', lit ''ghp'', lit ''github_pat'', seqs [lit ''xox'', One (among ''baprs'')]],
           One (among ''-_''), Many 8 (alnum_or ''_-''), Boundary]"

text \<open>\<open>ReplaceAllString\<close>: \<open>n\<close> bounds the runes still to be read; the match at a position is the longest.\<close>

fun replace_from :: "re \<Rightarrow> (rune list \<Rightarrow> nat \<Rightarrow> rune list) \<Rightarrow> rune list \<Rightarrow> nat \<Rightarrow> nat \<Rightarrow> rune list" where
  "replace_from r repl s 0 i = drop i s"
| "replace_from r repl s (Suc n) i =
     (if i \<ge> length s then []
      else let js = filter (\<lambda>j. i < j) (ends r s i) in
        if js = [] then s ! i # replace_from r repl s n (Suc i)
        else repl s i @ replace_from r repl s n (Max (set js)))"

definition ReplaceAllString :: "re \<Rightarrow> (rune list \<Rightarrow> nat \<Rightarrow> rune list) \<Rightarrow> rune list \<Rightarrow> rune list" where
  "ReplaceAllString r repl s = replace_from r repl s (length s) 0"

definition ascii_runes :: "string \<Rightarrow> rune list" where "ascii_runes s = map byte_of s"

text \<open>The first group of \<open>secretAssignment\<close> at a match that starts at \<open>i\<close>.\<close>

definition keyword_at :: "rune list \<Rightarrow> nat \<Rightarrow> rune list" where
  "keyword_at s i = (case ends secret_keyword s i of [] \<Rightarrow> [] | j # _ \<Rightarrow> take (j - i) (drop i s))"

definition cleanControlText :: "string \<Rightarrow> string" where
  "cleanControlText v = string_of (filter (\<lambda>r. r = 10 \<or> r = 9 \<or> 32 \<le> r) (runes_of v))"

definition boundText :: "string \<Rightarrow> nat \<Rightarrow> string" where
  "boundText v n = (if length (runes_of v) \<le> n then v else string_of (take n (runes_of v)))"

definition cleanText :: "string \<Rightarrow> nat \<Rightarrow> string" where
  "cleanText v n =
     (let t = runes_of (cleanControlText v);
          t = ReplaceAllString secretAssignment (\<lambda>s i. keyword_at s i @ ascii_runes ''=[REDACTED]'') t;
          t = ReplaceAllString bearerToken (\<lambda>_ _. ascii_runes ''Bearer [REDACTED]'') t;
          t = ReplaceAllString commonToken (\<lambda>_ _. ascii_runes ''[REDACTED]'') t
      in boundText (string_of t) n)"

definition cleanBoundedText :: "string \<Rightarrow> nat \<Rightarrow> string" where
  "cleanBoundedText v n = boundText (cleanControlText v) n"

definition safeHistoryBasename :: "string \<Rightarrow> string" where
  "safeHistoryBasename p =
     (let p = trim_space p in
      if p = [] then []
      else let b = path_base p in
        if b = ''.'' \<or> b = ''/'' \<or> b = [] then [] else cleanText b 255)"

section \<open>The view\<close>

record Freshness_View =
  fv_ObservedAt :: time
  fv_SourceUpdatedAt :: time

record WorkSummary =
  ws_Goal :: string
  ws_OverallGoal :: string
  ws_LatestAsk :: string
  ws_Source :: string
  ws_UpdatedAt :: time

record CurrentWorkSummary =
  cw_Summary :: string
  cw_Provenance :: string
  cw_UpdatedAt :: time

record HistoryReference =
  hf_Basename :: string
  hf_Provenance :: string
  hf_UpdatedAt :: time

record Summary =
  sv_Locator :: Locator
  sv_Name :: string
  sv_Agent :: string
  sv_Transport :: string
  sv_LaunchCWD :: string
  sv_OwnerID :: string
  sv_State :: string
  sv_Health :: string
  sv_StartedAt :: time
  sv_LastActivityAt :: time
  sv_IdleSince :: "time option"
  sv_WorkingSince :: "time option"
  sv_CurrentWork :: "CurrentWorkSummary option"
  sv_Work :: "WorkSummary option"
  sv_History :: "HistoryReference option"
  sv_Freshness :: Freshness_View
  sv_Private :: bool

record TurnActivity =
  ta_TurnCount :: int
  ta_EventsSeen :: int
  ta_LastPromptSubmitAt :: "time option"
  ta_LastTurnEndAt :: "time option"

record Detail =
  dt_Summary :: Summary
  dt_NudgeCount :: int
  dt_Turn :: "TurnActivity option"

definition state_string :: "State \<Rightarrow> string" where
  "state_string st =
     (case st of StateStarting \<Rightarrow> ''starting'' | StateHandshaking \<Rightarrow> ''handshaking'' | StateIdle \<Rightarrow> ''idle''
      | StateWorking \<Rightarrow> ''working'' | StateStuck \<Rightarrow> ''stuck'' | StateEscalated \<Rightarrow> ''escalated''
      | StateExited \<Rightarrow> ''exited'' | StateFailed \<Rightarrow> ''failed'')"

definition nonZeroTime :: "time \<Rightarrow> time option" where
  "nonZeroTime t = (if IsZero t then None else Some t)"

definition NormalizeCurrentWork :: "CurrentWorkSummary option \<Rightarrow> view_error + CurrentWorkSummary option" where
  "NormalizeCurrentWork v =
     (case v of
        None \<Rightarrow> Inr None
      | Some c \<Rightarrow>
          if cw_Provenance c \<noteq> OverallGoalSummarizerProvenance then Inl (ViewInvalid ''current-work provenance'')
          else if IsZero (cw_UpdatedAt c) then Inl (ViewInvalid ''current-work updated_at'')
          else
            let raw = join_with '' '' (split_fields (cw_Summary c));
                normalized = cleanControlText raw
            in if ContainsCredentialLike raw \<or> ContainsCredentialLike normalized
               then Inl (ViewInvalid ''current-work credential'')
               else let summary = boundText normalized maxCurrentWorkRunes in
                 if trim_space summary = [] then Inl (ViewInvalid ''current-work summary'')
                 else Inr (Some \<lparr>cw_Summary = summary, cw_Provenance = cw_Provenance c, cw_UpdatedAt = cw_UpdatedAt c\<rparr>))"

definition CanonicalHistoryReference :: "SessionState option \<Rightarrow> HistoryReference option" where
  "CanonicalHistoryReference h =
     (case h of
        None \<Rightarrow> None
      | Some st \<Rightarrow>
          (case hs_TurnContract st of
             None \<Rightarrow> None
           | Some tc \<Rightarrow>
               (case tc_CanonicalHistory tc of
                  None \<Rightarrow> None
                | Some b \<Rightarrow>
                    if chb_Provenance b = CanonicalHistoryBindingProvenance \<and> \<not> IsZero (chb_UpdatedAt b) \<and> chb_ConversationID b \<noteq> []
                       \<and> safeHistoryBasename (chb_Basename b) = chb_Basename b
                    then Some \<lparr>hf_Basename = chb_Basename b, hf_Provenance = chb_Provenance b, hf_UpdatedAt = chb_UpdatedAt b\<rparr>
                    else None)))"

definition base_summary :: "Locator \<Rightarrow> Snapshot \<Rightarrow> time \<Rightarrow> Summary" where
  "base_summary locator snap observedAt =
     \<lparr>sv_Locator = locator, sv_Name = cleanText (snap_Name snap) maxSourceRunes, sv_Agent = cleanText (snap_Agent snap) maxSourceRunes,
      sv_Transport = cleanText (snap_Transport snap) maxSourceRunes, sv_LaunchCWD = cleanText (snap_CWD snap) maxCWDRunes,
      sv_OwnerID = cleanText (snap_OwnerID snap) View_maxGoalRunes, sv_State = state_string (snap_State snap),
      sv_Health = cleanText (snap_Health snap) maxSourceRunes, sv_StartedAt = snap_StartedAt snap,
      sv_LastActivityAt = snap_LastActivityAt snap, sv_IdleSince = snap_IdleSince snap, sv_WorkingSince = snap_WorkingSince snap,
      sv_CurrentWork = None, sv_Work = None, sv_History = None,
      sv_Freshness = \<lparr>fv_ObservedAt = observedAt, fv_SourceUpdatedAt = snap_LastActivityAt snap\<rparr>, sv_Private = snap_Private snap\<rparr>"

definition contract_summary :: "SessionState \<Rightarrow> TurnContract \<Rightarrow> Summary \<Rightarrow> Summary" where
  "contract_summary st tc summary =
     (let work = \<lparr>ws_Goal = cleanText (tc_Goal tc) View_maxGoalRunes, ws_OverallGoal = cleanText (tc_OverallGoal tc) maxOverallGoalRunes,
                  ws_LatestAsk = [], ws_Source = cleanText (tc_Source tc) maxSourceRunes, ws_UpdatedAt = tc_UpdatedAt tc\<rparr>;
          summary = (if ws_Goal work \<noteq> [] \<or> ws_OverallGoal work \<noteq> [] \<or> ws_Source work \<noteq> [] \<or> \<not> IsZero (ws_UpdatedAt work)
                     then summary\<lparr>sv_Work := Some work\<rparr> else summary);
          summary = (if tc_OverallGoalProvenance tc = OverallGoalSummarizerProvenance
                     then (case NormalizeCurrentWork (Some \<lparr>cw_Summary = tc_OverallGoal tc, cw_Provenance = tc_OverallGoalProvenance tc,
                                                            cw_UpdatedAt = tc_OverallGoalUpdatedAt tc\<rparr>) of
                             Inl _ \<Rightarrow> summary | Inr cur \<Rightarrow> summary\<lparr>sv_CurrentWork := cur\<rparr>)
                     else summary)
      in summary\<lparr>sv_History := CanonicalHistoryReference (Some st)\<rparr>)"

definition Build :: "string \<Rightarrow> Snapshot \<Rightarrow> SessionState option \<Rightarrow> time \<Rightarrow> view_error + (Summary \<times> Detail)" where
  "Build scope snap hookState observedAt =
     bind_res (NewLocator scope (snap_ID snap)) (\<lambda>locator.
       let summary = base_summary locator snap observedAt in
       case hookState of
         None \<Rightarrow> Inr (summary, \<lparr>dt_Summary = summary, dt_NudgeCount = snap_NudgeCount snap, dt_Turn = None\<rparr>)
       | Some st \<Rightarrow>
           let summary = (if fv_SourceUpdatedAt (sv_Freshness summary) < hs_UpdatedAt st
                          then summary\<lparr>sv_Freshness := (sv_Freshness summary)\<lparr>fv_SourceUpdatedAt := hs_UpdatedAt st\<rparr>\<rparr> else summary);
               summary = (case hs_TurnContract st of None \<Rightarrow> summary | Some tc \<Rightarrow> contract_summary st tc summary)
           in Inr (summary,
                   \<lparr>dt_Summary = summary, dt_NudgeCount = snap_NudgeCount snap,
                    dt_Turn = Some \<lparr>ta_TurnCount = hs_TurnCount st, ta_EventsSeen = hs_EventsSeen st,
                      ta_LastPromptSubmitAt = nonZeroTime (hs_LastPromptSubmitAt st),
                      ta_LastTurnEndAt = nonZeroTime (hs_LastTurnEndAt st)\<rparr>\<rparr>))"

text \<open>\<open>Sort\<close>; locators of a catalog are distinct, so the order of equal ones does not matter.\<close>

definition Sort_View :: "Summary list \<Rightarrow> Summary list" where
  "Sort_View = sort_key (\<lambda>s. (lc_ProfileScope (sv_Locator s), lc_SessionID (sv_Locator s)))"

section \<open>The catalog\<close>

text \<open>A daemon as the catalog sees it: its sessions by identifier, its hook documents, its children.\<close>

record catalog_daemon =
  cd_sessions :: "(string \<times> Session) list"
  cd_hooks :: hook_dir

record catalog_root =
  cr_daemon :: catalog_daemon
  cr_ProfileName :: string
  cr_children :: "(string \<times> catalog_daemon) list"

definition sources :: "catalog_root \<Rightarrow> (string \<times> catalog_daemon) list" where
  "sources c =
     (if cr_ProfileName c \<noteq> [] then
        (case View_NamedProfileScope (cr_ProfileName c) of Inl _ \<Rightarrow> [] | Inr scope \<Rightarrow> [(scope, cr_daemon c)])
      else (View_RootProfileScope, cr_daemon c)
           # concat (map (\<lambda>(n, d). case View_NamedProfileScope n of Inl _ \<Rightarrow> [] | Inr scope \<Rightarrow> [(scope, d)]) (cr_children c)))"

definition hook_state :: "catalog_daemon \<Rightarrow> string \<Rightarrow> SessionState option" where
  "hook_state d sid = (case ReadSessionState (cd_hooks d) sid of Inl _ \<Rightarrow> None | Inr h \<Rightarrow> h)"

definition Catalog_List :: "catalog_root \<Rightarrow> time \<Rightarrow> Summary list" where
  "Catalog_List c observedAt =
     Sort_View (concat (map (\<lambda>(scope, d).
       concat (map (\<lambda>(_, managed).
         let snap = Session_Snapshot managed in
         case Build scope snap (hook_state d (snap_ID snap)) observedAt of
           Inl _ \<Rightarrow> [] | Inr (summary, _) \<Rightarrow> [summary]) (cd_sessions d))) (sources c)))"

definition catalog_source :: "catalog_root \<Rightarrow> string \<Rightarrow> catalog_daemon option" where
  "catalog_source c scope =
     (if scope = View_RootProfileScope then (if cr_ProfileName c \<noteq> [] then None else Some (cr_daemon c))
      else case ProfileName scope of
        None \<Rightarrow> None
      | Some n \<Rightarrow>
          if cr_ProfileName c \<noteq> [] then (if cr_ProfileName c = n then Some (cr_daemon c) else None)
          else map_of (cr_children c) n)"

definition Catalog_Get :: "catalog_root \<Rightarrow> Locator \<Rightarrow> time \<Rightarrow> Detail option" where
  "Catalog_Get c locator now =
     (if View_Locator_Validate locator \<noteq> None then None
      else case catalog_source c (lc_ProfileScope locator) of
        None \<Rightarrow> None
      | Some d \<Rightarrow>
          (case map_of (cd_sessions d) (lc_SessionID locator) of
             None \<Rightarrow> None
           | Some managed \<Rightarrow>
               let snap = Session_Snapshot managed in
               case Build (lc_ProfileScope locator) snap (hook_state d (snap_ID snap)) now of
                 Inl _ \<Rightarrow> None | Inr (_, detail) \<Rightarrow> Some detail))"


section \<open>What the view depends on\<close>

text \<open>Two hook documents that differ only in raw prompts, paths and bookkeeping.\<close>

definition same_public_contract :: "TurnContract \<Rightarrow> TurnContract \<Rightarrow> bool" where
  "same_public_contract a b \<longleftrightarrow>
     tc_Goal a = tc_Goal b \<and> tc_OverallGoal a = tc_OverallGoal b \<and> tc_OverallGoalProvenance a = tc_OverallGoalProvenance b
     \<and> tc_OverallGoalUpdatedAt a = tc_OverallGoalUpdatedAt b \<and> tc_CanonicalHistory a = tc_CanonicalHistory b
     \<and> tc_Source a = tc_Source b \<and> tc_UpdatedAt a = tc_UpdatedAt b"

definition same_public_state :: "SessionState option \<Rightarrow> SessionState option \<Rightarrow> bool" where
  "same_public_state a b \<longleftrightarrow>
     rel_option (\<lambda>a b. hs_UpdatedAt a = hs_UpdatedAt b \<and> hs_TurnCount a = hs_TurnCount b \<and> hs_EventsSeen a = hs_EventsSeen b
       \<and> hs_LastPromptSubmitAt a = hs_LastPromptSubmitAt b \<and> hs_LastTurnEndAt a = hs_LastTurnEndAt b
       \<and> rel_option same_public_contract (hs_TurnContract a) (hs_TurnContract b)) a b"

definition same_public_snapshot :: "Snapshot \<Rightarrow> Snapshot \<Rightarrow> bool" where
  "same_public_snapshot a b \<longleftrightarrow>
     (\<exists>env tname target cmd backend pid close.
        b = a\<lparr>snap_Env := env, snap_TmuxSessionName := tname, snap_TmuxTarget := target, snap_CurrentCommand := cmd,
              snap_BackendSessionID := backend, snap_PID := pid, snap_AutoClose := close\<rparr>)"

lemma contract_summary_independent:
  assumes "same_public_contract tc tc'" "hs_TurnContract st = Some tc" "hs_TurnContract st' = Some tc'"
  shows "contract_summary st tc s = contract_summary st' tc' s"
  using assms by (simp add: contract_summary_def same_public_contract_def CanonicalHistoryReference_def Let_def)

lemma view_independent:
  assumes "same_public_snapshot snap snap'" "same_public_state h h'"
  shows "Build scope snap h now = Build scope snap' h' now"
proof -
  from assms(1) have b: "base_summary l snap now = base_summary l snap' now" "snap_ID snap' = snap_ID snap" "snap_NudgeCount snap' = snap_NudgeCount snap" for l
    by (auto simp: same_public_snapshot_def base_summary_def)
  show ?thesis
  proof (cases h)
    case None
    with assms(2) b show ?thesis by (simp add: Build_def same_public_state_def)
  next
    case (Some st)
    with assms(2) obtain st' where st': "h' = Some st'" "hs_UpdatedAt st = hs_UpdatedAt st'" "hs_TurnCount st = hs_TurnCount st'"
      "hs_EventsSeen st = hs_EventsSeen st'" "hs_LastPromptSubmitAt st = hs_LastPromptSubmitAt st'" "hs_LastTurnEndAt st = hs_LastTurnEndAt st'"
      "rel_option same_public_contract (hs_TurnContract st) (hs_TurnContract st')"
      by (cases h') (auto simp: same_public_state_def)
    have c: "(case hs_TurnContract st of None \<Rightarrow> s | Some tc \<Rightarrow> contract_summary st tc s)
           = (case hs_TurnContract st' of None \<Rightarrow> s | Some tc \<Rightarrow> contract_summary st' tc s)" for s
      using st'(7) contract_summary_independent by (cases "hs_TurnContract st"; cases "hs_TurnContract st'") auto
    show ?thesis by (simp only: Build_def Let_def Some st' b c option.case)
  qed
qed

section \<open>Current work\<close>

text \<open>A field of \<open>strings.Fields\<close> has no ASCII white space.\<close>

lemma space_char: "byte_of c \<in> {9, 10, 11, 12, 13, 32} \<Longrightarrow> space_width (c # s) \<noteq> 0"
  by (auto simp: space_width_ascii)

lemma fields_from_all:
  assumes "f \<in> set (fields_from cur s)" "list_all P cur" "\<And>c s. space_width (c # s) = 0 \<Longrightarrow> P c"
  shows "list_all P f"
  using assms(1,2)
proof (induction cur s rule: fields_from.induct)
  case (1 cur)
  then show ?case by (simp add: list_all_iff split: if_splits)
next
  case (2 cur c s)
  show ?case
  proof (cases "space_width (c # s) = 0")
    case True
    with 2 assms(3) show ?thesis by simp
  next
    case False
    have "f \<in> set (fields_from [] (drop (space_width (c # s) - 1) s)) \<or> f = cur"
      using 2(3) False by (cases "cur = []") auto
    with 2(2) [OF False] 2(4) show ?thesis by (auto simp: list_all_iff)
  qed
qed

lemma fields_from_nonspace:
  assumes "f \<in> set (split_fields s)" "c \<in> set f"
  shows "byte_of c \<notin> {9, 10, 11, 12, 13, 32}"
proof -
  have "list_all (\<lambda>c. byte_of c \<notin> {9, 10, 11, 12, 13, 32}) f"
    using assms(1) space_char unfolding split_fields_def by (intro fields_from_all [of f "[]" s]) (simp, simp, blast)
  with assms(2) show ?thesis by (simp add: list_all_iff)
qed

lemma join_with_set: "set (join_with d ls) \<subseteq> set d \<union> \<Union> (set ` set ls)"
  by (induction d ls rule: join_with.induct) auto

lemma runes_boundText: "runes_of (boundText v n) = take n (runes_of v)"
proof -
  have "list_all valid_rune (take n (runes_of v))" using runes_of_valid [of v] by (auto simp: list_all_iff dest: in_set_takeD)
  then show ?thesis by (simp add: boundText_def runes_of_string_of)
qed

lemma runes_cleanControlText: "runes_of (cleanControlText t) = filter (\<lambda>r. r = 10 \<or> r = 9 \<or> 32 \<le> r) (runes_of t)"
  unfolding cleanControlText_def using runes_of_valid [of t] by (intro runes_of_string_of) (auto simp: list_all_iff)

lemma current_work_one_line:
  assumes "r \<in> set (runes_of (cleanControlText (join_with '' '' (split_fields v))))"
  shows "32 \<le> r"
proof (rule ccontr)
  assume "\<not> 32 \<le> r"
  then have low: "r < 32" by simp
  have r: "r \<in> {9, 10}" "r \<in> set (runes_of (join_with '' '' (split_fields v)))"
    using assms low by (auto simp: runes_cleanControlText)
  then have "r \<in> set (map byte_of (join_with '' '' (split_fields v)))"
    unfolding runes_of_def using decode_low low by (metis less_trans numeral_less_iff semiring_norm(76,78))
  then obtain c where c: "c \<in> set (join_with '' '' (split_fields v))" "byte_of c = r" by auto
  with join_with_set [of "'' ''" "split_fields v"] have "c = CHR '' '' \<or> (\<exists>f \<in> set (split_fields v). c \<in> set f)" by auto
  then show False
  proof
    assume "c = CHR '' ''"
    with c(2) r(1) show False by (simp add: byte_of_def)
  next
    assume "\<exists>f \<in> set (split_fields v). c \<in> set f"
    with c(2) r(1) show False using fields_from_nonspace by blast
  qed
qed

lemma contract_summary_work:
  "sv_CurrentWork (contract_summary st tc s) =
     (if tc_OverallGoalProvenance tc = OverallGoalSummarizerProvenance
      then (case NormalizeCurrentWork (Some \<lparr>cw_Summary = tc_OverallGoal tc, cw_Provenance = tc_OverallGoalProvenance tc,
                                              cw_UpdatedAt = tc_OverallGoalUpdatedAt tc\<rparr>) of
              Inl _ \<Rightarrow> sv_CurrentWork s | Inr cur \<Rightarrow> cur)
      else sv_CurrentWork s)"
  by (simp add: contract_summary_def Let_def split: sum.split)

lemma Build_contract:
  assumes "Build scope snap h now = Inr (summary, detail)"
  shows "(h = None \<or> map_option hs_TurnContract h = Some None) \<and> sv_CurrentWork summary = None
    \<or> (\<exists>st tc s. h = Some st \<and> hs_TurnContract st = Some tc \<and> summary = contract_summary st tc s \<and> sv_CurrentWork s = None)"
  using assms by (cases h; cases "hs_TurnContract (the h)") (auto simp: Build_def Let_def base_summary_def simp del: split_paired_Ex)

text \<open>
  Work text reaches the view only from the summarizer: it carries its provenance and time, is one line of
  at most 240 runes, not blank, and is the beginning of the whole normalised summary, in which the
  credential screen finds nothing.
\<close>

theorem current_work_safe:
  assumes "Build scope snap h now = Inr (summary, detail)" "sv_CurrentWork summary = Some w"
  shows "\<exists>tc full. map_option hs_TurnContract h = Some (Some tc) \<and> tc_OverallGoalProvenance tc = OverallGoalSummarizerProvenance
    \<and> cw_Provenance w = OverallGoalSummarizerProvenance \<and> cw_UpdatedAt w = tc_OverallGoalUpdatedAt tc \<and> \<not> IsZero (cw_UpdatedAt w)
    \<and> full = cleanControlText (join_with '' '' (split_fields (tc_OverallGoal tc))) \<and> \<not> ContainsCredentialLike full
    \<and> runes_of (cw_Summary w) = take maxCurrentWorkRunes (runes_of full)
    \<and> list_all (\<lambda>r. 32 \<le> r) (runes_of (cw_Summary w)) \<and> trim_space (cw_Summary w) \<noteq> []"
proof -
  from assms obtain st tc where h: "h = Some st" "hs_TurnContract st = Some tc" "tc_OverallGoalProvenance tc = OverallGoalSummarizerProvenance"
    and n: "NormalizeCurrentWork (Some \<lparr>cw_Summary = tc_OverallGoal tc, cw_Provenance = tc_OverallGoalProvenance tc,
              cw_UpdatedAt = tc_OverallGoalUpdatedAt tc\<rparr>) = Inr (Some w)"
    using Build_contract [OF assms(1)] by (auto simp: contract_summary_work split: if_splits sum.splits)
  let ?full = "cleanControlText (join_with '' '' (split_fields (tc_OverallGoal tc)))"
  from n have w: "cw_Provenance w = OverallGoalSummarizerProvenance" "cw_UpdatedAt w = tc_OverallGoalUpdatedAt tc" "\<not> IsZero (cw_UpdatedAt w)"
    "cw_Summary w = boundText ?full maxCurrentWorkRunes" "\<not> ContainsCredentialLike ?full" "trim_space (cw_Summary w) \<noteq> []"
    by (auto simp: NormalizeCurrentWork_def Let_def h(3) split: if_splits)
  have "list_all (\<lambda>r. 32 \<le> r) (runes_of (cw_Summary w))"
    unfolding w(4) runes_boundText list_all_iff using current_work_one_line by (auto dest: in_set_takeD)
  with w h show ?thesis by (intro exI [of _ tc] exI [of _ ?full]) (simp add: runes_boundText)
qed

theorem current_work_safe_witness:
  "\<exists>w tc full. tc = empty_contract\<lparr>tc_OverallGoal := ''fix'', tc_OverallGoalProvenance := OverallGoalSummarizerProvenance, tc_OverallGoalUpdatedAt := 5\<rparr>
     \<and> sv_CurrentWork (fst (projr (Build ''root'' (Session_Snapshot (NewSession ''s1'' [] [] [] 1)) (Some (empty_state\<lparr>hs_TurnContract := Some tc\<rparr>)) 9))) = Some w
     \<and> cw_UpdatedAt w = tc_OverallGoalUpdatedAt tc
     \<and> full = cleanControlText (join_with '' '' (split_fields (tc_OverallGoal tc))) \<and> \<not> ContainsCredentialLike full
     \<and> list_all (\<lambda>r. 32 \<le> r) (runes_of (cw_Summary w))"
proof -
  let ?tc = "empty_contract\<lparr>tc_OverallGoal := ''fix'', tc_OverallGoalProvenance := OverallGoalSummarizerProvenance, tc_OverallGoalUpdatedAt := 5\<rparr>"
  let ?h = "Some (empty_state\<lparr>hs_TurnContract := Some ?tc\<rparr>)"
  let ?snap = "Session_Snapshot (NewSession ''s1'' [] [] [] 1)"
  let ?w = "\<lparr>cw_Summary = ''fix'', cw_Provenance = OverallGoalSummarizerProvenance, cw_UpdatedAt = 5\<rparr>"
  have c: "cleanControlText ''fix'' = ''fix''" by (simp add: cleanControlText_def ascii_eval char_of_eq_iff)
  have f: "split_fields ''fix'' = [''fix'']" by (simp add: ascii_eval)
  have r: "runes_of ''fix'' = [102, 105, 120]" by (simp add: ascii_eval)
  have "\<not> ContainsCredentialLike ''fix''" using credential_length [of "''fix''"] r by auto
  moreover have "trim_space ''fix'' = ''fix''" by (simp add: ascii_eval)
  ultimately have n: "NormalizeCurrentWork (Some ?w) = Inr (Some ?w)"
    by (simp add: NormalizeCurrentWork_def Let_def f c r boundText_def maxCurrentWorkRunes_def)
  have l: "NewLocator ''root'' ''s1'' = Inr \<lparr>lc_Version = 1, lc_ProfileScope = ''root'', lc_SessionID = ''s1''\<rparr>"
    by (simp add: NewLocator_def View_Locator_Validate_def LocatorVersion_def Scope_Validate_def View_RootProfileScope_def sessionIDPattern_def
        id_shape_def is_alnum_def is_lower_char_def is_upper_char_def is_digit_def byte_of_def)
  obtain summary detail where b: "Build ''root'' ?snap ?h 9 = Inr (summary, detail)" "summary = contract_summary (the ?h) ?tc (base_summary \<lparr>lc_Version = 1, lc_ProfileScope = ''root'', lc_SessionID = ''s1''\<rparr> ?snap 9)"
    by (simp add: Build_def l Session_Snapshot_def NewSession_def bind_res_def Let_def base_summary_def empty_state_def)
  have w: "sv_CurrentWork summary = Some ?w"
    unfolding b(2) contract_summary_work using n by (simp add: empty_contract_def base_summary_def)
  show ?thesis using current_work_safe [OF b(1) w] b(1) w by (intro exI [of _ ?w] exI [of _ ?tc]) (auto simp: empty_state_def)
qed

section \<open>Listing and lookup agree\<close>

text \<open>A catalog as the daemon keeps it: sessions and profile daemons are maps, and a session is stored under its identifier.\<close>

definition keyed_daemon :: "catalog_daemon \<Rightarrow> bool" where
  "keyed_daemon d \<longleftrightarrow> distinct (map fst (cd_sessions d)) \<and> list_all (\<lambda>(k, v). k = sess_ID v) (cd_sessions d)"

definition keyed_catalog :: "catalog_root \<Rightarrow> bool" where
  "keyed_catalog c \<longleftrightarrow> keyed_daemon (cr_daemon c) \<and> distinct (map fst (cr_children c)) \<and> list_all (keyed_daemon \<circ> snd) (cr_children c)"

lemma prefix_split: "has_prefix p s \<Longrightarrow> s = p @ drop (length p) s"
  unfolding has_prefix_def by (metis append_take_drop_id)

lemma profile_scope: "ProfileName scope = Some n \<Longrightarrow> scope = ''profile:'' @ n"
  using prefix_split [of "''profile:''" scope] by (auto simp: ProfileName_def eval_nat_numeral split: if_splits)

lemma profile_name: "ProfileName (''profile:'' @ n) = (if profileNamePattern n then Some n else None)"
  by (simp add: ProfileName_def has_prefix_def)

lemma named_scope: "View_NamedProfileScope n = Inr scope \<longleftrightarrow> ProfileName scope = Some n"
  using profile_name [of n] profile_scope [of scope n] by (auto simp: View_NamedProfileScope_def split: if_splits)

lemma root_scope: "ProfileName View_RootProfileScope = None"
  by (simp add: ProfileName_def View_RootProfileScope_def has_prefix_def)

lemma valid_scope: "Scope_Validate scope = None \<longleftrightarrow> scope = View_RootProfileScope \<or> (\<exists>n. ProfileName scope = Some n)"
  by (auto simp: Scope_Validate_def ProfileName_def)

lemma source_scope:
  "(scope, d) \<in> set (case View_NamedProfileScope n of Inl _ \<Rightarrow> [] | Inr sc \<Rightarrow> [(sc, e)]) \<longleftrightarrow> ProfileName scope = Some n \<and> d = e"
  unfolding named_scope [symmetric] by (auto split: sum.split)

lemma sources_iff:
  assumes "keyed_catalog c"
  shows "(scope, d) \<in> set (sources c) \<longleftrightarrow> Scope_Validate scope = None \<and> catalog_source c scope = Some d"
proof (cases "cr_ProfileName c = []")
  case True
  have "(scope, d) \<in> set (sources c) \<longleftrightarrow>
      scope = View_RootProfileScope \<and> d = cr_daemon c \<or> (\<exists>n. (n, d) \<in> set (cr_children c) \<and> ProfileName scope = Some n)"
    unfolding sources_def using True source_scope by (simp add: split_beta) fastforce
  also have "\<dots> \<longleftrightarrow> Scope_Validate scope = None \<and> catalog_source c scope = Some d"
    using assms True by (auto simp: valid_scope catalog_source_def root_scope keyed_catalog_def split: option.splits)
  finally show ?thesis .
next
  case False
  then have "(scope, d) \<in> set (sources c) \<longleftrightarrow> ProfileName scope = Some (cr_ProfileName c) \<and> d = cr_daemon c"
    unfolding sources_def by (simp only: source_scope if_True not_False_eq_True)
  also have "\<dots> \<longleftrightarrow> Scope_Validate scope = None \<and> catalog_source c scope = Some d"
    using False by (auto simp: valid_scope catalog_source_def root_scope split: option.splits if_splits)
  finally show ?thesis .
qed

lemma contract_summary_locator: "sv_Locator (contract_summary st tc s) = sv_Locator s"
  by (simp add: contract_summary_def Let_def split: sum.split)

lemma Build_summary:
  assumes "Build scope snap h now = Inr (summary, detail)"
  shows "NewLocator scope (snap_ID snap) = Inr (sv_Locator summary) \<and> dt_Summary detail = summary"
  using assms by (cases h; cases "hs_TurnContract (the h)")
    (auto simp: Build_def Let_def base_summary_def contract_summary_locator bind_res_def split: sum.splits)

lemma NewLocator_result:
  "NewLocator scope sid = Inr l \<longleftrightarrow> lc_ProfileScope l = scope \<and> lc_SessionID l = sid \<and> View_Locator_Validate l = None"
  by (cases l) (auto simp: NewLocator_def check_res_def View_Locator_Validate_def Let_def split: option.splits)

text \<open>What the daemon of a scope answers for a session.\<close>

definition entry :: "catalog_root \<Rightarrow> string \<Rightarrow> string \<Rightarrow> time \<Rightarrow> (Summary \<times> Detail) option" where
  "entry c scope sid now =
     (case catalog_source c scope of None \<Rightarrow> None | Some d \<Rightarrow>
       (case map_of (cd_sessions d) sid of None \<Rightarrow> None | Some managed \<Rightarrow>
         (case Build scope (Session_Snapshot managed) (hook_state d sid) now of Inl _ \<Rightarrow> None | Inr r \<Rightarrow> Some r)))"

lemma snap_id: "snap_ID (Session_Snapshot m) = sess_ID m"
  by (simp add: Session_Snapshot_def)

lemma keyed_source:
  assumes "keyed_catalog c" "catalog_source c scope = Some d"
  shows "keyed_daemon d"
proof -
  have "d = cr_daemon c \<or> (\<exists>n. map_of (cr_children c) n = Some d)"
    using assms(2) by (auto simp: catalog_source_def split: if_splits option.splits)
  then show ?thesis using assms(1) by (auto simp: keyed_catalog_def list_all_iff dest: map_of_SomeD)
qed

lemma keyed_lookup:
  assumes "keyed_daemon d"
  shows "(k, m) \<in> set (cd_sessions d) \<longleftrightarrow> map_of (cd_sessions d) k = Some m" "map_of (cd_sessions d) k = Some m \<Longrightarrow> sess_ID m = k"
  using assms by (auto simp: keyed_daemon_def list_all_iff dest: map_of_SomeD)

lemma entry_some:
  assumes "keyed_catalog c"
  shows "entry c scope sid now = Some (s, detail) \<longleftrightarrow>
    (\<exists>d m. catalog_source c scope = Some d \<and> (sid, m) \<in> set (cd_sessions d) \<and> sess_ID m = sid
       \<and> Build scope (Session_Snapshot m) (hook_state d (snap_ID (Session_Snapshot m))) now = Inr (s, detail))"
proof (cases "catalog_source c scope")
  case None
  then show ?thesis by (simp add: entry_def)
next
  case (Some d)
  note k = keyed_lookup [OF keyed_source [OF assms Some]]
  show ?thesis
  proof (cases "map_of (cd_sessions d) sid")
    case None
    then show ?thesis using Some by (simp add: entry_def k(1))
  next
    case m: (Some m)
    from k(2) [OF this] Some m show ?thesis by (auto simp: entry_def k(1) snap_id split: sum.split)
  qed
qed

lemma summary_of_build: "s \<in> set (case b of Inl _ \<Rightarrow> [] | Inr (x, _) \<Rightarrow> [x]) \<longleftrightarrow> (\<exists>d. b = Inr (s, d))"
  by (auto split: sum.split)

lemma catalog_member:
  assumes "keyed_catalog c"
  shows "s \<in> set (Catalog_List c now) \<longleftrightarrow> (\<exists>scope sid detail. Scope_Validate scope = None \<and> entry c scope sid now = Some (s, detail))"
proof -
  have "s \<in> set (Catalog_List c now) \<longleftrightarrow>
      (\<exists>scope d k m detail. (scope, d) \<in> set (sources c) \<and> (k, m) \<in> set (cd_sessions d)
         \<and> Build scope (Session_Snapshot m) (hook_state d (snap_ID (Session_Snapshot m))) now = Inr (s, detail))"
    by (simp add: Catalog_List_def Sort_View_def Let_def split_beta Bex_def summary_of_build) metis
  then show ?thesis unfolding sources_iff [OF assms] entry_some [OF assms]
    using keyed_source [OF assms] keyed_lookup by metis
qed

lemma catalog_get:
  assumes "keyed_catalog c"
  shows "Catalog_Get c l now = Some detail \<longleftrightarrow>
    View_Locator_Validate l = None \<and> (\<exists>s. entry c (lc_ProfileScope l) (lc_SessionID l) now = Some (s, detail))"
proof (cases "catalog_source c (lc_ProfileScope l)")
  case None
  then show ?thesis by (simp add: entry_def Catalog_Get_def)
next
  case (Some d)
  note k = keyed_lookup [OF keyed_source [OF assms Some]]
  show ?thesis
  proof (cases "map_of (cd_sessions d) (lc_SessionID l)")
    case None
    then show ?thesis using Some by (simp add: entry_def Catalog_Get_def)
  next
    case m: (Some m)
    from k(2) [OF this] Some m show ?thesis by (auto simp: entry_def Catalog_Get_def Let_def snap_id split: sum.split)
  qed
qed

lemma entry_locator:
  assumes "keyed_catalog c" "entry c scope sid now = Some (s, detail)"
  shows "lc_ProfileScope (sv_Locator s) = scope" "lc_SessionID (sv_Locator s) = sid" "View_Locator_Validate (sv_Locator s) = None" "dt_Summary detail = s"
  using assms(2) unfolding entry_some [OF assms(1)]
  by (auto dest!: Build_summary simp: NewLocator_result snap_id)

lemma locator_eq:
  assumes "View_Locator_Validate l = None" "View_Locator_Validate m = None" "lc_ProfileScope l = lc_ProfileScope m" "lc_SessionID l = lc_SessionID m"
  shows "l = m"
  using assms by (cases l; cases m) (simp add: View_Locator_Validate_def)

text \<open>
  A session is listed exactly when looking up its locator finds it, with the summary the list has, and every
  detail that a lookup finds is listed under the locator asked for.
\<close>

theorem catalog_coherent:
  assumes "keyed_catalog c"
  shows "(s \<in> set (Catalog_List c now) \<longleftrightarrow> (\<exists>detail. Catalog_Get c (sv_Locator s) now = Some detail \<and> dt_Summary detail = s))
    \<and> (Catalog_Get c l now = Some detail \<longrightarrow> dt_Summary detail \<in> set (Catalog_List c now) \<and> sv_Locator (dt_Summary detail) = l)"
proof -
  note e = entry_locator [OF assms]
  have scope: "View_Locator_Validate l = None \<Longrightarrow> Scope_Validate (lc_ProfileScope l) = None" for l
    by (simp add: View_Locator_Validate_def)
  show ?thesis unfolding catalog_member [OF assms] catalog_get [OF assms]
    by (intro conjI iffI impI) (metis e scope locator_eq)+
qed

theorem catalog_coherent_witness:
  "\<exists>detail. Catalog_Get \<lparr>cr_daemon = \<lparr>cd_sessions = [(''s1'', NewSession ''s1'' [] [] [] 1)], cd_hooks = \<lparr>hd_live = Map.empty, hd_archived = Map.empty, hd_fault = None\<rparr>\<rparr>,
         cr_ProfileName = [], cr_children = []\<rparr> \<lparr>lc_Version = 1, lc_ProfileScope = ''root'', lc_SessionID = ''s1''\<rparr> 9 = Some detail
     \<and> dt_Summary detail \<in> set (Catalog_List \<lparr>cr_daemon = \<lparr>cd_sessions = [(''s1'', NewSession ''s1'' [] [] [] 1)],
           cd_hooks = \<lparr>hd_live = Map.empty, hd_archived = Map.empty, hd_fault = None\<rparr>\<rparr>, cr_ProfileName = [], cr_children = []\<rparr> 9)"
proof -
  let ?l = "\<lparr>lc_Version = 1, lc_ProfileScope = ''root'', lc_SessionID = ''s1''\<rparr>"
  let ?c = "\<lparr>cr_daemon = \<lparr>cd_sessions = [(''s1'', NewSession ''s1'' [] [] [] 1)], cd_hooks = \<lparr>hd_live = Map.empty, hd_archived = Map.empty, hd_fault = None\<rparr>\<rparr>,
         cr_ProfileName = [], cr_children = []\<rparr>"
  have k: "keyed_catalog ?c" by (simp add: keyed_catalog_def keyed_daemon_def NewSession_def)
  have "View_Locator_Validate ?l = None"
    by (simp add: View_Locator_Validate_def LocatorVersion_def Scope_Validate_def View_RootProfileScope_def sessionIDPattern_def
        id_shape_def is_alnum_def is_lower_char_def is_upper_char_def is_digit_def byte_of_def)
  moreover from this have "NewLocator ''root'' ''s1'' = Inr ?l" by (simp add: NewLocator_result)
  moreover have "hook_state (cr_daemon ?c) ''s1'' = None" by (simp add: hook_state_def ReadSessionState_def)
  ultimately obtain detail where d: "Catalog_Get ?c ?l 9 = Some detail"
    by (simp add: Catalog_Get_def catalog_source_def View_RootProfileScope_def Build_def bind_res_def Let_def snap_id NewSession_def)
  then show ?thesis using catalog_coherent [OF k] by blast
qed

end
