(* ===== verification/Mesh_Export.thy ===== *)
theory Mesh_Export
  imports Session_View Mesh_Types
begin

text \<open>
  What a daemon tells its mesh peers about its sessions, and what it accepts from them
  (\<open>internal/daemon/mesh_application.go\<close>, from \<open>localMeshProfileScopes\<close> to \<open>authorizeMeshTopics\<close>, with
  \<open>localMeshSessions\<close>, the handler of \<open>sessions.get\<close>, \<open>forwardMeshSessionEvent\<close> and the artifact references).

  The home directory (\<open>os.UserHomeDir\<close>) and the clock are arguments. An error about a timestamp does not name
  its field: the code checks the fields in the order of a Go map, which is not determined.
\<close>

datatype export_error =
    ExportView view_error
  | AgentStateRequired
  | BadTimestamp
  | NegativeCounter
  | UnsupportedTopic string
  | PermissionDenied string
  | SessionNotFound
  | LocatorMismatch
  | NoSourceCursor
  | StateError mesh_error

definition view_res :: "view_error + 'a \<Rightarrow> export_error + 'a" where
  "view_res r = map_sum ExportView id r"

section \<open>Paths\<close>

text \<open>\<open>filepath.Rel\<close> to an absolute target: both are cleaned and the common elements dropped.\<close>

definition path_elems :: "string \<Rightarrow> string list" where
  "path_elems p = filter (\<lambda>e. e \<noteq> []) (split_at (CHR ''/'') p)"

fun drop_common :: "'a list \<Rightarrow> 'a list \<Rightarrow> 'a list \<times> 'a list" where
  "drop_common (x # xs) (y # ys) = (if x = y then drop_common xs ys else (x # xs, y # ys))"
| "drop_common xs ys = (xs, ys)"

definition path_rel :: "string \<Rightarrow> string \<Rightarrow> string option" where
  "path_rel base targ =
     (let b = path_clean base; t = path_clean targ in
      if t = b then Some ''.''
      else if \<not> has_prefix ''/'' b then None
      else let (up, down) = drop_common (path_elems b) (path_elems t) in
        Some (join_with ''/'' (replicate (length up) ''..'' @ down)))"

definition escapes :: "string \<Rightarrow> bool" where
  "escapes rel \<longleftrightarrow> rel = ''..'' \<or> has_prefix ''../'' rel"

definition meshPathHint :: "string option \<Rightarrow> string \<Rightarrow> string" where
  "meshPathHint home value =
     (if value = [] then []
      else if \<not> has_prefix ''/'' value then []
      else case home of
        None \<Rightarrow> []
      | Some h \<Rightarrow>
          (case path_rel h value of
             None \<Rightarrow> []
           | Some rel \<Rightarrow> if escapes rel then [] else if rel = ''.'' then ''~'' else path_join [''~'', rel]))"

section \<open>Sanitizing\<close>

definition meshSessionNameRunes :: nat where "meshSessionNameRunes = 128"
definition meshSessionFieldRunes :: nat where "meshSessionFieldRunes = 128"
definition meshSessionCWDRunes :: nat where "meshSessionCWDRunes = 4096"
definition meshSessionOwnerRunes :: nat where "meshSessionOwnerRunes = 256"

definition hour_ns :: time where "hour_ns = 3600 * 1000000000"

text \<open>The first instant of the year 2000, from the zero time at the start of the year 1.\<close>

definition year_2000 :: time where "year_2000 = 63082281600 * 1000000000"

definition meshCleanText :: "string \<Rightarrow> nat \<Rightarrow> string" where
  "meshCleanText value n =
     (let value = string_of (filter (\<lambda>r. \<not> is_control r \<and> r \<noteq> RuneError) (runes_of value))
      in if length (runes_of value) \<le> n then value else string_of (take n (runes_of value)))"

definition validateMeshTimestamp :: "time \<Rightarrow> time \<Rightarrow> export_error option" where
  "validateMeshTimestamp value now =
     first_err [fail_if (IsZero value) BadTimestamp,
                fail_if (value < year_2000 \<or> now + 24 * hour_ns < value) BadTimestamp]"

definition optional_timestamp :: "time option \<Rightarrow> time \<Rightarrow> export_error option" where
  "optional_timestamp v now = (case v of None \<Rightarrow> None | Some t \<Rightarrow> validateMeshTimestamp t now)"

definition clean_summary :: "Summary \<Rightarrow> Summary" where
  "clean_summary s =
     s\<lparr>sv_Name := meshCleanText (sv_Name s) meshSessionNameRunes, sv_Agent := meshCleanText (sv_Agent s) meshSessionFieldRunes,
       sv_Transport := meshCleanText (sv_Transport s) meshSessionFieldRunes, sv_LaunchCWD := meshCleanText (sv_LaunchCWD s) meshSessionCWDRunes,
       sv_OwnerID := meshCleanText (sv_OwnerID s) meshSessionOwnerRunes, sv_State := meshCleanText (sv_State s) meshSessionFieldRunes,
       sv_Health := meshCleanText (sv_Health s) meshSessionFieldRunes\<rparr>"

definition timestamps_check :: "Summary \<Rightarrow> time \<Rightarrow> export_error option" where
  "timestamps_check s now =
     first_err [validateMeshTimestamp (sv_StartedAt s) now, validateMeshTimestamp (sv_LastActivityAt s) now,
                validateMeshTimestamp (fv_ObservedAt (sv_Freshness s)) now, validateMeshTimestamp (fv_SourceUpdatedAt (sv_Freshness s)) now,
                optional_timestamp (map_option cw_UpdatedAt (sv_CurrentWork s)) now,
                optional_timestamp (sv_IdleSince s) now, optional_timestamp (sv_WorkingSince s) now]"

definition meshSanitizeSummary :: "time \<Rightarrow> Summary \<Rightarrow> export_error + Summary" where
  "meshSanitizeSummary now s =
     check_res (map_option ExportView (View_Locator_Validate (sv_Locator s)))
       (let s = clean_summary s in
        bind_res (view_res (NormalizeCurrentWork (sv_CurrentWork s))) (\<lambda>cur.
          let s = s\<lparr>sv_CurrentWork := cur\<rparr> in
          if trim_space (sv_Agent s) = [] \<or> trim_space (sv_State s) = [] then Inl AgentStateRequired
          else check_res (timestamps_check s now) (Inr (s\<lparr>sv_Work := None, sv_History := None\<rparr>))))"

definition meshSanitizeDetail :: "time \<Rightarrow> Detail \<Rightarrow> export_error + Detail" where
  "meshSanitizeDetail now d =
     (if dt_NudgeCount d < 0 then Inl NegativeCounter
      else case dt_Turn d of
        None \<Rightarrow> Inr d
      | Some t \<Rightarrow>
          if ta_TurnCount t < 0 \<or> ta_EventsSeen t < 0 then Inl NegativeCounter
          else check_res (first_err [optional_timestamp (ta_LastPromptSubmitAt t) now, optional_timestamp (ta_LastTurnEndAt t) now]) (Inr d))"

section \<open>Sending\<close>

definition meshSafeSummary :: "string option \<Rightarrow> time \<Rightarrow> Summary \<Rightarrow> export_error + Summary" where
  "meshSafeSummary home now s =
     meshSanitizeSummary now
       (s\<lparr>sv_LaunchCWD := (if sv_Private s then [] else meshPathHint home (sv_LaunchCWD s)), sv_Work := None, sv_History := None\<rparr>)"

definition meshSafeDetail :: "string option \<Rightarrow> time \<Rightarrow> Detail \<Rightarrow> export_error + Detail" where
  "meshSafeDetail home now d =
     bind_res (meshSafeSummary home now (dt_Summary d)) (\<lambda>s. meshSanitizeDetail now (d\<lparr>dt_Summary := s\<rparr>))"

text \<open>The wire has no \<open>Private\<close> field.\<close>

definition wire_summary :: "Summary \<Rightarrow> Summary" where
  "wire_summary s = s\<lparr>sv_Private := False\<rparr>"

section \<open>Accepting\<close>

definition accept_cwd :: "string \<Rightarrow> string" where
  "accept_cwd cwd =
     (if cwd = ''~'' then cwd
      else if \<not> has_prefix ''~/'' cwd then []
      else let rel = path_clean (drop 2 cwd) in
        if escapes rel then [] else path_join [''~'', rel])"

definition meshAcceptSummary :: "time \<Rightarrow> Summary \<Rightarrow> export_error + Summary" where
  "meshAcceptSummary now s =
     bind_res (meshSanitizeSummary now (s\<lparr>sv_Work := None, sv_History := None\<rparr>))
       (\<lambda>s. Inr (s\<lparr>sv_LaunchCWD := accept_cwd (sv_LaunchCWD s)\<rparr>))"

definition meshAcceptDetail :: "time \<Rightarrow> Detail \<Rightarrow> export_error + Detail" where
  "meshAcceptDetail now d =
     bind_res (meshAcceptSummary now (dt_Summary d)) (\<lambda>s. meshSanitizeDetail now (d\<lparr>dt_Summary := s\<rparr>))"

text \<open>\<open>RemoteSessionGet\<close> on the response of the peer.\<close>

definition RemoteSessionGet :: "time \<Rightarrow> string \<Rightarrow> string \<Rightarrow> Detail \<Rightarrow> export_error + Detail" where
  "RemoteSessionGet now scope sid response =
     (let l = sv_Locator (dt_Summary response) in
      if lc_ProfileScope l \<noteq> scope \<or> lc_SessionID l \<noteq> sid then Inl LocatorMismatch
      else meshAcceptDetail now response)"

section \<open>The local inventory\<close>

definition localMeshProfileScopes :: "catalog_root \<Rightarrow> string list" where
  "localMeshProfileScopes c =
     (if cr_ProfileName c \<noteq> [] then (case View_NamedProfileScope (cr_ProfileName c) of Inl _ \<Rightarrow> [] | Inr scope \<Rightarrow> [scope])
      else sort (View_RootProfileScope
                 # concat (map (\<lambda>(n, _). case View_NamedProfileScope n of Inl _ \<Rightarrow> [] | Inr scope \<Rightarrow> [scope]) (cr_children c))))"

text \<open>
  \<open>meshSessionsListResponse\<close> and \<open>meshArtifactsListResponse\<close> differ in the type of their items and in that the latter
  has no profile scopes.
\<close>

record 'a inventory =
  in_SourceEpoch :: string
  in_SourceRevision :: u64
  in_ProfileScopes :: "string list"
  in_Items :: "'a list"
  in_NextCursor :: string

type_synonym meshSessionsListResponse = "Summary inventory"

definition safe_list :: "string option \<Rightarrow> time \<Rightarrow> Summary list \<Rightarrow> Summary list" where
  "safe_list home now ss = concat (map (\<lambda>s. case meshSafeSummary home now s of Inl _ \<Rightarrow> [] | Inr clean \<Rightarrow> [clean]) ss)"

definition localMeshSessions :: "string option \<Rightarrow> catalog_root \<Rightarrow> time \<Rightarrow> time \<Rightarrow> string \<Rightarrow> u64 \<Rightarrow> meshSessionsListResponse" where
  "localMeshSessions home c observedAt now epoch revision =
     \<lparr>in_SourceEpoch = epoch, in_SourceRevision = revision, in_ProfileScopes = localMeshProfileScopes c,
      in_Items = safe_list home now (Catalog_List c observedAt), in_NextCursor = []\<rparr>"

text \<open>The handler of \<open>sessions.get\<close>.\<close>

definition sessions_get :: "string option \<Rightarrow> catalog_root \<Rightarrow> time \<Rightarrow> time \<Rightarrow> string \<Rightarrow> string \<Rightarrow> export_error + Detail" where
  "sessions_get home c observedAt now scope sid =
     bind_res (view_res (NewLocator scope sid)) (\<lambda>l.
       case Catalog_Get c l observedAt of None \<Rightarrow> Inl SessionNotFound | Some d \<Rightarrow> meshSafeDetail home now d)"

datatype session_event_kind = EventUpsert | EventRemove

record meshSessionEvent =
  me_Kind :: session_event_kind
  me_ProfileScope :: string
  me_SessionID :: string
  me_Session :: "Detail option"

definition forwardMeshSessionEvent ::
  "string option \<Rightarrow> catalog_root \<Rightarrow> time \<Rightarrow> time \<Rightarrow> string \<Rightarrow> string \<Rightarrow> string \<Rightarrow> string \<Rightarrow> meshSessionEvent option" where
  "forwardMeshSessionEvent home c observedAt now scope etype sid state =
     (if etype \<noteq> ''state_changed'' \<or> sid = [] then None
      else if state = state_string StateExited \<or> state = state_string StateFailed
      then Some \<lparr>me_Kind = EventRemove, me_ProfileScope = scope, me_SessionID = sid, me_Session = None\<rparr>
      else case sessions_get home c observedAt now scope sid of
        Inl _ \<Rightarrow> None
      | Inr safe \<Rightarrow> Some \<lparr>me_Kind = EventUpsert, me_ProfileScope = scope, me_SessionID = sid, me_Session = Some safe\<rparr>)"

section \<open>Topics\<close>

definition meshTopicSessions :: string where "meshTopicSessions = ''sessions''"
definition meshTopicArtifacts :: string where "meshTopicArtifacts = ''artifacts''"
definition ScopeSessionsRead :: string where "ScopeSessionsRead = ''sessions.read''"
definition ScopeArtifactsRead :: string where "ScopeArtifactsRead = ''artifacts.read''"

fun topics_from :: "string list \<Rightarrow> string list \<Rightarrow> export_error + string list" where
  "topics_from out [] = Inr (sort out)"
| "topics_from out (t # ts) =
     (if t \<noteq> meshTopicSessions \<and> t \<noteq> meshTopicArtifacts then Inl (UnsupportedTopic t)
      else topics_from (if t \<in> set out then out else out @ [t]) ts)"

definition validateMeshTopics :: "string list \<Rightarrow> export_error + string list" where
  "validateMeshTopics topics = topics_from [] topics"

record Principal =
  pr_PeerID :: string
  pr_Scopes :: "string list"

definition HasScope :: "Principal \<Rightarrow> string \<Rightarrow> bool" where
  "HasScope p scope = list_ex (\<lambda>g. g = scope) (pr_Scopes p)"

definition topic_scope :: "string \<Rightarrow> string option" where
  "topic_scope t = (if t = meshTopicSessions then Some ScopeSessionsRead
                    else if t = meshTopicArtifacts then Some ScopeArtifactsRead else None)"

definition authorizeMeshTopics :: "Principal \<Rightarrow> string list \<Rightarrow> export_error option" where
  "authorizeMeshTopics p topics =
     first_err (map (\<lambda>t. case topic_scope t of
                           None \<Rightarrow> Some (UnsupportedTopic t)
                         | Some scope \<Rightarrow> fail_if (\<not> HasScope p scope) (PermissionDenied t)) topics)"

section \<open>Artifact references\<close>

record meshArtifactReference =
  ar_ID :: string
  ar_Kind :: ArtifactKind
  ar_Repo :: "(string \<times> string) option"
  ar_Session :: "(string \<times> string) option"

type_synonym meshArtifactsListResponse = "meshArtifactReference inventory"

definition meshArtifactReferenceFromEnvelope :: "golib \<Rightarrow> ArtifactEnvelope \<Rightarrow> export_error + meshArtifactReference" where
  "meshArtifactReferenceFromEnvelope g a =
     check_res (map_option StateError (Artifact_Validate g a))
       (let r = \<lparr>ar_ID = ae_ID a, ar_Kind = ae_Kind a, ar_Repo = map_option (\<lambda>r. (rr_Repo r, rr_Commit r)) (ae_Repo a), ar_Session = None\<rparr> in
        case ae_Session a of
          None \<Rightarrow> Inr r
        | Some s \<Rightarrow> bind_res (view_res (NewLocator (loc_ProfileScope s) (loc_SessionID s)))
                      (\<lambda>l. Inr (r\<lparr>ar_Session := Some (lc_ProfileScope l, lc_SessionID l)\<rparr>)))"

definition reference_envelope :: "meshArtifactReference \<Rightarrow> time \<Rightarrow> ArtifactEnvelope" where
  "reference_envelope r now =
     \<lparr>ae_SchemaVersion = SchemaVersion, ae_ID = ar_ID r, ae_OriginDeviceID = [], ae_SourceID = [], ae_Kind = ar_Kind r,
      ae_Title = [], ae_State = [], ae_URL = [], ae_PathHint = [],
      ae_Repo = map_option (\<lambda>(repo, commit). \<lparr>rr_Repo = repo, rr_Ref = [], rr_Commit = commit\<rparr>) (ar_Repo r), ae_Session = None,
      ae_Provenance = ''mesh.reference.v1'', ae_Revision = [], ae_SourceEpoch = [], ae_SourceRevision = 0,
      ae_RemoteObservedAt = None, ae_ReceivedAt = now, ae_FreshnessChangedAt = now, ae_Freshness = FreshnessFresh\<rparr>"

definition meshArtifactEnvelopeFromReference :: "golib \<Rightarrow> string \<Rightarrow> meshArtifactReference \<Rightarrow> time \<Rightarrow> export_error + ArtifactEnvelope" where
  "meshArtifactEnvelopeFromReference g peer r now =
     bind_res (case ar_Session r of
                 None \<Rightarrow> Inr (reference_envelope r now)
               | Some (scope, sid) \<Rightarrow>
                   bind_res (view_res (NewLocator scope sid)) (\<lambda>l.
                     Inr ((reference_envelope r now)\<lparr>ae_Session := Some \<lparr>loc_SchemaVersion = SchemaVersion, loc_DeviceID = peer,
                            loc_ProfileScope = lc_ProfileScope l, loc_SessionID = lc_SessionID l, loc_TransportBindingID = []\<rparr>\<rparr>)))
       (\<lambda>a. check_res (map_option StateError (Artifact_Validate g a)) (Inr a))"

text \<open>\<open>RemoteArtifactGet\<close> on the response of the peer.\<close>

definition RemoteArtifactGet ::
  "golib \<Rightarrow> string \<Rightarrow> ArtifactKind \<Rightarrow> string \<Rightarrow> string \<Rightarrow> u64 \<Rightarrow> meshArtifactReference \<Rightarrow> time \<Rightarrow> time \<Rightarrow> export_error + ArtifactEnvelope" where
  "RemoteArtifactGet g peer kind aid epoch revision r now now' =
     (if ar_Kind r \<noteq> kind \<or> ar_ID r \<noteq> aid then Inl LocatorMismatch
      else bind_res (meshArtifactEnvelopeFromReference g peer r now) (\<lambda>a.
        if epoch = [] \<or> revision = 0 then Inl NoSourceCursor
        else let a = a\<lparr>ae_OriginDeviceID := peer, ae_SourceID := ae_ID a, ae_SourceEpoch := epoch, ae_SourceRevision := revision,
                       ae_ReceivedAt := now', ae_FreshnessChangedAt := now', ae_Freshness := FreshnessFresh\<rparr>
             in check_res (map_option StateError (Artifact_Validate g a)) (Inr a)))"

section \<open>What a peer can learn\<close>

text \<open>
  Two local states that a peer must not be able to tell apart. Of a snapshot the environment, the terminal
  target, the command, the process and the backend may differ, and the working directory when the session is private
  or when both have the same hint below the home directory. Of a hook document everything may differ but its times and
  counters and the work text, and that too unless the summarizer wrote it.
\<close>

definition published :: "TurnContract \<Rightarrow> (string \<times> time) option" where
  "published tc =
     (if tc_OverallGoalProvenance tc = OverallGoalSummarizerProvenance then Some (tc_OverallGoal tc, tc_OverallGoalUpdatedAt tc) else None)"

definition same_mesh_state :: "SessionState option \<Rightarrow> SessionState option \<Rightarrow> bool" where
  "same_mesh_state h h' \<longleftrightarrow>
     rel_option (\<lambda>a b. hs_UpdatedAt a = hs_UpdatedAt b \<and> hs_TurnCount a = hs_TurnCount b \<and> hs_EventsSeen a = hs_EventsSeen b
       \<and> hs_LastPromptSubmitAt a = hs_LastPromptSubmitAt b \<and> hs_LastTurnEndAt a = hs_LastTurnEndAt b
       \<and> Option.bind (hs_TurnContract a) published = Option.bind (hs_TurnContract b) published) h h'"

definition same_mesh_snapshot :: "string option \<Rightarrow> Snapshot \<Rightarrow> Snapshot \<Rightarrow> bool" where
  "same_mesh_snapshot home a b \<longleftrightarrow>
     (\<exists>cwd env tname target cmd backend pid close.
        b = a\<lparr>snap_CWD := cwd, snap_Env := env, snap_TmuxSessionName := tname, snap_TmuxTarget := target, snap_CurrentCommand := cmd,
              snap_BackendSessionID := backend, snap_PID := pid, snap_AutoClose := close\<rparr>
        \<and> (snap_Private a \<or> meshPathHint home (cleanText cwd maxCWDRunes) = meshPathHint home (cleanText (snap_CWD a) maxCWDRunes)))"

definition same_mesh_daemon :: "string option \<Rightarrow> catalog_daemon \<Rightarrow> catalog_daemon \<Rightarrow> bool" where
  "same_mesh_daemon home d d' \<longleftrightarrow>
     list_all2 (\<lambda>(k, m) (k', m'). k = k' \<and> same_mesh_snapshot home (Session_Snapshot m) (Session_Snapshot m')
                  \<and> same_mesh_state (hook_state d (sess_ID m)) (hook_state d' (sess_ID m'))) (cd_sessions d) (cd_sessions d')"

definition same_mesh_catalog :: "string option \<Rightarrow> catalog_root \<Rightarrow> catalog_root \<Rightarrow> bool" where
  "same_mesh_catalog home c c' \<longleftrightarrow>
     cr_ProfileName c = cr_ProfileName c' \<and> same_mesh_daemon home (cr_daemon c) (cr_daemon c')
     \<and> list_all2 (\<lambda>(n, d) (n', d'). n = n' \<and> same_mesh_daemon home d d') (cr_children c) (cr_children c')"

text \<open>What \<open>meshSafeSummary\<close> looks at.\<close>

definition redact :: "string option \<Rightarrow> Summary \<Rightarrow> Summary" where
  "redact home s = s\<lparr>sv_LaunchCWD := (if sv_Private s then [] else meshPathHint home (sv_LaunchCWD s)), sv_Work := None, sv_History := None\<rparr>"

definition same_sent :: "string option \<Rightarrow> Summary \<times> Detail \<Rightarrow> Summary \<times> Detail \<Rightarrow> bool" where
  "same_sent home r r' \<longleftrightarrow>
     redact home (fst r) = redact home (fst r') \<and> redact home (dt_Summary (snd r)) = redact home (dt_Summary (snd r'))
     \<and> dt_NudgeCount (snd r) = dt_NudgeCount (snd r') \<and> dt_Turn (snd r) = dt_Turn (snd r')"

lemma safe_redact: "meshSafeSummary home now s = meshSanitizeSummary now (redact home s)"
  by (simp add: meshSafeSummary_def redact_def)

lemma redact_locator: "redact home s = redact home s' \<Longrightarrow> sv_Locator s = sv_Locator s'"
  unfolding redact_def by (drule arg_cong [of _ _ sv_Locator]) simp

lemma redact_contract:
  "redact home (contract_summary st tc s) =
     redact home (s\<lparr>sv_CurrentWork :=
       (case published tc of None \<Rightarrow> sv_CurrentWork s
        | Some (goal, t) \<Rightarrow>
            (case NormalizeCurrentWork (Some \<lparr>cw_Summary = goal, cw_Provenance = OverallGoalSummarizerProvenance, cw_UpdatedAt = t\<rparr>) of
               Inl _ \<Rightarrow> sv_CurrentWork s | Inr cur \<Rightarrow> cur))\<rparr>)"
  by (simp add: redact_def contract_summary_def published_def Let_def split: sum.split)

lemma redact_base:
  assumes "same_mesh_snapshot home a b"
  shows "redact home (base_summary l a t) = redact home (base_summary l b t)" "snap_ID b = snap_ID a" "snap_NudgeCount b = snap_NudgeCount a"
    "snap_LastActivityAt b = snap_LastActivityAt a"
  using assms by (auto simp: same_mesh_snapshot_def redact_def base_summary_def)

text \<open>Updates of fields that the redaction keeps.\<close>

lemma redact_update:
  assumes "redact home s = redact home s'"
  shows "redact home (s\<lparr>sv_CurrentWork := w\<rparr>) = redact home (s'\<lparr>sv_CurrentWork := w\<rparr>)
    \<and> redact home (s\<lparr>sv_Freshness := f\<rparr>) = redact home (s'\<lparr>sv_Freshness := f\<rparr>)
    \<and> sv_CurrentWork s = sv_CurrentWork s' \<and> sv_Freshness s = sv_Freshness s'"
  using assms by (cases s; cases s') (auto simp: redact_def)

lemma redact_same_work: "redact home (s\<lparr>sv_CurrentWork := sv_CurrentWork s\<rparr>) = redact home s"
  by (cases s) (simp add: redact_def)

lemma redact_hooks:
  assumes "redact home s = redact home s'" "Option.bind (hs_TurnContract a) published = Option.bind (hs_TurnContract b) published"
  shows "redact home (case hs_TurnContract a of None \<Rightarrow> s | Some tc \<Rightarrow> contract_summary a tc s)
       = redact home (case hs_TurnContract b of None \<Rightarrow> s' | Some tc \<Rightarrow> contract_summary b tc s')"
proof -
  have f: "redact home (case hs_TurnContract a of None \<Rightarrow> s | Some tc \<Rightarrow> contract_summary a tc s)
    = redact home (s\<lparr>sv_CurrentWork :=
       (case Option.bind (hs_TurnContract a) published of None \<Rightarrow> sv_CurrentWork s
        | Some (goal, t) \<Rightarrow>
            (case NormalizeCurrentWork (Some \<lparr>cw_Summary = goal, cw_Provenance = OverallGoalSummarizerProvenance, cw_UpdatedAt = t\<rparr>) of
               Inl _ \<Rightarrow> sv_CurrentWork s | Inr cur \<Rightarrow> cur))\<rparr>)" for a s
    by (cases "hs_TurnContract a") (simp_all add: redact_contract redact_same_work)
  show ?thesis unfolding f assms(2) using redact_update [OF assms(1)] by metis
qed

lemma Build_same_sent:
  assumes "same_mesh_snapshot home snap snap'" "same_mesh_state h h'"
  shows "rel_sum (=) (same_sent home) (Build scope snap h t) (Build scope snap' h' t)"
proof (cases "NewLocator scope (snap_ID snap)")
  case (Inl e)
  then show ?thesis by (simp add: Build_def redact_base [OF assms(1)])
next
  case (Inr l)
  note b = redact_base [OF assms(1)]
  let ?s = "base_summary l snap t" and ?s' = "base_summary l snap' t"
  show ?thesis
  proof (cases h)
    case None
    with assms(2) have "h' = None" by (simp add: same_mesh_state_def)
    with None Inr b show ?thesis by (simp add: Build_def same_sent_def Let_def)
  next
    case (Some st)
    with assms(2) obtain st' where st: "h' = Some st'" "hs_UpdatedAt st = hs_UpdatedAt st'" "hs_TurnCount st = hs_TurnCount st'"
      "hs_EventsSeen st = hs_EventsSeen st'" "hs_LastPromptSubmitAt st = hs_LastPromptSubmitAt st'" "hs_LastTurnEndAt st = hs_LastTurnEndAt st'"
      "Option.bind (hs_TurnContract st) published = Option.bind (hs_TurnContract st') published"
      by (cases h') (auto simp: same_mesh_state_def)
    let ?fresh = "\<lambda>s u. if fv_SourceUpdatedAt (sv_Freshness s) < u then s\<lparr>sv_Freshness := (sv_Freshness s)\<lparr>fv_SourceUpdatedAt := u\<rparr>\<rparr> else s"
    have "redact home (?fresh ?s (hs_UpdatedAt st')) = redact home (?fresh ?s' (hs_UpdatedAt st'))"
      using redact_update [OF b(1)] b(1) by simp
    from redact_hooks [OF this st(7)] show ?thesis
      by (simp only: Build_def Let_def Some Inr b(2,3) st(1-6) bind_res_apply option.case rel_sum_simps same_sent_def fst_conv snd_conv
          Detail.select_convs simp_thms)
  qed
qed

lemma sort_key_all2:
  assumes "list_all2 R xs ys" "\<And>x y. R x y \<Longrightarrow> k x = k y"
  shows "list_all2 R (sort_key k xs) (sort_key k ys)"
proof -
  have insert: "list_all2 R (insort_key k x xs) (insort_key k y ys)" if "R x y" "list_all2 R xs ys" for x y xs ys
    using that(2,1) by (induction rule: list_all2_induct) (auto simp: assms(2))
  from assms(1) show ?thesis by (induction rule: list_all2_induct) (auto intro: insert)
qed

lemma concat_map_all2:
  assumes "list_all2 P xs ys" "\<And>x y. P x y \<Longrightarrow> list_all2 Q (f x) (g y)"
  shows "list_all2 Q (concat (map f xs)) (concat (map g ys))"
  using assms(1) by (induction rule: list_all2_induct) (auto intro: list_all2_appendI assms(2))

lemma map_of_all2:
  assumes "list_all2 (\<lambda>(k, x) (k', y). k = k' \<and> R x y) xs ys"
  shows "rel_option R (map_of xs k) (map_of ys k)"
  using assms by (induction rule: list_all2_induct) auto

lemma same_sent_summary: "redact home s = redact home s' \<Longrightarrow> meshSafeSummary home now s = meshSafeSummary home now s'"
  by (simp add: safe_redact)

lemma same_sent_detail:
  assumes "same_sent home r r'"
  shows "meshSafeDetail home now (snd r) = meshSafeDetail home now (snd r')"
proof -
  have d: "snd r\<lparr>dt_Summary := s\<rparr> = snd r'\<lparr>dt_Summary := s\<rparr>" for s
    using assms by (cases "snd r"; cases "snd r'") (simp add: same_sent_def)
  have "redact home (dt_Summary (snd r)) = redact home (dt_Summary (snd r'))" using assms by (simp add: same_sent_def)
  then show ?thesis by (simp only: meshSafeDetail_def safe_redact d)
qed

lemma same_session_build:
  assumes "same_mesh_snapshot home (Session_Snapshot m) (Session_Snapshot m')"
    "same_mesh_state (hook_state d (sess_ID m)) (hook_state d' (sess_ID m'))"
  shows "rel_sum (=) (same_sent home) (Build scope (Session_Snapshot m) (hook_state d (snap_ID (Session_Snapshot m))) t)
           (Build scope (Session_Snapshot m') (hook_state d' (snap_ID (Session_Snapshot m'))) t)"
  using Build_same_sent [OF assms] by (simp add: snap_id)

lemma same_daemon_list:
  assumes "same_mesh_daemon home d d'"
  shows "list_all2 (\<lambda>s s'. redact home s = redact home s')
    (concat (map (\<lambda>(_, managed). let snap = Session_Snapshot managed in
       case Build scope snap (hook_state d (snap_ID snap)) t of Inl _ \<Rightarrow> [] | Inr (summary, _) \<Rightarrow> [summary]) (cd_sessions d)))
    (concat (map (\<lambda>(_, managed). let snap = Session_Snapshot managed in
       case Build scope snap (hook_state d' (snap_ID snap)) t of Inl _ \<Rightarrow> [] | Inr (summary, _) \<Rightarrow> [summary]) (cd_sessions d')))"
  using assms unfolding same_mesh_daemon_def
proof (rule concat_map_all2, goal_cases)
  case (1 x y)
  then show ?case
    using same_session_build [of home "snd x" "snd y" d d' scope t]
    by (cases "Build scope (Session_Snapshot (snd x)) (hook_state d (snap_ID (Session_Snapshot (snd x)))) t";
        cases "Build scope (Session_Snapshot (snd y)) (hook_state d' (snap_ID (Session_Snapshot (snd y)))) t")
       (auto simp: split_beta Let_def same_sent_def)
qed

lemma same_sources:
  assumes "same_mesh_catalog home c c'"
  shows "list_all2 (\<lambda>(sc, d) (sc', d'). sc = sc' \<and> same_mesh_daemon home d d') (sources c) (sources c')"
proof (cases "cr_ProfileName c = []")
  case True
  from assms have "list_all2 (\<lambda>(n, d) (n', d'). n = n' \<and> same_mesh_daemon home d d') (cr_children c) (cr_children c')"
    by (simp add: same_mesh_catalog_def)
  then have "list_all2 (\<lambda>(sc, d) (sc', d'). sc = sc' \<and> same_mesh_daemon home d d')
     (concat (map (\<lambda>(n, d). case View_NamedProfileScope n of Inl _ \<Rightarrow> [] | Inr scope \<Rightarrow> [(scope, d)]) (cr_children c)))
     (concat (map (\<lambda>(n, d). case View_NamedProfileScope n of Inl _ \<Rightarrow> [] | Inr scope \<Rightarrow> [(scope, d)]) (cr_children c')))"
    by (rule concat_map_all2) (auto split: sum.split)
  with True assms show ?thesis by (simp add: sources_def same_mesh_catalog_def)
next
  case False
  with assms show ?thesis by (auto simp: sources_def same_mesh_catalog_def split: sum.split)
qed

lemma same_list:
  assumes "same_mesh_catalog home c c'"
  shows "list_all2 (\<lambda>s s'. redact home s = redact home s') (Catalog_List c t) (Catalog_List c' t)"
  unfolding Catalog_List_def Sort_View_def
proof (rule sort_key_all2, goal_cases)
  case 1
  show ?case using same_sources [OF assms] by (rule concat_map_all2) (auto intro: same_daemon_list)
next
  case (2 x y)
  then show ?case by (auto dest: redact_locator)
qed

lemma same_safe_list:
  assumes "list_all2 (\<lambda>s s'. redact home s = redact home s') ss ss'"
  shows "safe_list home now ss = safe_list home now ss'"
  using assms by (induction rule: list_all2_induct) (auto simp: safe_list_def safe_redact)

lemma same_get_build:
  assumes "same_mesh_snapshot home (Session_Snapshot m) (Session_Snapshot m')
    \<and> same_mesh_state (hook_state d (sess_ID m)) (hook_state d' (sess_ID m'))"
  shows "rel_option (\<lambda>d d'. meshSafeDetail home now d = meshSafeDetail home now d')
    (case Build scope (Session_Snapshot m) (hook_state d (snap_ID (Session_Snapshot m))) t of Inl _ \<Rightarrow> None | Inr (_, detail) \<Rightarrow> Some detail)
    (case Build scope (Session_Snapshot m') (hook_state d' (snap_ID (Session_Snapshot m'))) t of Inl _ \<Rightarrow> None | Inr (_, detail) \<Rightarrow> Some detail)"
  using same_session_build [of home m m' d d' scope t] assms
  by (auto elim!: rel_sum.cases dest: same_sent_detail simp: rel_sum_sel split: sum.split)

lemma same_get:
  assumes "same_mesh_catalog home c c'"
  shows "rel_option (\<lambda>d d'. meshSafeDetail home now d = meshSafeDetail home now d') (Catalog_Get c l t) (Catalog_Get c' l t)"
proof -
  have "rel_option (same_mesh_daemon home) (catalog_source c sc) (catalog_source c' sc)" for sc
    using assms map_of_all2 [of "same_mesh_daemon home" "cr_children c" "cr_children c'"]
    by (auto simp: catalog_source_def same_mesh_catalog_def split: option.split)
  note src = this [of "lc_ProfileScope l"]
  show ?thesis
  proof (cases "catalog_source c (lc_ProfileScope l)")
    case None
    with src show ?thesis by (simp add: Catalog_Get_def)
  next
    case (Some d)
    with src obtain d' where d': "catalog_source c' (lc_ProfileScope l) = Some d'" "same_mesh_daemon home d d'"
      by (auto simp: option_rel_Some1)
    from map_of_all2 [OF d'(2) [unfolded same_mesh_daemon_def], of "lc_SessionID l"] Some d'(1) show ?thesis
      by (cases "map_of (cd_sessions d) (lc_SessionID l)"; cases "map_of (cd_sessions d') (lc_SessionID l)")
         (simp_all add: Catalog_Get_def Let_def same_get_build)
  qed
qed

lemma same_scopes:
  assumes "same_mesh_catalog home c c'"
  shows "localMeshProfileScopes c = localMeshProfileScopes c'"
proof -
  let ?f = "\<lambda>(n, _). case View_NamedProfileScope n of Inl _ \<Rightarrow> [] | Inr scope \<Rightarrow> [scope]"
  from assms have "list_all2 (\<lambda>(n, d) (n', d'). n = n' \<and> same_mesh_daemon home d d') (cr_children c) (cr_children c')"
    by (simp add: same_mesh_catalog_def)
  then have "list_all2 (=) (concat (map ?f (cr_children c))) (concat (map ?f (cr_children c')))"
    by (rule concat_map_all2) (auto simp: list.rel_eq)
  with assms show ?thesis by (simp add: localMeshProfileScopes_def same_mesh_catalog_def list.rel_eq)
qed


definition demo_catalog :: "string \<Rightarrow> string \<Rightarrow> catalog_root" where
  "demo_catalog cwd prompt =
     \<lparr>cr_daemon =
        \<lparr>cd_sessions = [(''s1'', (NewSession ''s1'' [] ''codex'' cwd 1)\<lparr>sess_private := True, sess_Env := [''TOKEN'' \<mapsto> prompt]\<rparr>)],
         cd_hooks = \<lparr>hd_live = [''s1'' \<mapsto> Doc (empty_state\<lparr>hs_TurnContract := Some (empty_contract\<lparr>tc_LastUserMessage := prompt, tc_Goal := prompt\<rparr>)\<rparr>)],
                    hd_archived = Map.empty, hd_fault = None\<rparr>\<rparr>,
      cr_ProfileName = [], cr_children = []\<rparr>"


section \<open>Hints below the home directory\<close>

definition normal_elem :: "string \<Rightarrow> bool" where
  "normal_elem e \<longleftrightarrow> e \<noteq> [] \<and> e \<noteq> ''.'' \<and> e \<noteq> ''..'' \<and> CHR ''/'' \<notin> set e"

definition home_path :: "string list \<Rightarrow> string" where
  "home_path ns = join_with ''/'' (''~'' # ns)"

definition home_hint :: "string \<Rightarrow> bool" where
  "home_hint cwd \<longleftrightarrow> cwd = [] \<or> (\<exists>ns. list_all normal_elem ns \<and> cwd = home_path ns)"

lemma split_at_none: "c \<notin> set l \<Longrightarrow> split_at c l = [l]"
  by (induction l) auto

lemma split_at_append: "c \<notin> set l \<Longrightarrow> split_at c (l @ c # rest) = l # split_at c rest"
  by (induction l) auto

lemma split_join: "ls \<noteq> [] \<Longrightarrow> \<forall>l \<in> set ls. c \<notin> set l \<Longrightarrow> split_at c (join_with [c] ls) = ls"
  by (induction "[c]" ls rule: join_with.induct) (auto simp: split_at_none split_at_append)

lemma split_at_sep: "l \<in> set (split_at c xs) \<Longrightarrow> c \<notin> set l"
  by (induction xs arbitrary: l) (fastforce split: list.splits if_splits)+

lemma clean_parts_plain:
  "''..'' \<notin> set xs \<Longrightarrow> clean_parts r st xs = rev st @ filter (\<lambda>x. x \<noteq> [] \<and> x \<noteq> ''.'') xs"
  by (induction r st xs rule: clean_parts.induct) auto

lemma clean_parts_shape:
  assumes "rev st = replicate k ''..'' @ ns" "list_all normal_elem ns" "\<forall>x \<in> set xs. CHR ''/'' \<notin> set x" "r \<longrightarrow> k = 0"
  shows "\<exists>k ns. clean_parts r st xs = replicate k ''..'' @ ns \<and> list_all normal_elem ns \<and> (r \<longrightarrow> k = 0)"
  using assms
proof (induction xs arbitrary: st k ns)
  case Nil
  then show ?case by auto
next
  case (Cons x xs)
  have rest: "\<forall>x \<in> set xs. CHR ''/'' \<notin> set x" using Cons.prems(3) by simp
  consider "x = [] \<or> x = ''.''" | "x = ''..''" | "normal_elem x"
    using Cons.prems(3) by (auto simp: normal_elem_def)
  then show ?case
  proof cases
    case 1
    with Cons.IH [OF Cons.prems(1,2) rest Cons.prems(4)] show ?thesis by auto
  next
    case 2
    show ?thesis
    proof (cases ns rule: rev_cases)
      case Nil
      then have st: "st = replicate k ''..''" using Cons.prems(1) by (metis append_Nil2 rev_replicate rev_rev_ident)
      show ?thesis
      proof (cases r)
        case True
        with st Cons.prems(4) have "clean_parts r st (x # xs) = clean_parts r [] xs" using 2 by simp
        with Cons.IH [of "[]" 0 "[]"] rest show ?thesis by simp
      next
        case False
        with st 2 have "clean_parts r st (x # xs) = clean_parts r (replicate (Suc k) ''..'') xs" by (cases k) simp_all
        with Cons.IH [of "replicate (Suc k) ''..''" "Suc k" "[]"] rest False show ?thesis by (simp add: replicate_append_same)
      qed
    next
      case (snoc ms m)
      then have "st = m # rev ms @ replicate k ''..''" using Cons.prems(1) by (metis append.assoc rev_append rev_eq_Cons_iff rev_replicate rev_rev_ident rev_swap)
      moreover have "normal_elem m" "list_all normal_elem ms" using snoc Cons.prems(2) by auto
      ultimately have "clean_parts r st (x # xs) = clean_parts r (rev ms @ replicate k ''..'') xs" using 2 by (simp add: normal_elem_def)
      with Cons.IH [of "rev ms @ replicate k ''..''" k ms] rest \<open>list_all normal_elem ms\<close> Cons.prems(4) show ?thesis by simp
    qed
  next
    case 3
    then have "clean_parts r st (x # xs) = clean_parts r (x # st) xs" by (simp add: normal_elem_def)
    with Cons.IH [of "x # st" k "ns @ [x]"] Cons.prems rest 3 show ?thesis by simp
  qed
qed

text \<open>A clean path that does not escape has no parent element.\<close>

lemma clean_elems:
  obtains k ns where "list_all normal_elem ns"
    "path_clean p = (if has_prefix ''/'' p then ''/'' @ join_with ''/'' ns
                     else if k = 0 \<and> ns = [] then ''.'' else join_with ''/'' (replicate k ''..'' @ ns))"
proof -
  obtain k ns where k: "clean_parts (has_prefix ''/'' p) [] (split_at (CHR ''/'') p) = replicate k ''..'' @ ns" "list_all normal_elem ns"
    "has_prefix ''/'' p \<longrightarrow> k = 0"
    using clean_parts_shape [of "[]" 0 "[]" "split_at (CHR ''/'') p" "has_prefix ''/'' p"] split_at_sep by fastforce
  have "join_with ''/'' (replicate k ''..'' @ ns) = [] \<longleftrightarrow> k = 0 \<and> ns = []"
  proof (cases k)
    case 0
    have "join_with ''/'' (n # ns') \<noteq> []" if "normal_elem n" for n ns' using that by (cases ns') (auto simp: normal_elem_def)
    with 0 k(2) show ?thesis by (cases ns) auto
  next
    case (Suc j)
    then show ?thesis by (cases "replicate j ''..'' @ ns") auto
  qed
  then show thesis using k by (intro that [of ns k]) (auto simp: path_clean_def Let_def)
qed

lemma join_parents_escapes: "escapes (join_with ''/'' (''..'' # ls))"
  by (cases ls) (auto simp: escapes_def has_prefix_def)

lemma clean_no_parent:
  assumes "\<not> escapes (path_clean p)"
  shows "''..'' \<notin> set (split_at (CHR ''/'') (path_clean p))"
proof -
  obtain k ns where ns: "list_all normal_elem ns" "path_clean p = (if has_prefix ''/'' p then ''/'' @ join_with ''/'' ns
      else if k = 0 \<and> ns = [] then ''.'' else join_with ''/'' (replicate k ''..'' @ ns))" by (rule clean_elems)
  have split: "''..'' \<notin> set (split_at (CHR ''/'') (join_with ''/'' ns))"
    using ns(1) split_join [of ns "CHR ''/''"] by (cases ns) (auto simp: normal_elem_def list_all_iff)
  have "k = 0" if "\<not> has_prefix ''/'' p"
    using assms ns(2) that join_parents_escapes by (cases k) auto
  then show ?thesis using ns(2) split by auto
qed

lemma home_join:
  assumes "''..'' \<notin> set (split_at (CHR ''/'') rel)"
  obtains ns where "list_all normal_elem ns" "path_join [''~'', rel] = home_path ns"
proof -
  let ?ns = "filter (\<lambda>x. x \<noteq> [] \<and> x \<noteq> ''.'') (split_at (CHR ''/'') rel)"
  have "list_all normal_elem ?ns"
    using assms split_at_sep by (fastforce simp: list_all_iff normal_elem_def)
  moreover have "path_join [''~'', rel] = home_path ?ns"
  proof (cases "rel = []")
    case True
    then show ?thesis by (simp add: path_join_def path_clean_def has_prefix_def home_path_def)
  next
    case False
    have "split_at (CHR ''/'') (''~'' @ CHR ''/'' # rel) = ''~'' # split_at (CHR ''/'') rel" by (rule split_at_append) simp
    then have "clean_parts False [] (split_at (CHR ''/'') (''~/'' @ rel)) = ''~'' # ?ns"
      using clean_parts_plain [of "''~'' # split_at (CHR ''/'') rel" False "[]"] assms by simp
    moreover have "join_with ''/'' (''~'' # ?ns) \<noteq> []" by (cases ?ns) auto
    ultimately show ?thesis using False by (simp add: path_join_def path_clean_def has_prefix_def home_path_def)
  qed
  ultimately show thesis by (rule that)
qed

lemma accept_cwd_home: "home_hint (accept_cwd cwd)"
proof -
  have "home_path [] = ''~''" by (simp add: home_path_def)
  then have t: "home_hint ''~''" unfolding home_hint_def by (intro disjI2 exI [of _ "[]"]) simp
  have "home_hint (path_join [''~'', path_clean p])" if "\<not> escapes (path_clean p)" for p
    using home_join [OF clean_no_parent [OF that]] unfolding home_hint_def by metis
  with t show ?thesis by (auto simp: accept_cwd_def Let_def home_hint_def [of "[]"])
qed

text \<open>Such a hint is a fixed point of acceptance.\<close>

lemma join_Cons: "\<exists>t. join_with d (l # ls) = l @ t"
  by (cases ls) auto

lemma join_head:
  assumes "list_all normal_elem (n # ns)"
  shows "\<not> has_prefix ''/'' (join_with ''/'' (n # ns)) \<and> join_with ''/'' (n # ns) \<noteq> []"
proof -
  obtain c cs where n: "n = c # cs" "c \<noteq> CHR ''/''" using assms by (cases n) (auto simp: normal_elem_def)
  obtain t where "join_with ''/'' (n # ns) = n @ t" using join_Cons by blast
  with n show ?thesis by (simp add: has_prefix_def)
qed

lemma clean_normal:
  assumes "list_all normal_elem (n # ns)"
  shows "path_clean (join_with ''/'' (n # ns)) = join_with ''/'' (n # ns)"
proof -
  have "split_at (CHR ''/'') (join_with ''/'' (n # ns)) = n # ns"
    using assms by (intro split_join) (auto simp: list_all_iff normal_elem_def)
  moreover have "''..'' \<notin> set (n # ns)" "filter (\<lambda>x. x \<noteq> [] \<and> x \<noteq> ''.'') (n # ns) = n # ns"
    using assms by (auto simp: list_all_iff normal_elem_def filter_id_conv)
  ultimately show ?thesis unfolding path_clean_def Let_def using join_head [OF assms] clean_parts_plain [of "n # ns" False "[]"] by simp
qed

lemma normal_no_escape:
  assumes "list_all normal_elem ns" "ns \<noteq> []"
  shows "\<not> escapes (join_with ''/'' ns)"
proof
  assume "escapes (join_with ''/'' ns)"
  then consider "join_with ''/'' ns = ''..''" | rest where "join_with ''/'' ns = ''..'' @ CHR ''/'' # rest"
    unfolding escapes_def using prefix_split [of "''../''" "join_with ''/'' ns"] by auto
  then have "''..'' \<in> set (split_at (CHR ''/'') (join_with ''/'' ns))"
    by cases (simp_all add: split_at_append [of "CHR ''/''" "''..''", simplified])
  with assms split_join [of ns "CHR ''/''"] show False by (auto simp: list_all_iff normal_elem_def)
qed

lemma home_path_Cons: "home_path (n # ns) = ''~/'' @ join_with ''/'' (n # ns)"
  by (simp add: home_path_def)

lemma join_home:
  assumes "list_all normal_elem ns"
  shows "path_join [''~'', join_with ''/'' ns] = home_path ns"
proof (cases ns)
  case Nil
  then show ?thesis by (simp add: path_join_def path_clean_def has_prefix_def home_path_def)
next
  case (Cons n ms)
  have "path_clean (join_with ''/'' (''~'' # n # ms)) = join_with ''/'' (''~'' # n # ms)"
    using assms Cons by (intro clean_normal) (simp add: normal_elem_def)
  then show ?thesis using join_head assms Cons by (simp add: path_join_def home_path_def)
qed

lemma accept_cwd_fixed:
  assumes "home_hint cwd"
  shows "accept_cwd cwd = cwd"
proof (cases "cwd = []")
  case True
  then show ?thesis by (simp add: accept_cwd_def has_prefix_def)
next
  case False
  with assms obtain ns where ns: "list_all normal_elem ns" "cwd = home_path ns" by (auto simp: home_hint_def)
  show ?thesis
  proof (cases ns)
    case Nil
    with ns show ?thesis by (simp add: accept_cwd_def home_path_def)
  next
    case (Cons n ms)
    have "path_clean (drop 2 cwd) = join_with ''/'' ns"
      using ns Cons clean_normal [of n ms] by (simp add: home_path_Cons)
    moreover have "\<not> escapes (join_with ''/'' ns)" using normal_no_escape [OF ns(1)] Cons by simp
    moreover have "has_prefix ''~/'' cwd \<and> cwd \<noteq> ''~''" using ns Cons by (simp add: home_path_Cons has_prefix_def)
    ultimately show ?thesis using join_home [OF ns(1)] ns(2) by (simp add: accept_cwd_def)
  qed
qed

lemma drop_common_suffix: "drop_common xs ys = (u, d) \<Longrightarrow> \<exists>p. xs = p @ u \<and> ys = p @ d"
proof (induction xs ys arbitrary: u d rule: drop_common.induct)
  case (1 x xs y ys)
  show ?case
  proof (cases "x = y")
    case True
    with 1 obtain p where "xs = p @ u \<and> ys = p @ d" by auto
    with True show ?thesis by (intro exI [of _ "x # p"]) simp
  next
    case False
    with 1(2) show ?thesis by simp
  qed
qed auto

lemma abs_elems:
  assumes "has_prefix ''/'' p"
  shows "list_all normal_elem (path_elems (path_clean p))"
proof -
  obtain k ns where ns: "list_all normal_elem ns" "path_clean p = (if has_prefix ''/'' p then ''/'' @ join_with ''/'' ns
      else if k = 0 \<and> ns = [] then ''.'' else join_with ''/'' (replicate k ''..'' @ ns))" by (rule clean_elems)
  have "path_elems (path_clean p) = ns"
  proof (cases ns)
    case Nil
    then show ?thesis using assms ns(2) by (simp add: path_elems_def)
  next
    case (Cons n ms)
    have "split_at (CHR ''/'') (join_with ''/'' ns) = ns"
      using ns(1) Cons by (intro split_join) (auto simp: list_all_iff normal_elem_def)
    moreover have "filter (\<lambda>e. e \<noteq> []) ns = ns" using ns(1) by (auto simp: filter_id_conv list_all_iff normal_elem_def)
    ultimately show ?thesis using assms ns(2) by (simp add: path_elems_def)
  qed
  with ns(1) show ?thesis by simp
qed

lemma meshPathHint_home: "home_hint (meshPathHint home v)"
proof -
  have "home_hint (path_join [''~'', rel])" if "path_rel h v = Some rel" "\<not> escapes rel" "rel \<noteq> ''.''" "has_prefix ''/'' v" for h rel
  proof -
    from that(1,3) obtain u d where ud: "drop_common (path_elems (path_clean h)) (path_elems (path_clean v)) = (u, d)"
      "rel = join_with ''/'' (replicate (length u) ''..'' @ d)"
      by (auto simp: path_rel_def Let_def split: if_splits prod.splits)
    from ud(2) that(2) join_parents_escapes have "u = []" by (cases u) auto
    moreover have "list_all normal_elem d" using drop_common_suffix [OF ud(1)] abs_elems [OF that(4)] by auto
    ultimately show ?thesis using ud(2) join_home by (auto simp: home_hint_def)
  qed
  moreover have "home_hint ''~''" unfolding home_hint_def home_path_def by (intro disjI2 exI [of _ "[]"]) simp
  ultimately show ?thesis by (auto simp: meshPathHint_def home_hint_def [of "[]"] split: option.split)
qed

section \<open>Accepted summaries\<close>

definition clean_field :: "nat \<Rightarrow> string \<Rightarrow> bool" where
  "clean_field n v \<longleftrightarrow> length (runes_of v) \<le> n \<and> list_all (\<lambda>r. \<not> is_control r \<and> r \<noteq> RuneError) (runes_of v)"

lemma runes_meshCleanText:
  "runes_of (meshCleanText v n) = take n (filter (\<lambda>r. \<not> is_control r \<and> r \<noteq> RuneError) (runes_of v))"
proof -
  let ?rs = "filter (\<lambda>r. \<not> is_control r \<and> r \<noteq> RuneError) (runes_of v)"
  have v: "list_all valid_rune ?rs" using runes_of_valid [of v] by (auto simp: list_all_iff)
  then have "list_all valid_rune (take n ?rs)" by (auto simp: list_all_iff dest: in_set_takeD)
  with v show ?thesis by (simp add: meshCleanText_def Let_def runes_of_string_of)
qed

lemma meshCleanText_clean: "clean_field n (meshCleanText v n)"
  unfolding clean_field_def runes_meshCleanText by (auto simp: list_all_iff dest: in_set_takeD)

lemma meshCleanText_string: "meshCleanText v n = string_of (take n (filter (\<lambda>r. \<not> is_control r \<and> r \<noteq> RuneError) (runes_of v)))"
proof -
  have "list_all valid_rune (filter (\<lambda>r. \<not> is_control r \<and> r \<noteq> RuneError) (runes_of v))" using runes_of_valid [of v] by (auto simp: list_all_iff)
  then show ?thesis by (simp add: meshCleanText_def Let_def runes_of_string_of)
qed

lemma meshCleanText_fixed: "meshCleanText (meshCleanText v n) n = meshCleanText v n"
proof -
  have "filter (\<lambda>r. \<not> is_control r \<and> r \<noteq> RuneError) (runes_of (meshCleanText v n)) = runes_of (meshCleanText v n)"
    unfolding runes_meshCleanText by (auto simp: filter_id_conv dest: in_set_takeD)
  then show ?thesis unfolding meshCleanText_string [of "meshCleanText v n"] runes_meshCleanText by (simp add: meshCleanText_string)
qed

text \<open>What the code guarantees of every summary that came from a peer.\<close>

definition accepted_time :: "time \<Rightarrow> time \<Rightarrow> bool" where
  "accepted_time now t \<longleftrightarrow> year_2000 \<le> t \<and> t \<le> now + 24 * hour_ns"

definition safe_work :: "CurrentWorkSummary \<Rightarrow> bool" where
  "safe_work w \<longleftrightarrow> cw_Provenance w = OverallGoalSummarizerProvenance \<and> length (runes_of (cw_Summary w)) \<le> 240
     \<and> list_all (\<lambda>r. 32 \<le> r) (runes_of (cw_Summary w)) \<and> trim_space (cw_Summary w) \<noteq> []"

definition accepted_summary :: "time \<Rightarrow> Summary \<Rightarrow> bool" where
  "accepted_summary now s \<longleftrightarrow>
     View_Locator_Validate (sv_Locator s) = None \<and> clean_field 128 (sv_Name s) \<and> clean_field 128 (sv_Agent s) \<and> clean_field 128 (sv_Transport s)
     \<and> clean_field 256 (sv_OwnerID s) \<and> clean_field 128 (sv_State s) \<and> clean_field 128 (sv_Health s)
     \<and> sv_Work s = None \<and> sv_History s = None \<and> pred_option safe_work (sv_CurrentWork s)
     \<and> accepted_time now (sv_StartedAt s) \<and> accepted_time now (sv_LastActivityAt s)
     \<and> accepted_time now (fv_ObservedAt (sv_Freshness s)) \<and> accepted_time now (fv_SourceUpdatedAt (sv_Freshness s))
     \<and> pred_option (accepted_time now) (sv_IdleSince s) \<and> pred_option (accepted_time now) (sv_WorkingSince s)"

lemma bounded_one_line: "list_all (\<lambda>r. 32 \<le> r) (runes_of (boundText (cleanControlText (join_with '' '' (split_fields v))) n))"
  unfolding runes_boundText list_all_iff using current_work_one_line [of _ v] by (auto dest: in_set_takeD)

lemma normalize_safe:
  assumes "NormalizeCurrentWork v = Inr w"
  shows "pred_option safe_work w"
  using assms bounded_one_line
  by (auto simp: NormalizeCurrentWork_def Let_def safe_work_def maxCurrentWorkRunes_def runes_boundText split: option.splits if_splits)

lemma view_res_Inr [simp]: "view_res r = Inr x \<longleftrightarrow> r = Inr x"
  by (cases r) (auto simp: view_res_def)

lemma timestamps_check_cong [simp]:
  "timestamps_check (s\<lparr>sv_Work := w\<rparr>) now = timestamps_check s now" "timestamps_check (s\<lparr>sv_History := h\<rparr>) now = timestamps_check s now"
  "timestamps_check (s\<lparr>sv_Private := p\<rparr>) now = timestamps_check s now"
  by (simp_all add: timestamps_check_def)

lemma sanitize_Inr:
  "meshSanitizeSummary now s = Inr s' \<longleftrightarrow>
     (\<exists>cur. View_Locator_Validate (sv_Locator s) = None \<and> NormalizeCurrentWork (sv_CurrentWork s) = Inr cur
        \<and> s' = (clean_summary s)\<lparr>sv_CurrentWork := cur, sv_Work := None, sv_History := None\<rparr>
        \<and> trim_space (sv_Agent s') \<noteq> [] \<and> trim_space (sv_State s') \<noteq> [] \<and> timestamps_check s' now = None)"
proof -
  have cl: "sv_Locator (clean_summary s) = sv_Locator s" "sv_CurrentWork (clean_summary s) = sv_CurrentWork s" by (simp_all add: clean_summary_def)
  show ?thesis
  proof (cases "View_Locator_Validate (sv_Locator s)"; cases "NormalizeCurrentWork (sv_CurrentWork s)")
    fix cur
    assume n: "View_Locator_Validate (sv_Locator s) = None" "NormalizeCurrentWork (sv_CurrentWork s) = Inr cur"
    define r where "r = (clean_summary s)\<lparr>sv_CurrentWork := cur\<rparr>"
    have "meshSanitizeSummary now s =
        (if trim_space (sv_Agent r) = [] \<or> trim_space (sv_State r) = [] then Inl AgentStateRequired
         else check_res (timestamps_check r now) (Inr (r\<lparr>sv_Work := None, sv_History := None\<rparr>)))"
      by (simp add: meshSanitizeSummary_def Let_def cl n view_res_def r_def)
    moreover have "timestamps_check (r\<lparr>sv_Work := None, sv_History := None\<rparr>) now = timestamps_check r now" by simp
    ultimately show ?thesis using n by (auto simp: r_def [symmetric])
  qed (simp_all add: meshSanitizeSummary_def cl view_res_def)
qed

lemma timestamp_ok: "validateMeshTimestamp t now = None \<longleftrightarrow> accepted_time now t"
  by (auto simp: validateMeshTimestamp_def accepted_time_def year_2000_def)

lemma optional_ok: "optional_timestamp v now = None \<longleftrightarrow> pred_option (accepted_time now) v"
  by (cases v) (simp_all add: optional_timestamp_def timestamp_ok)

lemma timestamps_later:
  assumes "timestamps_check s now = None" "now \<le> now'"
  shows "timestamps_check s now' = None"
proof -
  have later: "accepted_time now' t" if "accepted_time now t" for t using that assms(2) by (simp add: accepted_time_def)
  have opt: "pred_option (accepted_time now') v" if "pred_option (accepted_time now) v" for v using that later by (cases v) auto
  show ?thesis using assms(1) unfolding timestamps_check_def timestamp_ok optional_ok first_err_Cons by (blast intro: later opt)
qed

lemma sanitize_accepted:
  assumes "meshSanitizeSummary now s = Inr s'"
  shows "accepted_summary now s'"
proof -
  from assms obtain cur where c: "View_Locator_Validate (sv_Locator s) = None" "NormalizeCurrentWork (sv_CurrentWork s) = Inr cur"
    "s' = (clean_summary s)\<lparr>sv_CurrentWork := cur, sv_Work := None, sv_History := None\<rparr>" "timestamps_check s' now = None"
    by (auto simp: sanitize_Inr)
  have w: "pred_option safe_work (sv_CurrentWork s')" using normalize_safe [OF c(2)] c(3) by simp
  show ?thesis using c(1,4) w unfolding c(3)
    by (simp add: accepted_summary_def clean_summary_def timestamps_check_def timestamp_ok optional_ok meshCleanText_clean
        meshSessionNameRunes_def meshSessionFieldRunes_def meshSessionOwnerRunes_def)
qed


lemma redact_locator_sel: "sv_Locator (redact home s) = sv_Locator s"
  by (simp add: redact_def)


text \<open>A summary as a peer may send it.\<close>

definition peer_summary :: "string \<Rightarrow> Summary" where
  "peer_summary cwd =
     \<lparr>sv_Locator = \<lparr>lc_Version = 1, lc_ProfileScope = ''root'', lc_SessionID = ''s1''\<rparr>, sv_Name = [], sv_Agent = ''codex'', sv_Transport = [],
      sv_LaunchCWD = cwd, sv_OwnerID = [], sv_State = ''idle'', sv_Health = [], sv_StartedAt = year_2000, sv_LastActivityAt = year_2000,
      sv_IdleSince = None, sv_WorkingSince = None, sv_CurrentWork = None, sv_Work = None, sv_History = None,
      sv_Freshness = \<lparr>fv_ObservedAt = year_2000, fv_SourceUpdatedAt = year_2000\<rparr>, sv_Private = False\<rparr>"

lemma meshCleanText_plain:
  assumes "list_all (\<lambda>c. 32 \<le> byte_of c \<and> byte_of c < 127) v" "length v \<le> n"
  shows "meshCleanText v n = v"
proof -
  have a: "is_ascii v" using assms(1) by (auto simp: is_ascii_def list_all_iff)
  have "filter (\<lambda>r. \<not> is_control r \<and> r \<noteq> RuneError) (map byte_of v) = map byte_of v"
    using assms(1) by (auto simp: filter_id_conv list_all_iff is_control_def RuneError_def)
  moreover have "string_of (map byte_of v) = v"
    using a by (subst string_of_ascii) (auto simp: is_ascii_def list_all_iff byte_of_def intro!: map_idI)
  ultimately show ?thesis using assms(2) a by (simp add: meshCleanText_string runes_of_ascii)
qed

lemma demo_sanitize:
  assumes "list_all (\<lambda>c. 32 \<le> byte_of c \<and> byte_of c < 127) cwd" "length cwd \<le> 100"
  shows "meshSanitizeSummary year_2000 (peer_summary cwd) = Inr (peer_summary cwd)"
proof -
  have "View_Locator_Validate (sv_Locator (peer_summary cwd)) = None"
    by (simp add: peer_summary_def View_Locator_Validate_def LocatorVersion_def Scope_Validate_def View_RootProfileScope_def sessionIDPattern_def
        id_shape_def is_alnum_def is_lower_char_def is_upper_char_def is_digit_def byte_of_def)
  moreover have "clean_summary (peer_summary cwd) = peer_summary cwd"
    using assms by (simp add: clean_summary_def peer_summary_def meshCleanText_plain meshSessionNameRunes_def meshSessionFieldRunes_def
        meshSessionCWDRunes_def meshSessionOwnerRunes_def byte_of_def)
  moreover have "timestamps_check (peer_summary cwd) year_2000 = None"
    by (simp add: timestamps_check_def timestamp_ok optional_ok accepted_time_def peer_summary_def hour_ns_def)
  moreover have "trim_space ''codex'' \<noteq> []" "trim_space ''idle'' \<noteq> []" by (simp_all add: ascii_eval)
  ultimately show ?thesis unfolding sanitize_Inr
    by (intro exI [of _ None]) (simp add: NormalizeCurrentWork_def peer_summary_def)
qed



section \<open>Artifact references\<close>

lemma reference_session:
  assumes "meshArtifactEnvelopeFromReference g peer r now = Inr a"
  shows "(ar_Session r = None \<and> a = reference_envelope r now
    \<or> (\<exists>l. ar_Session r = Some (lc_ProfileScope l, lc_SessionID l) \<and> NewLocator (lc_ProfileScope l) (lc_SessionID l) = Inr l
         \<and> a = (reference_envelope r now)\<lparr>ae_Session := Some \<lparr>loc_SchemaVersion = SchemaVersion, loc_DeviceID = peer,
              loc_ProfileScope = lc_ProfileScope l, loc_SessionID = lc_SessionID l, loc_TransportBindingID = []\<rparr>\<rparr>))
    \<and> Artifact_Validate g a = None"
  using assms by (auto simp: meshArtifactEnvelopeFromReference_def NewLocator_result split: option.splits)

text \<open>
  An artifact reference survives the trip: the envelope that a daemon builds from a reference gives, read as a reference,
  the same reference, and it carries no title, state, address, path or branch.
\<close>

theorem reference_roundtrip:
  assumes "meshArtifactEnvelopeFromReference g peer r now = Inr a"
  shows "meshArtifactReferenceFromEnvelope g a = Inr r
    \<and> ae_Title a = [] \<and> ae_State a = [] \<and> ae_URL a = [] \<and> ae_PathHint a = [] \<and> pred_option (\<lambda>x. rr_Ref x = []) (ae_Repo a)
    \<and> pred_option (\<lambda>l. loc_DeviceID l = peer) (ae_Session a)"
proof -
  have repo: "map_option (\<lambda>x. (rr_Repo x, rr_Commit x)) (map_option (\<lambda>(repo, commit). \<lparr>rr_Repo = repo, rr_Ref = [], rr_Commit = commit\<rparr>) v) = v" for v
    by (cases v) auto
  have ref: "pred_option (\<lambda>x. rr_Ref x = []) (map_option (\<lambda>(repo, commit). \<lparr>rr_Repo = repo, rr_Ref = [], rr_Commit = commit\<rparr>) v)" for v
    by (cases v) auto
  show ?thesis using reference_session [OF assms]
    by (cases r) (auto simp: meshArtifactReferenceFromEnvelope_def reference_envelope_def repo ref)
qed

theorem reference_roundtrip_witness:
  "\<forall>g. \<exists>a. meshArtifactEnvelopeFromReference g ''peer'' \<lparr>ar_ID = ''a1'', ar_Kind = ArtifactGoal, ar_Repo = None, ar_Session = Some (''root'', ''s1'')\<rparr> 1 = Inr a
     \<and> meshArtifactReferenceFromEnvelope g a = Inr \<lparr>ar_ID = ''a1'', ar_Kind = ArtifactGoal, ar_Repo = None, ar_Session = Some (''root'', ''s1'')\<rparr>"
proof
  fix g
  let ?r = "\<lparr>ar_ID = ''a1'', ar_Kind = ArtifactGoal, ar_Repo = None, ar_Session = Some (''root'', ''s1'')\<rparr>"
  let ?l = "\<lparr>lc_Version = 1, lc_ProfileScope = ''root'', lc_SessionID = ''s1''\<rparr>"
  have l: "NewLocator ''root'' ''s1'' = Inr ?l"
    by (simp add: NewLocator_result View_Locator_Validate_def LocatorVersion_def Scope_Validate_def View_RootProfileScope_def sessionIDPattern_def
        id_shape_def is_alnum_def is_lower_char_def is_upper_char_def is_digit_def byte_of_def)
  have ids: "validateID f ''a1'' = None" "validateID f ''peer'' = None" "validateID f ''s1'' = None" for f
    by (simp_all add: validateID_def safeID_def id_shape_def is_alnum_def is_lower_char_def is_upper_char_def is_digit_def byte_of_def)
  have b: "validateBounded f [] n False = None" for f n by (simp add: validateBounded_def validateNoControls_def runes_of_def)
  have p: "validateBounded f ''mesh.reference.v1'' 512 True = None" for f
    by (simp add: validateBounded_def validateNoControls_def ascii_eval is_control_def)
  obtain a where a: "meshArtifactEnvelopeFromReference g ''peer'' ?r 1 = Inr a"
    by (simp add: meshArtifactEnvelopeFromReference_def l view_res_def reference_envelope_def Artifact_Validate_def artifact_source_check_def ids b p
        Kind_Validate_def validateHTTPSURL_def validatePathHint_def Locator_Validate_def ProfileScope_Validate_def RootProfileScope_def Freshness_Validate_def)
  with reference_roundtrip [OF a] show "\<exists>a. meshArtifactEnvelopeFromReference g ''peer'' ?r 1 = Inr a \<and> meshArtifactReferenceFromEnvelope g a = Inr ?r" by blast
qed

section \<open>Topics\<close>

lemma topics_from_ok:
  "distinct out \<Longrightarrow> topics_from out ts = Inr r \<longleftrightarrow>
     set ts \<subseteq> {meshTopicSessions, meshTopicArtifacts} \<and> r = sorted_list_of_set (set out \<union> set ts)"
proof (induction out ts rule: topics_from.induct)
  case (1 out)
  then show ?case by (auto simp: sorted_list_of_set_sort_remdups distinct_remdups_id)
next
  case (2 out t ts)
  let ?out = "if t \<in> set out then out else out @ [t]"
  have s: "set ?out \<union> set ts = set out \<union> set (t # ts)" "distinct ?out" using 2(2) by auto
  show ?case
  proof (cases "t \<noteq> meshTopicSessions \<and> t \<noteq> meshTopicArtifacts")
    case False
    then have "topics_from out (t # ts) = topics_from ?out ts" "set (t # ts) \<subseteq> {meshTopicSessions, meshTopicArtifacts} \<longleftrightarrow> set ts \<subseteq> {meshTopicSessions, meshTopicArtifacts}" by auto
    with 2(1) [OF False s(2)] s(1) show ?thesis by simp
  qed simp
qed

text \<open>
  A subscription is granted exactly for known topics whose read scope the connection has, whatever it lists and how
  often; the granted list is sorted and free of duplicates.
\<close>

theorem subscription_authorized:
  "(\<exists>r. validateMeshTopics topics = Inr r \<and> authorizeMeshTopics p r = None)
     \<longleftrightarrow> set topics \<subseteq> {t. \<exists>scope. topic_scope t = Some scope \<and> scope \<in> set (pr_Scopes p)}"
proof -
  have v: "validateMeshTopics topics = Inr r \<longleftrightarrow> set topics \<subseteq> {meshTopicSessions, meshTopicArtifacts} \<and> r = sorted_list_of_set (set topics)" for r
    using topics_from_ok [of "[]" topics r] by (simp add: validateMeshTopics_def)
  have a: "authorizeMeshTopics p r = None \<longleftrightarrow> (\<forall>t \<in> set r. \<exists>scope. topic_scope t = Some scope \<and> scope \<in> set (pr_Scopes p))" for r
    by (auto simp: authorizeMeshTopics_def first_err_None HasScope_def list_ex_iff split: option.split)
  have "set topics \<subseteq> {meshTopicSessions, meshTopicArtifacts}" if "set topics \<subseteq> {t. \<exists>scope. topic_scope t = Some scope \<and> scope \<in> set (pr_Scopes p)}"
    using that by (auto simp: topic_scope_def split: if_splits)
  then show ?thesis unfolding v a by auto
qed

end
