(* ===== verification/Mesh_Paging.thy ===== *)
theory Mesh_Paging
  imports Mesh_Export
begin

text \<open>
  Inventories in pages (\<open>internal/daemon/mesh_application.go\<close>): the server's \<open>localMeshSessionsPage\<close> and
  \<open>localMeshArtifactsPage\<close> with their cursors and caches, and the client's loops in \<open>RemoteSessionsList\<close> and
  \<open>RemoteArtifactsList\<close> up to the commit.

  The two inventories have the same code over different items, so the page functions are polymorphic. \<open>json.Marshal\<close> of
  a response is the argument \<open>enc\<close>, and \<open>visit\<close> is the order in which Go ranges over a map.
\<close>

section \<open>Numbers\<close>

definition digit_char :: "nat \<Rightarrow> char" where "digit_char d = char_of (48 + d)"
definition char_digit :: "char \<Rightarrow> nat" where "char_digit c = byte_of c - 48"

fun format_nat :: "nat \<Rightarrow> string" where
  "format_nat n = (if n < 10 then [digit_char n] else format_nat (n div 10) @ [digit_char (n mod 10)])"

declare format_nat.simps [simp del]

definition ParseUint :: "nat \<Rightarrow> string \<Rightarrow> nat option" where
  "ParseUint bits s =
     (if s = [] \<or> \<not> list_all is_digit s then None
      else let v = foldl (\<lambda>a c. 10 * a + char_digit c) 0 s in if v < 2 ^ bits then Some v else None)"

section \<open>Limits and cursors\<close>

datatype page_error =
    LimitRange
  | InvalidCursor
  | CursorExpired
  | PageTooLarge
  | PageExport export_error
  | PageCallFailed
  | PageLimitExceeded
  | CursorChanged
  | ItemBoundExceeded
  | EmptyContinuation
  | NonContiguous

definition meshPageItemMax :: nat where "meshPageItemMax = 256"
definition meshPageTTL :: time where "meshPageTTL = 30 * 1000000000"
definition meshPageCacheMax :: nat where "meshPageCacheMax = 64"
definition MaxApplicationPayload :: nat where "MaxApplicationPayload = 48 * 1024"
definition meshPageResultBudget :: nat where "meshPageResultBudget = MaxApplicationPayload - 1024"

definition meshPageLimit :: "int \<Rightarrow> nat \<Rightarrow> page_error + nat" where
  "meshPageLimit requested maximum =
     (if requested = 0 then Inr maximum
      else if requested < 1 \<or> int maximum < requested then Inl LimitRange
      else Inr (nat requested))"

definition meshCursor :: "string \<Rightarrow> u64 \<Rightarrow> nat \<Rightarrow> string" where
  "meshCursor pre revision offset = pre @ ''.'' @ format_nat (unat revision) @ ''.'' @ format_nat offset"

definition parseMeshCursor :: "string \<Rightarrow> string \<Rightarrow> page_error + (u64 \<times> nat)" where
  "parseMeshCursor pre cursor =
     (case split_at (CHR ''.'') cursor of
        [p, r, n] \<Rightarrow>
          if p \<noteq> pre then Inl InvalidCursor
          else (case ParseUint 64 r of
                  None \<Rightarrow> Inl InvalidCursor
                | Some revision \<Rightarrow>
                    if revision = 0 then Inl InvalidCursor
                    else (case ParseUint 31 n of
                            None \<Rightarrow> Inl InvalidCursor
                          | Some offset \<Rightarrow> if offset = 0 then Inl InvalidCursor else Inr (of_nat revision, offset)))
      | _ \<Rightarrow> Inl InvalidCursor)"

definition meshPageKey :: "string \<Rightarrow> u64 \<Rightarrow> string" where
  "meshPageKey peer revision = peer @ ''/'' @ format_nat (unat revision)"

section \<open>Pages\<close>

definition meshResultFits :: "('v \<Rightarrow> string option) \<Rightarrow> 'v \<Rightarrow> bool" where
  "meshResultFits enc value =
     (case enc value of
        None \<Rightarrow> False
      | Some result \<Rightarrow> length ([CHR ''{''] @ [quote] @ ''result'' @ [quote] @ '':'' @ result @ [CHR ''}'']) \<le> meshPageResultBudget)"

text \<open>The loop of \<open>buildSessionPage\<close> and \<open>buildArtifactPage\<close>; \<open>n\<close> is what the limit still allows.\<close>

fun grow_page :: "('a inventory \<Rightarrow> bool) \<Rightarrow> string \<Rightarrow> 'a inventory \<Rightarrow> nat \<Rightarrow> 'a inventory \<Rightarrow> nat \<Rightarrow> 'a inventory \<times> nat" where
  "grow_page fits pre full 0 page e = (page, e)"
| "grow_page fits pre full (Suc n) page e =
     (if e < length (in_Items full) then
        let candidate = page\<lparr>in_Items := in_Items page @ [in_Items full ! e],
                             in_NextCursor := (if Suc e < length (in_Items full) then meshCursor pre (in_SourceRevision full) (Suc e) else [])\<rparr>
        in if fits candidate then grow_page fits pre full n candidate (Suc e) else (page, e)
      else (page, e))"

definition build_page :: "('a inventory \<Rightarrow> bool) \<Rightarrow> string \<Rightarrow> 'a inventory \<Rightarrow> nat \<Rightarrow> nat \<Rightarrow> page_error + ('a inventory \<times> nat)" where
  "build_page fits pre full offset limit =
     (let page = full\<lparr>in_Items := [], in_NextCursor := []\<rparr> in
      if offset = length (in_Items full) then (if fits page then Inr (page, offset) else Inl PageTooLarge)
      else let (page, e) = grow_page fits pre full limit page offset in
        if e = offset then Inl PageTooLarge else Inr (page, e))"

record 'a cached_inventory =
  ca_created :: time
  ca_kind :: ArtifactKind
  ca_response :: "'a inventory"

type_synonym 'a page_cache = "(string \<times> 'a cached_inventory) list"

definition prune_pages :: "time \<Rightarrow> 'a page_cache \<Rightarrow> 'a page_cache" where
  "prune_pages now pages = filter (\<lambda>(_, page). \<not> now - ca_created page > meshPageTTL) pages"

definition oldest_page :: "'a page_cache \<Rightarrow> string" where
  "oldest_page order =
     fst (foldl (\<lambda>(oldestKey, oldest) (key, page).
            if oldestKey = [] \<or> ca_created page < oldest then (key, ca_created page) else (oldestKey, oldest)) ([], 0) order)"

text \<open>Each round of the loop deletes an entry, so the number of entries bounds the rounds.\<close>

fun bound_rounds :: "('a page_cache \<Rightarrow> 'a page_cache) \<Rightarrow> nat \<Rightarrow> 'a page_cache \<Rightarrow> 'a page_cache" where
  "bound_rounds visit 0 pages = pages"
| "bound_rounds visit (Suc n) pages =
     (if length pages \<ge> meshPageCacheMax then bound_rounds visit n (AList.delete (oldest_page (visit pages)) pages) else pages)"

definition bound_pages :: "('a page_cache \<Rightarrow> 'a page_cache) \<Rightarrow> 'a page_cache \<Rightarrow> 'a page_cache" where
  "bound_pages visit pages = bound_rounds visit (length pages) pages"

definition first_page ::
  "('a page_cache \<Rightarrow> 'a page_cache) \<Rightarrow> ('a inventory \<Rightarrow> bool) \<Rightarrow> string \<Rightarrow> string \<Rightarrow> ArtifactKind \<Rightarrow> 'a inventory \<Rightarrow> nat \<Rightarrow> time \<Rightarrow> time
   \<Rightarrow> 'a page_cache \<Rightarrow> 'a page_cache \<times> (page_error + 'a inventory)" where
  "first_page visit fits pre peer kind full limit now created pages =
     (case build_page fits pre full 0 limit of
        Inl e \<Rightarrow> (pages, Inl e)
      | Inr (page, e) \<Rightarrow>
          (if e < length (in_Items full)
           then AList.update (meshPageKey peer (in_SourceRevision full)) \<lparr>ca_created = created, ca_kind = kind, ca_response = full\<rparr>
                  (bound_pages visit (prune_pages now pages))
           else pages, Inr page))"

definition next_page ::
  "('a inventory \<Rightarrow> bool) \<Rightarrow> string \<Rightarrow> string \<Rightarrow> ArtifactKind \<Rightarrow> u64 \<Rightarrow> nat \<Rightarrow> nat \<Rightarrow> time
   \<Rightarrow> 'a page_cache \<Rightarrow> 'a page_cache \<times> (page_error + 'a inventory)" where
  "next_page fits pre peer kind revision offset limit now pages =
     (let key = meshPageKey peer revision; pages = prune_pages now pages in
      case map_of pages key of
        None \<Rightarrow> (pages, Inl CursorExpired)
      | Some cached \<Rightarrow>
          if ca_kind cached \<noteq> kind \<or> offset \<ge> length (in_Items (ca_response cached)) then (pages, Inl CursorExpired)
          else (case build_page fits pre (ca_response cached) offset limit of
                  Inl e \<Rightarrow> (pages, Inl e)
                | Inr (page, e) \<Rightarrow>
                    (if e = length (in_Items (ca_response cached)) then AList.delete key pages else pages, Inr page)))"

section \<open>The server\<close>

record meshPages =
  mp_revision :: u64
  mp_sessionPages :: "Summary page_cache"
  mp_artifactPages :: "meshArtifactReference page_cache"

text \<open>\<open>nextMeshRevision\<close> and \<open>prunePagesLocked\<close>.\<close>

definition nextMeshRevision :: "meshPages \<Rightarrow> meshPages" where
  "nextMeshRevision app = app\<lparr>mp_revision := mp_revision app + 1\<rparr>"

definition prunePagesLocked :: "time \<Rightarrow> meshPages \<Rightarrow> meshPages" where
  "prunePagesLocked now app =
     app\<lparr>mp_sessionPages := prune_pages now (mp_sessionPages app), mp_artifactPages := prune_pages now (mp_artifactPages app)\<rparr>"

text \<open>A request prunes both caches, unless it is a first page that is not cached.\<close>

definition session_pages ::
  "time \<Rightarrow> Summary page_cache \<times> (page_error + meshSessionsListResponse) \<Rightarrow> bool \<Rightarrow> meshPages \<Rightarrow> meshPages \<times> (page_error + meshSessionsListResponse)" where
  "session_pages now r pruned app =
     ((if pruned then prunePagesLocked now app else app)\<lparr>mp_sessionPages := fst r\<rparr>, snd r)"

definition artifact_pages ::
  "time \<Rightarrow> meshArtifactReference page_cache \<times> (page_error + meshArtifactsListResponse) \<Rightarrow> bool \<Rightarrow> meshPages \<Rightarrow> meshPages \<times> (page_error + meshArtifactsListResponse)" where
  "artifact_pages now r pruned app =
     ((if pruned then prunePagesLocked now app else app)\<lparr>mp_artifactPages := fst r\<rparr>, snd r)"

definition caches :: "('a inventory \<Rightarrow> bool) \<Rightarrow> string \<Rightarrow> 'a inventory \<Rightarrow> nat \<Rightarrow> bool" where
  "caches fits pre full limit =
     (case build_page fits pre full 0 limit of Inl _ \<Rightarrow> False | Inr (_, e) \<Rightarrow> e < length (in_Items full))"

definition firstSessionPage where
  "firstSessionPage visit enc peer full limit now created app =
     session_pages now (first_page visit (meshResultFits enc) ''s'' peer NoKind full limit now created (mp_sessionPages app))
       (caches (meshResultFits enc) ''s'' full limit) app"

definition nextSessionPage where
  "nextSessionPage enc peer revision offset limit now app =
     session_pages now (next_page (meshResultFits enc) ''s'' peer NoKind revision offset limit now (mp_sessionPages app)) True app"

definition firstArtifactPage where
  "firstArtifactPage visit enc peer kind full limit now created app =
     artifact_pages now (first_page visit (meshResultFits enc) ''a'' peer kind full limit now created (mp_artifactPages app))
       (caches (meshResultFits enc) ''a'' full limit) app"

definition nextArtifactPage where
  "nextArtifactPage enc peer kind revision offset limit now app =
     artifact_pages now (next_page (meshResultFits enc) ''a'' peer kind revision offset limit now (mp_artifactPages app)) True app"

record page_request =
  rq_Cursor :: string
  rq_Limit :: int

text \<open>
  The inventory of sessions that is taken under a revision is \<open>full revision\<close>. The artifacts are read from the store
  before the revision is taken.
\<close>

definition localMeshSessionsPage where
  "localMeshSessionsPage visit enc full peer request now created app =
     (case meshPageLimit (rq_Limit request) meshPageItemMax of
        Inl e \<Rightarrow> (app, Inl e)
      | Inr limit \<Rightarrow>
          if rq_Cursor request = [] then
            let app = nextMeshRevision app in firstSessionPage visit enc peer (full (mp_revision app)) limit now created app
          else (case parseMeshCursor ''s'' (rq_Cursor request) of
                  Inl e \<Rightarrow> (app, Inl e)
                | Inr (revision, offset) \<Rightarrow> nextSessionPage enc peer revision offset limit now app))"

definition local_references :: "golib \<Rightarrow> mesh_error + ArtifactEnvelope list \<Rightarrow> page_error + meshArtifactReference list" where
  "local_references g artifacts =
     (case artifacts of
        Inl e \<Rightarrow> Inl (PageExport (StateError e))
      | Inr as \<Rightarrow> map_sum PageExport id (map_res (meshArtifactReferenceFromEnvelope g) as))"

definition localMeshArtifactsPage where
  "localMeshArtifactsPage visit enc g artifacts epoch peer kind request now created app =
     (case meshPageLimit (rq_Limit request) meshPageItemMax of
        Inl e \<Rightarrow> (app, Inl e)
      | Inr limit \<Rightarrow>
          if rq_Cursor request \<noteq> [] then
            (case parseMeshCursor ''a'' (rq_Cursor request) of
               Inl e \<Rightarrow> (app, Inl e)
             | Inr (revision, offset) \<Rightarrow> nextArtifactPage enc peer kind revision offset limit now app)
          else (case local_references g artifacts of
                  Inl e \<Rightarrow> (app, Inl e)
                | Inr refs \<Rightarrow>
                    let app = nextMeshRevision app in
                    firstArtifactPage visit enc peer kind
                      \<lparr>in_SourceEpoch = epoch, in_SourceRevision = mp_revision app, in_ProfileScopes = [], in_Items = refs, in_NextCursor = []\<rparr>
                      limit now created app))"

section \<open>The client\<close>

definition maxPages :: nat where "maxPages = 4096"

text \<open>
  The loop of the list calls: \<open>call\<close> is the remote procedure call with a cursor, \<open>same\<close> compares the head of a
  page with the first one, \<open>acc\<close> is the response so far (\<open>None\<close> before the first page).
\<close>

fun collect ::
  "('s \<Rightarrow> string \<Rightarrow> 's \<times> (page_error + 'a inventory)) \<Rightarrow> string \<Rightarrow> ('a inventory \<Rightarrow> 'a inventory \<Rightarrow> bool) \<Rightarrow> nat
   \<Rightarrow> 'a inventory option \<Rightarrow> string \<Rightarrow> 's \<Rightarrow> 's \<times> (page_error + 'a inventory)" where
  "collect call pre same 0 acc cursor s = (s, Inl PageLimitExceeded)"
| "collect call pre same (Suc n) acc cursor s =
     (case call s cursor of
        (s, Inl e) \<Rightarrow> (s, Inl e)
      | (s, Inr page) \<Rightarrow>
          if acc \<noteq> None \<and> \<not> same page (the acc) then (s, Inl CursorChanged)
          else if length (in_Items page) > meshPageItemMax then (s, Inl ItemBoundExceeded)
          else
            let response = (case acc of None \<Rightarrow> page\<lparr>in_Items := []\<rparr> | Some r \<Rightarrow> r);
                response = response\<lparr>in_Items := in_Items response @ in_Items page\<rparr>;
                cursor = in_NextCursor page
            in if cursor = [] then (s, Inr (response\<lparr>in_NextCursor := []\<rparr>))
               else if in_Items page = [] then (s, Inl EmptyContinuation)
               else (case parseMeshCursor pre cursor of
                       Inl _ \<Rightarrow> (s, Inl NonContiguous)
                     | Inr (revision, offset) \<Rightarrow>
                         if revision \<noteq> in_SourceRevision response \<or> offset \<noteq> length (in_Items response) then (s, Inl NonContiguous)
                         else collect call pre same n (Some response) cursor s))"

definition same_session_head :: "'a inventory \<Rightarrow> 'a inventory \<Rightarrow> bool" where
  "same_session_head page r \<longleftrightarrow>
     in_SourceEpoch page = in_SourceEpoch r \<and> in_SourceRevision page = in_SourceRevision r \<and> in_ProfileScopes page = in_ProfileScopes r"

definition same_artifact_head :: "'a inventory \<Rightarrow> 'a inventory \<Rightarrow> bool" where
  "same_artifact_head page r \<longleftrightarrow> in_SourceEpoch page = in_SourceEpoch r \<and> in_SourceRevision page = in_SourceRevision r"

definition fetch_sessions :: "('s \<Rightarrow> string \<Rightarrow> 's \<times> (page_error + meshSessionsListResponse)) \<Rightarrow> 's \<Rightarrow> 's \<times> (page_error + meshSessionsListResponse)" where
  "fetch_sessions call s = collect call ''s'' same_session_head maxPages None [] s"

definition fetch_artifacts :: "('s \<Rightarrow> string \<Rightarrow> 's \<times> (page_error + meshArtifactsListResponse)) \<Rightarrow> 's \<Rightarrow> 's \<times> (page_error + meshArtifactsListResponse)" where
  "fetch_artifacts call s = collect call ''a'' same_artifact_head maxPages None [] s"

section \<open>Cursors are read back\<close>

lemma format_nat_digits: "format_nat n \<noteq> [] \<and> list_all is_digit (format_nat n)"
proof (induction n rule: format_nat.induct)
  case (1 n)
  have d: "is_digit (digit_char d)" if "d < 10" for d
    using that by (simp add: digit_char_def is_digit_def byte_of_def)
  show ?case using 1 d by (subst (1 2) format_nat.simps) auto
qed

lemma char_digit_char: "d < 10 \<Longrightarrow> char_digit (digit_char d) = d"
  by (simp add: char_digit_def digit_char_def byte_of_def)

lemma format_nat_value: "foldl (\<lambda>a c. 10 * a + char_digit c) 0 (format_nat n) = n"
proof (induction n rule: format_nat.induct)
  case (1 n)
  then show ?case by (subst format_nat.simps) (auto simp: char_digit_char)
qed

lemma ParseUint_format: "n < 2 ^ bits \<Longrightarrow> ParseUint bits (format_nat n) = Some n"
  using format_nat_digits [of n] format_nat_value [of n] by (simp add: ParseUint_def)

lemma format_nat_plain: "c \<in> set (format_nat n) \<Longrightarrow> c \<noteq> CHR ''.'' \<and> c \<noteq> CHR ''/''"
  using format_nat_digits [of n] by (auto simp: list_all_iff is_digit_def byte_of_def)

lemma format_nat_inj: "format_nat m = format_nat n \<Longrightarrow> m = n"
  using format_nat_value by metis

lemma cursor_roundtrip:
  assumes "CHR ''.'' \<notin> set pre" "revision \<noteq> 0" "0 < offset" "offset < 2 ^ 31"
  shows "parseMeshCursor pre (meshCursor pre revision offset) = Inr (revision, offset)"
proof -
  have dot: "CHR ''.'' \<notin> set (format_nat n)" for n using format_nat_plain by blast
  have "split_at (CHR ''.'') (pre @ CHR ''.'' # format_nat (unat revision) @ CHR ''.'' # format_nat offset)
      = [pre, format_nat (unat revision), format_nat offset]"
    using assms(1) dot by (simp add: split_at_append split_at_none)
  then have "split_at (CHR ''.'') (meshCursor pre revision offset) = [pre, format_nat (unat revision), format_nat offset]"
    by (simp add: meshCursor_def)
  moreover have "ParseUint 64 (format_nat (unat revision)) = Some (unat revision)"
    using unsigned_less [of revision] by (intro ParseUint_format) simp
  moreover have "unat revision \<noteq> 0" using assms(2) by (simp add: unat_eq_zero)
  ultimately show ?thesis using assms(3,4) ParseUint_format [of offset 31] by (simp add: parseMeshCursor_def)
qed

lemma first_sep:
  assumes "xs @ c # ys = xs' @ c # ys'" "c \<notin> set xs" "c \<notin> set xs'"
  shows "xs = xs' \<and> ys = ys'"
  using assms by (induction xs arbitrary: xs') (case_tac xs', auto)+

lemma page_key_inj:
  assumes "meshPageKey p r = meshPageKey q s"
  shows "p = q \<and> r = s"
proof -
  have "rev (format_nat (unat r)) @ CHR ''/'' # rev p = rev (format_nat (unat s)) @ CHR ''/'' # rev q"
    using arg_cong [OF assms, of rev] by (simp add: meshPageKey_def)
  moreover have sep: "CHR ''/'' \<notin> set (rev (format_nat n))" for n using format_nat_plain by auto
  ultimately have "rev (format_nat (unat r)) = rev (format_nat (unat s)) \<and> rev p = rev q" by (intro first_sep sep)
  then have "format_nat (unat r) = format_nat (unat s)" "p = q" by simp_all
  then show ?thesis using format_nat_inj by (metis word_unat_eq_iff)
qed

section \<open>A page is a slice\<close>

definition slice :: "string \<Rightarrow> 'a inventory \<Rightarrow> nat \<Rightarrow> 'a inventory \<Rightarrow> nat \<Rightarrow> bool" where
  "slice pre full offset page e \<longleftrightarrow>
     offset \<le> e \<and> e \<le> length (in_Items full)
     \<and> page = full\<lparr>in_Items := take (e - offset) (drop offset (in_Items full)),
                   in_NextCursor := (if e < length (in_Items full) then meshCursor pre (in_SourceRevision full) e else [])\<rparr>"

lemma grow_page_slice:
  assumes "grow_page fits pre full n page e = (page', e')" "offset \<le> e" "e \<le> length (in_Items full)"
    "page\<lparr>in_NextCursor := []\<rparr> = full\<lparr>in_Items := take (e - offset) (drop offset (in_Items full)), in_NextCursor := []\<rparr>"
    "offset < e \<Longrightarrow> slice pre full offset page e"
  shows "e \<le> e' \<and> e' \<le> e + n \<and> (offset < e' \<longrightarrow> slice pre full offset page' e')"
  using assms
proof (induction n arbitrary: page e)
  case 0
  then show ?case by auto
next
  case (Suc n)
  let ?cur = "if Suc e < length (in_Items full) then meshCursor pre (in_SourceRevision full) (Suc e) else []"
  let ?cand = "page\<lparr>in_Items := in_Items page @ [in_Items full ! e], in_NextCursor := ?cur\<rparr>"
  show ?case
  proof (cases "e < length (in_Items full) \<and> fits ?cand")
    case True
    have items: "in_Items page = take (e - offset) (drop offset (in_Items full))"
      using arg_cong [OF Suc.prems(4), of in_Items] by simp
    have snoc: "in_Items page @ [in_Items full ! e] = take (Suc e - offset) (drop offset (in_Items full))"
    proof -
      have "e - offset < length (drop offset (in_Items full))" "drop offset (in_Items full) ! (e - offset) = in_Items full ! e"
        using True Suc.prems(2) by (simp_all add: diff_less_mono)
      then show ?thesis using items Suc.prems(2) by (metis Suc_diff_le take_Suc_conv_app_nth)
    qed
    have head: "?cand\<lparr>in_NextCursor := []\<rparr> = full\<lparr>in_Items := take (Suc e - offset) (drop offset (in_Items full)), in_NextCursor := []\<rparr>"
      using Suc.prems(4) snoc by (cases page; cases full) simp
    have s: "slice pre full offset ?cand (Suc e)"
      using arg_cong [OF head, of "\<lambda>p. p\<lparr>in_NextCursor := ?cur\<rparr>"] True Suc.prems(2) by (simp add: slice_def)
    have "grow_page fits pre full n ?cand (Suc e) = (page', e')" using Suc.prems(1) True by simp
    from Suc.IH [OF this _ _ head s] True Suc.prems(2) show ?thesis by auto
  next
    case False
    then have "page' = page \<and> e' = e" using Suc.prems(1) by (auto simp: Let_def split: if_splits)
    with Suc.prems(5) show ?thesis by auto
  qed
qed

lemma build_page_slice:
  assumes "build_page fits pre full offset limit = Inr (page, e)" "offset \<le> length (in_Items full)"
  shows "slice pre full offset page e \<and> e \<le> offset + limit \<and> (offset < length (in_Items full) \<longrightarrow> offset < e)"
proof (cases "offset = length (in_Items full)")
  case True
  with assms(1) show ?thesis by (auto simp: build_page_def Let_def slice_def split: if_splits)
next
  case False
  let ?p = "full\<lparr>in_Items := [], in_NextCursor := []\<rparr>"
  from assms(1) False have g: "grow_page fits pre full limit ?p offset = (page, e)" "e \<noteq> offset"
    by (auto simp: build_page_def Let_def split: if_splits prod.splits)
  from grow_page_slice [OF g(1), of offset] assms(2) g(2) show ?thesis by auto
qed

section \<open>The client sees one inventory\<close>

text \<open>
  What a source of pages promises: a first page begins some inventory, and a page for a cursor continues the inventory of
  its revision, whatever happens in between.
\<close>

locale paged_source =
  fixes call :: "'s \<Rightarrow> string \<Rightarrow> 's \<times> (page_error + 'a inventory)"
    and ok :: "'s \<Rightarrow> bool"
    and pre :: string
    and full :: "u64 \<Rightarrow> 'a inventory"
  assumes revision: "in_SourceRevision (full r) = r"
    and first: "ok s \<Longrightarrow> call s [] = (s', Inr page) \<Longrightarrow> \<exists>r e. slice pre (full r) 0 page e"
    and further: "ok s \<Longrightarrow> cursor \<noteq> [] \<Longrightarrow> parseMeshCursor pre cursor = Inr (r, n) \<Longrightarrow> call s cursor = (s', Inr page)
      \<Longrightarrow> \<exists>e. slice pre (full r) n page e"
    and keeps: "ok s \<Longrightarrow> ok (fst (call s cursor))"
begin

lemma slice_append:
  assumes "slice pre (full r) n page e"
  shows "take n (in_Items (full r)) @ in_Items page = take e (in_Items (full r))"
  using assms by (auto simp: slice_def take_add [symmetric])

lemma collect_rest:
  assumes "ok s" "cursor \<noteq> []" "parseMeshCursor pre cursor = Inr (r, n)" "n \<le> length (in_Items (full r))"
    "acc\<lparr>in_NextCursor := []\<rparr> = (full r)\<lparr>in_Items := take n (in_Items (full r)), in_NextCursor := []\<rparr>"
    "collect call pre same m (Some acc) cursor s = (s', Inr res)"
  shows "res = (full r)\<lparr>in_NextCursor := []\<rparr>"
  using assms
proof (induction m arbitrary: s cursor n acc)
  case 0
  then show ?case by simp
next
  case (Suc m)
  obtain s1 page where c: "call s cursor = (s1, Inr page)"
    using Suc.prems(6) by (auto split: prod.splits sum.splits)
  obtain e where e: "slice pre (full r) n page e" using further [OF Suc.prems(1-3) c] by blast
  let ?acc = "acc\<lparr>in_Items := in_Items acc @ in_Items page\<rparr>"
  have items: "in_Items acc = take n (in_Items (full r))" "in_SourceRevision acc = r"
    using arg_cong [OF Suc.prems(5), of in_Items] arg_cong [OF Suc.prems(5), of in_SourceRevision] revision by simp_all
  have acc: "?acc\<lparr>in_NextCursor := []\<rparr> = (full r)\<lparr>in_Items := take e (in_Items (full r)), in_NextCursor := []\<rparr>"
    using Suc.prems(5) slice_append [OF e] items by (cases acc; cases "full r") simp
  have len: "length (in_Items acc @ in_Items page) = e"
    using slice_append [OF e] items(1) e by (simp add: slice_def)
  show ?case
  proof (cases "in_NextCursor page = []")
    case True
    then have "e = length (in_Items (full r))" using e by (auto simp: slice_def meshCursor_def split: if_splits)
    with acc have "?acc\<lparr>in_NextCursor := []\<rparr> = (full r)\<lparr>in_NextCursor := []\<rparr>" by (cases "full r") simp
    with True Suc.prems(6) c show ?thesis by (auto simp: Let_def split: if_splits)
  next
    case False
    obtain r' n' where p: "parseMeshCursor pre (in_NextCursor page) = Inr (r', n')" "r' = in_SourceRevision ?acc" "n' = length (in_Items ?acc)"
      "collect call pre same m (Some ?acc) (in_NextCursor page) s1 = (s', Inr res)"
      using Suc.prems(6) c False by (auto simp: Let_def split: if_splits sum.splits)
    have "ok s1" using keeps [OF Suc.prems(1), of cursor] c by simp
    moreover have "parseMeshCursor pre (in_NextCursor page) = Inr (r, e)" using p(1-3) items(2) len by simp
    moreover have "e \<le> length (in_Items (full r))" using e by (simp add: slice_def)
    ultimately show ?thesis using Suc.IH [OF _ False _ _ acc p(4)] by blast
  qed
qed

lemma collect_whole:
  assumes "ok s" "collect call pre same m None [] s = (s', Inr res)"
  shows "\<exists>r. res = (full r)\<lparr>in_NextCursor := []\<rparr>"
proof (cases m)
  case 0
  with assms(2) show ?thesis by simp
next
  case (Suc k)
  obtain s1 page where c: "call s [] = (s1, Inr page)"
    using assms(2) Suc by (auto split: prod.splits sum.splits)
  obtain r e where e: "slice pre (full r) 0 page e" using first [OF assms(1) c] by blast
  have rev: "in_SourceRevision page = r" "length (in_Items page) = e" using e revision [of r] by (auto simp: slice_def)
  have p: "page\<lparr>in_NextCursor := []\<rparr> = (full r)\<lparr>in_Items := take e (in_Items (full r)), in_NextCursor := []\<rparr>"
    using e by (cases "full r") (simp add: slice_def)
  show ?thesis
  proof (cases "in_NextCursor page = []")
    case True
    then have "e = length (in_Items (full r))" using e by (auto simp: slice_def meshCursor_def split: if_splits)
    with p have "page\<lparr>in_NextCursor := []\<rparr> = (full r)\<lparr>in_NextCursor := []\<rparr>" by (cases "full r") simp
    moreover have "res = page\<lparr>in_NextCursor := []\<rparr>" using assms(2) c Suc True by (cases page) (auto simp: Let_def split: if_splits)
    ultimately show ?thesis by blast
  next
    case False
    have same: "page\<lparr>in_Items := [] @ in_Items page\<rparr> = page" by (cases page) simp
    from assms(2) c Suc False same obtain r' n' where q: "parseMeshCursor pre (in_NextCursor page) = Inr (r', n')"
      "r' = in_SourceRevision page" "n' = length (in_Items page)"
      "collect call pre same k (Some page) (in_NextCursor page) s1 = (s', Inr res)"
      by (auto simp: Let_def split: if_splits sum.splits)
    have "ok s1" using keeps [OF assms(1), of "[]"] c by simp
    moreover have "parseMeshCursor pre (in_NextCursor page) = Inr (r, e)" using q(1-3) rev by simp
    moreover have "e \<le> length (in_Items (full r))" using e by (simp add: slice_def)
    ultimately show ?thesis using collect_rest [OF _ False _ _ p q(4)] by blast
  qed
qed

end

section \<open>The server among its peers\<close>

text \<open>
  A server answers several peers, and other work takes revisions in between. The content of the inventory that is taken
  under a revision is a function of the revision, because no revision is taken twice before the counter wraps.
\<close>

record page_env =
  pe_visitS :: "Summary page_cache \<Rightarrow> Summary page_cache"
  pe_visitA :: "meshArtifactReference page_cache \<Rightarrow> meshArtifactReference page_cache"
  pe_encS :: "meshSessionsListResponse \<Rightarrow> string option"
  pe_encA :: "meshArtifactsListResponse \<Rightarrow> string option"
  pe_golib :: golib
  pe_home :: "string option"
  pe_epoch :: string
  pe_catalog :: "u64 \<Rightarrow> catalog_root"
  pe_clock :: "u64 \<Rightarrow> time \<times> time"

definition inventory_at :: "page_env \<Rightarrow> u64 \<Rightarrow> meshSessionsListResponse" where
  "inventory_at env r = localMeshSessions (pe_home env) (pe_catalog env r) (fst (pe_clock env r)) (snd (pe_clock env r)) (pe_epoch env) r"

datatype server_op =
    SessionsPage string page_request time time
  | ArtifactsPage "mesh_error + ArtifactEnvelope list" string ArtifactKind page_request time time
  | TakeRevision

fun serve :: "page_env \<Rightarrow> server_op \<Rightarrow> meshPages \<Rightarrow> meshPages" where
  "serve env (SessionsPage peer request now created) app =
     fst (localMeshSessionsPage (pe_visitS env) (pe_encS env) (inventory_at env) peer request now created app)"
| "serve env (ArtifactsPage artifacts peer kind request now created) app =
     fst (localMeshArtifactsPage (pe_visitA env) (pe_encA env) (pe_golib env) artifacts (pe_epoch env) peer kind request now created app)"
| "serve env TakeRevision app = nextMeshRevision app"

text \<open>A call of \<open>peer\<close>: what the server does before it, and the times of the call, come from a schedule.\<close>

definition session_call ::
  "page_env \<Rightarrow> string \<Rightarrow> (nat \<Rightarrow> server_op list \<times> time \<times> time) \<Rightarrow> nat \<times> meshPages \<Rightarrow> string
   \<Rightarrow> (nat \<times> meshPages) \<times> (page_error + meshSessionsListResponse)" where
  "session_call env peer sched st cursor =
     (let (ops, now, created) = sched (fst st);
          (app, r) = localMeshSessionsPage (pe_visitS env) (pe_encS env) (inventory_at env) peer \<lparr>rq_Cursor = cursor, rq_Limit = 0\<rparr> now created
                       (fold (serve env) ops (snd st))
      in ((Suc (fst st), app), r))"

definition cache_ok :: "(u64 \<Rightarrow> 'a inventory) \<Rightarrow> 'a page_cache \<Rightarrow> bool" where
  "cache_ok full pages \<longleftrightarrow>
     (\<forall>(k, c) \<in> set pages. \<exists>peer r. k = meshPageKey peer r \<and> ca_response c = full r)"

lemma cache_ok_subset: "cache_ok full pages \<Longrightarrow> set pages' \<subseteq> set pages \<Longrightarrow> cache_ok full pages'"
  by (auto simp: cache_ok_def)

lemma prune_subset: "set (prune_pages now pages) \<subseteq> set pages"
  by (auto simp: prune_pages_def)

lemma delete_subset: "set (AList.delete k pages) \<subseteq> set pages"
  by (auto simp: AList.delete_eq)

lemma bound_subset: "set (bound_rounds visit n pages) \<subseteq> set pages"
proof (induction visit n pages rule: bound_rounds.induct)
  case (2 visit n pages)
  then show ?case using delete_subset [of "oldest_page (visit pages)" pages] by (auto dest: subsetD)
qed simp

lemma update_subset: "set (AList.update k v pages) \<subseteq> insert (k, v) (set pages)"
  by (induction pages) auto

lemma cache_ok_update:
  assumes "cache_ok full pages" "ca_response c = full r"
  shows "cache_ok full (AList.update (meshPageKey peer r) c pages)"
  unfolding cache_ok_def
proof
  fix x
  assume "x \<in> set (AList.update (meshPageKey peer r) c pages)"
  then consider "x = (meshPageKey peer r, c)" | "x \<in> set pages"
    using subsetD [OF update_subset [of "meshPageKey peer r" c pages]] by blast
  then show "case x of (k, c) \<Rightarrow> \<exists>peer r. k = meshPageKey peer r \<and> ca_response c = full r"
    by cases (use assms in \<open>auto simp: cache_ok_def\<close>)
qed

lemma first_page_ok:
  assumes "cache_ok full pages" "in_SourceRevision (full r) = r" "first_page visit fits pre peer kind (full r) limit now created pages = (pages', res)"
  shows "cache_ok full pages' \<and> (\<forall>page. res = Inr page \<longrightarrow> (\<exists>e. slice pre (full r) 0 page e))"
proof -
  let ?b = "bound_pages visit (prune_pages now pages)"
  let ?c = "\<lparr>ca_created = created, ca_kind = kind, ca_response = full r\<rparr>"
  have "cache_ok full ?b" unfolding bound_pages_def by (intro cache_ok_subset [OF _ bound_subset] cache_ok_subset [OF assms(1) prune_subset])
  then have u: "cache_ok full (AList.update (meshPageKey peer r) ?c ?b)" by (rule cache_ok_update) simp
  show ?thesis
  proof (cases "build_page fits pre (full r) 0 limit")
    case (Inl e)
    with assms show ?thesis by (auto simp: first_page_def)
  next
    case (Inr q)
    have "\<exists>e. slice pre (full r) 0 (fst q) e" using build_page_slice [of fits pre "full r" 0 limit "fst q" "snd q"] Inr by auto
    moreover have "res = Inr (fst q)" "pages' = pages \<or> pages' = AList.update (meshPageKey peer r) ?c ?b"
      using assms(2,3) Inr by (auto simp: first_page_def split_beta split: if_splits)
    ultimately show ?thesis using assms(1) u by auto
  qed
qed

lemma next_page_ok:
  assumes "cache_ok full pages" "next_page fits pre peer kind r n limit now pages = (pages', res)"
  shows "cache_ok full pages' \<and> (\<forall>page. res = Inr page \<longrightarrow> (\<exists>e. slice pre (full r) n page e))"
proof -
  let ?p = "prune_pages now pages"
  have p: "cache_ok full ?p" by (rule cache_ok_subset [OF assms(1) prune_subset])
  have d: "cache_ok full (AList.delete k ?p)" for k by (rule cache_ok_subset [OF p delete_subset])
  have full: "ca_response c = full r" if m: "map_of ?p (meshPageKey peer r) = Some c" for c
  proof -
    obtain peer' r' where "meshPageKey peer r = meshPageKey peer' r'" "ca_response c = full r'"
      using bspec [OF p [unfolded cache_ok_def] map_of_SomeD [OF m]] by auto
    with page_key_inj show ?thesis by blast
  qed
  have s: "\<exists>e. slice pre (full r) n page e" if "build_page fits pre (full r) n limit = Inr (page, e')" "n < length (in_Items (full r))" for page e'
    using build_page_slice [OF that(1)] that(2) by (meson less_imp_le)
  show ?thesis
  proof (cases "map_of ?p (meshPageKey peer r)")
    case None
    with assms(2) p show ?thesis by (auto simp: next_page_def)
  next
    case (Some c)
    with assms(2) p d s full [OF Some] show ?thesis
      by (auto simp: next_page_def Let_def split: if_splits sum.splits)
  qed
qed

lemma sessions_page_ok:
  assumes "cache_ok full (mp_sessionPages app)" "\<And>r. in_SourceRevision (full r) = r"
    "localMeshSessionsPage visit enc full peer request now created app = (app', res)"
  shows "cache_ok full (mp_sessionPages app')
    \<and> (\<forall>page. res = Inr page \<longrightarrow>
         (rq_Cursor request = [] \<longrightarrow> (\<exists>r e. slice ''s'' (full r) 0 page e))
         \<and> (\<forall>r n. rq_Cursor request \<noteq> [] \<longrightarrow> parseMeshCursor ''s'' (rq_Cursor request) = Inr (r, n) \<longrightarrow> (\<exists>e. slice ''s'' (full r) n page e)))"
proof (cases "meshPageLimit (rq_Limit request) meshPageItemMax")
  case (Inl e)
  with assms show ?thesis by (auto simp: localMeshSessionsPage_def)
next
  case (Inr limit)
  show ?thesis
  proof (cases "rq_Cursor request = []")
    case True
    let ?app = "nextMeshRevision app"
    let ?fp = "first_page visit (meshResultFits enc) ''s'' peer NoKind (full (mp_revision ?app)) limit now created (mp_sessionPages ?app)"
    have c: "cache_ok full (mp_sessionPages ?app)" using assms(1) by (simp add: nextMeshRevision_def)
    have "app' = fst (session_pages now ?fp (caches (meshResultFits enc) ''s'' (full (mp_revision ?app)) limit) ?app)" "res = snd ?fp"
      using assms(3) Inr True by (simp_all add: localMeshSessionsPage_def Let_def firstSessionPage_def session_pages_def)
    then have "mp_sessionPages app' = fst ?fp" "res = snd ?fp" by (simp_all add: session_pages_def)
    with first_page_ok [OF c assms(2), of visit "meshResultFits enc" "''s''" peer NoKind "mp_revision ?app" limit now created "fst ?fp" "snd ?fp"] True
    show ?thesis by auto
  next
    case False
    show ?thesis
    proof (cases "parseMeshCursor ''s'' (rq_Cursor request)")
      case (Inl e)
      with assms Inr False show ?thesis by (auto simp: localMeshSessionsPage_def)
    next
      case p: (Inr q)
      let ?np = "next_page (meshResultFits enc) ''s'' peer NoKind (fst q) (snd q) limit now (mp_sessionPages app)"
      have "mp_sessionPages app' = fst ?np" "res = snd ?np"
        using assms(3) Inr False p by (auto simp: localMeshSessionsPage_def nextSessionPage_def session_pages_def split_beta)
      with next_page_ok [OF assms(1), of "meshResultFits enc" "''s''" peer NoKind "fst q" "snd q" limit now "fst ?np" "snd ?np"] False p
      show ?thesis by auto
    qed
  qed
qed

lemma inventory_revision: "in_SourceRevision (inventory_at env r) = r"
  by (simp add: inventory_at_def localMeshSessions_def)

lemma artifacts_page_sessions:
  "set (mp_sessionPages (fst (localMeshArtifactsPage visit enc g artifacts epoch peer kind request now created app))) \<subseteq> set (mp_sessionPages app)"
  using prune_subset [of now "mp_sessionPages app"]
  by (auto simp: localMeshArtifactsPage_def nextArtifactPage_def firstArtifactPage_def artifact_pages_def prunePagesLocked_def nextMeshRevision_def Let_def
      split: sum.split if_splits)

lemma serve_ok:
  assumes "cache_ok (inventory_at env) (mp_sessionPages app)"
  shows "cache_ok (inventory_at env) (mp_sessionPages (serve env op app))"
proof (cases op)
  case (SessionsPage peer request now created)
  then show ?thesis
    using sessions_page_ok [OF assms inventory_revision, of "pe_visitS env" "pe_encS env" peer request now created] by (simp add: prod_eq_iff)
next
  case (ArtifactsPage artifacts peer kind request now created)
  show ?thesis unfolding ArtifactsPage serve.simps by (rule cache_ok_subset [OF assms artifacts_page_sessions])
next
  case TakeRevision
  with assms show ?thesis by (simp add: nextMeshRevision_def)
qed

lemma serve_all_ok:
  assumes "cache_ok (inventory_at env) (mp_sessionPages app)"
  shows "cache_ok (inventory_at env) (mp_sessionPages (fold (serve env) ops app))"
  using assms by (induction ops arbitrary: app) (simp_all add: serve_ok)

interpretation session_source: paged_source "session_call env peer sched" "\<lambda>st. cache_ok (inventory_at env) (mp_sessionPages (snd st))" "''s''" "inventory_at env"
  for env peer sched
proof
  fix r
  show "in_SourceRevision (inventory_at env r) = r" by (rule inventory_revision)
next
  fix st st' :: "nat \<times> meshPages" and page
  assume a: "cache_ok (inventory_at env) (mp_sessionPages (snd st))" "session_call env peer sched st [] = (st', Inr page)"
  from a(2) show "\<exists>r e. slice ''s'' (inventory_at env r) 0 page e"
    using sessions_page_ok [OF serve_all_ok [OF a(1), of "fst (sched (fst st))"] inventory_revision, of "pe_visitS env" "pe_encS env" peer "\<lparr>rq_Cursor = [], rq_Limit = 0\<rparr>"]
    by (auto simp: session_call_def split_beta prod_eq_iff)
next
  fix st st' :: "nat \<times> meshPages" and cursor r n page
  assume a: "cache_ok (inventory_at env) (mp_sessionPages (snd st))" "cursor \<noteq> []" "parseMeshCursor ''s'' cursor = Inr (r, n)"
    "session_call env peer sched st cursor = (st', Inr page)"
  from a(2-) show "\<exists>e. slice ''s'' (inventory_at env r) n page e"
    using sessions_page_ok [OF serve_all_ok [OF a(1), of "fst (sched (fst st))"] inventory_revision, of "pe_visitS env" "pe_encS env" peer "\<lparr>rq_Cursor = cursor, rq_Limit = 0\<rparr>"]
    by (auto simp: session_call_def split_beta prod_eq_iff)
next
  fix st :: "nat \<times> meshPages" and cursor
  assume a: "cache_ok (inventory_at env) (mp_sessionPages (snd st))"
  show "cache_ok (inventory_at env) (mp_sessionPages (snd (fst (session_call env peer sched st cursor))))"
    using sessions_page_ok [OF serve_all_ok [OF a, of "fst (sched (fst st))"] inventory_revision, of "pe_visitS env" "pe_encS env" peer "\<lparr>rq_Cursor = cursor, rq_Limit = 0\<rparr>"]
    by (auto simp: session_call_def split_beta prod_eq_iff)
qed

text \<open>
  C17. No torn inventory: whatever other peers ask the server between the pages, and whatever it caches, evicts or lets
  expire, the client gets an error or exactly the inventory that the server took under one revision.
\<close>

theorem fetched_inventory_whole:
  assumes "mp_sessionPages app = []" "fetch_sessions (session_call env peer sched) (n, app) = (st, Inr res)"
  shows "\<exists>r. res = inventory_at env r"
proof -
  have "cache_ok (inventory_at env) (mp_sessionPages (snd (n, app)))" using assms(1) by (simp add: cache_ok_def)
  from session_source.collect_whole [OF this assms(2) [unfolded fetch_sessions_def]]
  obtain r where "res = (inventory_at env r)\<lparr>in_NextCursor := []\<rparr>" by blast
  moreover have "(inventory_at env r)\<lparr>in_NextCursor := []\<rparr> = inventory_at env r" by (simp add: inventory_at_def localMeshSessions_def)
  ultimately show ?thesis by metis
qed

section \<open>The client gets the inventory\<close>

text \<open>A source that answers every cursor of a revision, with at least one and at most 256 items.\<close>

locale live_source = paged_source +
  fixes live
  assumes answers: "live s r \<Longrightarrow> 0 < n \<Longrightarrow> n < length (in_Items (full r)) \<Longrightarrow>
      \<exists>s' page e. call s (meshCursor pre r n) = (s', Inr page) \<and> slice pre (full r) n page e \<and> n < e \<and> e \<le> n + meshPageItemMax
        \<and> (e < length (in_Items (full r)) \<longrightarrow> live s' r)"
    and dotless: "CHR ''.'' \<notin> set pre"
begin

lemma collect_live:
  assumes "live s r" "0 < n" "n < length (in_Items (full r))" "length (in_Items (full r)) - n \<le> m" "length (in_Items (full r)) < 2 ^ 31" "r \<noteq> 0"
    "acc\<lparr>in_NextCursor := []\<rparr> = (full r)\<lparr>in_Items := take n (in_Items (full r)), in_NextCursor := []\<rparr>"
  shows "\<exists>s'. collect call pre same_session_head m (Some acc) (meshCursor pre r n) s = (s', Inr ((full r)\<lparr>in_NextCursor := []\<rparr>))"
  using assms
proof (induction m arbitrary: s n acc)
  case 0
  then show ?case by simp
next
  case (Suc m)
  obtain s1 page e where c: "call s (meshCursor pre r n) = (s1, Inr page)" "slice pre (full r) n page e" "n < e" "e \<le> n + meshPageItemMax"
    "e < length (in_Items (full r)) \<longrightarrow> live s1 r" using answers [OF Suc.prems(1-3)] by blast
  let ?acc = "acc\<lparr>in_Items := in_Items acc @ in_Items page\<rparr>"
  have items: "in_Items acc = take n (in_Items (full r))" "in_SourceRevision acc = r"
    using arg_cong [OF Suc.prems(7), of in_Items] arg_cong [OF Suc.prems(7), of in_SourceRevision] revision by simp_all
  have acc: "?acc\<lparr>in_NextCursor := []\<rparr> = (full r)\<lparr>in_Items := take e (in_Items (full r)), in_NextCursor := []\<rparr>"
    using Suc.prems(7) slice_append [OF c(2)] items by (cases acc; cases "full r") simp
  have len: "length (in_Items acc @ in_Items page) = e" "length (in_Items page) = e - n"
    using slice_append [OF c(2)] items(1) c(2,3) by (auto simp: slice_def)
  have head: "same_session_head page acc"
    using c(2) arg_cong [OF Suc.prems(7), of in_SourceEpoch] arg_cong [OF Suc.prems(7), of in_SourceRevision] arg_cong [OF Suc.prems(7), of in_ProfileScopes]
    by (simp add: slice_def same_session_head_def)
  have small: "length (in_Items page) \<le> meshPageItemMax" "in_Items page \<noteq> []" using len c(3,4) by auto
  show ?case
  proof (cases "e < length (in_Items (full r))")
    case True
    have nc: "in_NextCursor page = meshCursor pre r e" using c(2) True revision by (simp add: slice_def)
    have "parseMeshCursor pre (meshCursor pre r e) = Inr (r, e)"
      using cursor_roundtrip [OF dotless Suc.prems(6)] c(3) True Suc.prems(5) by simp
    moreover have "meshCursor pre r e \<noteq> []" by (simp add: meshCursor_def)
    ultimately have "collect call pre same_session_head (Suc m) (Some acc) (meshCursor pre r n) s
        = collect call pre same_session_head m (Some ?acc) (meshCursor pre r e) s1"
      using c(1) head small nc len items by (simp add: Let_def)
    moreover have "length (in_Items (full r)) - e \<le> m" using Suc.prems(4) c(3) by linarith
    ultimately show ?thesis using Suc.IH [OF _ _ True _ Suc.prems(5,6) acc] c(3,5) True by auto
  next
    case False
    then have e: "e = length (in_Items (full r))" "in_NextCursor page = []" using c(2) by (auto simp: slice_def)
    have "?acc\<lparr>in_NextCursor := []\<rparr> = (full r)\<lparr>in_NextCursor := []\<rparr>" using acc e(1) by (cases "full r") simp
    then show ?thesis using c(1) head small e(2) by (simp add: Let_def)
  qed
qed

end

text \<open>The page with one item alone, whose size decides whether a page can be made at all.\<close>

definition item_page :: "string \<Rightarrow> 'a inventory \<Rightarrow> nat \<Rightarrow> 'a inventory" where
  "item_page pre full i =
     full\<lparr>in_Items := [in_Items full ! i],
          in_NextCursor := (if Suc i < length (in_Items full) then meshCursor pre (in_SourceRevision full) (Suc i) else [])\<rparr>"

definition pages_fit :: "('a inventory \<Rightarrow> bool) \<Rightarrow> string \<Rightarrow> 'a inventory \<Rightarrow> bool" where
  "pages_fit fits pre full \<longleftrightarrow>
     fits (full\<lparr>in_Items := [], in_NextCursor := []\<rparr>) \<and> (\<forall>i < length (in_Items full). fits (item_page pre full i))"

lemma grow_page_mono: "e \<le> snd (grow_page fits pre full n page e)"
proof (induction n arbitrary: page e)
  case (Suc n)
  then show ?case by (simp add: Let_def) (meson Suc_leD)
qed simp

lemma build_page_some:
  assumes "pages_fit fits pre full" "n \<le> length (in_Items full)" "0 < limit"
  shows "\<exists>page e. build_page fits pre full n limit = Inr (page, e)"
proof (cases "n = length (in_Items full)")
  case True
  with assms(1) show ?thesis by (simp add: build_page_def pages_fit_def)
next
  case False
  obtain l where l: "limit = Suc l" using assms(3) by (cases limit) auto
  let ?p = "full\<lparr>in_Items := [], in_NextCursor := []\<rparr>"
  have "fits (item_page pre full n)" using assms(1,2) False by (simp add: pages_fit_def)
  then have "grow_page fits pre full limit ?p n = grow_page fits pre full l (item_page pre full n) (Suc n)"
    using False assms(2) by (simp add: l Let_def item_page_def)
  then have "Suc n \<le> snd (grow_page fits pre full limit ?p n)" using grow_page_mono [of "Suc n"] by metis
  with False show ?thesis by (auto simp: build_page_def Let_def split: prod.split)
qed

lemma map_of_filter_keep: "map_of xs k = Some v \<Longrightarrow> P (k, v) \<Longrightarrow> map_of (filter P xs) k = Some v"
  by (induction xs) (auto split: if_splits)

definition session_live :: "page_env \<Rightarrow> string \<Rightarrow> (nat \<Rightarrow> server_op list \<times> time \<times> time) \<Rightarrow> nat \<times> meshPages \<Rightarrow> u64 \<Rightarrow> bool" where
  "session_live env peer sched st r \<longleftrightarrow>
     (\<forall>i. fst (sched i) = []) \<and> r \<noteq> 0 \<and> length (in_Items (inventory_at env r)) < 2 ^ 31
     \<and> pages_fit (meshResultFits (pe_encS env)) ''s'' (inventory_at env r)
     \<and> (\<exists>c. map_of (mp_sessionPages (snd st)) (meshPageKey peer r) = Some \<lparr>ca_created = c, ca_kind = NoKind, ca_response = inventory_at env r\<rparr>
             \<and> (\<forall>i. fst (snd (sched i)) - c \<le> meshPageTTL))"

lemma session_call_next:
  assumes "fst (sched (fst st)) = []" "parseMeshCursor ''s'' cursor = Inr (r, n)" "cursor \<noteq> []"
  shows "session_call env peer sched st cursor =
    (let q = next_page (meshResultFits (pe_encS env)) ''s'' peer NoKind r n meshPageItemMax (fst (snd (sched (fst st)))) (mp_sessionPages (snd st))
     in ((Suc (fst st), (prunePagesLocked (fst (snd (sched (fst st)))) (snd st))\<lparr>mp_sessionPages := fst q\<rparr>), snd q))"
  using assms by (simp add: session_call_def split_beta Let_def localMeshSessionsPage_def meshPageLimit_def nextSessionPage_def session_pages_def)

interpretation live_sessions: live_source "session_call env peer sched" "\<lambda>st. cache_ok (inventory_at env) (mp_sessionPages (snd st))" "''s''" "inventory_at env"
    "session_live env peer sched"
  for env peer sched
proof (unfold_locales, goal_cases)
  case (1 st r n)
  let ?full = "inventory_at env r" and ?fits = "meshResultFits (pe_encS env)" and ?now = "fst (snd (sched (fst st)))"
  obtain c where c: "map_of (mp_sessionPages (snd st)) (meshPageKey peer r) = Some \<lparr>ca_created = c, ca_kind = NoKind, ca_response = ?full\<rparr>"
    "\<forall>i. fst (snd (sched i)) - c \<le> meshPageTTL" using 1(1) by (auto simp: session_live_def)
  have l: "\<forall>i. fst (sched i) = []" "r \<noteq> 0" "length (in_Items ?full) < 2 ^ 31" "pages_fit ?fits ''s'' ?full" using 1(1) by (simp_all add: session_live_def)
  have kept: "map_of (prune_pages ?now (mp_sessionPages (snd st))) (meshPageKey peer r) = Some \<lparr>ca_created = c, ca_kind = NoKind, ca_response = ?full\<rparr>"
    unfolding prune_pages_def by (rule map_of_filter_keep [OF c(1)]) (use c(2) in \<open>simp add: not_less\<close>)
  have parse: "parseMeshCursor ''s'' (meshCursor ''s'' r n) = Inr (r, n)"
    using 1(2,3) l(2,3) by (intro cursor_roundtrip) simp_all
  have cursor: "meshCursor ''s'' r n \<noteq> []" by (simp add: meshCursor_def)
  obtain page e where b: "build_page ?fits ''s'' ?full n meshPageItemMax = Inr (page, e)"
    using build_page_some [OF l(4), of n meshPageItemMax] 1(3) by (auto simp: meshPageItemMax_def)
  note s = build_page_slice [OF b] 1(3)
  let ?q = "next_page ?fits ''s'' peer NoKind r n meshPageItemMax ?now (mp_sessionPages (snd st))"
  have q: "?q = (if e = length (in_Items ?full) then AList.delete (meshPageKey peer r) (prune_pages ?now (mp_sessionPages (snd st)))
                 else prune_pages ?now (mp_sessionPages (snd st)), Inr page)"
    using kept 1(3) b by (simp add: next_page_def Let_def)
  let ?st = "(Suc (fst st), (prunePagesLocked ?now (snd st))\<lparr>mp_sessionPages := fst ?q\<rparr>)"
  have call: "session_call env peer sched st (meshCursor ''s'' r n) = (?st, Inr page)"
    using session_call_next [OF _ parse cursor, of sched st env peer] l(1) q by (simp add: Let_def)
  have "session_live env peer sched ?st r" if "e < length (in_Items ?full)"
    using l c(2) kept q that by (auto simp: session_live_def)
  with call s show ?case by (intro exI [of _ ?st] exI [of _ page] exI [of _ e]) auto
next
  case 2
  then show ?case by simp
qed

lemma session_call_first:
  assumes "fst (sched (fst st)) = []"
  shows "session_call env peer sched st [] =
    (let r = mp_revision (snd st) + 1; fits = meshResultFits (pe_encS env); (now, created) = snd (sched (fst st));
         q = first_page (pe_visitS env) fits ''s'' peer NoKind (inventory_at env r) meshPageItemMax now created (mp_sessionPages (snd st));
         app = nextMeshRevision (snd st)
     in ((Suc (fst st), (if caches fits ''s'' (inventory_at env r) meshPageItemMax then prunePagesLocked now app else app)\<lparr>mp_sessionPages := fst q\<rparr>), snd q))"
  using assms by (simp add: session_call_def split_beta Let_def localMeshSessionsPage_def meshPageLimit_def firstSessionPage_def session_pages_def nextMeshRevision_def)

lemma fetch_quiet:
  assumes "\<forall>i. fst (sched i) = []" "\<forall>i j. fst (snd (sched i)) - snd (snd (sched j)) \<le> meshPageTTL"
    "r = mp_revision app + 1" "r \<noteq> 0" "length (in_Items (inventory_at env r)) \<le> maxPages"
    "pages_fit (meshResultFits (pe_encS env)) ''s'' (inventory_at env r)"
  shows "\<exists>st. fetch_sessions (session_call env peer sched) (n, app) = (st, Inr (inventory_at env r))"
proof -
  let ?full = "inventory_at env r" and ?fits = "meshResultFits (pe_encS env)"
  obtain page e where b: "build_page ?fits ''s'' ?full 0 meshPageItemMax = Inr (page, e)"
    using build_page_some [OF assms(6), of 0 meshPageItemMax] by (auto simp: meshPageItemMax_def)
  note s = build_page_slice [OF b, simplified]
  obtain st where call: "session_call env peer sched (n, app) [] = (st, Inr page)" and
    kept: "e < length (in_Items ?full) \<Longrightarrow> map_of (mp_sessionPages (snd st)) (meshPageKey peer r)
       = Some \<lparr>ca_created = snd (snd (sched n)), ca_kind = NoKind, ca_response = ?full\<rparr>"
    using session_call_first [of sched "(n, app)" env peer] assms(1,3) b inventory_revision [of env r]
    by (simp add: Let_def first_page_def split_beta)
  have full: "?full\<lparr>in_NextCursor := []\<rparr> = ?full" by (simp add: inventory_at_def localMeshSessions_def)
  have head: "page\<lparr>in_NextCursor := []\<rparr> = ?full\<lparr>in_Items := take e (in_Items ?full), in_NextCursor := []\<rparr>"
    using s by (cases ?full) (simp add: slice_def)
  have len: "length (in_Items page) = e" "e \<le> meshPageItemMax" using s by (auto simp: slice_def)
  have self: "page\<lparr>in_Items := in_Items page\<rparr> = page" by (cases page) simp
  obtain m where m: "maxPages = Suc m" by (simp add: maxPages_def eval_nat_numeral)
  show ?thesis
  proof (cases "e < length (in_Items ?full)")
    case False
    then have "in_NextCursor page = []" "e = length (in_Items ?full)" using s by (auto simp: slice_def)
    moreover from this(2) head full have "page\<lparr>in_NextCursor := []\<rparr> = ?full" by (cases ?full) simp
    ultimately show ?thesis using call len self by (simp add: fetch_sessions_def m Let_def)
  next
    case True
    then have nc: "in_NextCursor page = meshCursor ''s'' r e" "0 < e" using s inventory_revision [of env r] by (auto simp: slice_def)
    have small: "length (in_Items ?full) < 2 ^ 31" using assms(5) by (simp add: maxPages_def)
    then have parse: "parseMeshCursor ''s'' (meshCursor ''s'' r e) = Inr (r, e)" using True nc(2) assms(4) by (intro cursor_roundtrip) simp_all
    have "in_SourceRevision page = r" using s inventory_revision [of env r] by (simp add: slice_def)
    moreover have "meshCursor ''s'' r e \<noteq> []" by (simp add: meshCursor_def)
    ultimately have "fetch_sessions (session_call env peer sched) (n, app) = collect (session_call env peer sched) ''s'' same_session_head m (Some page) (meshCursor ''s'' r e) st"
      using call len nc parse self by (auto simp: fetch_sessions_def m Let_def)
    moreover have "session_live env peer sched st r"
      using assms(1,2,4,6) small kept [OF True] by (auto simp: session_live_def)
    moreover have "length (in_Items ?full) - e \<le> m" using assms(5) nc(2) m by linarith
    ultimately show ?thesis using live_sessions.collect_live [OF _ nc(2) True _ small assms(4) head] full by metis
  qed
qed


definition demo_pages :: page_env where
  "demo_pages =
     \<lparr>pe_visitS = id, pe_visitA = id, pe_encS = (\<lambda>_. Some ''x''), pe_encA = (\<lambda>_. Some ''x''), pe_golib = \<lparr>gl_lower = id, gl_url = (\<lambda>_. None)\<rparr>,
      pe_home = None, pe_epoch = ''boot-1'', pe_catalog = (\<lambda>_. demo_catalog [] []), pe_clock = (\<lambda>_. (year_2000, year_2000))\<rparr>"

lemma safe_list_length: "length (safe_list home now ss) \<le> length ss"
  by (induction ss) (auto simp: safe_list_def split: sum.split)

lemma demo_inventory: "length (in_Items (inventory_at demo_pages r)) \<le> 1"
proof -
  have "length (Catalog_List (demo_catalog [] []) t) \<le> 1" for t
    by (simp add: Catalog_List_def Sort_View_def demo_catalog_def sources_def Let_def split: sum.split)
  then show ?thesis using le_trans [OF safe_list_length] by (simp add: inventory_at_def localMeshSessions_def demo_pages_def)
qed

lemma demo_fit: "pages_fit (meshResultFits (pe_encS demo_pages)) ''s'' (inventory_at demo_pages r)"
  by (simp add: pages_fit_def meshResultFits_def demo_pages_def meshPageResultBudget_def MaxApplicationPayload_def)


theorem fetched_inventory_whole_witness:
  "\<exists>st res. fetch_sessions (session_call demo_pages ''peer'' (\<lambda>_. ([], 0, 0))) (0, \<lparr>mp_revision = 6, mp_sessionPages = [], mp_artifactPages = []\<rparr>) = (st, Inr res)
     \<and> (\<exists>r. res = inventory_at demo_pages r)"
proof -
  let ?app = "\<lparr>mp_revision = 6, mp_sessionPages = [], mp_artifactPages = []\<rparr> :: meshPages"
  obtain st where st: "fetch_sessions (session_call demo_pages ''peer'' (\<lambda>_. ([], 0, 0))) (0, ?app) = (st, Inr (inventory_at demo_pages 7))"
    using fetch_quiet [of "\<lambda>_. ([], 0, 0)" 7 ?app demo_pages "''peer''" 0] demo_inventory [of 7] demo_fit [of 7] by (auto simp: meshPageTTL_def maxPages_def)
  from fetched_inventory_whole [OF _ st] st show ?thesis by auto
qed

section \<open>The caches are bounded\<close>

definition cache_bounded :: "'a page_cache \<Rightarrow> bool" where
  "cache_bounded pages \<longleftrightarrow> distinct (map fst pages) \<and> [] \<notin> fst ` set pages \<and> length pages \<le> meshPageCacheMax"

lemma page_key_nonempty: "meshPageKey peer r \<noteq> []"
  by (simp add: meshPageKey_def)

lemma oldest_scan:
  assumes "[] \<notin> K" "fst ` set order \<subseteq> K" "fst acc = [] \<longrightarrow> order \<noteq> []" "fst acc \<noteq> [] \<longrightarrow> fst acc \<in> K"
  shows "fst (foldl (\<lambda>(oldestKey, oldest) (key, page).
            if oldestKey = [] \<or> ca_created page < oldest then (key, ca_created page) else (oldestKey, oldest)) acc order) \<in> K"
  using assms
proof (induction order arbitrary: acc)
  case (Cons x order)
  obtain k p where x: "x = (k, p)" by (cases x)
  obtain a t where a: "acc = (a, t)" by (cases acc)
  have "k \<in> K" "k \<noteq> []" using Cons.prems(1,2) x by auto
  then show ?case using Cons.IH [of "if a = [] \<or> ca_created p < t then (k, ca_created p) else (a, t)"] Cons.prems a x by auto
qed auto

lemma oldest_page_mem:
  assumes "[] \<notin> fst ` set pages" "set order = set pages" "pages \<noteq> []"
  shows "oldest_page order \<in> fst ` set pages"
  unfolding oldest_page_def using assms by (intro oldest_scan) auto

lemma length_delete: "distinct (map fst pages) \<Longrightarrow> k \<in> fst ` set pages \<Longrightarrow> Suc (length (AList.delete k pages)) = length pages"
proof -
  assume d: "distinct (map fst pages)" "k \<in> fst ` set pages"
  have "length (AList.delete k pages) = length (remove1 k (map fst pages))"
    using delete_keys [of k pages] distinct_remove1_removeAll [OF d(1), of k] by (metis length_map)
  then show ?thesis using d(2) length_pos_if_in_set [of k "map fst pages"] by (simp add: length_remove1)
qed

lemma bound_rounds_small:
  assumes "\<And>m. set (visit m) = set m" "distinct (map fst pages)" "[] \<notin> fst ` set pages" "length pages < n + meshPageCacheMax"
  shows "length (bound_rounds visit n pages) < meshPageCacheMax"
  using assms(2-)
proof (induction n arbitrary: pages)
  case (Suc n)
  show ?case
  proof (cases "length pages \<ge> meshPageCacheMax")
    case True
    let ?k = "oldest_page (visit pages)"
    have "?k \<in> fst ` set pages" using True Suc.prems(2) assms(1) by (intro oldest_page_mem) (auto simp: meshPageCacheMax_def)
    then have "Suc (length (AList.delete ?k pages)) = length pages" using Suc.prems(1) by (rule length_delete [rotated])
    moreover have "distinct (map fst (AList.delete ?k pages))" "[] \<notin> fst ` set (AList.delete ?k pages)"
      using Suc.prems(1,2) delete_subset [of ?k pages] by (auto simp: distinct_delete)
    ultimately show ?thesis using Suc.IH [of "AList.delete ?k pages"] Suc.prems(3) True by simp
  qed simp
qed simp

lemma bounded_prune: "cache_bounded pages \<Longrightarrow> cache_bounded (prune_pages now pages)"
  by (auto simp: cache_bounded_def prune_pages_def distinct_map inj_on_def intro: le_trans [OF length_filter_le])

lemma bounded_delete: "cache_bounded pages \<Longrightarrow> cache_bounded (AList.delete k pages)"
  using delete_subset [of k pages] length_delete_le [of k pages] by (auto simp: cache_bounded_def distinct_delete)

lemma length_update: "length (AList.update k v pages) \<le> Suc (length pages)"
  by (induction pages) auto

lemma bounded_rounds: "cache_bounded pages \<Longrightarrow> cache_bounded (bound_rounds visit n pages)"
  by (induction visit n pages rule: bound_rounds.induct) (simp_all add: bounded_delete)

lemma bounded_first:
  assumes "\<And>m. set (visit m) = set m" "cache_bounded pages"
  shows "cache_bounded (fst (first_page visit fits pre peer kind full limit now created pages))"
proof -
  let ?p = "prune_pages now pages" let ?b = "bound_pages visit ?p" let ?k = "meshPageKey peer (in_SourceRevision full)"
  let ?c = "\<lparr>ca_created = created, ca_kind = kind, ca_response = full\<rparr>"
  have p: "cache_bounded ?p" by (rule bounded_prune [OF assms(2)])
  then have "length ?b < meshPageCacheMax"
    unfolding bound_pages_def by (intro bound_rounds_small assms(1)) (auto simp: cache_bounded_def meshPageCacheMax_def)
  then have "length (AList.update ?k ?c ?b) \<le> meshPageCacheMax" using length_update [of ?k ?c ?b] by linarith
  moreover have "distinct (map fst ?b)" "[] \<notin> fst ` set ?b" using bounded_rounds [OF p] by (auto simp: bound_pages_def cache_bounded_def)
  ultimately have "cache_bounded (AList.update ?k ?c ?b)"
    using update_subset [of ?k ?c ?b] page_key_nonempty [of peer "in_SourceRevision full"] by (fastforce simp: cache_bounded_def)
  then show ?thesis using assms(2) by (auto simp: first_page_def split: sum.split)
qed

lemma bounded_next: "cache_bounded pages \<Longrightarrow> cache_bounded (fst (next_page fits pre peer kind r n limit now pages))"
  using bounded_prune [of pages now] bounded_delete by (auto simp: next_page_def Let_def split: option.split sum.split)

definition caches_bounded :: "meshPages \<Rightarrow> bool" where
  "caches_bounded app \<longleftrightarrow> cache_bounded (mp_sessionPages app) \<and> cache_bounded (mp_artifactPages app)"

lemma serve_bounded:
  assumes "\<And>m. set (pe_visitS env m) = set m" "\<And>m. set (pe_visitA env m) = set m" "caches_bounded app"
  shows "caches_bounded (serve env op app)"
proof -
  have b: "cache_bounded (mp_sessionPages app)" "cache_bounded (mp_artifactPages app)" using assms(3) by (simp_all add: caches_bounded_def)
  note pr = bounded_prune [OF b(1)] bounded_prune [OF b(2)]
  note nx = bounded_next [OF b(1)] bounded_next [OF b(2)]
  note fs = bounded_first [OF assms(1) b(1)] bounded_first [OF assms(2) b(2)]
  show ?thesis
    by (cases op) (auto simp: caches_bounded_def localMeshSessionsPage_def localMeshArtifactsPage_def firstSessionPage_def nextSessionPage_def
        firstArtifactPage_def nextArtifactPage_def session_pages_def artifact_pages_def prunePagesLocked_def nextMeshRevision_def Let_def b pr nx fs
        split: sum.split)
qed

text \<open>
  C38. Peers cannot make the server keep more than 64 inventories of a kind, however many listings they begin and abandon.
\<close>

theorem page_caches_bounded:
  assumes "\<And>m. set (pe_visitS env m) = set m" "\<And>m. set (pe_visitA env m) = set m" "mp_sessionPages app = []" "mp_artifactPages app = []"
  shows "length (mp_sessionPages (fold (serve env) ops app)) \<le> meshPageCacheMax \<and> length (mp_artifactPages (fold (serve env) ops app)) \<le> meshPageCacheMax"
proof -
  have "caches_bounded (fold (serve env) ops a)" if "caches_bounded a" for a
    using that by (induction ops arbitrary: a) (simp_all add: serve_bounded [OF assms(1,2)])
  from this [of app] show ?thesis using assms(3,4) by (simp add: caches_bounded_def cache_bounded_def)
qed

theorem page_caches_bounded_witness:
  "length (mp_sessionPages (fold (serve demo_pages) [SessionsPage ''peer'' \<lparr>rq_Cursor = [], rq_Limit = 1\<rparr> 0 0]
     \<lparr>mp_revision = 6, mp_sessionPages = [], mp_artifactPages = []\<rparr>)) \<le> 64"
  using page_caches_bounded [of demo_pages "\<lparr>mp_revision = 6, mp_sessionPages = [], mp_artifactPages = []\<rparr>"
      "[SessionsPage ''peer'' \<lparr>rq_Cursor = [], rq_Limit = 1\<rparr> 0 0]"]
  by (simp add: demo_pages_def meshPageCacheMax_def)

end
