(* ===== verification/Mesh_Registry.thy ===== *)
theory Mesh_Registry
  imports Mesh_Paging
begin

text \<open>
  What a device knows of its peers before it talks to them (\<open>internal/mesh/registry.go\<close>, parts of \<open>tunnel.go\<close>, \<open>mesh.go\<close> and
  \<open>rpc.go\<close>, and \<open>MeshConfig\<close> of \<open>internal/config/config.go\<close>): the registry and its validation, the parsed
  configuration, the ssh arguments, authorization, the handshake with its negotiation, the retry delays and the
  texts of errors.
\<close>

section \<open>Errors without credentials\<close>

text \<open>\<open>strings.ReplaceAll\<close> for a non-empty pattern.\<close>

fun ReplaceAll :: "string \<Rightarrow> string \<Rightarrow> string \<Rightarrow> string" where
  "ReplaceAll old new [] = []"
| "ReplaceAll old new (c # s) =
     (if has_prefix old (c # s) then new @ ReplaceAll old new (drop (length old - 1) s)
      else c # ReplaceAll old new s)"

definition redacted_text :: string where "redacted_text = ''[REDACTED]''"

text \<open>An error is \<open>None\<close> or its message.\<close>

definition sanitizeSecretsError :: "string option \<Rightarrow> string list \<Rightarrow> string" where
  "sanitizeSecretsError err secrets =
     (case err of
        None \<Rightarrow> []
      | Some message \<Rightarrow>
          take 240 (fold (\<lambda>secret safe. if secret \<noteq> [] then ReplaceAll secret redacted_text safe else safe) secrets message))"

text \<open>
  The library functions the package uses: \<open>net.SplitHostPort\<close>, whether \<open>net.ParseIP\<close> gives a loopback address,
  \<open>time.ParseDuration\<close>, the hash of a token (SHA-256 in base64) and the default registry path.
\<close>

record meshlib =
  ml_SplitHostPort :: "string \<Rightarrow> (string \<times> string) option"
  ml_LoopbackIP :: "string \<Rightarrow> bool"
  ml_ParseDuration :: "string \<Rightarrow> time option"
  ml_TokenHash :: "string \<Rightarrow> string"
  ml_RegistryPath :: string

section \<open>The registry\<close>

record SSHTunnel =
  tn_Target :: string
  tn_LocalAddr :: string
  tn_RemoteAddr :: string

record Peer =
  pr_ID :: string
  pr_URL :: string
  pr_Token :: string
  pr_SSHTunnel :: "SSHTunnel option"

text \<open>The maps \<open>Accept\<close> and \<open>Grants\<close> in the order in which a loop visits them.\<close>

record Registry =
  rg_Version :: int
  rg_DeviceID :: string
  rg_Serve :: bool
  rg_Accept :: "(string \<times> string) list"
  rg_Peers :: "Peer list"
  rg_Grants :: "(string \<times> string list) list"

definition RegistryVersion :: int where "RegistryVersion = 1"

definition Registry_safeID :: "string \<Rightarrow> bool" where
  "Registry_safeID = id_shape is_alnum (\<lambda>c. is_alnum c \<or> c \<in> set ''._-'') 63"

definition safeSSHTarget :: "string \<Rightarrow> bool" where
  "safeSSHTarget = id_shape is_alnum (\<lambda>c. is_alnum c \<or> c \<in> set ''._@-'') 254"

definition safeMethod :: "string \<Rightarrow> bool" where
  "safeMethod = id_shape is_lower_char (\<lambda>c. is_lower_char c \<or> is_digit c \<or> c \<in> set ''_.-'') 127"

definition safeScope :: "string \<Rightarrow> bool" where
  "safeScope = id_shape is_lower_char (\<lambda>c. is_lower_char c \<or> is_digit c \<or> c \<in> set ''_.:-'') 127"

datatype registry_error =
    UnsupportedRegistry int
  | InvalidDevice string
  | InvalidAccepted string
  | ReusedCredential string
  | IncompletePeer string
  | PeerIsDevice string
  | DuplicatePeer string
  | BothDirections string
  | BadTunnel string
  | InvalidGrantPeer string
  | InvalidGrantScope string
  | DuplicateGrantScope string

text \<open>\<open>strconv.Atoi\<close>: an optional sign and decimal digits within an \<open>int\<close>.\<close>

definition Atoi :: "string \<Rightarrow> int option" where
  "Atoi s =
     (let neg = has_prefix ''-'' s; digits = (if neg \<or> has_prefix ''+'' s then tl s else s) in
      case ParseUint 64 digits of
        None \<Rightarrow> None
      | Some n \<Rightarrow> let v = (if neg then - int n else int n) in if - (2 ^ 63) \<le> v \<and> v < 2 ^ 63 then Some v else None)"

definition validateLoopbackEndpoint :: "meshlib \<Rightarrow> string \<Rightarrow> string option" where
  "validateLoopbackEndpoint lib addr =
     (case ml_SplitHostPort lib addr of
        None \<Rightarrow> Some ''address''
      | Some (host, portText) \<Rightarrow>
          if host \<noteq> ''localhost'' \<and> \<not> ml_LoopbackIP lib host then Some ''must be loopback''
          else case Atoi portText of
                 None \<Rightarrow> Some ''port''
               | Some port \<Rightarrow> if port < 1 \<or> port > 65535 then Some ''port'' else None)"

definition Tunnel_Validate :: "meshlib \<Rightarrow> SSHTunnel \<Rightarrow> string option" where
  "Tunnel_Validate lib t =
     first_err [fail_if (\<not> safeSSHTarget (tn_Target t)) ''target'',
       validateLoopbackEndpoint lib (tn_LocalAddr t), validateLoopbackEndpoint lib (tn_RemoteAddr t)]"

fun accept_check :: "string list \<Rightarrow> (string \<times> string) list \<Rightarrow> registry_error option" where
  "accept_check tokens [] = None"
| "accept_check tokens ((ident, token) # rest) =
     (if \<not> Registry_safeID ident \<or> token = [] then Some (InvalidAccepted ident)
      else if token \<in> set tokens then Some (ReusedCredential ident)
      else accept_check (token # tokens) rest)"

fun peers_check :: "meshlib \<Rightarrow> Registry \<Rightarrow> string list \<Rightarrow> Peer list \<Rightarrow> registry_error option" where
  "peers_check lib r seen [] = None"
| "peers_check lib r seen (p # ps) =
     (if \<not> Registry_safeID (pr_ID p) \<or> pr_URL p = [] \<or> pr_Token p = [] then Some (IncompletePeer (pr_ID p))
      else if pr_ID p = rg_DeviceID r then Some (PeerIsDevice (pr_ID p))
      else if pr_ID p \<in> set seen then Some (DuplicatePeer (pr_ID p))
      else if map_of (rg_Accept r) (pr_ID p) \<noteq> None then Some (BothDirections (pr_ID p))
      else case Option.bind (pr_SSHTunnel p) (Tunnel_Validate lib) of
             Some e \<Rightarrow> Some (BadTunnel (pr_ID p))
           | None \<Rightarrow> peers_check lib r (pr_ID p # seen) ps)"

fun scopes_check :: "string list \<Rightarrow> string list \<Rightarrow> registry_error option" where
  "scopes_check seen [] = None"
| "scopes_check seen (scope # scopes) =
     (if \<not> safeScope scope then Some (InvalidGrantScope scope)
      else if scope \<in> set seen then Some (DuplicateGrantScope scope)
      else scopes_check (scope # seen) scopes)"

fun grants_check :: "(string \<times> string list) list \<Rightarrow> registry_error option" where
  "grants_check [] = None"
| "grants_check ((ident, grants) # rest) =
     (if \<not> Registry_safeID ident then Some (InvalidGrantPeer ident)
      else case scopes_check [] grants of Some e \<Rightarrow> Some e | None \<Rightarrow> grants_check rest)"

definition Registry_Validate :: "meshlib \<Rightarrow> Registry \<Rightarrow> registry_error option" where
  "Registry_Validate lib r =
     first_err [fail_if (rg_Version r \<noteq> RegistryVersion) (UnsupportedRegistry (rg_Version r)),
       fail_if (rg_DeviceID r \<noteq> [] \<and> \<not> Registry_safeID (rg_DeviceID r)) (InvalidDevice (rg_DeviceID r)),
       accept_check [] (rg_Accept r), peers_check lib r [] (rg_Peers r), grants_check (rg_Grants r)]"

fun upsert_peer :: "Peer \<Rightarrow> Peer list \<Rightarrow> Peer list" where
  "upsert_peer peer [] = [peer]"
| "upsert_peer peer (p # ps) =
     (if pr_ID p = pr_ID peer
      then (if pr_SSHTunnel peer = None then peer\<lparr>pr_SSHTunnel := pr_SSHTunnel p\<rparr> else peer) # ps
      else p # upsert_peer peer ps)"

definition UpsertPeer :: "Peer \<Rightarrow> Registry \<Rightarrow> Registry" where
  "UpsertPeer peer r = r\<lparr>rg_Peers := upsert_peer peer (rg_Peers r)\<rparr>"

text \<open>What \<open>SaveRegistry\<close> writes.\<close>

definition saved_registry :: "Registry \<Rightarrow> Registry" where
  "saved_registry r = r\<lparr>rg_Peers := sort_key pr_ID (rg_Peers r), rg_Grants := map (\<lambda>(ident, g). (ident, sort g)) (rg_Grants r)\<rparr>"

definition sanitizePeerError :: "meshlib \<Rightarrow> Peer \<Rightarrow> string option \<Rightarrow> string" where
  "sanitizePeerError lib peer err = sanitizeSecretsError err [pr_Token peer, ml_TokenHash lib (pr_Token peer)]"

section \<open>The ssh transport\<close>

definition sshTunnelBaseArgs :: "string list" where
  "sshTunnelBaseArgs =
     [''-N'', ''-T'', ''-o'', ''BatchMode=yes'', ''-o'', ''ExitOnForwardFailure=yes'', ''-o'', ''ServerAliveInterval=5'',
      ''-o'', ''ServerAliveCountMax=3'', ''-o'', ''ConnectTimeout=5'', ''-o'', ''ClearAllForwardings=no'',
      ''-o'', ''ControlMaster=no'', ''-o'', ''PermitLocalCommand=no'', ''-o'', ''StrictHostKeyChecking=yes'']"

definition sshTunnelArgs :: "meshlib \<Rightarrow> Peer \<Rightarrow> string + string list" where
  "sshTunnelArgs lib peer =
     (case pr_SSHTunnel peer of
        None \<Rightarrow> Inl ''ssh tunnel is not configured''
      | Some tunnel \<Rightarrow>
          (case Tunnel_Validate lib tunnel of
             Some e \<Rightarrow> Inl e
           | None \<Rightarrow> Inr (sshTunnelBaseArgs @ [''-L'', tn_LocalAddr tunnel @ '':'' @ tn_RemoteAddr tunnel, ''--'', tn_Target tunnel])))"

definition sshTunnelInspectionArgs :: "SSHTunnel \<Rightarrow> string list" where
  "sshTunnelInspectionArgs tunnel = ''-G'' # sshTunnelBaseArgs @ [''--'', tn_Target tunnel]"

definition effectiveConfigHasForward :: "(rune \<Rightarrow> rune) \<Rightarrow> string \<Rightarrow> bool" where
  "effectiveConfigHasForward lo output =
     list_ex (\<lambda>line. case split_fields (to_lower lo line) of
        [] \<Rightarrow> False
      | f # _ \<Rightarrow> f \<in> {''localforward'', ''remoteforward'', ''dynamicforward''}) (split_at (CHR 0x0A) output)"

text \<open>The outcome of \<open>ssh -G\<close>: not run, failed, or its output.\<close>

definition maxSSHEffectiveConfigBytes :: nat where "maxSSHEffectiveConfigBytes = 2 ^ 20"

definition rejectInheritedSSHForwards :: "meshlib \<Rightarrow> (rune \<Rightarrow> rune) \<Rightarrow> Peer \<Rightarrow> (string + string \<times> bool) \<Rightarrow> string option" where
  "rejectInheritedSSHForwards lib lo peer run =
     (case pr_SSHTunnel peer of
        None \<Rightarrow> Some ''ssh tunnel is not configured''
      | Some tunnel \<Rightarrow>
          (case Tunnel_Validate lib tunnel of
             Some e \<Rightarrow> Some e
           | None \<Rightarrow>
               (case run of
                  Inl e \<Rightarrow> Some e
                | Inr (output, ok) \<Rightarrow>
                    if length output > maxSSHEffectiveConfigBytes then Some ''output exceeds safety limit''
                    else if \<not> ok then Some ''inspect ssh target configuration''
                    else if effectiveConfigHasForward lo output then Some ''inherits forwarding directives'' else None)))"

section \<open>Configuration\<close>

record MeshConfig =
  mc_Enabled :: bool
  mc_ListenAddr :: string
  mc_RegistryPath :: string
  mc_HeartbeatInterval :: string
  mc_StaleAfter :: string
  mc_DeadAfter :: string
  mc_ReconnectMax :: string
  mc_ReconnectMin :: string
  mc_HandshakeTimeout :: string
  mc_MaxMessageBytes :: int
  mc_WriterQueue :: int

record ParsedMeshConfig =
  pc_Enabled :: bool
  pc_ListenAddr :: string
  pc_RegistryPath :: string
  pc_HeartbeatInterval :: time
  pc_StaleAfter :: time
  pc_DeadAfter :: time
  pc_ReconnectMax :: time
  pc_ReconnectMin :: time
  pc_HandshakeTimeout :: time
  pc_MaxMessageBytes :: int
  pc_WriterQueue :: int

datatype config_error = BadListenAddr | BadDuration string | StaleNotBeforeDead | MinAboveMax | BadMessageBytes | BadWriterQueue

definition mesh_second :: time where "mesh_second = 1000000000"

definition parseDuration :: "meshlib \<Rightarrow> string \<Rightarrow> string \<Rightarrow> time \<Rightarrow> config_error + time" where
  "parseDuration lib name value fallback =
     (if value = [] then Inr fallback
      else case ml_ParseDuration lib value of
             None \<Rightarrow> Inl (BadDuration name)
           | Some d \<Rightarrow> if d \<le> 0 then Inl (BadDuration name) else Inr d)"

definition Mesh_Parse :: "meshlib \<Rightarrow> MeshConfig \<Rightarrow> config_error + ParsedMeshConfig" where
  "Mesh_Parse lib m =
     (let addr = (if mc_ListenAddr m = [] then ''127.0.0.1:7788'' else mc_ListenAddr m);
          path = (if mc_RegistryPath m = [] then ml_RegistryPath lib else mc_RegistryPath m);
          bytes = (if mc_MaxMessageBytes m = 0 then 64 * 1024 else mc_MaxMessageBytes m);
          queue = (if mc_WriterQueue m = 0 then 32 else mc_WriterQueue m) in
      case ml_SplitHostPort lib addr of
        None \<Rightarrow> Inl BadListenAddr
      | Some (host, _) \<Rightarrow>
          if host \<noteq> ''localhost'' \<and> \<not> ml_LoopbackIP lib host then Inl BadListenAddr
          else
            bind_res (parseDuration lib ''heartbeat_interval'' (mc_HeartbeatInterval m) (15 * mesh_second)) (\<lambda>heartbeat.
            bind_res (parseDuration lib ''stale_after'' (mc_StaleAfter m) (35 * mesh_second)) (\<lambda>stale.
            bind_res (parseDuration lib ''dead_after'' (mc_DeadAfter m) (60 * mesh_second)) (\<lambda>dead.
            bind_res (parseDuration lib ''reconnect_max'' (mc_ReconnectMax m) (30 * mesh_second)) (\<lambda>rmax.
            bind_res (parseDuration lib ''reconnect_min'' (mc_ReconnectMin m) (mesh_second div 2)) (\<lambda>rmin.
            bind_res (parseDuration lib ''handshake_timeout'' (mc_HandshakeTimeout m) (10 * mesh_second)) (\<lambda>handshake.
              if stale \<ge> dead then Inl StaleNotBeforeDead
              else if rmin > rmax then Inl MinAboveMax
              else if bytes < 1024 \<or> bytes > 2 ^ 20 then Inl BadMessageBytes
              else if queue < 1 \<or> queue > 4096 then Inl BadWriterQueue
              else Inr \<lparr>pc_Enabled = mc_Enabled m, pc_ListenAddr = addr, pc_RegistryPath = path, pc_HeartbeatInterval = heartbeat,
                         pc_StaleAfter = stale, pc_DeadAfter = dead, pc_ReconnectMax = rmax, pc_ReconnectMin = rmin,
                         pc_HandshakeTimeout = handshake, pc_MaxMessageBytes = bytes, pc_WriterQueue = queue\<rparr>)))))))"

section \<open>Retry delays\<close>

datatype retryCause = retryAfterProbeFailure | retryAfterHandshakeFailure | retryAfterConnectionDrop | retryAfterTransportFailure

definition maxReachabilityProbeTimeout :: time where "maxReachabilityProbeTimeout = mesh_second"
definition maxReachabilityProbeRetry :: time where "maxReachabilityProbeRetry = 5 * mesh_second"

definition reachabilityProbeTimeout :: "ParsedMeshConfig \<Rightarrow> time" where
  "reachabilityProbeTimeout cfg =
     (if pc_HandshakeTimeout cfg < maxReachabilityProbeTimeout then pc_HandshakeTimeout cfg else maxReachabilityProbeTimeout)"

definition retryBounds :: "ParsedMeshConfig \<Rightarrow> retryCause \<Rightarrow> time \<times> time" where
  "retryBounds cfg cause =
     (if cause = retryAfterHandshakeFailure \<or> cause = retryAfterTransportFailure then (pc_ReconnectMin cfg, pc_ReconnectMax cfg)
      else
        let highest = (if pc_ReconnectMin cfg > maxReachabilityProbeRetry then pc_ReconnectMin cfg else maxReachabilityProbeRetry);
            highest = (if pc_ReconnectMax cfg < highest then pc_ReconnectMax cfg else highest) in
        (pc_ReconnectMin cfg, highest))"

text \<open>Division of \<open>int64\<close> by a positive number truncates.\<close>

definition go_div :: "int \<Rightarrow> int \<Rightarrow> int" where
  "go_div a b = (if a < 0 then - ((- a) div b) else a div b)"

fun retry_cap_from :: "nat \<Rightarrow> time \<Rightarrow> time \<Rightarrow> time" where
  "retry_cap_from 0 c highest = c"
| "retry_cap_from (Suc n) c highest =
     (if c < highest then if c > go_div highest 2 then highest else retry_cap_from n (c * 2) highest else c)"

definition exponentialRetryCap :: "int \<Rightarrow> time \<Rightarrow> time \<Rightarrow> time" where
  "exponentialRetryCap attempt lowest highest =
     (if lowest \<ge> highest then highest else retry_cap_from (nat (attempt - 1)) lowest highest)"

text \<open>\<open>rand.Int64N(n)\<close> is \<open>draw n\<close>; it panics unless \<open>n\<close> is positive.\<close>

definition fullJitter :: "(int \<Rightarrow> int) \<Rightarrow> int \<Rightarrow> time \<Rightarrow> time \<Rightarrow> time option" where
  "fullJitter draw attempt lowest highest =
     (let c = exponentialRetryCap attempt lowest highest in
      if c \<le> 0 then Some 0
      else let least = go_div lowest 4; n = c - least + 1 in
           if n \<le> 0 then None else Some (least + draw n))"

section \<open>Authorization and handshake\<close>

definition bearer :: string where "bearer = ''Bearer ''"

definition authorize :: "meshlib \<Rightarrow> Registry \<Rightarrow> string \<Rightarrow> (string \<times> string) option" where
  "authorize lib r header =
     (if \<not> has_prefix bearer header then None
      else let got = drop (length bearer) header in
        map_option (\<lambda>(ident, _). (ident, got)) (List.find (\<lambda>(_, token). ml_TokenHash lib got = token) (rg_Accept r)))"

record Envelope =
  en_Version :: int
  en_Type :: string
  en_ID :: string
  en_DeviceID :: string
  en_Capabilities :: "string list"
  en_Payload :: string
  en_eventGap :: bool

definition ProtocolVersion :: int where "ProtocolVersion = 1"

definition defaultCapabilities :: "string list" where
  "defaultCapabilities = [''artifacts.read.v1'', ''events.v1'', ''handoffs.v1'', ''rpc.v1'', ''sessions.read.v1'']"

fun capabilities_from :: "string list \<Rightarrow> string list \<Rightarrow> string option \<times> string list" where
  "capabilities_from seen [] = (None, seen)"
| "capabilities_from seen (c # cs) =
     (if \<not> safeScope c then (Some c, seen)
      else capabilities_from (if c \<in> set seen then seen else seen @ [c]) cs)"

definition normalizeCapabilities :: "string list \<Rightarrow> string + string list" where
  "normalizeCapabilities capabilities =
     (case capabilities_from [] capabilities of (Some c, _) \<Rightarrow> Inl c | (None, out) \<Rightarrow> Inr (sort out))"

definition intersectCapabilities :: "string list \<Rightarrow> string list \<Rightarrow> string list" where
  "intersectCapabilities local remote = sort (filter (\<lambda>c. c \<in> set (filter safeScope remote)) local)"

definition hello_envelope :: "string \<Rightarrow> string list \<Rightarrow> Envelope" where
  "hello_envelope device capabilities =
     \<lparr>en_Version = ProtocolVersion, en_Type = ''hello'', en_ID = [], en_DeviceID = device, en_Capabilities = capabilities,
      en_Payload = [], en_eventGap = False\<rparr>"

definition welcome_envelope :: "string \<Rightarrow> string list \<Rightarrow> Envelope" where
  "welcome_envelope device capabilities = (hello_envelope device capabilities)\<lparr>en_Type := ''welcome''\<rparr>"

text \<open>
  \<open>handleUpgrade\<close> after the socket was accepted with the subprotocol: the frame read is \<open>None\<close> when reading it failed.
\<close>

datatype upgrade = Unauthorized | HandshakeRejected string | Accepted string Envelope "string list" string

definition handleUpgrade :: "meshlib \<Rightarrow> Registry \<Rightarrow> string list \<Rightarrow> string \<Rightarrow> Envelope option \<Rightarrow> upgrade" where
  "handleUpgrade lib r capabilities header frame =
     (case authorize lib r header of
        None \<Rightarrow> Unauthorized
      | Some (peerID, presentedCredential) \<Rightarrow>
          (case frame of
             None \<Rightarrow> HandshakeRejected peerID
           | Some hello \<Rightarrow>
               if en_Type hello \<noteq> ''hello'' \<or> en_Version hello \<noteq> ProtocolVersion \<or> en_DeviceID hello \<noteq> peerID then HandshakeRejected peerID
               else let negotiated = intersectCapabilities capabilities (en_Capabilities hello) in
                    Accepted peerID (welcome_envelope (rg_DeviceID r) negotiated) negotiated presentedCredential))"

text \<open>The client side in \<open>connectLoop\<close>: what it makes of the frame that answers its hello.\<close>

definition accept_welcome :: "Peer \<Rightarrow> string list \<Rightarrow> Envelope option \<Rightarrow> string + string list" where
  "accept_welcome peer localCapabilities frame =
     (case frame of
        None \<Rightarrow> Inl ''read''
      | Some welcome \<Rightarrow>
          if en_Type welcome \<noteq> ''welcome'' \<or> en_Version welcome \<noteq> ProtocolVersion \<or> en_DeviceID welcome \<noteq> pr_ID peer
          then Inl ''peer identity or protocol mismatch''
          else Inr (intersectCapabilities localCapabilities (en_Capabilities welcome)))"

section \<open>No credential in an error text\<close>

text \<open>A text that neither overlaps the replacement nor lies within it.\<close>

definition opaque_text :: "string \<Rightarrow> bool" where
  "opaque_text x \<longleftrightarrow> x \<noteq> [] \<and> CHR ''['' \<notin> set x \<and> CHR '']'' \<notin> set x \<and> \<not> contains ''REDACTED'' x"

lemma contains_append_cases:
  assumes "contains (r @ rest) x" 
  shows "contains rest x \<or> (\<exists>y z. x = y @ z \<and> y \<noteq> [] \<and> has_suffix y r \<and> has_prefix z rest \<and> z \<noteq> []) \<or> contains r x"
proof -
  obtain a b where ab: "r @ rest = a @ x @ b" using assms by (auto simp: contains_iff)
  show ?thesis
  proof (cases "length r \<le> length a")
    case True
    then have "rest = drop (length r) a @ x @ b" using arg_cong [OF ab, of "drop (length r)"] by simp
    then show ?thesis by (auto simp: contains_iff)
  next
    case False
    then have r: "r = a @ take (length r - length a) (x @ b)" using arg_cong [OF ab, of "take (length r)"] by simp
    show ?thesis
    proof (cases "length r - length a \<ge> length x")
      case True
      then have "r = a @ x @ take (length r - length a - length x) b" using r by simp
      then show ?thesis unfolding contains_iff by blast
    next
      case l: False
      let ?n = "length r - length a"
      have "r = a @ take ?n x" using r l by simp
      moreover have "rest = drop ?n x @ b" using arg_cong [OF ab, of "drop (length r)"] False l by simp
      moreover have "take ?n x \<noteq> []" using False l by auto
      moreover have "drop ?n x \<noteq> []" using l by simp
      moreover have "x = take ?n x @ drop ?n x" by simp
      ultimately have "has_suffix (take ?n x) r \<and> has_prefix (drop ?n x) rest" 
        by (metis has_prefix_append has_suffix_def rev_append)
      then show ?thesis using \<open>take ?n x \<noteq> []\<close> \<open>drop ?n x \<noteq> []\<close> by (metis append_take_drop_id)
    qed
  qed
qed

lemma contains_mono: "contains s x \<Longrightarrow> contains (c # s) x"
  by simp

lemma contains_drop: "contains (drop n s) x \<Longrightarrow> contains s x"
  unfolding contains_iff by (metis append.assoc append_take_drop_id)

lemma contains_take: "contains (take n s) x \<Longrightarrow> contains s x"
  unfolding contains_iff by (metis append.assoc append_take_drop_id)

lemma contains_set: "contains s x \<Longrightarrow> set x \<subseteq> set s"
  unfolding contains_iff by auto

lemma contains_redacted:
  assumes "opaque_text x" "contains redacted_text x"
  shows False
proof -
  have l: "redacted_text = [CHR ''[''] @ (''REDACTED'' @ [CHR '']''])" by (simp add: redacted_text_def)
  have single: "contains [c] x \<Longrightarrow> x = [c] \<or> x = []" for c :: char by (auto simp: has_prefix_def take_Cons' split: if_splits)
  have px: "CHR ''['' \<notin> set x" "CHR '']'' \<notin> set x" "x \<noteq> []" "\<not> contains ''REDACTED'' x" using assms(1) by (auto simp: opaque_text_def)
  from contains_append_cases [OF assms(2) [unfolded l]]
  consider "contains (''REDACTED'' @ [CHR '']'']) x" | y z where "x = y @ z" "y \<noteq> []" "has_suffix y [CHR ''['']" | "contains [CHR ''[''] x" by blast
  then show False
  proof cases
    case 1
    from contains_append_cases [OF this]
    consider "contains [CHR '']''] x" | y z where "x = y @ z" "z \<noteq> []" "has_prefix z [CHR '']'']" | "contains ''REDACTED'' x" by blast
    then show False
    proof cases
      case 1 then show False using single px by fastforce
    next
      case 2
      then have "set z \<subseteq> {CHR '']''}" by (auto simp: has_prefix_iff Cons_eq_append_conv)
      then show False using 2 px(2) by (cases z) auto
    next
      case 3 then show False using px by blast
    qed
  next
    case 2
    then have "set y \<subseteq> {CHR ''[''}" by (auto simp: has_suffix_def has_prefix_iff Cons_eq_append_conv)
    then show False using 2 px(1) by (cases y) auto
  next
    case 3 then show False using single px by fastforce
  qed
qed

lemma replace_prefix:
  "has_prefix y (ReplaceAll old new t) \<Longrightarrow> new = CHR ''['' # w \<Longrightarrow> CHR ''['' \<notin> set y \<Longrightarrow> has_prefix y t"
proof (induction old new t arbitrary: y rule: ReplaceAll.induct)
  case (2 old new c s)
  show ?case
  proof (cases y)
    case (Cons d y')
    then show ?thesis using 2 by (auto simp: has_prefix_def split: if_splits)
  qed (simp add: has_prefix_def)
qed (simp add: has_prefix_def)

lemma redacted_append:
  assumes "opaque_text x" "contains (redacted_text @ rest) x"
  shows "contains rest x"
proof -
  have px: "CHR '']'' \<notin> set x" using assms(1) by (simp add: opaque_text_def)
  have "\<not> contains redacted_text x" using contains_redacted [OF assms(1)] by blast
  with contains_append_cases [OF assms(2)]
  consider "contains rest x" | y z where "x = y @ z" "y \<noteq> []" "has_suffix y redacted_text" by blast
  then show ?thesis
  proof cases
    case 2
    then obtain a where "redacted_text = a @ y" by (auto simp: has_suffix_def has_prefix_iff) (metis rev_append rev_rev_ident)
    then have "last y = CHR '']''" using 2(2) by (metis last_appendR last_ConsR list.distinct(1) last.simps redacted_text_def)
    then have "CHR '']'' \<in> set x" using 2(1,2) last_in_set by fastforce
    then show ?thesis using px by simp
  qed
qed

lemma replace_step:
  assumes "opaque_text x" "contains (ReplaceAll old redacted_text (c # s)) x"
  shows "if has_prefix old (c # s) then contains (ReplaceAll old redacted_text (drop (length old - 1) s)) x
         else has_prefix x (c # s) \<or> contains (ReplaceAll old redacted_text s) x"
proof (cases "has_prefix old (c # s)")
  case True
  then show ?thesis using redacted_append [OF assms(1)] assms(2) by simp
next
  case False
  have "has_prefix x (c # s)" if "has_prefix x (ReplaceAll old redacted_text (c # s))"
    by (rule replace_prefix [OF that]) (use assms(1) in \<open>auto simp: redacted_text_def opaque_text_def\<close>)
  then show ?thesis using False assms(2) by auto
qed

lemma replace_contains:
  assumes "opaque_text x"
  shows "contains (ReplaceAll old redacted_text t) x \<Longrightarrow> contains t x"
proof (induction "length t" arbitrary: t rule: less_induct)
  case less
  show ?case
  proof (cases t)
    case (Cons c s)
    note st = replace_step [OF assms less.prems [unfolded Cons]]
    show ?thesis
    proof (cases "has_prefix old t")
      case True
      then have "contains (ReplaceAll old redacted_text (drop (length old - 1) s)) x" using st Cons by simp
      then have "contains s x" using less.hyps [of "drop (length old - 1) s"] Cons contains_drop by fastforce
      then show ?thesis using Cons by simp
    next
      case False
      then show ?thesis using st less.hyps [of s] Cons by auto
    qed
  qed (use less.prems in simp)
qed

lemma replace_removes:
  assumes "opaque_text x"
  shows "\<not> contains (ReplaceAll x redacted_text t) x"
proof (induction "length t" arbitrary: t rule: less_induct)
  case less
  show ?case
  proof (cases t)
    case (Cons c s)
    show ?thesis
    proof
      assume "contains (ReplaceAll x redacted_text t) x"
      note st = replace_step [OF assms this [unfolded Cons]]
      show False
        using st less.hyps [of "drop (length x - 1) s"] less.hyps [of s] Cons by (auto split: if_splits)
    qed
  qed (use assms in \<open>simp add: opaque_text_def\<close>)
qed

text \<open>The shape of a token and of its hash: text of the base64 alphabet of URLs.\<close>

definition credential_text :: "string \<Rightarrow> bool" where
  "credential_text x \<longleftrightarrow> 10 \<le> length x \<and> list_all (\<lambda>c. is_alnum c \<or> c \<in> set ''-_'') x"

lemma credential_opaque:
  assumes "credential_text x"
  shows "opaque_text x"
proof -
  have "\<not> contains ''REDACTED'' x"
  proof
    assume "contains ''REDACTED'' x"
    then obtain a b where "''REDACTED'' = a @ x @ b" unfolding contains_iff by blast
    from arg_cong [OF this, of length] show False using assms by (simp add: credential_text_def)
  qed
  then show ?thesis using assms by (auto simp: credential_text_def opaque_text_def list_all_iff char_class_defs byte_of_def)
qed

lemma secrets_removed:
  assumes "x \<in> set secrets" "credential_text x"
  shows "\<not> contains (sanitizeSecretsError err secrets) x"
proof -
  let ?f = "\<lambda>secret safe. if secret \<noteq> [] then ReplaceAll secret redacted_text safe else safe"
  have keep: "\<not> contains (fold ?f ss m) x" if "\<not> contains m x" for ss m
    using that by (induction ss arbitrary: m) (use replace_contains [OF credential_opaque [OF assms(2)]] in auto)
  have gone: "\<not> contains (fold ?f ss m) x" if "x \<in> set ss" for ss m
    using that
  proof (induction ss arbitrary: m)
    case (Cons s ss)
    have "x \<noteq> []" using assms(2) by (auto simp: credential_text_def)
    then show ?case using Cons keep replace_removes [OF credential_opaque [OF assms(2)]] by (cases "x = s") auto
  qed simp
  have "x \<noteq> []" using assms(2) by (auto simp: credential_text_def)
  then show ?thesis using gone [OF assms(1)] contains_take by (auto simp: sanitizeSecretsError_def split: option.split)
qed

section \<open>Who is authorized\<close>

lemma accept_check_ok:
  "accept_check tokens xs = None \<Longrightarrow> distinct (map snd xs) \<and> set (map snd xs) \<inter> set tokens = {} \<and> (\<forall>(i, t) \<in> set xs. Registry_safeID i \<and> t \<noteq> [])"
  by (induction tokens xs rule: accept_check.induct) (auto split: if_splits)

lemma registry_valid:
  assumes "Registry_Validate lib r = None"
  shows "accept_check [] (rg_Accept r) = None" "peers_check lib r [] (rg_Peers r) = None" "grants_check (rg_Grants r) = None"
  using assms by (simp_all add: Registry_Validate_def first_err_None)

lemma find_by_key:
  assumes "distinct (map snd xs)"
  shows "List.find (\<lambda>(_, token). h = token) xs = Some (i, t) \<longleftrightarrow> (i, t) \<in> set xs \<and> h = t"
  using assms by (induction xs) (auto simp: image_iff)

text \<open>
  C7. A connection is authorized exactly when its header is a bearer token whose hash is registered, and then as the one
  peer that the hash belongs to: in a valid registry the order in which the accepted peers are tried does not matter.
\<close>

theorem authorized_exact:
  assumes "Registry_Validate lib r = None"
  shows "authorize lib r header = Some (ident, token) \<longleftrightarrow> header = ''Bearer '' @ token \<and> (ident, ml_TokenHash lib token) \<in> set (rg_Accept r)"
proof -
  have d: "distinct (map snd (rg_Accept r))" using accept_check_ok [OF registry_valid(1) [OF assms]] by simp
  have h: "has_prefix bearer header \<longleftrightarrow> (\<exists>t. header = bearer @ t)" by (simp add: has_prefix_iff)
  show ?thesis
    unfolding authorize_def Let_def using find_by_key [OF d] h
    by (auto simp: bearer_def split: if_splits)
qed

section \<open>Negotiation\<close>

lemma capabilities_from_ok:
  "capabilities_from seen cs = (None, out) \<Longrightarrow> distinct seen \<Longrightarrow> distinct out \<and> set out = set seen \<union> set cs \<and> list_all safeScope cs"
  by (induction seen cs rule: capabilities_from.induct) (auto split: if_splits)

lemma normalized:
  assumes "normalizeCapabilities cs = Inr out"
  shows "sorted out" "distinct out" "set out = set cs" "list_all safeScope out"
proof -
  obtain raw where "capabilities_from [] cs = (None, raw)" "out = sort raw"
    using assms by (auto simp: normalizeCapabilities_def split: prod.splits option.splits)
  with capabilities_from_ok [of "[]" cs raw] show "sorted out" "distinct out" "set out = set cs" "list_all safeScope out"
    by (auto simp: list_all_iff)
qed

lemma intersect_set: "set (intersectCapabilities a b) = {c \<in> set a. c \<in> set b \<and> safeScope c}"
  by (auto simp: intersectCapabilities_def)

lemma intersect_canonical: "sorted (intersectCapabilities a b)" "distinct a \<Longrightarrow> distinct (intersectCapabilities a b)"
  by (simp_all add: intersectCapabilities_def)

text \<open>
  C22. When a server accepts the hello of a client it is the client that the presented token belongs to, under the name
  it gave; and the two ends then work with the same list of capabilities, the common ones, unless the client
  finds that the server is not the device it meant to reach.
\<close>

theorem handshake_agreement:
  assumes "Registry_Validate lib rs = None" "normalizeCapabilities offered = Inr local" "normalizeCapabilities served = Inr remote"
    "handleUpgrade lib rs remote header (Some (hello_envelope device local)) = Accepted peerID welcome negotiated credential"
  shows "peerID = device \<and> header = ''Bearer '' @ credential \<and> (device, ml_TokenHash lib credential) \<in> set (rg_Accept rs)
    \<and> set negotiated = set offered \<inter> set served
    \<and> accept_welcome peer local (Some welcome) = (if rg_DeviceID rs = pr_ID peer then Inr negotiated else Inl ''peer identity or protocol mismatch'')"
proof -
  have a: "authorize lib rs header = Some (peerID, credential)" and dev: "peerID = device"
    and n: "negotiated = intersectCapabilities remote local" and w: "welcome = welcome_envelope (rg_DeviceID rs) negotiated"
    using assms(4) by (auto simp: handleUpgrade_def Let_def hello_envelope_def split: option.splits prod.splits if_splits)
  note ln = normalized [OF assms(2)] and rn = normalized [OF assms(3)]
  have common: "set negotiated = set offered \<inter> set served"
    unfolding n intersect_set using ln(3,4) rn(3) by (auto simp: list_all_iff)
  have "intersectCapabilities local negotiated = negotiated"
  proof (rule sorted_distinct_set_unique)
    show "set (intersectCapabilities local negotiated) = set negotiated"
      unfolding intersect_set using ln(3,4) common by (auto simp: list_all_iff)
  qed (use ln(2) rn(2) in \<open>simp_all add: n intersect_canonical\<close>)
  then have "accept_welcome peer local (Some welcome) = (if rg_DeviceID rs = pr_ID peer then Inr negotiated else Inl ''peer identity or protocol mismatch'')"
    by (simp add: accept_welcome_def w welcome_envelope_def hello_envelope_def)
  then show ?thesis using a [unfolded authorized_exact [OF assms(1)]] dev common by blast
qed

section \<open>Delays\<close>

lemma retry_cap_closed: "0 < c \<Longrightarrow> c \<le> h \<Longrightarrow> retry_cap_from n c h = min h (c * 2 ^ n)"
proof (induction n arbitrary: c)
  case (Suc n)
  show ?case
  proof (cases "c < h \<and> c > h div 2")
    case True
    have "c * 2 \<le> c * 2 ^ Suc n" using Suc.prems(1) by simp
    moreover have "h < c * 2" using True by linarith
    ultimately have "min h (c * 2 ^ Suc n) = h" by linarith
    then show ?thesis using True Suc.prems by (simp add: go_div_def)
  next
    case False
    show ?thesis
    proof (cases "c < h")
      case True
      then have "retry_cap_from n (c * 2) h = min h (c * 2 * 2 ^ n)" using False Suc.prems by (intro Suc.IH) linarith+
      then show ?thesis using True False Suc.prems by (simp add: go_div_def mult.assoc)
    next
      case c: False
      then have "c = h" using Suc.prems by simp
      moreover have "1 \<le> (2 :: int) ^ Suc n" by (rule one_le_power) simp
      then have "h * 1 \<le> h * 2 ^ Suc n" using Suc.prems calculation by (intro mult_left_mono) simp_all
      ultimately show ?thesis by (simp add: min_def)
    qed
  qed
qed simp

lemma retry_cap_exact: "0 < lowest \<Longrightarrow> lowest \<le> highest \<Longrightarrow> exponentialRetryCap attempt lowest highest = min highest (lowest * 2 ^ nat (attempt - 1))"
proof -
  assume a: "0 < lowest" "lowest \<le> highest"
  have "lowest \<le> lowest * 2 ^ nat (attempt - 1)" using a(1) by simp
  then show ?thesis using a retry_cap_closed [of lowest highest "nat (attempt - 1)"] by (auto simp: exponentialRetryCap_def min_def)
qed

lemma parse_ok:
  assumes "Mesh_Parse lib m = Inr cfg"
  shows "0 < pc_ReconnectMin cfg" "pc_ReconnectMin cfg \<le> pc_ReconnectMax cfg" "pc_StaleAfter cfg < pc_DeadAfter cfg"
    "1 \<le> pc_WriterQueue cfg" "0 < pc_StaleAfter cfg"
proof -
  have d: "parseDuration lib name v fallback = Inr d \<Longrightarrow> 0 < fallback \<Longrightarrow> 0 < d" for name v fallback d
    by (auto simp: parseDuration_def split: if_splits option.splits)
  obtain heartbeat stale dead rmax rmin handshake where q: "parseDuration lib ''stale_after'' (mc_StaleAfter m) (35 * mesh_second) = Inr stale"
    "parseDuration lib ''reconnect_min'' (mc_ReconnectMin m) (mesh_second div 2) = Inr rmin"
    "pc_ReconnectMin cfg = rmin" "pc_ReconnectMax cfg = rmax" "pc_StaleAfter cfg = stale" "pc_DeadAfter cfg = dead" "stale < dead" "rmin \<le> rmax"
    "1 \<le> pc_WriterQueue cfg"
    using assms unfolding Mesh_Parse_def Let_def bind_res_def
    by (clarsimp simp del: not_le split: option.splits prod.splits sum.splits if_split_asm)
  show "0 < pc_ReconnectMin cfg" using d [OF q(2)] q(3) by (simp add: mesh_second_def)
  show "0 < pc_StaleAfter cfg" using d [OF q(1)] q(5) by (simp add: mesh_second_def)
  show "pc_ReconnectMin cfg \<le> pc_ReconnectMax cfg" "pc_StaleAfter cfg < pc_DeadAfter cfg" "1 \<le> pc_WriterQueue cfg" using q by simp_all
qed

text \<open>
  With a configuration that parses, a retry delay never panics, doubles with every attempt from the configured minimum
  up to the bound of its cause, stays above a quarter of the minimum, and after a failed probe or a dropped link
  is at most five seconds or the configured minimum.
\<close>

theorem retry_delay_bounded:
  assumes "Mesh_Parse lib m = Inr cfg" "\<forall>n > 0. 0 \<le> draw n \<and> draw n < n" "retryBounds cfg cause = (lowest, highest)"
  shows "\<exists>d. fullJitter draw attempt lowest highest = Some d \<and> lowest div 4 \<le> d \<and> d \<le> min highest (lowest * 2 ^ nat (attempt - 1))
    \<and> highest \<le> pc_ReconnectMax cfg
    \<and> (cause \<in> {retryAfterProbeFailure, retryAfterConnectionDrop} \<longrightarrow> highest \<le> max (pc_ReconnectMin cfg) maxReachabilityProbeRetry)"
proof -
  note c = parse_ok [OF assms(1)]
  have b: "lowest = pc_ReconnectMin cfg" "lowest \<le> highest" "highest \<le> pc_ReconnectMax cfg"
    "cause \<in> {retryAfterProbeFailure, retryAfterConnectionDrop} \<Longrightarrow> highest \<le> max (pc_ReconnectMin cfg) maxReachabilityProbeRetry"
    using assms(3) c(2) by (auto simp: retryBounds_def Let_def split: if_splits)
  have low: "0 < lowest" using b(1) c(1) by simp
  let ?c = "exponentialRetryCap attempt lowest highest"
  have e: "?c = min highest (lowest * 2 ^ nat (attempt - 1))" by (rule retry_cap_exact [OF low b(2)])
  have "lowest \<le> lowest * 2 ^ nat (attempt - 1)" using low by simp
  then have cl: "lowest \<le> ?c" using e b(2) by simp
  have n: "0 < ?c - lowest div 4 + 1" using cl low by linarith
  have "fullJitter draw attempt lowest highest = Some (lowest div 4 + draw (?c - lowest div 4 + 1))"
    using low cl n by (simp add: fullJitter_def Let_def go_div_def)
  moreover have "0 \<le> draw (?c - lowest div 4 + 1)" "draw (?c - lowest div 4 + 1) < ?c - lowest div 4 + 1" using assms(2) n by blast+
  ultimately have "\<exists>d. fullJitter draw attempt lowest highest = Some d \<and> lowest div 4 \<le> d \<and> d \<le> ?c" by auto
  then show ?thesis using b(3,4) unfolding e by blast
qed

section \<open>A registry\<close>

definition demo_meshlib :: meshlib where
  "demo_meshlib = \<lparr>ml_SplitHostPort = (\<lambda>_. Some (''localhost'', ''7788'')), ml_LoopbackIP = (\<lambda>_. False), ml_ParseDuration = (\<lambda>_. None),
     ml_TokenHash = (\<lambda>t. ''h'' @ t), ml_RegistryPath = ''mesh.json''\<rparr>"

definition demo_registry :: Registry where
  "demo_registry = \<lparr>rg_Version = 1, rg_DeviceID = ''desk'', rg_Serve = True, rg_Accept = [(''laptop'', ''htoken-of-laptop'')],
     rg_Peers = [], rg_Grants = [(''laptop'', [''events.read''])]\<rparr>"

definition demo_meshconfig :: MeshConfig where
  "demo_meshconfig = \<lparr>mc_Enabled = True, mc_ListenAddr = [], mc_RegistryPath = [], mc_HeartbeatInterval = [], mc_StaleAfter = [], mc_DeadAfter = [],
     mc_ReconnectMax = [], mc_ReconnectMin = [], mc_HandshakeTimeout = [], mc_MaxMessageBytes = 0, mc_WriterQueue = 0\<rparr>"

definition demo_parsed :: ParsedMeshConfig where
  "demo_parsed = \<lparr>pc_Enabled = True, pc_ListenAddr = ''127.0.0.1:7788'', pc_RegistryPath = ''mesh.json'', pc_HeartbeatInterval = 15000000000,
     pc_StaleAfter = 35000000000, pc_DeadAfter = 60000000000, pc_ReconnectMax = 30000000000, pc_ReconnectMin = 500000000,
     pc_HandshakeTimeout = 10000000000, pc_MaxMessageBytes = 65536, pc_WriterQueue = 32\<rparr>"

lemma demo_registry_valid: "Registry_Validate demo_meshlib demo_registry = None"
  by (simp add: Registry_Validate_def demo_registry_def demo_meshlib_def RegistryVersion_def Registry_safeID_def safeScope_def id_shape_def
      char_class_defs byte_of_def)

lemma demo_meshconfig_parses: "Mesh_Parse demo_meshlib demo_meshconfig = Inr demo_parsed"
  by (simp add: Mesh_Parse_def demo_meshlib_def demo_meshconfig_def demo_parsed_def parseDuration_def mesh_second_def bind_res_def Let_def)

theorem authorized_exact_witness:
  "authorize demo_meshlib demo_registry ''Bearer token-of-laptop'' = Some (''laptop'', ''token-of-laptop'')"
  using authorized_exact [OF demo_registry_valid, of "''Bearer token-of-laptop''" "''laptop''" "''token-of-laptop''"]
  by (simp add: demo_registry_def demo_meshlib_def)

lemma demo_capabilities: "normalizeCapabilities [''events.v1''] = Inr [''events.v1'']"
  by (simp add: normalizeCapabilities_def safeScope_def id_shape_def char_class_defs byte_of_def)

lemma demo_upgrade:
  "handleUpgrade demo_meshlib demo_registry [''events.v1''] ''Bearer token-of-laptop'' (Some (hello_envelope ''laptop'' [''events.v1'']))
     = Accepted ''laptop'' (welcome_envelope ''desk'' [''events.v1'']) [''events.v1''] ''token-of-laptop''"
proof -
  have "authorize demo_meshlib demo_registry ''Bearer token-of-laptop'' = Some (''laptop'', ''token-of-laptop'')"
    by (simp add: authorize_def bearer_def has_prefix_def demo_registry_def demo_meshlib_def)
  moreover have "safeScope ''events.v1''" by (simp add: safeScope_def id_shape_def char_class_defs byte_of_def)
  ultimately show ?thesis by (simp add: handleUpgrade_def hello_envelope_def intersectCapabilities_def demo_registry_def ProtocolVersion_def Let_def)
qed

theorem handshake_agreement_witness:
  "accept_welcome \<lparr>pr_ID = ''desk'', pr_URL = ''ws:'', pr_Token = ''token-of-laptop'', pr_SSHTunnel = None\<rparr> [''events.v1'']
     (Some (welcome_envelope ''desk'' [''events.v1''])) = Inr [''events.v1'']"
  using handshake_agreement [OF demo_registry_valid demo_capabilities demo_capabilities demo_upgrade,
      of "\<lparr>pr_ID = ''desk'', pr_URL = ''ws:'', pr_Token = ''token-of-laptop'', pr_SSHTunnel = None\<rparr>"]
  by (simp add: demo_registry_def)

theorem retry_delay_bounded_witness:
  "\<exists>d. fullJitter (\<lambda>n. n - 1) 3 500000000 5000000000 = Some d \<and> 125000000 \<le> d \<and> d \<le> 2000000000"
  using retry_delay_bounded [OF demo_meshconfig_parses, of "\<lambda>n. n - 1" retryAfterProbeFailure 500000000 5000000000 3]
  by (simp add: retryBounds_def demo_parsed_def maxReachabilityProbeRetry_def mesh_second_def)

end
