(* ===== verification/Mesh_Rpc.thy ===== *)
theory Mesh_Rpc
  imports Mesh_Registry
begin

text \<open>
  Remote calls between two devices (\<open>internal/mesh/rpc.go\<close>, with \<open>close\<close>, \<open>sendPing\<close> and \<open>removePending\<close> of \<open>mesh.go\<close>): the registered
  methods, the admission of requests, the handlers that run, the calls that wait for a response, and pings, all of one
  connection. A goroutine is a program point of the state; every step is a critical section of the code.
\<close>

section \<open>Methods\<close>

record MethodSpec =
  sp_Name :: string
  sp_Capability :: string
  sp_RequiredScope :: string

datatype method_error = InvalidMethod | InvalidCapability | ScopeMissing | InvalidScope | DifferentSpecification | HandlerPresent | HandlerNil

text \<open>A handler is a value of any type; \<open>None\<close> is a method that is only called.\<close>

type_synonym 'h methods = "string \<Rightarrow> (MethodSpec \<times> 'h option) option"

definition validateMethodSpec :: "MethodSpec \<Rightarrow> bool \<Rightarrow> method_error option" where
  "validateMethodSpec spec requireScope =
     first_err [fail_if (\<not> safeMethod (sp_Name spec)) InvalidMethod, fail_if (\<not> safeScope (sp_Capability spec)) InvalidCapability,
       fail_if (requireScope \<and> \<not> safeScope (sp_RequiredScope spec)) ScopeMissing,
       fail_if (sp_RequiredScope spec \<noteq> [] \<and> \<not> safeScope (sp_RequiredScope spec)) InvalidScope]"

definition RegisterMethod :: "MethodSpec \<Rightarrow> 'h methods \<Rightarrow> 'h methods \<times> method_error option" where
  "RegisterMethod spec ms =
     (case validateMethodSpec spec False of
        Some e \<Rightarrow> (ms, Some e)
      | None \<Rightarrow>
          (case ms (sp_Name spec) of
             Some (existing, _) \<Rightarrow> (ms, if existing \<noteq> spec then Some DifferentSpecification else None)
           | None \<Rightarrow> (ms(sp_Name spec \<mapsto> (spec, None)), None)))"

definition RegisterHandler :: "MethodSpec \<Rightarrow> 'h option \<Rightarrow> 'h methods \<Rightarrow> 'h methods \<times> method_error option" where
  "RegisterHandler spec handler ms =
     (case handler of
        None \<Rightarrow> (ms, Some HandlerNil)
      | Some _ \<Rightarrow>
          (case validateMethodSpec spec True of
             Some e \<Rightarrow> (ms, Some e)
           | None \<Rightarrow>
               (case ms (sp_Name spec) of
                  Some (existing, h) \<Rightarrow>
                    if existing \<noteq> spec then (ms, Some DifferentSpecification)
                    else if h \<noteq> None then (ms, Some HandlerPresent)
                    else (ms(sp_Name spec \<mapsto> (spec, handler)), None)
                | None \<Rightarrow> (ms(sp_Name spec \<mapsto> (spec, handler)), None))))"

definition principalFor :: "Registry \<Rightarrow> string \<Rightarrow> Principal" where
  "principalFor r peerID =
     \<lparr>pr_PeerID = peerID, pr_Scopes = sort (case map_of (rg_Grants r) peerID of None \<Rightarrow> [] | Some g \<Rightarrow> g)\<rparr>"

section \<open>Frames\<close>

record RPCError =
  re_Code :: string
  re_Message :: string

record rpcResponse =
  rr_Result :: string
  rr_Error :: "RPCError option"

text \<open>What \<open>encoding/json\<close> makes of requests and responses, and the length of an encoded response.\<close>

record codec =
  cd_request :: "string \<Rightarrow> (string \<times> string) option"
  cd_response :: "string \<Rightarrow> rpcResponse option"
  cd_encode :: "rpcResponse \<Rightarrow> string"

definition CapabilityRPCV1 :: string where "CapabilityRPCV1 = ''rpc.v1''"
definition MaxPendingCalls :: nat where "MaxPendingCalls = 128"

definition ErrorUnsupportedMethod :: string where "ErrorUnsupportedMethod = ''unsupported_method''"
definition ErrorPermissionDenied :: string where "ErrorPermissionDenied = ''permission_denied''"
definition ErrorCapabilityRequired :: string where "ErrorCapabilityRequired = ''capability_required''"
definition ErrorInvalidRequest :: string where "ErrorInvalidRequest = ''invalid_request''"
definition ErrorBackpressure :: string where "ErrorBackpressure = ''backpressure''"
definition ErrorPayloadTooLarge :: string where "ErrorPayloadTooLarge = ''payload_too_large''"
definition ErrorInternal :: string where "ErrorInternal = ''internal_error''"

definition app_frame :: "string \<Rightarrow> string \<Rightarrow> string \<Rightarrow> Envelope" where
  "app_frame kind ident payload =
     \<lparr>en_Version = ProtocolVersion, en_Type = kind, en_ID = ident, en_DeviceID = [], en_Capabilities = [], en_Payload = payload, en_eventGap = False\<rparr>"

section \<open>The state of a connection\<close>

datatype callResult = Response rpcResponse | Disconnected

datatype call_error = NotRegistered | CapabilityUnavailable | TooLarge | PeerDisconnected | TooManyPending | Backpressure | ContextDone | Remote RPCError

text \<open>
  \<open>cl_\<close>: a call of this side, by its identifier, which is used once; \<open>Registered\<close> is the point between the entry in \<open>rpcPending\<close> and
  the frame. \<open>tk_\<close>: a goroutine that runs a handler; \<open>pr_inflight\<close> maps the identifier of a request to the goroutine whose
  context it cancels. The last three fields are for the proofs: the requests received, the responses queued and the
  responses received.
\<close>

datatype call_state = Registered | Awaiting | Returned "call_error + string"

record task =
  tk_number :: nat
  tk_id :: string
  tk_principal :: Principal
  tk_spec :: MethodSpec
  tk_canceled :: bool

record peer_rpc =
  rp_peerID :: string
  rp_capabilities :: "string list"
  rp_done :: bool
  rp_queue :: nat
  rp_app :: "Envelope list"
  rp_pending :: "string list"
  rp_channel :: "string \<Rightarrow> callResult list"
  rp_calls :: "string \<Rightarrow> call_state option"
  rp_inflight :: "(string \<times> nat) list"
  rp_tasks :: "task list"
  rp_next :: nat
  rp_requested :: "string list"
  rp_answered :: "string list"
  rp_received :: "(string \<times> rpcResponse) list"

definition supports :: "peer_rpc \<Rightarrow> string \<Rightarrow> bool" where
  "supports c capability \<longleftrightarrow> capability \<in> set (rp_capabilities c)"

definition enqueueApp :: "Envelope \<Rightarrow> peer_rpc \<Rightarrow> peer_rpc \<times> call_error option" where
  "enqueueApp env c =
     (if rp_done c then (c, Some PeerDisconnected)
      else if length (rp_app c) < rp_queue c then (c\<lparr>rp_app := rp_app c @ [env]\<rparr>, None)
      else (c, Some Backpressure))"

definition answer :: "string \<Rightarrow> string \<Rightarrow> peer_rpc \<Rightarrow> peer_rpc" where
  "answer ident payload c =
     (case enqueueApp (app_frame ''response'' ident payload) c of
        (c, None) \<Rightarrow> c\<lparr>rp_answered := ident # rp_answered c\<rparr>
      | (c, Some _) \<Rightarrow> c)"

definition sendRPCError :: "codec \<Rightarrow> string \<Rightarrow> string \<Rightarrow> string \<Rightarrow> peer_rpc \<Rightarrow> peer_rpc" where
  "sendRPCError cd ident code message =
     answer ident (cd_encode cd \<lparr>rr_Result = [],
       rr_Error = Some \<lparr>re_Code = (if safeScope code then code else ErrorInternal), re_Message = take 240 message\<rparr>\<rparr>)"

text \<open>\<open>peerRuntime.close\<close>; a channel has room for one result.\<close>

definition offer :: "callResult \<Rightarrow> callResult list \<Rightarrow> callResult list" where
  "offer x ch = (if length ch < 1 then ch @ [x] else ch)"

definition rpc_close :: "peer_rpc \<Rightarrow> peer_rpc" where
  "rpc_close c =
     (if rp_done c then c
      else c\<lparr>rp_done := True,
             rp_channel := (\<lambda>i. if i \<in> set (rp_pending c) then offer Disconnected (rp_channel c i) else rp_channel c i),
             rp_pending := [],
             rp_tasks := map (\<lambda>t. if tk_number t \<in> snd ` set (rp_inflight c) then t\<lparr>tk_canceled := True\<rparr> else t) (rp_tasks c),
             rp_inflight := []\<rparr>)"

section \<open>Receiving\<close>

definition handleRequest :: "codec \<Rightarrow> Registry \<Rightarrow> 'h methods \<Rightarrow> Envelope \<Rightarrow> peer_rpc \<Rightarrow> peer_rpc" where
  "handleRequest cd r ms env c =
     (if en_ID env = [] \<or> \<not> supports c CapabilityRPCV1 then rpc_close c
      else case cd_request cd (en_Payload env) of
        None \<Rightarrow> rpc_close c
      | Some (method, params) \<Rightarrow>
          if \<not> safeMethod method then rpc_close c
          else
            let c = c\<lparr>rp_requested := en_ID env # rp_requested c\<rparr> in
            (case ms method of
               None \<Rightarrow> sendRPCError cd (en_ID env) ErrorUnsupportedMethod ''method is not supported'' c
             | Some (_, None) \<Rightarrow> sendRPCError cd (en_ID env) ErrorUnsupportedMethod ''method is not supported'' c
             | Some (spec, Some handler) \<Rightarrow>
                 if \<not> supports c (sp_Capability spec)
                 then sendRPCError cd (en_ID env) ErrorCapabilityRequired ''required capability was not negotiated'' c
                 else let principal = principalFor r (rp_peerID c) in
                   if \<not> HasScope principal (sp_RequiredScope spec)
                   then sendRPCError cd (en_ID env) ErrorPermissionDenied ''peer is not granted the required scope'' c
                   else if length (rp_inflight c) \<ge> MaxPendingCalls
                   then sendRPCError cd (en_ID env) ErrorBackpressure ''too many in-flight requests'' c
                   else if en_ID env \<in> fst ` set (rp_inflight c)
                   then sendRPCError cd (en_ID env) ErrorInvalidRequest ''duplicate request id'' c
                   else c\<lparr>rp_inflight := (en_ID env, rp_next c) # rp_inflight c,
                          rp_tasks := \<lparr>tk_number = rp_next c, tk_id = en_ID env, tk_principal = principal, tk_spec = spec, tk_canceled = False\<rparr> # rp_tasks c,
                          rp_next := Suc (rp_next c)\<rparr>))"

text \<open>The end of \<open>runHandler\<close> for one goroutine: a handler's error, or the encoded result, or \<open>None\<close> when encoding it failed.\<close>

datatype handler_outcome = TypedError RPCError | OtherError | HandlerResult "string option"

definition cancel_task :: "nat \<Rightarrow> task list \<Rightarrow> task list" where
  "cancel_task n = map (\<lambda>t. if tk_number t = n then t\<lparr>tk_canceled := True\<rparr> else t)"

definition runHandler :: "codec \<Rightarrow> task \<Rightarrow> handler_outcome \<Rightarrow> peer_rpc \<Rightarrow> peer_rpc" where
  "runHandler cd t res c =
     (let entry = map_of (rp_inflight c) (tk_id t);
          tasks = filter (\<lambda>u. tk_number u \<noteq> tk_number t) (rp_tasks c);
          c = c\<lparr>rp_inflight := filter (\<lambda>(i, _). i \<noteq> tk_id t) (rp_inflight c),
                rp_tasks := (case entry of None \<Rightarrow> tasks | Some n \<Rightarrow> cancel_task n tasks)\<rparr> in
      if entry = None \<or> tk_canceled t then c
      else case res of
             TypedError e \<Rightarrow> sendRPCError cd (tk_id t) (re_Code e) (re_Message e) c
           | OtherError \<Rightarrow> sendRPCError cd (tk_id t) ErrorInternal ''request failed'' c
           | HandlerResult None \<Rightarrow> sendRPCError cd (tk_id t) ErrorInternal ''result encoding failed'' c
           | HandlerResult (Some result) \<Rightarrow>
               (let payload = cd_encode cd \<lparr>rr_Result = result, rr_Error = None\<rparr> in
                if length payload > MaxApplicationPayload
                then sendRPCError cd (tk_id t) ErrorPayloadTooLarge ''response exceeds application payload limit'' c
                else answer (tk_id t) payload c))"

definition handleResponse :: "codec \<Rightarrow> Envelope \<Rightarrow> peer_rpc \<Rightarrow> peer_rpc" where
  "handleResponse cd env c =
     (if en_ID env = [] \<or> \<not> supports c CapabilityRPCV1 then rpc_close c
      else case cd_response cd (en_Payload env) of
        None \<Rightarrow> rpc_close c
      | Some response \<Rightarrow>
          if (rr_Result response = []) = (rr_Error response = None) then rpc_close c
          else if (case rr_Error response of None \<Rightarrow> False | Some e \<Rightarrow> \<not> safeScope (re_Code e) \<or> length (re_Message e) > 240) then rpc_close c
          else
            let waiting = en_ID env \<in> set (rp_pending c);
                c = c\<lparr>rp_pending := removeAll (en_ID env) (rp_pending c), rp_received := (en_ID env, response) # rp_received c\<rparr> in
            if waiting then c\<lparr>rp_channel := (rp_channel c)(en_ID env := rp_channel c (en_ID env) @ [Response response])\<rparr> else c)"

definition handleCancel :: "Envelope \<Rightarrow> peer_rpc \<Rightarrow> peer_rpc" where
  "handleCancel env c =
     (if en_ID env = [] \<or> en_Payload env \<noteq> [] \<or> \<not> supports c CapabilityRPCV1 then rpc_close c
      else
        let entry = map_of (rp_inflight c) (en_ID env) in
        c\<lparr>rp_inflight := filter (\<lambda>(i, _). i \<noteq> en_ID env) (rp_inflight c),
          rp_tasks := (case entry of None \<Rightarrow> rp_tasks c | Some n \<Rightarrow> cancel_task n (rp_tasks c))\<rparr>)"

definition handleApplicationEnvelope :: "codec \<Rightarrow> Registry \<Rightarrow> 'h methods \<Rightarrow> Envelope \<Rightarrow> peer_rpc \<Rightarrow> peer_rpc" where
  "handleApplicationEnvelope cd r ms env c =
     (if length (en_Payload env) > MaxApplicationPayload then rpc_close c
      else if en_Type env = ''request'' then handleRequest cd r ms env c
      else if en_Type env = ''response'' then handleResponse cd env c
      else if en_Type env = ''cancel'' then handleCancel env c
      else c)"

section \<open>Calling\<close>

definition removeRPCCall :: "string \<Rightarrow> peer_rpc \<Rightarrow> peer_rpc" where
  "removeRPCCall ident c = c\<lparr>rp_pending := removeAll ident (rp_pending c)\<rparr>"

definition set_call :: "string \<Rightarrow> call_state \<Rightarrow> peer_rpc \<Rightarrow> peer_rpc" where
  "set_call ident s c = c\<lparr>rp_calls := (rp_calls c)(ident \<mapsto> s)\<rparr>"

text \<open>\<open>Call\<close> up to its entry in \<open>rpcPending\<close>, up to its frame, and its three ways to return.\<close>

definition Call_register :: "'h methods \<Rightarrow> string \<Rightarrow> string \<Rightarrow> string \<Rightarrow> peer_rpc \<Rightarrow> peer_rpc \<times> call_error option" where
  "Call_register ms method payload ident c =
     (case ms method of
        None \<Rightarrow> (c, Some NotRegistered)
      | Some (spec, _) \<Rightarrow>
          if \<not> supports c CapabilityRPCV1 \<or> \<not> supports c (sp_Capability spec) then (c, Some CapabilityUnavailable)
          else if length payload > MaxApplicationPayload then (c, Some TooLarge)
          else if rp_done c then (c, Some PeerDisconnected)
          else if length (rp_pending c) \<ge> MaxPendingCalls then (c, Some TooManyPending)
          else (set_call ident Registered (c\<lparr>rp_pending := ident # rp_pending c, rp_channel := (rp_channel c)(ident := [])\<rparr>), None))"

definition Call_send :: "string \<Rightarrow> string \<Rightarrow> peer_rpc \<Rightarrow> peer_rpc" where
  "Call_send payload ident c =
     (case enqueueApp (app_frame ''request'' ident payload) c of
        (c, None) \<Rightarrow> set_call ident Awaiting c
      | (c, Some e) \<Rightarrow> set_call ident (Returned (Inl e)) (removeRPCCall ident c))"

definition call_value :: "callResult \<Rightarrow> call_error + string" where
  "call_value x =
     (case x of
        Disconnected \<Rightarrow> Inl PeerDisconnected
      | Response response \<Rightarrow> (case rr_Error response of Some e \<Rightarrow> Inl (Remote e) | None \<Rightarrow> Inr (rr_Result response)))"

definition Call_receive :: "string \<Rightarrow> peer_rpc \<Rightarrow> peer_rpc" where
  "Call_receive ident c =
     (case rp_channel c ident of
        [] \<Rightarrow> c
      | x # xs \<Rightarrow> set_call ident (Returned (call_value x)) (c\<lparr>rp_channel := (rp_channel c)(ident := xs)\<rparr>))"

definition Call_timeout :: "string \<Rightarrow> peer_rpc \<Rightarrow> peer_rpc" where
  "Call_timeout ident c =
     (let found = ident \<in> set (rp_pending c); c = removeRPCCall ident c;
          c = (if found then fst (enqueueApp (app_frame ''cancel'' ident []) c) else c) in
      set_call ident (Returned (Inl ContextDone)) c)"

definition Call_disconnected :: "string \<Rightarrow> peer_rpc \<Rightarrow> peer_rpc" where
  "Call_disconnected ident c = set_call ident (Returned (Inl PeerDisconnected)) (removeRPCCall ident c)"

section \<open>Runs of a connection\<close>

definition rpc_init :: "string \<Rightarrow> string list \<Rightarrow> nat \<Rightarrow> peer_rpc" where
  "rpc_init peerID capabilities queue =
     \<lparr>rp_peerID = peerID, rp_capabilities = capabilities, rp_done = False, rp_queue = queue, rp_app = [], rp_pending = [],
      rp_channel = (\<lambda>_. []), rp_calls = (\<lambda>_. None), rp_inflight = [], rp_tasks = [], rp_next = 0, rp_requested = [], rp_answered = [], rp_received = []\<rparr>"

text \<open>The identifier of a call contains a counter of the manager, so that it is fresh.\<close>

inductive rpc_step :: "codec \<Rightarrow> Registry \<Rightarrow> 'h methods \<Rightarrow> peer_rpc \<Rightarrow> peer_rpc \<Rightarrow> bool"
  for cd r ms where
  call: "rp_calls c ident = None \<Longrightarrow> rpc_step cd r ms c (fst (Call_register ms method payload ident c))"
| send: "rp_calls c ident = Some Registered \<Longrightarrow> rpc_step cd r ms c (Call_send payload ident c)"
| receive: "rp_calls c ident = Some Awaiting \<Longrightarrow> rp_channel c ident \<noteq> [] \<Longrightarrow> rpc_step cd r ms c (Call_receive ident c)"
| timeout: "rp_calls c ident = Some Awaiting \<Longrightarrow> rpc_step cd r ms c (Call_timeout ident c)"
| lost: "rp_calls c ident = Some Awaiting \<Longrightarrow> rp_done c \<Longrightarrow> rpc_step cd r ms c (Call_disconnected ident c)"
| frame: "rpc_step cd r ms c (handleApplicationEnvelope cd r ms env c)"
| finish: "t \<in> set (rp_tasks c) \<Longrightarrow> rpc_step cd r ms c (runHandler cd t res c)"
| written: "rp_app c = env # rest \<Longrightarrow> rpc_step cd r ms c (c\<lparr>rp_app := rest\<rparr>)"
| close: "rpc_step cd r ms c (rpc_close c)"

definition rpc_reach :: "codec \<Rightarrow> Registry \<Rightarrow> 'h methods \<Rightarrow> peer_rpc \<Rightarrow> peer_rpc \<Rightarrow> bool" where
  "rpc_reach cd r ms c c' \<longleftrightarrow> (rpc_step cd r ms)\<^sup>*\<^sup>* c c'"

section \<open>Calls\<close>

lemma enqueueApp_keeps:
  assumes "enqueueApp env c = (c', e)"
  shows "\<exists>app. c' = c\<lparr>rp_app := app\<rparr> \<and> (length (rp_app c) \<le> rp_queue c \<longrightarrow> length app \<le> rp_queue c) \<and> (e = None \<longrightarrow> \<not> rp_done c) \<and> (rp_done c \<longrightarrow> e = Some PeerDisconnected)"
proof (cases "\<not> rp_done c \<and> length (rp_app c) < rp_queue c")
  case True
  then show ?thesis using assms by (auto simp: enqueueApp_def intro!: exI [of _ "rp_app c @ [env]"])
next
  case False
  then have "c' = c\<lparr>rp_app := rp_app c\<rparr>" using assms by (auto simp: enqueueApp_def split: if_splits)
  then show ?thesis using False assms by (auto simp: enqueueApp_def split: if_splits intro!: exI [of _ "rp_app c"])
qed

lemma answer_keeps:
  "\<exists>app ans. answer ident payload c = c\<lparr>rp_app := app, rp_answered := ans\<rparr> \<and> (length (rp_app c) \<le> rp_queue c \<longrightarrow> length app \<le> rp_queue c)
     \<and> (ans = rp_answered c \<or> ans = ident # rp_answered c)"
proof -
  obtain c' e where e: "enqueueApp (app_frame ''response'' ident payload) c = (c', e)" by force
  from enqueueApp_keeps [OF this] obtain app where "c' = c\<lparr>rp_app := app\<rparr>" "length (rp_app c) \<le> rp_queue c \<longrightarrow> length app \<le> rp_queue c" by blast
  moreover have "answer ident payload c = c\<lparr>rp_app := app, rp_answered := (if e = None then ident # rp_answered c else rp_answered c)\<rparr>"
    using e calculation(1) by (cases e) (simp_all add: answer_def)
  ultimately show ?thesis by (intro exI [of _ app] exI [of _ "if e = None then ident # rp_answered c else rp_answered c"]) simp
qed

lemma removeAll_bound [simp]: "length xs \<le> n \<Longrightarrow> length (removeAll x xs) \<le> n"
  by (rule le_trans [OF length_removeAll_less_eq])

text \<open>The part of the state that belongs to the calls of this side.\<close>

definition call_inv :: "peer_rpc \<Rightarrow> bool" where
  "call_inv c \<longleftrightarrow>
     length (rp_pending c) \<le> MaxPendingCalls \<and> length (rp_app c) \<le> rp_queue c
     \<and> (\<forall>i \<in> set (rp_pending c). rp_channel c i = [] \<and> (rp_calls c i = Some Registered \<or> rp_calls c i = Some Awaiting))
     \<and> (\<forall>i. length (rp_channel c i) \<le> 1 \<and> (rp_calls c i = None \<longrightarrow> rp_channel c i = []))
     \<and> (\<forall>i. rp_calls c i = Some Registered \<or> rp_calls c i = Some Awaiting \<longrightarrow> i \<in> set (rp_pending c) \<or> rp_channel c i \<noteq> [])
     \<and> (\<forall>i x. Response x \<in> set (rp_channel c i) \<longrightarrow> (i, x) \<in> set (rp_received c))
     \<and> (\<forall>i v. rp_calls c i = Some (Returned (Inr v)) \<longrightarrow> (\<exists>x. (i, x) \<in> set (rp_received c) \<and> rr_Error x = None \<and> rr_Result x = v))
     \<and> (\<forall>i e. rp_calls c i = Some (Returned (Inl (Remote e))) \<longrightarrow> (\<exists>x. (i, x) \<in> set (rp_received c) \<and> rr_Error x = Some e))
     \<and> (rp_done c \<longrightarrow> rp_pending c = [])"

lemma call_inv_cong:
  assumes "call_inv c" "rp_pending c' = rp_pending c" "rp_channel c' = rp_channel c" "rp_calls c' = rp_calls c" "rp_received c' = rp_received c"
    "rp_done c' = rp_done c" "rp_queue c' = rp_queue c" "length (rp_app c) \<le> rp_queue c \<longrightarrow> length (rp_app c') \<le> rp_queue c"
  shows "call_inv c'"
  using assms unfolding call_inv_def by simp

lemma call_inv_answer: "call_inv c \<Longrightarrow> call_inv (answer ident payload c)"
  using answer_keeps [of ident payload c] by (auto elim!: call_inv_cong)

lemma call_inv_error: "call_inv c \<Longrightarrow> call_inv (sendRPCError cd ident code message c)"
  by (simp add: sendRPCError_def call_inv_answer)

lemma call_inv_close:
  assumes "call_inv c"
  shows "call_inv (rpc_close c)"
proof (cases "rp_done c")
  case True then show ?thesis using assms by (simp add: rpc_close_def)
next
  case False
  have ch: "rp_channel (rpc_close c) i = (if i \<in> set (rp_pending c) then [Disconnected] else rp_channel c i)" for i
    using assms False by (auto simp: rpc_close_def offer_def call_inv_def)
  have "rp_calls (rpc_close c) = rp_calls c" "rp_received (rpc_close c) = rp_received c" "rp_pending (rpc_close c) = []"
    "rp_app (rpc_close c) = rp_app c" "rp_queue (rpc_close c) = rp_queue c"
    using False by (simp_all add: rpc_close_def)
  then show ?thesis using assms unfolding call_inv_def ch by (auto split: if_splits)
qed

lemma call_inv_register:
  assumes "call_inv c" "rp_calls c ident = None"
  shows "call_inv (fst (Call_register ms method payload ident c))"
  using assms unfolding Call_register_def call_inv_def set_call_def
  by (auto split: option.splits if_splits)

lemma call_inv_return:
  assumes "call_inv c" "rp_calls c ident = Some s" "\<And>v. w = Inr v \<Longrightarrow> \<exists>x. (ident, x) \<in> set (rp_received c) \<and> rr_Error x = None \<and> rr_Result x = v"
    "\<And>e. w = Inl (Remote e) \<Longrightarrow> \<exists>x. (ident, x) \<in> set (rp_received c) \<and> rr_Error x = Some e"
  shows "call_inv (set_call ident (Returned w) (removeRPCCall ident c))"
proof -
  let ?c = "set_call ident (Returned w) (removeRPCCall ident c)"
  have f: "rp_pending ?c = removeAll ident (rp_pending c)" "rp_channel ?c = rp_channel c" "rp_calls ?c = (rp_calls c)(ident \<mapsto> Returned w)"
    "rp_received ?c = rp_received c" "rp_done ?c = rp_done c" "rp_queue ?c = rp_queue c" "rp_app ?c = rp_app c"
    by (simp_all add: set_call_def removeRPCCall_def)
  show ?thesis using assms unfolding call_inv_def f by (auto split: if_splits)
qed

lemma call_inv_send:
  assumes "call_inv c" "rp_calls c ident = Some Registered"
  shows "call_inv (Call_send payload ident c)"
proof -
  obtain c' e where e: "enqueueApp (app_frame ''request'' ident payload) c = (c', e)" by force
  from enqueueApp_keeps [OF this] obtain app where a: "c' = c\<lparr>rp_app := app\<rparr>" "length (rp_app c) \<le> rp_queue c \<longrightarrow> length app \<le> rp_queue c" by blast
  have c': "call_inv c'" using assms(1) a by (auto elim!: call_inv_cong)
  show ?thesis
  proof (cases e)
    case None
    then have "Call_send payload ident c = set_call ident Awaiting c'" using e by (simp add: Call_send_def)
    then show ?thesis using c' assms(2) a(1) unfolding call_inv_def set_call_def by (auto split: if_splits)
  next
    case (Some er)
    then have "er = PeerDisconnected \<or> er = Backpressure" using e by (auto simp: enqueueApp_def split: if_splits)
    moreover have "Call_send payload ident c = set_call ident (Returned (Inl er)) (removeRPCCall ident c')" using e Some by (simp add: Call_send_def)
    moreover have "call_inv (set_call ident (Returned (Inl er)) (removeRPCCall ident c'))" if "er = PeerDisconnected \<or> er = Backpressure"
      by (rule call_inv_return [OF c', of ident Registered]) (use that assms(2) a(1) in auto)
    ultimately show ?thesis by simp
  qed
qed

lemma call_inv_receive:
  assumes "call_inv c" "rp_calls c ident = Some Awaiting" "rp_channel c ident \<noteq> []"
  shows "call_inv (Call_receive ident c)"
proof -
  obtain x xs where x: "rp_channel c ident = x # xs" using assms(3) by (cases "rp_channel c ident") auto
  have xs: "xs = []" "ident \<notin> set (rp_pending c)" using assms(1) x by (auto simp: call_inv_def dest: spec [of _ ident])
  have rec: "x = Response y \<Longrightarrow> (ident, y) \<in> set (rp_received c)" for y using assms(1) x by (auto simp: call_inv_def)
  let ?c = "Call_receive ident c"
  have f: "rp_pending ?c = rp_pending c" "rp_channel ?c = (rp_channel c)(ident := [])" "rp_calls ?c = (rp_calls c)(ident \<mapsto> Returned (call_value x))"
    "rp_received ?c = rp_received c" "rp_done ?c = rp_done c" "rp_queue ?c = rp_queue c" "rp_app ?c = rp_app c"
    using x xs by (simp_all add: Call_receive_def set_call_def)
  have v: "call_value x = Inr v \<Longrightarrow> \<exists>y. (ident, y) \<in> set (rp_received c) \<and> rr_Error y = None \<and> rr_Result y = v"
    "call_value x = Inl (Remote e) \<Longrightarrow> \<exists>y. (ident, y) \<in> set (rp_received c) \<and> rr_Error y = Some e" for v e
    using rec by (auto simp: call_value_def split: callResult.splits option.splits)
  show ?thesis using assms(1) xs(2) v unfolding call_inv_def f by (auto split: if_splits)
qed

lemma call_inv_timeout:
  assumes "call_inv c" "rp_calls c ident = Some Awaiting"
  shows "call_inv (Call_timeout ident c)"
proof -
  have r: "call_inv (set_call ident (Returned (Inl ContextDone)) (removeRPCCall ident c))" by (rule call_inv_return [OF assms]) simp_all
  obtain c' e where e: "enqueueApp (app_frame ''cancel'' ident []) (removeRPCCall ident c) = (c', e)" by force
  from enqueueApp_keeps [OF this] obtain app where a: "c' = (removeRPCCall ident c)\<lparr>rp_app := app\<rparr>" "length (rp_app c) \<le> rp_queue c \<longrightarrow> length app \<le> rp_queue c"
    by (auto simp: removeRPCCall_def)
  show ?thesis
    using r a e by (auto simp: Call_timeout_def Let_def set_call_def removeRPCCall_def elim!: call_inv_cong)
qed

lemma call_inv_response:
  assumes "call_inv c"
  shows "call_inv (handleResponse cd env c)"
proof -
  let ?i = "en_ID env"
  have "call_inv (let waiting = ?i \<in> set (rp_pending c); c = c\<lparr>rp_pending := removeAll ?i (rp_pending c), rp_received := (?i, response) # rp_received c\<rparr> in
            if waiting then c\<lparr>rp_channel := (rp_channel c)(?i := rp_channel c ?i @ [Response response])\<rparr> else c)" for response
  proof (cases "?i \<in> set (rp_pending c)")
    case True
    have "rp_channel c ?i = []" using assms True by (simp add: call_inv_def)
    then show ?thesis using assms True unfolding call_inv_def by (auto split: if_splits) blast+
  next
    case False
    then have "removeAll ?i (rp_pending c) = rp_pending c" by simp
    then show ?thesis using assms False unfolding call_inv_def by auto blast+
  qed
  then show ?thesis using call_inv_close [OF assms] by (simp add: handleResponse_def split: option.split)
qed

lemma call_inv_request: "call_inv c \<Longrightarrow> call_inv (handleRequest cd r ms env c)"
  unfolding handleRequest_def Let_def
  by (auto intro!: call_inv_close call_inv_error split: option.split elim!: call_inv_cong)

lemma call_inv_cancel: "call_inv c \<Longrightarrow> call_inv (handleCancel env c)"
  unfolding handleCancel_def Let_def by (auto intro!: call_inv_close elim!: call_inv_cong)

lemma call_inv_handler: "call_inv c \<Longrightarrow> call_inv (runHandler cd t res c)"
  unfolding runHandler_def Let_def
  by (auto intro!: call_inv_error call_inv_answer split: handler_outcome.split option.split elim!: call_inv_cong)

lemma call_inv_step:
  assumes "rpc_step cd r ms c c'" "call_inv c"
  shows "call_inv c'"
  using assms(1)
proof cases
  case (call ident name payload) then show ?thesis using call_inv_register [OF assms(2)] by simp
next
  case (send ident payload) then show ?thesis using call_inv_send [OF assms(2)] by simp
next
  case (receive ident) then show ?thesis using call_inv_receive [OF assms(2)] by simp
next
  case (timeout ident) then show ?thesis using call_inv_timeout [OF assms(2)] by simp
next
  case (lost ident)
  show ?thesis unfolding lost(1) Call_disconnected_def by (rule call_inv_return [OF assms(2) lost(2)]) simp_all
next
  case (frame env)
  then show ?thesis
    using assms(2) by (simp add: handleApplicationEnvelope_def call_inv_close call_inv_request call_inv_response call_inv_cancel)
next
  case (finish t res) then show ?thesis using call_inv_handler [OF assms(2)] by simp
next
  case (written env rest)
  then show ?thesis using assms(2) by (auto elim!: call_inv_cong)
next
  case close then show ?thesis using call_inv_close [OF assms(2)] by simp
qed

text \<open>What no step changes.\<close>

definition fixed_fields :: "peer_rpc \<Rightarrow> nat \<times> string \<times> string list" where
  "fixed_fields c = (rp_queue c, rp_peerID c, rp_capabilities c)"

lemma fixed_answer [simp]: "fixed_fields (answer ident payload c) = fixed_fields c"
  using answer_keeps [of ident payload c] by (auto simp: fixed_fields_def)

lemma fixed_error [simp]: "fixed_fields (sendRPCError cd ident code message c) = fixed_fields c"
  by (simp add: sendRPCError_def)

lemma fixed_enqueue [simp]: "fixed_fields (fst (enqueueApp env c)) = fixed_fields c"
  by (simp add: enqueueApp_def fixed_fields_def)

lemma fixed_updates [simp]:
  "fixed_fields (c\<lparr>rp_app := a\<rparr>) = fixed_fields c" "fixed_fields (c\<lparr>rp_pending := b\<rparr>) = fixed_fields c" "fixed_fields (c\<lparr>rp_channel := ch\<rparr>) = fixed_fields c"
  "fixed_fields (c\<lparr>rp_calls := k\<rparr>) = fixed_fields c" "fixed_fields (c\<lparr>rp_inflight := f\<rparr>) = fixed_fields c" "fixed_fields (c\<lparr>rp_tasks := ts\<rparr>) = fixed_fields c"
  "fixed_fields (c\<lparr>rp_next := n\<rparr>) = fixed_fields c" "fixed_fields (c\<lparr>rp_requested := q\<rparr>) = fixed_fields c" "fixed_fields (c\<lparr>rp_received := v\<rparr>) = fixed_fields c"
  "fixed_fields (c\<lparr>rp_done := d\<rparr>) = fixed_fields c"
  by (simp_all add: fixed_fields_def)

lemma fixed_close [simp]: "fixed_fields (rpc_close c) = fixed_fields c"
  by (simp add: rpc_close_def)

lemma fixed_request [simp]: "fixed_fields (handleRequest cd r ms env c) = fixed_fields c"
  by (simp add: handleRequest_def Let_def split: option.split)

lemma fixed_response [simp]: "fixed_fields (handleResponse cd env c) = fixed_fields c"
  by (simp add: handleResponse_def Let_def split: option.split)

lemma fixed_cancel [simp]: "fixed_fields (handleCancel env c) = fixed_fields c"
  by (simp add: handleCancel_def Let_def)

lemma fixed_handler [simp]: "fixed_fields (runHandler cd t res c) = fixed_fields c"
  by (simp add: runHandler_def Let_def split: handler_outcome.split option.split)

lemma fixed_step:
  assumes "rpc_step cd r ms c c'"
  shows "fixed_fields c' = fixed_fields c"
  using assms
proof cases
  case (send ident payload)
  obtain d e where "enqueueApp (app_frame ''request'' ident payload) c = (d, e)" by force
  then show ?thesis
    using send fixed_enqueue [of "app_frame ''request'' ident payload" c]
    by (simp add: Call_send_def set_call_def removeRPCCall_def split: option.split)
qed (simp_all add: Call_register_def Call_receive_def Call_timeout_def Call_disconnected_def set_call_def removeRPCCall_def handleApplicationEnvelope_def
    Let_def split: option.split list.split)

lemma call_inv_init: "call_inv (rpc_init peerID capabilities queue)"
  by (simp add: call_inv_def rpc_init_def)

lemma rpc_reach_induct [consumes 1, case_names init step]:
  assumes "rpc_reach cd r ms c c'" "P c" "\<And>d e. rpc_step cd r ms d e \<Longrightarrow> P d \<Longrightarrow> P e"
  shows "P c'"
  using assms(1) unfolding rpc_reach_def by (induction rule: rtranclp_induct) (use assms(2,3) in blast)+

lemma reach_call_inv:
  assumes "rpc_reach cd r ms (rpc_init peerID capabilities queue) c"
  shows "call_inv c"
  using assms by (induction rule: rpc_reach_induct) (use call_inv_init call_inv_step in blast)+

lemma reach_fixed:
  assumes "rpc_reach cd r ms c0 c"
  shows "fixed_fields c = fixed_fields c0"
  using assms
proof (induction rule: rpc_reach_induct)
  case (step d e) then show ?case using fixed_step [OF step(1)] by simp
qed simp


text \<open>
  A call returns a result or a remote error only if the connection received a response with its identifier that carries
  exactly that, and the response was well-formed.
\<close>

theorem rpc_result_genuine:
  assumes "rpc_reach cd r ms (rpc_init peerID capabilities queue) c"
  shows "(rp_calls c ident = Some (Returned (Inr v)) \<longrightarrow> (\<exists>x. (ident, x) \<in> set (rp_received c) \<and> rr_Error x = None \<and> rr_Result x = v))
    \<and> (rp_calls c ident = Some (Returned (Inl (Remote e))) \<longrightarrow> (\<exists>x. (ident, x) \<in> set (rp_received c) \<and> rr_Error x = Some e))"
  using reach_call_inv [OF assms] by (simp add: call_inv_def)

section \<open>Handlers\<close>

definition authorized_task :: "Registry \<Rightarrow> 'h methods \<Rightarrow> string \<Rightarrow> string list \<Rightarrow> task \<Rightarrow> bool" where
  "authorized_task r ms peerID capabilities t \<longleftrightarrow>
     tk_principal t = principalFor r peerID \<and> HasScope (tk_principal t) (sp_RequiredScope (tk_spec t))
     \<and> sp_Capability (tk_spec t) \<in> set capabilities \<and> CapabilityRPCV1 \<in> set capabilities
     \<and> (\<exists>m h. ms m = Some (tk_spec t, Some h))"

definition task_inv :: "Registry \<Rightarrow> 'h methods \<Rightarrow> peer_rpc \<Rightarrow> bool" where
  "task_inv r ms c \<longleftrightarrow>
     distinct (map tk_number (rp_tasks c)) \<and> length (rp_inflight c) \<le> MaxPendingCalls
     \<and> (\<forall>t \<in> set (rp_tasks c). tk_number t < rp_next c \<and> authorized_task r ms (rp_peerID c) (rp_capabilities c) t)
     \<and> (\<forall>i. count_list (rp_answered c) i + length (filter (\<lambda>t. tk_id t = i) (rp_tasks c)) \<le> count_list (rp_requested c) i)"

text \<open>Changes of the tasks that only cancel some, and answers to a request that has no task.\<close>

definition same_tasks :: "task list \<Rightarrow> task list \<Rightarrow> bool" where
  "same_tasks ts us \<longleftrightarrow> map (tk_canceled_update (\<lambda>_. True)) ts = map (tk_canceled_update (\<lambda>_. True)) us"

lemma same_tasksD:
  assumes "same_tasks ts us"
  shows "map tk_number ts = map tk_number us" "length (filter (\<lambda>t. tk_id t = i) ts) = length (filter (\<lambda>t. tk_id t = i) us)"
    "(\<forall>t \<in> set ts. tk_number t < n \<and> authorized_task r ms p cs t) \<longleftrightarrow> (\<forall>t \<in> set us. tk_number t < n \<and> authorized_task r ms p cs t)"
proof -
  let ?f = "tk_canceled_update (\<lambda>_. True)"
  have a: "authorized_task r ms p cs (?f t) = authorized_task r ms p cs t" for t :: task by (simp add: authorized_task_def)
  have "map tk_number (map ?f ts) = map tk_number (map ?f us)" using assms by (simp add: same_tasks_def)
  then show "map tk_number ts = map tk_number us" by (simp add: comp_def)
  have "length (filter (\<lambda>t. tk_id t = i) (map ?f ts)) = length (filter (\<lambda>t. tk_id t = i) (map ?f us))" using assms by (simp add: same_tasks_def)
  then show "length (filter (\<lambda>t. tk_id t = i) ts) = length (filter (\<lambda>t. tk_id t = i) us)" by (simp add: filter_map comp_def)
  have "(\<forall>t \<in> set (map ?f ts). tk_number t < n \<and> authorized_task r ms p cs t) \<longleftrightarrow> (\<forall>t \<in> set (map ?f us). tk_number t < n \<and> authorized_task r ms p cs t)"
    using assms by (simp only: same_tasks_def)
  then show "(\<forall>t \<in> set ts. tk_number t < n \<and> authorized_task r ms p cs t) \<longleftrightarrow> (\<forall>t \<in> set us. tk_number t < n \<and> authorized_task r ms p cs t)" by (simp add: a)
qed

lemma same_tasks_refl [simp]: "same_tasks ts ts"
  by (simp add: same_tasks_def)

lemma same_tasks_cancel [simp]: "same_tasks (cancel_task n ts) ts" "same_tasks (map (\<lambda>t. if tk_number t \<in> A then t\<lparr>tk_canceled := True\<rparr> else t) ts) ts"
  by (auto simp: same_tasks_def cancel_task_def comp_def)

lemma task_inv_cong:
  assumes "task_inv r ms c" "same_tasks (rp_tasks c') (rp_tasks c)" "length (rp_inflight c') \<le> length (rp_inflight c)" "rp_next c' = rp_next c"
    "fixed_fields c' = fixed_fields c" "rp_answered c' = rp_answered c" "rp_requested c' = rp_requested c"
  shows "task_inv r ms c'"
proof -
  note inv = assms(1) [unfolded task_inv_def]
  have k: "rp_peerID c' = rp_peerID c" "rp_capabilities c' = rp_capabilities c" using assms(5) by (simp_all add: fixed_fields_def)
  show ?thesis
    unfolding task_inv_def k assms(4,6,7) same_tasksD [OF assms(2)] using inv le_trans [OF assms(3)] by blast
qed

text \<open>A request that is answered at once.\<close>

lemma task_inv_answer:
  assumes "distinct (map tk_number (rp_tasks c))" "length (rp_inflight c) \<le> MaxPendingCalls"
    "\<forall>t \<in> set (rp_tasks c). tk_number t < rp_next c \<and> authorized_task r ms (rp_peerID c) (rp_capabilities c) t"
    "\<forall>i. count_list (rp_answered c) i + length (filter (\<lambda>t. tk_id t = i) (rp_tasks c)) + (if i = ident then 1 else 0) \<le> count_list (rp_requested c) i"
  shows "task_inv r ms (answer ident payload c)"
proof -
  obtain app ans where a: "answer ident payload c = c\<lparr>rp_app := app, rp_answered := ans\<rparr>" "ans = rp_answered c \<or> ans = ident # rp_answered c"
    using answer_keeps [of ident payload c] by blast
  have "count_list ans i + length (filter (\<lambda>t. tk_id t = i) (rp_tasks c)) \<le> count_list (rp_requested c) i" for i
    using a(2) spec [OF assms(4), of i] by (auto split: if_splits)
  then show ?thesis using assms(1-3) unfolding a(1) task_inv_def by simp
qed

lemma task_inv_close: "task_inv r ms c \<Longrightarrow> task_inv r ms (rpc_close c)"
  by (erule task_inv_cong) (auto simp: rpc_close_def fixed_fields_def)

lemma task_inv_request:
  assumes "task_inv r ms c"
  shows "task_inv r ms (handleRequest cd r ms env c)"
proof -
  let ?c = "c\<lparr>rp_requested := en_ID env # rp_requested c\<rparr>"
  note inv = assms [unfolded task_inv_def]
  have err: "task_inv r ms (sendRPCError cd (en_ID env) code msg ?c)" for code msg
    unfolding sendRPCError_def by (rule task_inv_answer) (use inv in auto)
  have ok: "task_inv r ms (?c\<lparr>rp_inflight := (en_ID env, rp_next c) # rp_inflight c,
       rp_tasks := \<lparr>tk_number = rp_next c, tk_id = en_ID env, tk_principal = principalFor r (rp_peerID c), tk_spec = spec, tk_canceled = False\<rparr> # rp_tasks c,
       rp_next := Suc (rp_next c)\<rparr>)"
    if "supports c CapabilityRPCV1" "ms m = Some (spec, Some h)" "supports c (sp_Capability spec)"
      "HasScope (principalFor r (rp_peerID c)) (sp_RequiredScope spec)" "length (rp_inflight c) < MaxPendingCalls" for m spec h
    using inv that by (auto simp: task_inv_def authorized_task_def supports_def less_Suc_eq)
  show ?thesis
    using task_inv_close [OF assms] err ok
    by (auto simp: handleRequest_def Let_def supports_def split: option.split)
qed

lemma task_inv_handler:
  assumes "task_inv r ms c" "t \<in> set (rp_tasks c)"
  shows "task_inv r ms (runHandler cd t res c)"
proof -
  note inv = assms(1) [unfolded task_inv_def]
  let ?tasks = "filter (\<lambda>u. tk_number u \<noteq> tk_number t) (rp_tasks c)"
  define c1 where "c1 = c\<lparr>rp_inflight := filter (\<lambda>(i, _). i \<noteq> tk_id t) (rp_inflight c),
      rp_tasks := (case map_of (rp_inflight c) (tk_id t) of None \<Rightarrow> ?tasks | Some n \<Rightarrow> cancel_task n ?tasks)\<rparr>"
  have same: "same_tasks (rp_tasks c1) ?tasks" by (simp add: c1_def split: option.split)
  have less: "length (filter (\<lambda>u. tk_id u = i) ?tasks) + (if i = tk_id t then 1 else 0) \<le> length (filter (\<lambda>u. tk_id u = i) (rp_tasks c))" for i
  proof -
    let ?all = "filter (\<lambda>u. tk_id u = i) (rp_tasks c)"
    have e: "filter (\<lambda>u. tk_id u = i) ?tasks = filter (\<lambda>u. tk_number u \<noteq> tk_number t) ?all" by (simp add: conj_commute)
    show ?thesis
    proof (cases "i = tk_id t")
      case True
      have "length (filter (\<lambda>u. tk_number u \<noteq> tk_number t) ?all) < length ?all"
        using assms(2) True by (intro length_filter_less [of t]) auto
      then show ?thesis using True unfolding e by simp
    next
      case False
      have "length (filter (\<lambda>u. tk_number u \<noteq> tk_number t) ?all) \<le> length ?all" by (rule length_filter_le)
      then show ?thesis using False by (simp only: e if_False add_0_right)
    qed
  qed
  have c1: "distinct (map tk_number (rp_tasks c1))" "length (rp_inflight c1) \<le> MaxPendingCalls"
    "\<forall>u \<in> set (rp_tasks c1). tk_number u < rp_next c1 \<and> authorized_task r ms (rp_peerID c1) (rp_capabilities c1) u"
    "\<forall>i. count_list (rp_answered c1) i + length (filter (\<lambda>u. tk_id u = i) (rp_tasks c1)) + (if i = tk_id t then 1 else 0) \<le> count_list (rp_requested c1) i"
  proof -
    have k: "rp_next c1 = rp_next c" "rp_peerID c1 = rp_peerID c" "rp_capabilities c1 = rp_capabilities c" "rp_answered c1 = rp_answered c" "rp_requested c1 = rp_requested c"
      by (simp_all add: c1_def)
    show "distinct (map tk_number (rp_tasks c1))" unfolding same_tasksD(1) [OF same] using inv by (simp add: distinct_map_filter)
    show "length (rp_inflight c1) \<le> MaxPendingCalls" using inv by (auto simp: c1_def intro: le_trans [OF length_filter_le])
    show "\<forall>u \<in> set (rp_tasks c1). tk_number u < rp_next c1 \<and> authorized_task r ms (rp_peerID c1) (rp_capabilities c1) u"
      unfolding same_tasksD(3) [OF same] k using inv by auto
    show "\<forall>i. count_list (rp_answered c1) i + length (filter (\<lambda>u. tk_id u = i) (rp_tasks c1)) + (if i = tk_id t then 1 else 0) \<le> count_list (rp_requested c1) i"
    proof
      fix i
      show "count_list (rp_answered c1) i + length (filter (\<lambda>u. tk_id u = i) (rp_tasks c1)) + (if i = tk_id t then 1 else 0) \<le> count_list (rp_requested c1) i"
        unfolding same_tasksD(2) [OF same] k using less [of i] inv [THEN conjunct2, THEN conjunct2, THEN conjunct2, THEN spec, of i] by linarith
    qed
  qed
  have plain: "task_inv r ms c1" using c1(1-3) c1(4) unfolding task_inv_def by (auto intro: le_trans add_leD1)
  have ans: "task_inv r ms (answer (tk_id t) payload c1)" for payload by (rule task_inv_answer [OF c1])
  show ?thesis
    using plain ans unfolding runHandler_def Let_def c1_def [symmetric] sendRPCError_def
    by (auto split: handler_outcome.split option.split)
qed

lemma task_inv_step:
  assumes "rpc_step cd r ms c c'" "task_inv r ms c"
  shows "task_inv r ms c'"
  using assms(1)
proof cases
  case (frame env)
  have "task_inv r ms (handleResponse cd env c)"
    by (auto simp: handleResponse_def Let_def task_inv_close [OF assms(2)] split: option.split intro!: task_inv_cong [OF assms(2)])
  moreover have "task_inv r ms (handleCancel env c)"
    by (auto simp: handleCancel_def Let_def task_inv_close [OF assms(2)] split: option.split intro!: task_inv_cong [OF assms(2)])
  ultimately show ?thesis
    using frame task_inv_close [OF assms(2)] task_inv_request [OF assms(2)] assms(2) by (simp add: handleApplicationEnvelope_def)
next
  case (finish t res) then show ?thesis using task_inv_handler [OF assms(2)] by simp
next
  case close then show ?thesis using task_inv_close [OF assms(2)] by simp
next
  case (call ident name payload)
  then show ?thesis using assms(2) by (auto simp: Call_register_def set_call_def split: option.splits elim!: task_inv_cong)
next
  case (send ident payload)
  obtain d e where e: "enqueueApp (app_frame ''request'' ident payload) c = (d, e)" by force
  from enqueueApp_keeps [OF this] obtain app where "d = c\<lparr>rp_app := app\<rparr>" by blast
  then show ?thesis using assms(2) e unfolding send(1) by (auto simp: Call_send_def set_call_def removeRPCCall_def split: option.splits elim!: task_inv_cong)
next
  case (receive ident)
  then show ?thesis using assms(2) by (auto simp: Call_receive_def set_call_def split: list.splits elim!: task_inv_cong)
next
  case (timeout ident)
  obtain d e where e: "enqueueApp (app_frame ''cancel'' ident []) (removeRPCCall ident c) = (d, e)" by force
  from enqueueApp_keeps [OF this] obtain app where "d = (removeRPCCall ident c)\<lparr>rp_app := app\<rparr>" by blast
  then show ?thesis using assms(2) e unfolding timeout(1) by (auto simp: Call_timeout_def Let_def set_call_def removeRPCCall_def elim!: task_inv_cong)
next
  case (lost ident)
  then show ?thesis using assms(2) by (auto simp: Call_disconnected_def set_call_def removeRPCCall_def elim!: task_inv_cong)
next
  case (written env rest)
  then show ?thesis using assms(2) by (auto elim!: task_inv_cong)
qed

lemma reach_task_inv:
  assumes "rpc_reach cd r ms (rpc_init peerID capabilities queue) c"
  shows "task_inv r ms c"
  using assms
proof (induction rule: rpc_reach_induct)
  case init show ?case by (simp add: task_inv_def rpc_init_def)
next
  case (step d e) then show ?case using task_inv_step by blast
qed

text \<open>
  C3. A handler runs only for an authorized request: its method is registered with it, the method's capability and the RPC
  capability were negotiated, and the local registry grants the peer of the connection the scope that the method
  requires; and at most 128 requests are in flight.
\<close>

theorem rpc_handler_authorized:
  assumes "rpc_reach cd r ms (rpc_init peerID capabilities queue) c"
  shows "length (rp_inflight c) \<le> MaxPendingCalls
    \<and> (\<forall>t \<in> set (rp_tasks c). (\<exists>m h. ms m = Some (tk_spec t, Some h)) \<and> {CapabilityRPCV1, sp_Capability (tk_spec t)} \<subseteq> set capabilities
         \<and> tk_principal t = principalFor r peerID \<and> HasScope (principalFor r peerID) (sp_RequiredScope (tk_spec t)))"
  using reach_task_inv [OF assms] reach_fixed [OF assms]
  by (auto simp: task_inv_def authorized_task_def fixed_fields_def rpc_init_def)

text \<open>
  C21. Every request is answered at most once: for no identifier are there more responses than requests received, handlers that
  still run included.
\<close>

theorem rpc_answered_once:
  assumes "rpc_reach cd r ms (rpc_init peerID capabilities queue) c"
  shows "count_list (rp_answered c) ident + length (filter (\<lambda>t. tk_id t = ident) (rp_tasks c)) \<le> count_list (rp_requested c) ident"
  using reach_task_inv [OF assms] by (simp add: task_inv_def)

section \<open>Registered handlers have a scope\<close>

definition methods_ok :: "'h methods \<Rightarrow> bool" where
  "methods_ok ms \<longleftrightarrow> (\<forall>m spec h. ms m = Some (spec, h) \<longrightarrow> m = sp_Name spec \<and> safeMethod m \<and> safeScope (sp_Capability spec) \<and> (h \<noteq> None \<longrightarrow> safeScope (sp_RequiredScope spec)))"

lemma methods_ok_update:
  assumes "methods_ok ms" "safeMethod (sp_Name spec)" "safeScope (sp_Capability spec)" "h \<noteq> None \<Longrightarrow> safeScope (sp_RequiredScope spec)"
  shows "methods_ok (ms(sp_Name spec \<mapsto> (spec, h)))"
  using assms unfolding methods_ok_def by (auto split: if_splits)

lemma validate_ok:
  "validateMethodSpec spec scoped = None \<Longrightarrow> safeMethod (sp_Name spec) \<and> safeScope (sp_Capability spec) \<and> (scoped \<longrightarrow> safeScope (sp_RequiredScope spec))"
  by (simp add: validateMethodSpec_def first_err_None)

lemma register_method_ok:
  assumes "methods_ok ms"
  shows "methods_ok (fst (RegisterMethod spec ms))"
proof (cases "validateMethodSpec spec False")
  case None
  have "methods_ok (ms(sp_Name spec \<mapsto> (spec, None)))" using methods_ok_update [OF assms, of spec None] validate_ok [OF None] by simp
  then show ?thesis using assms None by (simp add: RegisterMethod_def split: option.split)
qed (simp add: RegisterMethod_def assms)

lemma register_handler_ok:
  assumes "methods_ok ms"
  shows "methods_ok (fst (RegisterHandler spec handler ms))"
proof (cases "validateMethodSpec spec True")
  case None
  have "methods_ok (ms(sp_Name spec \<mapsto> (spec, handler)))" using methods_ok_update [OF assms, of spec handler] validate_ok [OF None] by simp
  then show ?thesis using assms None by (simp add: RegisterHandler_def split: option.split)
qed (simp add: RegisterHandler_def assms split: option.split)

text \<open>A peer without grants gets no handler started, whatever is registered: the scope of a handler is not empty.\<close>

lemma no_grants_no_handler:
  assumes "rpc_reach cd r ms (rpc_init peerID capabilities queue) c" "map_of (rg_Grants r) peerID = None"
  shows "rp_tasks c = []"
proof -
  have "\<not> HasScope (principalFor r peerID) scope" for scope using assms(2) by (simp add: HasScope_def principalFor_def)
  then show ?thesis using reach_task_inv [OF assms(1)] reach_fixed [OF assms(1)]
    by (cases "rp_tasks c") (auto simp: task_inv_def authorized_task_def fixed_fields_def rpc_init_def)
qed

section \<open>A run\<close>

definition demo_methods :: "unit methods" where
  "demo_methods = [''events.subscribe'' \<mapsto> (\<lparr>sp_Name = ''events.subscribe'', sp_Capability = ''events.v1'', sp_RequiredScope = ''events.read''\<rparr>, Some ())]"

definition demo_codec :: codec where
  "demo_codec = \<lparr>cd_request = (\<lambda>_. Some (''events.subscribe'', ''{}'')), cd_response = (\<lambda>_. Some \<lparr>rr_Result = ''{}'', rr_Error = None\<rparr>), cd_encode = (\<lambda>_. ''{}'')\<rparr>"

definition demo_rpc :: peer_rpc where
  "demo_rpc = rpc_init ''laptop'' [''events.v1'', ''rpc.v1''] 8"

definition demo_rpc_run :: peer_rpc where
  "demo_rpc_run = Call_send ''{}'' ''rpc-1-2'' (fst (Call_register demo_methods ''events.subscribe'' ''{}'' ''rpc-1-2''
     (handleApplicationEnvelope demo_codec demo_registry demo_methods (app_frame ''request'' ''rpc-9-1'' ''{}'') demo_rpc)))"

lemmas demo_rpc_defs = demo_methods_def demo_codec_def demo_rpc_def rpc_init_def demo_registry_def handleApplicationEnvelope_def handleRequest_def
  app_frame_def supports_def CapabilityRPCV1_def safeMethod_def id_shape_def char_class_defs byte_of_def HasScope_def principalFor_def
  MaxApplicationPayload_def MaxPendingCalls_def Call_register_def Call_send_def enqueueApp_def set_call_def

lemma demo_rpc_run_reach: "rpc_reach demo_codec demo_registry demo_methods (rpc_init ''laptop'' [''events.v1'', ''rpc.v1''] 8) demo_rpc_run"
proof -
  let ?a = "handleApplicationEnvelope demo_codec demo_registry demo_methods (app_frame ''request'' ''rpc-9-1'' ''{}'') demo_rpc"
  let ?b = "fst (Call_register demo_methods ''events.subscribe'' ''{}'' ''rpc-1-2'' ?a)"
  have 1: "rpc_step demo_codec demo_registry demo_methods (rpc_init ''laptop'' [''events.v1'', ''rpc.v1''] 8) ?a"
    unfolding demo_rpc_def by (rule rpc_step.frame)
  have 2: "rpc_step demo_codec demo_registry demo_methods ?a ?b"
    by (rule rpc_step.call) (simp add: demo_rpc_defs)
  have 3: "rpc_step demo_codec demo_registry demo_methods ?b demo_rpc_run"
    unfolding demo_rpc_run_def by (rule rpc_step.send) (simp add: demo_rpc_defs)
  from 1 2 3 show ?thesis unfolding rpc_reach_def by (meson rtranclp.rtrancl_into_rtrancl rtranclp.rtrancl_refl)
qed


theorem rpc_handler_authorized_witness:
  "rp_tasks demo_rpc_run \<noteq> [] \<and> HasScope (principalFor demo_registry ''laptop'') (sp_RequiredScope (tk_spec (hd (rp_tasks demo_rpc_run))))"
proof -
  have "rp_tasks demo_rpc_run \<noteq> []" by (simp add: demo_rpc_run_def demo_rpc_defs)
  with rpc_handler_authorized [OF demo_rpc_run_reach] show ?thesis using hd_in_set by blast
qed

theorem rpc_answered_once_witness:
  "count_list (rp_answered demo_rpc_run) ''rpc-9-1'' + length (filter (\<lambda>t. tk_id t = ''rpc-9-1'') (rp_tasks demo_rpc_run)) \<le> count_list (rp_requested demo_rpc_run) ''rpc-9-1''"
  by (rule rpc_answered_once [OF demo_rpc_run_reach])

definition demo_rpc_done :: peer_rpc where
  "demo_rpc_done = Call_receive ''rpc-1-2'' (handleApplicationEnvelope demo_codec demo_registry demo_methods (app_frame ''response'' ''rpc-1-2'' ''{}'') demo_rpc_run)"

theorem rpc_result_genuine_witness:
  "rp_calls demo_rpc_done ''rpc-1-2'' = Some (Returned (Inr ''{}'')) \<and> (\<exists>x. (''rpc-1-2'', x) \<in> set (rp_received demo_rpc_done) \<and> rr_Error x = None \<and> rr_Result x = ''{}'')"
proof -
  let ?a = "handleApplicationEnvelope demo_codec demo_registry demo_methods (app_frame ''response'' ''rpc-1-2'' ''{}'') demo_rpc_run"
  have ch: "rp_calls ?a ''rpc-1-2'' = Some Awaiting" "rp_channel ?a ''rpc-1-2'' \<noteq> []"
    by (simp_all add: demo_rpc_run_def demo_rpc_defs handleResponse_def)
  have "rpc_step demo_codec demo_registry demo_methods demo_rpc_run ?a" by (rule rpc_step.frame)
  moreover have "rpc_step demo_codec demo_registry demo_methods ?a demo_rpc_done" unfolding demo_rpc_done_def by (rule rpc_step.receive [OF ch])
  ultimately have r: "rpc_reach demo_codec demo_registry demo_methods (rpc_init ''laptop'' [''events.v1'', ''rpc.v1''] 8) demo_rpc_done"
    using demo_rpc_run_reach unfolding rpc_reach_def by (meson rtranclp.rtrancl_into_rtrancl)
  have "rp_calls demo_rpc_done ''rpc-1-2'' = Some (Returned (Inr ''{}''))"
    by (simp add: demo_rpc_done_def demo_rpc_run_def demo_rpc_defs handleResponse_def Call_receive_def call_value_def)
  with rpc_result_genuine [OF r, of "''rpc-1-2''"] show ?thesis by blast
qed

text \<open>
  An identifier that a peer uses again after it canceled a request: the goroutine of the canceled request finds the entry of the
  new one, removes it and cancels its context, so that the new request is never answered.
\<close>

definition demo_task :: "nat \<Rightarrow> bool \<Rightarrow> task" where
  "demo_task n canceled = \<lparr>tk_number = n, tk_id = ''a'', tk_principal = principalFor demo_registry ''laptop'',
     tk_spec = \<lparr>sp_Name = ''events.subscribe'', sp_Capability = ''events.v1'', sp_RequiredScope = ''events.read''\<rparr>, tk_canceled = canceled\<rparr>"

lemma demo_admit:
  assumes "rp_inflight c = []" "rp_capabilities c = [''events.v1'', ''rpc.v1'']" "rp_peerID c = ''laptop''"
  shows "handleApplicationEnvelope demo_codec demo_registry demo_methods (app_frame ''request'' ''a'' ''{}'') c
    = c\<lparr>rp_requested := ''a'' # rp_requested c, rp_inflight := [(''a'', rp_next c)], rp_tasks := demo_task (rp_next c) False # rp_tasks c, rp_next := Suc (rp_next c)\<rparr>"
  using assms by (simp add: demo_rpc_defs demo_task_def Let_def)

theorem reused_id_unanswered:
  fixes c1 c2 c3 c4 c5 :: peer_rpc
  assumes "c1 = handleApplicationEnvelope demo_codec demo_registry demo_methods (app_frame ''request'' ''a'' ''{}'') demo_rpc"
    "c2 = handleCancel (app_frame ''cancel'' ''a'' []) c1"
    "c3 = handleApplicationEnvelope demo_codec demo_registry demo_methods (app_frame ''request'' ''a'' ''{}'') c2"
    "c4 = runHandler demo_codec (demo_task 0 True) OtherError c3" "c5 = runHandler demo_codec (demo_task 1 True) (HandlerResult (Some ''{}'')) c4"
  shows "rp_tasks c3 = [demo_task 1 False, demo_task 0 True] \<and> rp_tasks c4 = [demo_task 1 True] \<and> rp_tasks c5 = [] \<and> rp_answered c5 = []"
proof -
  have 1: "c1 = demo_rpc\<lparr>rp_requested := [''a''], rp_inflight := [(''a'', 0)], rp_tasks := [demo_task 0 False], rp_next := 1\<rparr>"
    unfolding assms(1) by (subst demo_admit) (simp_all add: demo_rpc_def rpc_init_def)
  have 2: "c2 = c1\<lparr>rp_inflight := [], rp_tasks := [demo_task 0 True]\<rparr>"
    unfolding assms(2) 1 by (simp add: handleCancel_def app_frame_def supports_def CapabilityRPCV1_def demo_rpc_def rpc_init_def cancel_task_def demo_task_def)
  have 3: "c3 = c2\<lparr>rp_requested := [''a'', ''a''], rp_inflight := [(''a'', 1)], rp_tasks := [demo_task 1 False, demo_task 0 True], rp_next := 2\<rparr>"
    unfolding assms(3) by (subst demo_admit) (simp_all add: 1 2 demo_rpc_def rpc_init_def numeral_2_eq_2)
  have 4: "c4 = c3\<lparr>rp_inflight := [], rp_tasks := [demo_task 1 True]\<rparr>"
    unfolding assms(4) 3 by (simp add: runHandler_def cancel_task_def demo_task_def)
  have "c5 = c4\<lparr>rp_tasks := []\<rparr>" unfolding assms(5) 4 by (simp add: runHandler_def demo_task_def)
  then show ?thesis using 1 2 3 4 by (simp add: demo_rpc_def rpc_init_def)
qed

section \<open>Pings\<close>

text \<open>
  The tracked pings of a connection: \<open>pg_pending\<close> are the entries of \<open>pending\<close>, \<open>pg_closed\<close> the channels that are closed, and \<open>pg_panic\<close>
  says that a closed channel was closed again. A ping is \<open>Entered\<close> between its entry and its frame.
\<close>

datatype ping_state = Entered | PingAwaiting | PingOver

record ping_conn =
  pg_done :: bool
  pg_room :: nat
  pg_pending :: "string list"
  pg_closed :: "string list"
  pg_pings :: "string \<Rightarrow> ping_state option"
  pg_panic :: bool

definition close_channel :: "string \<Rightarrow> ping_conn \<Rightarrow> ping_conn" where
  "close_channel ident c = (if ident \<in> set (pg_closed c) then c\<lparr>pg_panic := True\<rparr> else c\<lparr>pg_closed := ident # pg_closed c\<rparr>)"

definition set_ping :: "string \<Rightarrow> ping_state \<Rightarrow> ping_conn \<Rightarrow> ping_conn" where
  "set_ping ident s c = c\<lparr>pg_pings := (pg_pings c)(ident \<mapsto> s)\<rparr>"

text \<open>\<open>sendPing\<close> up to its entry, and from there on; \<open>enqueue\<close> fails on a closed connection or a full queue.\<close>

definition sendPing_enter :: "string \<Rightarrow> ping_conn \<Rightarrow> ping_conn" where
  "sendPing_enter ident c = set_ping ident Entered (c\<lparr>pg_pending := ident # pg_pending c\<rparr>)"

definition sendPing_enqueue :: "string \<Rightarrow> ping_conn \<Rightarrow> ping_conn" where
  "sendPing_enqueue ident c =
     (if pg_done c \<or> pg_room c = 0
      then set_ping ident PingOver (close_channel ident (c\<lparr>pg_pending := removeAll ident (pg_pending c)\<rparr>))
      else set_ping ident PingAwaiting (c\<lparr>pg_room := pg_room c - 1\<rparr>))"

definition removePending :: "string \<Rightarrow> ping_conn \<Rightarrow> ping_conn" where
  "removePending ident c =
     (if ident \<in> set (pg_pending c) then close_channel ident (c\<lparr>pg_pending := removeAll ident (pg_pending c)\<rparr>) else c)"

definition ping_close :: "ping_conn \<Rightarrow> ping_conn" where
  "ping_close c =
     (if pg_done c then c
      else fold close_channel (pg_pending c) (c\<lparr>pg_done := True, pg_pending := []\<rparr>))"

text \<open>\<open>reader\<close> takes the entry of a pong and closes its channel like \<open>removePending\<close>; a peer echoes pings it was sent.\<close>

inductive ping_step :: "ping_conn \<Rightarrow> ping_conn \<Rightarrow> bool" where
  enter: "pg_pings c ident = None \<Longrightarrow> ping_step c (sendPing_enter ident c)"
| enqueue: "pg_pings c ident = Some Entered \<Longrightarrow> ping_step c (sendPing_enqueue ident c)"
| pong: "pg_pings c ident \<noteq> Some Entered \<Longrightarrow> ping_step c (removePending ident c)"
| over: "pg_pings c ident = Some PingAwaiting \<Longrightarrow> ping_step c (set_ping ident PingOver (removePending ident c))"
| room: "ping_step c (c\<lparr>pg_room := Suc (pg_room c)\<rparr>)"
| close: "ping_step c (ping_close c)"

definition ping_init :: "nat \<Rightarrow> ping_conn" where
  "ping_init queue = \<lparr>pg_done = False, pg_room = queue, pg_pending = [], pg_closed = [], pg_pings = (\<lambda>_. None), pg_panic = False\<rparr>"

definition ping_reach :: "nat \<Rightarrow> ping_conn \<Rightarrow> bool" where
  "ping_reach queue c \<longleftrightarrow> ping_step\<^sup>*\<^sup>* (ping_init queue) c"

definition ping_inv :: "ping_conn \<Rightarrow> bool" where
  "ping_inv c \<longleftrightarrow>
     (pg_panic c \<longrightarrow> pg_done c) \<and> distinct (pg_pending c) \<and> set (pg_pending c) \<inter> set (pg_closed c) = {}
     \<and> (\<forall>i. pg_pings c i = Some Entered \<longrightarrow> pg_done c \<or> i \<in> set (pg_pending c))
     \<and> (\<forall>i. pg_pings c i = None \<longrightarrow> i \<notin> set (pg_pending c) \<and> i \<notin> set (pg_closed c))"

lemma removePending_fields:
  assumes "ping_inv c" "ident \<in> set (pg_pending c)"
  shows "removePending ident c = c\<lparr>pg_pending := removeAll ident (pg_pending c), pg_closed := ident # pg_closed c\<rparr>"
  using assms by (auto simp: removePending_def close_channel_def ping_inv_def)

lemma fold_close_channel:
  assumes "distinct xs" "set xs \<inter> set (pg_closed c) = {}"
  shows "fold close_channel xs c = c\<lparr>pg_closed := rev xs @ pg_closed c\<rparr>"
  using assms by (induction xs arbitrary: c) (auto simp: close_channel_def)

lemma removePending_inv:
  assumes "ping_inv c" "pg_pings c ident \<noteq> Some Entered"
  shows "ping_inv (removePending ident c)"
proof (cases "ident \<in> set (pg_pending c)")
  case True
  show ?thesis using assms True unfolding removePending_fields [OF assms(1) True] ping_inv_def by (auto simp: distinct_removeAll)
qed (use assms in \<open>simp add: removePending_def\<close>)

lemma ping_step_inv:
  assumes "ping_step c c'" "ping_inv c"
  shows "ping_inv c'"
  using assms(1)
proof cases
  case (enter ident)
  then show ?thesis using assms(2) by (auto simp: ping_inv_def sendPing_enter_def set_ping_def split: if_splits)
next
  case (enqueue ident)
  show ?thesis
  proof (cases "pg_done c \<or> pg_room c = 0")
    case True
    then show ?thesis using assms(2) enqueue
      by (auto simp: ping_inv_def sendPing_enqueue_def set_ping_def close_channel_def distinct_removeAll split: if_splits)
  next
    case False
    then show ?thesis using assms(2) enqueue by (auto simp: ping_inv_def sendPing_enqueue_def set_ping_def split: if_splits)
  qed
next
  case (pong ident) then show ?thesis using removePending_inv [OF assms(2)] by simp
next
  case (over ident)
  have "ping_inv (removePending ident c)" using removePending_inv [OF assms(2)] over(2) by simp
  then show ?thesis using over(1) by (auto simp: ping_inv_def set_ping_def split: if_splits)
next
  case room then show ?thesis using assms(2) by (simp add: ping_inv_def)
next
  case close
  show ?thesis
  proof (cases "pg_done c")
    case False
    have "ping_close c = c\<lparr>pg_done := True, pg_pending := [], pg_closed := rev (pg_pending c) @ pg_closed c\<rparr>"
      using fold_close_channel [of "pg_pending c" "c\<lparr>pg_done := True, pg_pending := []\<rparr>"] assms(2) False by (simp add: ping_close_def ping_inv_def)
    then show ?thesis using assms(2) close by (auto simp: ping_inv_def)
  qed (use close assms(2) in \<open>simp add: ping_close_def\<close>)
qed

lemma ping_reach_inv:
  assumes "ping_reach queue c"
  shows "ping_inv c"
  using assms unfolding ping_reach_def
proof (induction rule: rtranclp_induct)
  case base show ?case by (simp add: ping_inv_def ping_init_def)
next
  case (step d e) then show ?case using ping_step_inv by blast
qed

text \<open>
  A ping can crash the process, and only when its connection goes away: \<open>sendPing\<close> closes the channel of a ping whose frame was
  refused without looking whether \<open>close\<close> has closed it already, so a connection that ends between the entry and the
  frame makes it close a closed channel. Without that every channel is closed once.
\<close>

theorem ping_double_close:
  "(\<exists>c. ping_reach queue c \<and> pg_panic c) \<and> (\<forall>c. ping_reach queue c \<longrightarrow> pg_panic c \<longrightarrow> pg_done c)"
proof
  let ?a = "sendPing_enter ''t'' (ping_init queue)" and ?b = "ping_close (sendPing_enter ''t'' (ping_init queue))"
  have "ping_step (ping_init queue) ?a" by (rule ping_step.enter) (simp add: ping_init_def)
  moreover have "ping_step ?a ?b" by (rule ping_step.close)
  moreover have "ping_step ?b (sendPing_enqueue ''t'' ?b)"
    by (rule ping_step.enqueue) (simp add: ping_close_def sendPing_enter_def set_ping_def ping_init_def close_channel_def)
  ultimately have "ping_reach queue (sendPing_enqueue ''t'' ?b)"
    unfolding ping_reach_def by (meson rtranclp.rtrancl_into_rtrancl rtranclp.rtrancl_refl)
  moreover have "pg_panic (sendPing_enqueue ''t'' ?b)"
    by (simp add: sendPing_enqueue_def ping_close_def sendPing_enter_def set_ping_def ping_init_def close_channel_def)
  ultimately show "\<exists>c. ping_reach queue c \<and> pg_panic c" by blast
  show "\<forall>c. ping_reach queue c \<longrightarrow> pg_panic c \<longrightarrow> pg_done c"
    using ping_reach_inv by (auto simp: ping_inv_def)
qed

theorem ping_double_close_witness: "\<exists>c. ping_reach 32 c \<and> pg_panic c \<and> pg_done c"
  using ping_double_close [of 32] by blast

end
