(* ===== verification/Mesh_Events.thy ===== *)
theory Mesh_Events
  imports Mesh_Rpc
begin

text \<open>
  Events between two devices (\<open>internal/mesh/rpc.go\<close>, with \<open>writer\<close> and \<open>close\<close> of \<open>mesh.go\<close>). An event may be dropped at the full
  queue of a connection or at the full channel of a subscriber; both places then owe a gap, the reserved event that
  tells the other side to fetch everything. The first part is the sending queue with the writer that empties it, the
  second the delivery to the subscribers of the receiving device.
\<close>

section \<open>Sending\<close>

record MeshEvent =
  vt_Name :: string
  vt_Data :: string

text \<open>What \<open>encoding/json\<close> makes of events.\<close>

record event_codec =
  ec_encode :: "MeshEvent \<Rightarrow> string"
  ec_decode :: "string \<Rightarrow> MeshEvent option"

definition CapabilityEventsV1 :: string where "CapabilityEventsV1 = ''events.v1''"
definition ScopeEventsRead :: string where "ScopeEventsRead = ''events.read''"
definition EventGapName :: string where "EventGapName = ''events.gap''"

text \<open>
  Where the writer of a connection stands: with no event, with one it took from the queue, or with one that is on the wire and
  not yet accounted for. The log is for the proofs, latest first: events written (and whether as a gap) and events that
  were not queued (and whether that happened after the outstanding gap was on the wire already).
\<close>

datatype writer_pc = WriterIdle | Writing Envelope | Delivered Envelope | WriterEnded

datatype event_log = Wrote bool | Lost bool

record event_conn =
  eq_cap :: nat
  eq_done :: bool
  eq_events :: "Envelope list"
  eq_dirty :: bool
  eq_gapSent :: bool
  eq_writer :: writer_pc
  eq_log :: "event_log list"

definition tryEnqueueEvent :: "Envelope \<Rightarrow> event_conn \<Rightarrow> event_conn \<times> bool" where
  "tryEnqueueEvent env p =
     (if length (eq_events p) < eq_cap p then (p\<lparr>eq_events := eq_events p @ [env]\<rparr>, True) else (p, False))"

definition meshGapEnvelope :: "event_codec \<Rightarrow> Envelope" where
  "meshGapEnvelope ec = (app_frame ''event'' [] (ec_encode ec \<lparr>vt_Name = EventGapName, vt_Data = []\<rparr>))\<lparr>en_eventGap := True\<rparr>"

definition enqueueEvent :: "event_codec \<Rightarrow> Envelope \<Rightarrow> event_conn \<Rightarrow> event_conn \<times> call_error option" where
  "enqueueEvent ec env p =
     (if eq_done p then (p, Some PeerDisconnected)
      else if en_eventGap env then
        (if eq_gapSent p then (p, None)
         else case tryEnqueueEvent env p of
           (p, True) \<Rightarrow> (p\<lparr>eq_dirty := False, eq_gapSent := True\<rparr>, None)
         | (p, False) \<Rightarrow> (p\<lparr>eq_dirty := True\<rparr>, Some Backpressure))
      else
        let (p, ready) =
          (if eq_dirty p \<and> \<not> eq_gapSent p then
             (case tryEnqueueEvent (meshGapEnvelope ec) p of
                (p, True) \<Rightarrow> (p\<lparr>eq_dirty := False, eq_gapSent := True\<rparr>, True)
              | (p, False) \<Rightarrow> (p, False))
           else (p, True)) in
        if \<not> ready then (p, Some Backpressure)
        else case tryEnqueueEvent env p of
          (p, True) \<Rightarrow> (p, None)
        | (p, False) \<Rightarrow> (if \<not> eq_gapSent p then p\<lparr>eq_dirty := True\<rparr> else p, Some Backpressure))"

definition eventDelivered :: "event_codec \<Rightarrow> Envelope \<Rightarrow> event_conn \<Rightarrow> event_conn" where
  "eventDelivered ec env p =
     (if eq_done p then p\<lparr>eq_dirty := False, eq_gapSent := False\<rparr>
      else
        let p = (if en_eventGap env then p\<lparr>eq_gapSent := False\<rparr> else p) in
        if eq_dirty p \<and> \<not> eq_gapSent p then
          (case tryEnqueueEvent (meshGapEnvelope ec) p of
             (p, True) \<Rightarrow> p\<lparr>eq_dirty := False, eq_gapSent := True\<rparr>
           | (p, False) \<Rightarrow> p)
        else p)"

definition event_close :: "event_conn \<Rightarrow> event_conn" where
  "event_close p = (if eq_done p then p else p\<lparr>eq_done := True, eq_dirty := False, eq_gapSent := False\<rparr>)"

datatype send_error = BadName | NoPeer | NoCapability | Denied | EventTooLarge | Queue call_error

text \<open>The current connections with their negotiated capabilities, as far as \<open>SendEvent\<close> looks at them.\<close>

type_synonym links = "string \<Rightarrow> (string list \<times> event_conn) option"

definition SendEvent :: "event_codec \<Rightarrow> Registry \<Rightarrow> string \<Rightarrow> MeshEvent \<Rightarrow> links \<Rightarrow> links \<times> send_error option" where
  "SendEvent ec r peerID event ls =
     (if \<not> safeMethod (vt_Name event) then (ls, Some BadName)
      else case ls peerID of
        None \<Rightarrow> (ls, Some NoPeer)
      | Some (capabilities, p) \<Rightarrow>
          if CapabilityEventsV1 \<notin> set capabilities then (ls, Some NoCapability)
          else if \<not> HasScope (principalFor r peerID) ScopeEventsRead then (ls, Some Denied)
          else if length (ec_encode ec event) > MaxApplicationPayload then (ls, Some EventTooLarge)
          else case enqueueEvent ec ((app_frame ''event'' [] (ec_encode ec event))\<lparr>en_eventGap := (vt_Name event = EventGapName)\<rparr>) p of
            (p', e) \<Rightarrow> (ls(peerID \<mapsto> (capabilities, p')), map_option Queue e))"

text \<open>The writer's next step on an event when its writes succeed.\<close>

definition writer_event :: "event_codec \<Rightarrow> event_conn \<Rightarrow> event_conn" where
  "writer_event ec p =
     (case eq_writer p of
        WriterIdle \<Rightarrow> (case eq_events p of [] \<Rightarrow> p | env # rest \<Rightarrow> p\<lparr>eq_events := rest, eq_writer := Writing env\<rparr>)
      | Writing env \<Rightarrow> p\<lparr>eq_writer := Delivered env, eq_log := Wrote (en_eventGap env) # eq_log p\<rparr>
      | Delivered env \<Rightarrow> (eventDelivered ec env p)\<lparr>eq_writer := WriterIdle\<rparr>
      | WriterEnded \<Rightarrow> p)"

definition late :: "event_conn \<Rightarrow> bool" where
  "late p = (case eq_writer p of Delivered env \<Rightarrow> en_eventGap env | _ \<Rightarrow> False)"

text \<open>An event that was not queued: refused for lack of room, or a gap that was left to the outstanding one.\<close>

definition note_loss :: "Envelope \<Rightarrow> event_conn \<Rightarrow> event_conn \<times> call_error option \<Rightarrow> event_conn" where
  "note_loss env p res =
     (if snd res = Some Backpressure \<or> snd res = None \<and> en_eventGap env \<and> eq_gapSent p
      then (fst res)\<lparr>eq_log := Lost (late p) # eq_log (fst res)\<rparr> else fst res)"

inductive event_step :: "event_codec \<Rightarrow> event_conn \<Rightarrow> event_conn \<Rightarrow> bool" for ec where
  send: "event_step ec p (note_loss env p (enqueueEvent ec env p))"
| writer: "event_step ec p (writer_event ec p)"
| failed: "eq_writer p = Writing env \<Longrightarrow> event_step ec p ((event_close p)\<lparr>eq_writer := WriterEnded\<rparr>)"
| close: "event_step ec p (event_close p)"
| ended: "eq_done p \<Longrightarrow> eq_writer p = WriterIdle \<Longrightarrow> event_step ec p (p\<lparr>eq_writer := WriterEnded\<rparr>)"

definition event_init :: "nat \<Rightarrow> event_conn" where
  "event_init queue = \<lparr>eq_cap = queue, eq_done = False, eq_events = [], eq_dirty = False, eq_gapSent = False,
     eq_writer = WriterIdle, eq_log = []\<rparr>"

definition event_reach :: "event_codec \<Rightarrow> nat \<Rightarrow> event_conn \<Rightarrow> bool" where
  "event_reach ec queue = (event_step ec)\<^sup>*\<^sup>* (event_init queue)"

subsection \<open>Every loss is signalled\<close>

definition in_flight :: "event_conn \<Rightarrow> Envelope list" where
  "in_flight p = (case eq_writer p of Writing env \<Rightarrow> [env] | Delivered env \<Rightarrow> [env] | _ \<Rightarrow> []) @ eq_events p"

definition uncovered :: "event_log list \<Rightarrow> bool" where
  "uncovered l = list_ex (\<lambda>x. x = Lost False) (takeWhile (\<lambda>x. x \<noteq> Wrote True) l)"

lemma uncovered_simps [simp]:
  "\<not> uncovered []" "\<not> uncovered (Wrote True # l)" "uncovered (Wrote False # l) = uncovered l"
  "uncovered (Lost False # l)" "uncovered (Lost True # l) = uncovered l"
  by (simp_all add: uncovered_def)

lemma covered_after:
  assumes "\<not> uncovered (after @ Lost False # before)"
  shows "Wrote True \<in> set after"
  using assms by (induction after) (auto simp: uncovered_def split: if_splits)

abbreviation gaps :: "event_conn \<Rightarrow> nat" where
  "gaps p \<equiv> length (filter en_eventGap (in_flight p))"

definition event_inv :: "nat \<Rightarrow> event_conn \<Rightarrow> bool" where
  "event_inv queue p \<longleftrightarrow> eq_cap p = queue \<and> length (eq_events p) \<le> queue \<and> (eq_writer p = WriterEnded \<longrightarrow> eq_done p)
     \<and> (\<not> eq_done p \<longrightarrow> gaps p = (if eq_gapSent p then 1 else 0) \<and> \<not> (eq_dirty p \<and> eq_gapSent p)
          \<and> (eq_dirty p \<longrightarrow> in_flight p \<noteq> []) \<and> (uncovered (eq_log p) \<longrightarrow> eq_dirty p \<or> eq_gapSent p \<and> \<not> late p))"

lemmas event_defs = event_inv_def in_flight_def late_def tryEnqueueEvent_def Let_def

lemma event_inv_send:
  assumes "event_inv queue p" "1 \<le> queue"
  shows "event_inv queue (note_loss env p (enqueueEvent ec env p))"
  using assms unfolding enqueueEvent_def note_loss_def
  by (auto simp: event_defs meshGapEnvelope_def split: writer_pc.splits if_splits)

lemma event_inv_writer:
  assumes "event_inv queue p" "1 \<le> queue"
  shows "event_inv queue (writer_event ec p)"
  using assms unfolding writer_event_def eventDelivered_def
  by (auto simp: event_defs meshGapEnvelope_def split: writer_pc.splits if_splits list.splits)

lemma event_inv_close: "event_inv queue p \<Longrightarrow> event_inv queue (event_close p)"
  by (auto simp: event_inv_def event_close_def)

lemma event_reach_inv:
  assumes "event_reach ec queue p" "1 \<le> queue"
  shows "event_inv queue p"
  using assms(1) unfolding event_reach_def
proof (induction rule: rtranclp_induct)
  case base
  show ?case by (simp add: event_init_def event_defs)
next
  case (step p p')
  from step(2) show ?case
  proof cases
    case (send env) then show ?thesis using event_inv_send [OF step(3) assms(2)] by simp
  next
    case writer then show ?thesis using event_inv_writer [OF step(3) assms(2)] by simp
  next
    case (failed env) then show ?thesis using event_inv_close [OF step(3)] by (simp add: event_inv_def event_close_def split: if_splits)
  next
    case close then show ?thesis using event_inv_close [OF step(3)] by simp
  next
    case ended then show ?thesis using step(3) by (simp add: event_inv_def)
  qed
qed

section \<open>Receiving\<close>

record PeerEvent =
  pv_PeerID :: string
  pv_Event :: MeshEvent

record eventSubscriberPeerState =
  ep_dirty :: bool
  ep_gapPending :: bool

record eventSubscriber =
  sb_cap :: nat
  sb_ch :: "PeerEvent list"
  sb_peers :: "string \<Rightarrow> eventSubscriberPeerState option"

record event_hub =
  hb_subs :: "(nat \<times> eventSubscriber) list"
  hb_next :: nat

definition SubscribeEvents :: "int \<Rightarrow> event_hub \<Rightarrow> event_hub \<times> nat" where
  "SubscribeEvents buffer h =
     (let ident = Suc (hb_next h) in
      (h\<lparr>hb_next := ident, hb_subs := (ident, \<lparr>sb_cap = nat (max 1 buffer), sb_ch = [], sb_peers = (\<lambda>_. None)\<rparr>) # hb_subs h\<rparr>, ident))"

definition UnsubscribeEvents :: "nat \<Rightarrow> event_hub \<Rightarrow> event_hub" where
  "UnsubscribeEvents ident h = h\<lparr>hb_subs := filter (\<lambda>(i, _). i \<noteq> ident) (hb_subs h)\<rparr>"

definition tryPublishEvent :: "PeerEvent \<Rightarrow> eventSubscriber \<Rightarrow> eventSubscriber \<times> bool" where
  "tryPublishEvent e s = (if length (sb_ch s) < sb_cap s then (s\<lparr>sb_ch := sb_ch s @ [e]\<rparr>, True) else (s, False))"

definition peer_state :: "string \<Rightarrow> eventSubscriber \<Rightarrow> eventSubscriberPeerState" where
  "peer_state peer s = (case sb_peers s peer of None \<Rightarrow> \<lparr>ep_dirty = False, ep_gapPending = False\<rparr> | Some st \<Rightarrow> st)"

definition set_peer_state :: "string \<Rightarrow> eventSubscriberPeerState \<Rightarrow> eventSubscriber \<Rightarrow> eventSubscriber" where
  "set_peer_state peer st s = s\<lparr>sb_peers := (sb_peers s)(peer \<mapsto> st)\<rparr>"

definition gap_of :: "string \<Rightarrow> PeerEvent" where
  "gap_of peer = \<lparr>pv_PeerID = peer, pv_Event = \<lparr>vt_Name = EventGapName, vt_Data = []\<rparr>\<rparr>"

text \<open>The body of \<open>handleEvent\<close>'s loop, for one subscriber.\<close>

definition publish_event :: "PeerEvent \<Rightarrow> eventSubscriber \<Rightarrow> eventSubscriber" where
  "publish_event received s =
     (let peer = pv_PeerID received; state = peer_state peer s in
      if vt_Name (pv_Event received) = EventGapName then
        (case tryPublishEvent received s of
           (s, True) \<Rightarrow> set_peer_state peer (state\<lparr>ep_dirty := False, ep_gapPending := True\<rparr>) s
         | (s, False) \<Rightarrow> set_peer_state peer (state\<lparr>ep_dirty := True, ep_gapPending := False\<rparr>) s)
      else
        let (s, state, ready) =
          (if ep_dirty state then
             (case tryPublishEvent (gap_of peer) s of
                (s, True) \<Rightarrow> (s, state\<lparr>ep_dirty := False, ep_gapPending := True\<rparr>, True)
              | (s, False) \<Rightarrow> (s, state, False))
           else (s, state, True)) in
        if \<not> ready then set_peer_state peer state s
        else case tryPublishEvent received s of
          (s, True) \<Rightarrow> s\<lparr>sb_peers := (sb_peers s)(peer := None)\<rparr>
        | (s, False) \<Rightarrow>
            if \<not> ep_gapPending state then set_peer_state peer (state\<lparr>ep_dirty := True\<rparr>) s
            else set_peer_state peer state s)"

text \<open>\<open>handleEvent\<close>; \<open>None\<close> when the connection is ended for a malformed frame. The subscribers are independent, so the order of Go's map does not matter.\<close>

definition handleEvent :: "event_codec \<Rightarrow> string \<Rightarrow> string list \<Rightarrow> Envelope \<Rightarrow> event_hub \<Rightarrow> event_hub option" where
  "handleEvent ec peerID capabilities env h =
     (if en_ID env \<noteq> [] \<or> CapabilityEventsV1 \<notin> set capabilities then None
      else case ec_decode ec (en_Payload env) of
        None \<Rightarrow> None
      | Some event \<Rightarrow>
          if \<not> safeMethod (vt_Name event) then None
          else Some (h\<lparr>hb_subs := map (\<lambda>(i, s). (i, publish_event \<lparr>pv_PeerID = peerID, pv_Event = event\<rparr> s)) (hb_subs h)\<rparr>))"

subsection \<open>What a subscriber sees of a peer\<close>

text \<open>
  For one subscriber and one peer: the history, latest first, of what was put into its channel (\<open>Shown\<close>, a gap or not) and of
  events that were not (\<open>Missed\<close>, a gap or not), as \<open>publish_event\<close> decides it from the room in the channel.
\<close>

datatype seen = Shown bool | Missed bool

definition is_gap :: "PeerEvent \<Rightarrow> bool" where
  "is_gap e \<longleftrightarrow> vt_Name (pv_Event e) = EventGapName"

definition newly_queued :: "PeerEvent \<Rightarrow> eventSubscriber \<Rightarrow> PeerEvent list" where
  "newly_queued e s = drop (length (sb_ch s)) (sb_ch (publish_event e s))"

definition seen_of :: "PeerEvent \<Rightarrow> eventSubscriber \<Rightarrow> seen list" where
  "seen_of e s = (if e \<in> set (newly_queued e s) then [] else [Missed (is_gap e)]) @ rev (map (\<lambda>x. Shown (is_gap x)) (newly_queued e s))"

inductive sub_step :: "string \<Rightarrow> eventSubscriber \<times> seen list \<Rightarrow> eventSubscriber \<times> seen list \<Rightarrow> bool" for peer where
  own: "pv_PeerID e = peer \<Longrightarrow> sub_step peer (s, l) (publish_event e s, seen_of e s @ l)"
| other: "pv_PeerID e \<noteq> peer \<Longrightarrow> sub_step peer (s, l) (publish_event e s, l)"
| consume: "sb_ch s = e # rest \<Longrightarrow> sub_step peer (s, l) (s\<lparr>sb_ch := rest\<rparr>, l)"

definition sub_init :: "int \<Rightarrow> eventSubscriber" where
  "sub_init buffer = \<lparr>sb_cap = nat (max 1 buffer), sb_ch = [], sb_peers = (\<lambda>_. None)\<rparr>"

definition sub_reach :: "string \<Rightarrow> int \<Rightarrow> eventSubscriber \<times> seen list \<Rightarrow> bool" where
  "sub_reach peer buffer = (sub_step peer)\<^sup>*\<^sup>* (sub_init buffer, [])"

text \<open>The part of the history since the last ordinary event that was shown.\<close>

definition epoch :: "seen list \<Rightarrow> seen list" where
  "epoch l = takeWhile (\<lambda>x. x \<noteq> Shown False) l"

text \<open>In an epoch with a miss a gap is shown, and after the last gap that was missed.\<close>

definition gap_shown :: "seen list \<Rightarrow> bool" where
  "gap_shown m \<longleftrightarrow> Shown True \<in> set (takeWhile (\<lambda>x. x \<noteq> Missed True) m)"

fun signalled :: "seen list \<Rightarrow> bool" where
  "signalled [] \<longleftrightarrow> True"
| "signalled (Shown False # l) \<longleftrightarrow> signalled l \<and> ({Missed True, Missed False} \<inter> set (epoch l) \<noteq> {} \<longrightarrow> gap_shown (epoch l))"
| "signalled (_ # l) \<longleftrightarrow> signalled l"

definition sub_inv :: "string \<Rightarrow> eventSubscriber \<times> seen list \<Rightarrow> bool" where
  "sub_inv peer sl \<longleftrightarrow> (case sl of (s, l) \<Rightarrow>
     1 \<le> sb_cap s \<and> length (sb_ch s) \<le> sb_cap s \<and> signalled l
     \<and> \<not> (ep_dirty (peer_state peer s) \<and> ep_gapPending (peer_state peer s))
     \<and> (ep_gapPending (peer_state peer s) \<longrightarrow> gap_shown (epoch l))
     \<and> (\<not> ep_dirty (peer_state peer s) \<and> \<not> ep_gapPending (peer_state peer s) \<longrightarrow> {Missed True, Missed False} \<inter> set (epoch l) = {}))"

lemma epoch_simps [simp]: "epoch [] = []" "epoch (Shown False # l) = []" "epoch (Shown True # l) = Shown True # epoch l" "epoch (Missed b # l) = Missed b # epoch l"
  by (simp_all add: epoch_def)

lemma gap_shown_simps [simp]:
  "\<not> gap_shown []" "gap_shown (Shown True # m)" "\<not> gap_shown (Missed True # m)" "gap_shown (Missed False # m) = gap_shown m"
  by (simp_all add: gap_shown_def)

lemmas publish_defs = publish_event_def tryPublishEvent_def set_peer_state_def peer_state_def Let_def

lemma publish_bounded: "length (sb_ch s) \<le> sb_cap s \<Longrightarrow> length (sb_ch (publish_event e s)) \<le> sb_cap (publish_event e s)"
  by (auto simp: publish_defs split: option.splits)

lemma publish_other: "pv_PeerID e \<noteq> peer \<Longrightarrow> peer_state peer (publish_event e s) = peer_state peer s"
  by (auto simp: publish_defs split: option.splits)

lemma publish_cap [simp]: "sb_cap (publish_event e s) = sb_cap s"
  by (auto simp: publish_defs split: option.splits)

lemma gap_of_gap [simp]: "is_gap (gap_of peer)" "pv_PeerID (gap_of peer) = peer" "\<not> is_gap e \<Longrightarrow> e \<noteq> gap_of p"
  by (auto simp: is_gap_def gap_of_def)

text \<open>What \<open>publish_event\<close> does for the peer of the event, by the room in the channel.\<close>

lemma publish_gap:
  assumes "is_gap e"
  shows "length (sb_ch s) < sb_cap s \<Longrightarrow> publish_event e s = set_peer_state (pv_PeerID e) \<lparr>ep_dirty = False, ep_gapPending = True\<rparr> (s\<lparr>sb_ch := sb_ch s @ [e]\<rparr>)"
    and "\<not> length (sb_ch s) < sb_cap s \<Longrightarrow> publish_event e s = set_peer_state (pv_PeerID e) \<lparr>ep_dirty = True, ep_gapPending = False\<rparr> s"
  using assms by (cases "peer_state (pv_PeerID e) s"; simp add: is_gap_def publish_event_def tryPublishEvent_def Let_def)+

lemma publish_clean:
  assumes "\<not> is_gap e" "\<not> ep_dirty (peer_state (pv_PeerID e) s)"
  shows "length (sb_ch s) < sb_cap s \<Longrightarrow> publish_event e s = s\<lparr>sb_ch := sb_ch s @ [e], sb_peers := (sb_peers s)(pv_PeerID e := None)\<rparr>"
    and "\<not> length (sb_ch s) < sb_cap s \<Longrightarrow> publish_event e s = set_peer_state (pv_PeerID e) \<lparr>ep_dirty = \<not> ep_gapPending (peer_state (pv_PeerID e) s), ep_gapPending = ep_gapPending (peer_state (pv_PeerID e) s)\<rparr> s"
  using assms by (cases "peer_state (pv_PeerID e) s"; simp add: is_gap_def publish_event_def tryPublishEvent_def Let_def set_peer_state_def)+

lemma publish_dirty:
  assumes "\<not> is_gap e" "ep_dirty (peer_state (pv_PeerID e) s)"
  shows "\<not> length (sb_ch s) < sb_cap s \<Longrightarrow> publish_event e s = set_peer_state (pv_PeerID e) (peer_state (pv_PeerID e) s) s"
    and "Suc (length (sb_ch s)) = sb_cap s \<Longrightarrow> publish_event e s
      = set_peer_state (pv_PeerID e) \<lparr>ep_dirty = False, ep_gapPending = True\<rparr> (s\<lparr>sb_ch := sb_ch s @ [gap_of (pv_PeerID e)]\<rparr>)"
    and "Suc (length (sb_ch s)) < sb_cap s \<Longrightarrow> publish_event e s
      = s\<lparr>sb_ch := sb_ch s @ [gap_of (pv_PeerID e), e], sb_peers := (sb_peers s)(pv_PeerID e := None)\<rparr>"
  using assms by (cases "peer_state (pv_PeerID e) s"; simp add: is_gap_def publish_event_def tryPublishEvent_def Let_def set_peer_state_def)+

lemma set_peer_state_simps [simp]: "peer_state peer (set_peer_state peer st s) = st" "sb_ch (set_peer_state peer st s) = sb_ch s" "sb_cap (set_peer_state peer st s) = sb_cap s"
  by (simp_all add: peer_state_def set_peer_state_def)

lemma seen_of_cases:
  "sb_ch (publish_event e s) = sb_ch s \<Longrightarrow> seen_of e s = [Missed (is_gap e)]"
  "sb_ch (publish_event e s) = sb_ch s @ [e] \<Longrightarrow> seen_of e s = [Shown (is_gap e)]"
  "\<not> is_gap e \<Longrightarrow> sb_ch (publish_event e s) = sb_ch s @ [gap_of peer] \<Longrightarrow> seen_of e s = [Missed False, Shown True]"
  "\<not> is_gap e \<Longrightarrow> sb_ch (publish_event e s) = sb_ch s @ [gap_of peer, e] \<Longrightarrow> seen_of e s = [Shown False, Shown True]"
  by (auto simp: seen_of_def newly_queued_def)

lemma peer_state_cleared [simp]: "peer_state peer (s\<lparr>sb_ch := ch, sb_peers := m(peer := None)\<rparr>) = \<lparr>ep_dirty = False, ep_gapPending = False\<rparr>"
  by (simp add: peer_state_def)

lemma sub_inv_own:
  assumes "sub_inv peer (s, l)" "pv_PeerID e = peer"
  shows "sub_inv peer (publish_event e s, seen_of e s @ l)"
proof -
  have b: "length (sb_ch s) \<le> sb_cap s" using assms(1) by (simp add: sub_inv_def)
  have bounded: "length (sb_ch (publish_event e s)) \<le> sb_cap s" using publish_bounded [OF b] by simp
  note facts = assms(1) [unfolded sub_inv_def] bounded
  consider (gap) "is_gap e" | (clean) "\<not> is_gap e" "\<not> ep_dirty (peer_state peer s)" | (dirty) "\<not> is_gap e" "ep_dirty (peer_state peer s)" by blast
  then show ?thesis
  proof cases
    case gap
    note g = publish_gap [OF gap, where s = s, unfolded assms(2)]
    show ?thesis
    proof (cases "length (sb_ch s) < sb_cap s")
      case True
      then show ?thesis using facts gap seen_of_cases(2) [of e s] g(1) [OF True] by (simp add: sub_inv_def)
    next
      case False
      then show ?thesis using facts gap seen_of_cases(1) [of e s] g(2) [OF False] by (simp add: sub_inv_def)
    qed
  next
    case clean
    note c = publish_clean [where s = s and e = e, unfolded assms(2), OF clean]
    show ?thesis
    proof (cases "length (sb_ch s) < sb_cap s")
      case True
      then show ?thesis using facts clean seen_of_cases(2) [of e s] c(1) [OF True] by (auto simp: sub_inv_def)
    next
      case False
      then show ?thesis using facts clean seen_of_cases(1) [of e s] c(2) [OF False] by (auto simp: sub_inv_def)
    qed
  next
    case dirty
    note d = publish_dirty [where s = s and e = e, unfolded assms(2), OF dirty]
    consider (none) "\<not> length (sb_ch s) < sb_cap s" | (one) "Suc (length (sb_ch s)) = sb_cap s" | (two) "Suc (length (sb_ch s)) < sb_cap s" by linarith
    then show ?thesis
    proof cases
      case none
      then show ?thesis using facts dirty seen_of_cases(1) [of e s] d(1) [OF none] by (auto simp: sub_inv_def)
    next
      case one
      then show ?thesis using facts dirty seen_of_cases(3) [of e s peer] d(2) [OF one] by (auto simp: sub_inv_def)
    next
      case two
      then show ?thesis using facts dirty seen_of_cases(4) [of e s peer] d(3) [OF two] by (auto simp: sub_inv_def)
    qed
  qed
qed

lemma sub_inv_step:
  assumes "sub_step peer a b" "sub_inv peer a"
  shows "sub_inv peer b"
  using assms(1)
proof cases
  case (own e s l) then show ?thesis using sub_inv_own assms(2) by simp
next
  case (other e s l) then show ?thesis using assms(2) publish_bounded [of s e] by (simp add: sub_inv_def publish_other)
next
  case (consume s e rest l)
  then show ?thesis using assms(2) by (simp add: sub_inv_def peer_state_def)
qed

lemma sub_reach_inv:
  assumes "sub_reach peer buffer sl"
  shows "sub_inv peer sl"
  using assms unfolding sub_reach_def
proof (induction rule: rtranclp_induct)
  case base show ?case by (simp add: sub_inv_def sub_init_def peer_state_def)
next
  case (step a b) then show ?case using sub_inv_step by blast
qed

section \<open>Properties\<close>

lemma event_reach_step: "event_reach ec queue p \<Longrightarrow> event_step ec p q \<Longrightarrow> event_reach ec queue q"
  unfolding event_reach_def by (rule rtranclp.rtrancl_into_rtrancl)

text \<open>The steps that the writer still has to do when nothing more is sent.\<close>

definition writer_rank :: "event_conn \<Rightarrow> nat" where
  "writer_rank p = 3 * (length (eq_events p) + (if eq_dirty p then 1 else 0))
     + (case eq_writer p of Writing _ \<Rightarrow> 2 | Delivered _ \<Rightarrow> 1 | _ \<Rightarrow> 0)"

lemma writer_event_open: "\<not> eq_done p \<Longrightarrow> \<not> eq_done (writer_event ec p)"
  by (auto simp: writer_event_def eventDelivered_def tryEnqueueEvent_def Let_def split: writer_pc.split list.split)

lemma writer_event_rank:
  assumes "event_inv queue p" "1 \<le> queue" "\<not> eq_done p"
  shows "writer_rank (writer_event ec p) = writer_rank p - 1"
  using assms unfolding writer_event_def eventDelivered_def
  by (auto simp: writer_rank_def event_defs split: writer_pc.splits list.splits)

lemma writer_runs:
  assumes "event_reach ec queue p" "1 \<le> queue" "\<not> eq_done p"
  shows "event_reach ec queue ((writer_event ec ^^ n) p) \<and> \<not> eq_done ((writer_event ec ^^ n) p) \<and> writer_rank ((writer_event ec ^^ n) p) = writer_rank p - n"
proof (induction n)
  case (Suc n)
  let ?q = "(writer_event ec ^^ n) p"
  have "event_reach ec queue (writer_event ec ?q)" using Suc event_step.writer by (blast intro: event_reach_step)
  then show ?case using Suc writer_event_rank [OF event_reach_inv [of ec queue ?q] assms(2)] assms(2) writer_event_open [of ?q ec] by simp
qed (use assms in simp)

lemma writer_rest:
  assumes "event_inv queue p" "\<not> eq_done p" "writer_rank p = 0"
  shows "eq_events p = []" "eq_writer p = WriterIdle" "\<not> uncovered (eq_log p)"
  using assms by (auto simp: writer_rank_def event_defs split: writer_pc.splits if_splits)

text \<open>
  C23. No event is lost without a sign: under every interleaving of senders and the writer, when the connection stays open and
  nothing more is sent, the writer has emptied the queue after as many steps as are needed for what is queued, and
  then every event that was not queued was followed by a gap on the wire, unless it was refused between the
  writing of a gap and its bookkeeping. The queue stays within its bound, and at most one gap is outstanding.
\<close>

theorem event_loss_signalled:
  assumes "event_reach ec queue p" "1 \<le> queue" "\<not> eq_done p" "3 * length (eq_events p) + 5 \<le> n" "q = (writer_event ec ^^ n) p"
  shows "eq_events q = [] \<and> eq_writer q = WriterIdle \<and> (\<forall>after before. eq_log q = after @ Lost False # before \<longrightarrow> Wrote True \<in> set after)
    \<and> length (eq_events p) \<le> queue \<and> length (filter en_eventGap (eq_events p)) \<le> 1"
proof -
  note r = writer_runs [OF assms(1-3), of n]
  have inv: "event_inv queue p" "event_inv queue q" using event_reach_inv assms(1,2,5) r by blast+
  have "writer_rank p \<le> 3 * length (eq_events p) + 5" by (simp add: writer_rank_def split: writer_pc.split)
  then have "writer_rank q = 0" using r assms(4,5) by simp
  note rest = writer_rest [OF inv(2) _ this]
  have "\<not> eq_done q" using r assms(5) by simp
  moreover have "length (filter en_eventGap (eq_events p)) \<le> gaps p" by (simp add: in_flight_def)
  ultimately show ?thesis using rest covered_after inv(1) assms(3) unfolding event_inv_def by (auto simp: le_Suc_eq split: if_splits)
qed

lemma signalled_suffix: "signalled (after @ z) \<Longrightarrow> signalled z"
  by (induction after rule: signalled.induct) auto

text \<open>All subscribers of a manager, with the history of one peer for each.\<close>

inductive hub_step :: "event_codec \<Rightarrow> string \<Rightarrow> event_hub \<times> (nat \<Rightarrow> seen list) \<Rightarrow> event_hub \<times> (nat \<Rightarrow> seen list) \<Rightarrow> bool" for ec peer where
  subscribe: "SubscribeEvents buffer h = (h', i) \<Longrightarrow> hub_step ec peer (h, lg) (h', lg(i := []))"
| unsubscribe: "hub_step ec peer (h, lg) (UnsubscribeEvents i h, lg)"
| frame: "handleEvent ec peerID capabilities env h = Some h' \<Longrightarrow> ec_decode ec (en_Payload env) = Some event \<Longrightarrow>
    hub_step ec peer (h, lg) (h', \<lambda>i. (if peerID = peer then case map_of (hb_subs h) i of None \<Rightarrow> [] | Some s \<Rightarrow> seen_of \<lparr>pv_PeerID = peerID, pv_Event = event\<rparr> s else []) @ lg i)"
| consume: "(i, s) \<in> set (hb_subs h) \<Longrightarrow> sb_ch s = e # rest \<Longrightarrow>
    hub_step ec peer (h, lg) (h\<lparr>hb_subs := map (\<lambda>(j, t). (j, if j = i then t\<lparr>sb_ch := rest\<rparr> else t)) (hb_subs h)\<rparr>, lg)"

definition hub_reach :: "event_codec \<Rightarrow> string \<Rightarrow> event_hub \<times> (nat \<Rightarrow> seen list) \<Rightarrow> bool" where
  "hub_reach ec peer = (hub_step ec peer)\<^sup>*\<^sup>* (\<lparr>hb_subs = [], hb_next = 0\<rparr>, \<lambda>_. [])"

definition hub_inv :: "string \<Rightarrow> event_hub \<times> (nat \<Rightarrow> seen list) \<Rightarrow> bool" where
  "hub_inv peer w \<longleftrightarrow> distinct (map fst (hb_subs (fst w))) \<and> (\<forall>(i, s) \<in> set (hb_subs (fst w)). i \<le> hb_next (fst w) \<and> (\<exists>buffer. sub_reach peer buffer (s, snd w i)))"

lemma sub_reach_step: "sub_reach peer buffer a \<Longrightarrow> sub_step peer a b \<Longrightarrow> sub_reach peer buffer b"
  unfolding sub_reach_def by (rule rtranclp.rtrancl_into_rtrancl)

lemma hub_inv_update:
  assumes "hub_inv peer (h, lg)" "\<And>i s buffer. (i, s) \<in> set (hb_subs h) \<Longrightarrow> sub_reach peer buffer (s, lg i) \<Longrightarrow> sub_reach peer buffer (f i s, lg' i)"
  shows "hub_inv peer (h\<lparr>hb_subs := map (\<lambda>(i, s). (i, f i s)) (hb_subs h)\<rparr>, lg')"
proof -
  have keys: "map fst (map (\<lambda>(i, s). (i, f i s)) xs) = map fst xs" for xs by (induction xs) auto
  show ?thesis using assms unfolding hub_inv_def fst_conv snd_conv
    by (auto simp: keys [unfolded map_map] simp del: map_eq_conv) blast
qed

lemma hub_inv_frame:
  assumes "hub_inv peer (h, lg)" "handleEvent ec peerID capabilities env h = Some h'" "ec_decode ec (en_Payload env) = Some event"
  shows "hub_inv peer (h', \<lambda>i. (if peerID = peer then case map_of (hb_subs h) i of None \<Rightarrow> [] | Some s \<Rightarrow> seen_of \<lparr>pv_PeerID = peerID, pv_Event = event\<rparr> s else []) @ lg i)"
proof -
  let ?e = "\<lparr>pv_PeerID = peerID, pv_Event = event\<rparr>"
  have h': "h' = h\<lparr>hb_subs := map (\<lambda>(i, s). (i, publish_event ?e s)) (hb_subs h)\<rparr>"
    using assms(2,3) by (auto simp: handleEvent_def split: if_splits)
  have d: "distinct (map fst (hb_subs h))" using assms(1) by (simp add: hub_inv_def)
  have step: "sub_step peer (s, lg i) (publish_event ?e s, (if peerID = peer then seen_of ?e s else []) @ lg i)" for i s
    using sub_step.own [of ?e peer s "lg i"] sub_step.other [of ?e peer s "lg i"] by (cases "peerID = peer") auto
  show ?thesis unfolding h' using map_of_is_SomeI [OF d] sub_reach_step [OF _ step]
    by (intro hub_inv_update [OF assms(1)]) fastforce
qed

lemma hub_inv_step:
  assumes "hub_step ec peer a b" "hub_inv peer a"
  shows "hub_inv peer b"
  using assms(1)
proof cases
  case (subscribe buffer h h' i lg)
  have "sub_reach peer buffer (sub_init buffer, [])" by (simp add: sub_reach_def)
  moreover have "i = Suc (hb_next h)" "h' = h\<lparr>hb_next := i, hb_subs := (i, sub_init buffer) # hb_subs h\<rparr>"
    using subscribe(3) by (auto simp: SubscribeEvents_def Let_def sub_init_def)
  moreover have "j \<le> hb_next h" if "(j, s) \<in> set (hb_subs h)" for j s using assms(2) that subscribe(1) by (auto simp: hub_inv_def)
  ultimately show ?thesis using assms(2) subscribe(1,2) by (fastforce simp: hub_inv_def)
next
  case (unsubscribe h lg i)
  then show ?thesis using assms(2) by (auto simp: hub_inv_def UnsubscribeEvents_def distinct_map_filter)
next
  case (frame peerID capabilities env h h' event lg)
  then show ?thesis using hub_inv_frame assms(2) by simp
next
  case (consume i s h e rest lg)
  have "distinct (map fst (hb_subs h))" using assms(2) consume(1) by (simp add: hub_inv_def)
  then have only: "t = s" if "(i, t) \<in> set (hb_subs h)" for t using that consume(3) by (rule eq_key_imp_eq_value)
  have "sub_reach peer buffer ((\<lambda>j t. if j = i then t\<lparr>sb_ch := rest\<rparr> else t) j t, lg j)" if "(j, t) \<in> set (hb_subs h)" "sub_reach peer buffer (t, lg j)" for j t buffer
    using that only sub_reach_step [OF that(2) sub_step.consume [of t e rest]] consume(4) by auto
  from hub_inv_update [OF assms(2) [unfolded consume(1)] this] show ?thesis unfolding consume(2) by simp
qed

lemma hub_reach_inv: "hub_reach ec peer w \<Longrightarrow> hub_inv peer w"
  unfolding hub_reach_def by (induction rule: rtranclp_induct) (auto simp: hub_inv_def [of _ "(\<lparr>hb_subs = [], hb_next = 0\<rparr>, _)"] intro: hub_inv_step)


section \<open>Runs\<close>

definition demo_events :: event_codec where
  "demo_events = \<lparr>ec_encode = vt_Name, ec_decode = (\<lambda>t. Some \<lparr>vt_Name = t, vt_Data = []\<rparr>)\<rparr>"

abbreviation send_plain :: "event_conn \<Rightarrow> event_conn" where
  "send_plain p \<equiv> note_loss (app_frame ''event'' [] ''x'') p (enqueueEvent demo_events (app_frame ''event'' [] ''x'') p)"

abbreviation writes :: "nat \<Rightarrow> event_conn \<Rightarrow> event_conn" where
  "writes n p \<equiv> (writer_event demo_events ^^ n) p"

lemma reach_send: "event_reach demo_events queue p \<Longrightarrow> event_reach demo_events queue (send_plain p)"
  by (rule event_reach_step) (auto intro: event_step.send)

lemma reach_writes: "event_reach demo_events queue p \<Longrightarrow> event_reach demo_events queue (writes n p)"
  by (induction n) (auto intro: event_reach_step event_step.writer)

lemma reach_init: "event_reach ec queue (event_init queue)"
  by (simp add: event_reach_def)

lemmas event_run = event_init_def enqueueEvent_def note_loss_def eventDelivered_def tryEnqueueEvent_def
  meshGapEnvelope_def app_frame_def late_def Let_def demo_events_def EventGapName_def

lemma writer_event_eval:
  "writer_event ec \<lparr>eq_cap = c, eq_done = d, eq_events = env # rest, eq_dirty = t, eq_gapSent = g, eq_writer = WriterIdle, eq_log = l\<rparr>
     = \<lparr>eq_cap = c, eq_done = d, eq_events = rest, eq_dirty = t, eq_gapSent = g, eq_writer = Writing env, eq_log = l\<rparr>"
  "writer_event ec \<lparr>eq_cap = c, eq_done = d, eq_events = es, eq_dirty = t, eq_gapSent = g, eq_writer = Writing env, eq_log = l\<rparr>
     = \<lparr>eq_cap = c, eq_done = d, eq_events = es, eq_dirty = t, eq_gapSent = g, eq_writer = Delivered env, eq_log = Wrote (en_eventGap env) # l\<rparr>"
  "writer_event ec \<lparr>eq_cap = c, eq_done = False, eq_events = es, eq_dirty = t, eq_gapSent = g, eq_writer = Delivered env, eq_log = l\<rparr>
     = (if t \<and> (en_eventGap env \<or> \<not> g) \<and> length es < c
        then \<lparr>eq_cap = c, eq_done = False, eq_events = es @ [meshGapEnvelope ec], eq_dirty = False, eq_gapSent = True, eq_writer = WriterIdle, eq_log = l\<rparr>
        else \<lparr>eq_cap = c, eq_done = False, eq_events = es, eq_dirty = t, eq_gapSent = g \<and> \<not> en_eventGap env, eq_writer = WriterIdle, eq_log = l\<rparr>)"
  by (auto simp: writer_event_def eventDelivered_def tryEnqueueEvent_def Let_def)

definition demo_lossy :: event_conn where
  "demo_lossy = send_plain (send_plain (event_init 1))"

lemma demo_lossy_state: "demo_lossy = \<lparr>eq_cap = 1, eq_done = False, eq_events = [app_frame ''event'' [] ''x''], eq_dirty = True, eq_gapSent = False,
    eq_writer = WriterIdle, eq_log = [Lost False]\<rparr>"
  by (simp add: demo_lossy_def event_run)

theorem event_loss_signalled_witness:
  "Lost False \<in> set (eq_log demo_lossy) \<and> eq_events (writes 8 demo_lossy) = [] \<and> eq_writer (writes 8 demo_lossy) = WriterIdle"
proof -
  have r: "event_reach demo_events 1 demo_lossy" unfolding demo_lossy_def by (intro reach_send reach_init)
  have d: "\<not> eq_done demo_lossy" "3 * length (eq_events demo_lossy) + 5 \<le> 8" "Lost False \<in> set (eq_log demo_lossy)"
    by (simp_all add: demo_lossy_state)
  from event_loss_signalled [OF r _ d(1,2) refl] d(3) show ?thesis by simp
qed

text \<open>
  The exception of the theorem is real: when an event is refused after the outstanding gap was written and before
  \<open>eventDelivered\<close> has run, the queue drains and no gap follows.
\<close>

definition demo_window :: event_conn where
  "demo_window = writes 4 (send_plain (send_plain (writes 5 demo_lossy)))"

lemma demo_gap_written: "writes 5 demo_lossy = \<lparr>eq_cap = 1, eq_done = False, eq_events = [], eq_dirty = False, eq_gapSent = True,
    eq_writer = Delivered (meshGapEnvelope demo_events), eq_log = [Wrote True, Wrote False, Lost False]\<rparr>"
  unfolding demo_lossy_state by (simp add: eval_nat_numeral writer_event_eval) (simp add: app_frame_def meshGapEnvelope_def)

lemma demo_window_sent: "send_plain (send_plain (writes 5 demo_lossy)) = \<lparr>eq_cap = 1, eq_done = False, eq_events = [app_frame ''event'' [] ''x''],
    eq_dirty = False, eq_gapSent = True, eq_writer = Delivered (meshGapEnvelope demo_events), eq_log = [Lost True, Wrote True, Wrote False, Lost False]\<rparr>"
  unfolding demo_gap_written by (simp add: event_run)

lemma demo_window_state:
  "demo_window = \<lparr>eq_cap = 1, eq_done = False, eq_events = [], eq_dirty = False, eq_gapSent = False,
     eq_writer = WriterIdle, eq_log = [Wrote False, Lost True, Wrote True, Wrote False, Lost False]\<rparr>"
  unfolding demo_window_def demo_window_sent by (simp add: eval_nat_numeral writer_event_eval) (simp add: app_frame_def meshGapEnvelope_def)

theorem event_loss_window:
  "\<exists>p. event_reach demo_events 1 p \<and> \<not> eq_done p \<and> eq_events p = [] \<and> eq_writer p = WriterIdle \<and> \<not> eq_dirty p
     \<and> eq_log p = [Wrote False, Lost True, Wrote True, Wrote False, Lost False]"
proof (intro exI conjI)
  show "event_reach demo_events 1 demo_window"
    unfolding demo_window_def demo_lossy_def by (intro reach_send reach_init reach_writes)
qed (simp_all add: demo_window_state)

definition demo_event :: "string \<Rightarrow> PeerEvent" where
  "demo_event peer = \<lparr>pv_PeerID = peer, pv_Event = \<lparr>vt_Name = ''sessions.changed'', vt_Data = []\<rparr>\<rparr>"

definition demo_hub :: "eventSubscriber \<Rightarrow> seen list \<Rightarrow> event_hub \<times> (nat \<Rightarrow> seen list)" where
  "demo_hub s l = (\<lparr>hb_subs = [(1, s)], hb_next = 1\<rparr>, (\<lambda>_. [])(1 := l))"

abbreviation demo_seen :: "eventSubscriber \<Rightarrow> seen list \<Rightarrow> bool" where
  "demo_seen s l \<equiv> hub_reach demo_events ''a'' (demo_hub s l)"

lemma hub_reach_step: "hub_reach ec peer a \<Longrightarrow> hub_step ec peer a b \<Longrightarrow> hub_reach ec peer b"
  unfolding hub_reach_def by (rule rtranclp.rtrancl_into_rtrancl)

lemma demo_subscribed: "demo_seen (sub_init 2) []"
proof -
  have "hub_step demo_events ''a'' (\<lparr>hb_subs = [], hb_next = 0\<rparr>, \<lambda>_. []) (demo_hub (sub_init 2) [])"
    unfolding demo_hub_def by (rule hub_step.subscribe [of 2]) (simp add: SubscribeEvents_def sub_init_def)
  then show ?thesis unfolding hub_reach_def by (rule r_into_rtranclp)
qed

lemma demo_frame:
  assumes "demo_seen s l"
  shows "demo_seen (publish_event (demo_event ''a'') s) (seen_of (demo_event ''a'') s @ l)"
proof -
  let ?env = "app_frame ''event'' [] ''sessions.changed''"
  have dec: "ec_decode demo_events (en_Payload ?env) = Some \<lparr>vt_Name = ''sessions.changed'', vt_Data = []\<rparr>" by (simp add: demo_events_def app_frame_def)
  have h: "handleEvent demo_events ''a'' [''events.v1''] ?env \<lparr>hb_subs = [(1, s)], hb_next = 1\<rparr>
    = Some \<lparr>hb_subs = [(1, publish_event (demo_event ''a'') s)], hb_next = 1\<rparr>"
    using dec by (simp add: handleEvent_def demo_event_def CapabilityEventsV1_def safeMethod_def id_shape_def char_class_defs byte_of_def) (simp add: app_frame_def)
  have "hub_step demo_events ''a'' (demo_hub s l) (demo_hub (publish_event (demo_event ''a'') s) (seen_of (demo_event ''a'') s @ l))"
    using hub_step.frame [OF h dec, of "''a''" "(\<lambda>_. [])(1 := l)"] unfolding demo_hub_def
    by (rule back_subst [of "\<lambda>w. hub_step _ _ _ w"]) (auto simp: demo_event_def)
  with assms show ?thesis by (rule hub_reach_step)
qed

lemma demo_take:
  assumes "demo_seen s l" "sb_ch s = e # rest"
  shows "demo_seen (s\<lparr>sb_ch := rest\<rparr>) l"
  using hub_reach_step [OF assms(1) [unfolded demo_hub_def] hub_step.consume [of 1 s _ e rest]] assms(2) by (simp add: demo_hub_def)

lemma demo_event_plain [simp]: "\<not> is_gap (demo_event peer)" "pv_PeerID (demo_event peer) = peer"
  by (simp_all add: demo_event_def is_gap_def EventGapName_def)

text \<open>With a buffer of two: two events are shown, one is missed, the consumer takes both, and the next event is preceded by a gap.\<close>

lemma demo_recovered: "\<exists>s. demo_seen s [Shown False, Shown True, Missed False, Shown False, Shown False]"
proof -
  let ?e = "demo_event ''a''" and ?n = "(\<lambda>_. None) :: string \<Rightarrow> eventSubscriberPeerState option"
  let ?s = "\<lambda>ch m. \<lparr>sb_cap = 2, sb_ch = ch, sb_peers = m\<rparr>" and ?d = "[''a'' \<mapsto> \<lparr>ep_dirty = True, ep_gapPending = False\<rparr>]"
  have clean [simp]: "peer_state ''a'' (?s ch ?n) = \<lparr>ep_dirty = False, ep_gapPending = False\<rparr>" for ch
    by (simp add: peer_state_def)
  have p1: "publish_event ?e (?s [] ?n) = ?s [?e] ?n" and p2: "publish_event ?e (?s [?e] ?n) = ?s [?e, ?e] ?n"
    using publish_clean(1) [of ?e "?s [] ?n"] publish_clean(1) [of ?e "?s [?e] ?n"] by auto
  have p3: "publish_event ?e (?s [?e, ?e] ?n) = ?s [?e, ?e] ?d"
    using publish_clean(2) [of ?e "?s [?e, ?e] ?n"] by (simp add: set_peer_state_def)
  have p4: "sb_ch (publish_event ?e (?s [] ?d)) = [gap_of ''a'', ?e]"
    using publish_dirty(3) [of ?e "?s [] ?d"] by (simp add: peer_state_def)
  have "demo_seen (?s [] ?n) []" using demo_subscribed by (simp add: sub_init_def)
  from demo_frame [OF this] have "demo_seen (?s [?e] ?n) [Shown False]" using seen_of_cases(2) [of ?e "?s [] ?n"] p1 by simp
  from demo_frame [OF this] have "demo_seen (?s [?e, ?e] ?n) [Shown False, Shown False]" using seen_of_cases(2) [of ?e "?s [?e] ?n"] p2 by simp
  from demo_frame [OF this] have "demo_seen (?s [?e, ?e] ?d) [Missed False, Shown False, Shown False]" using seen_of_cases(1) [of ?e "?s [?e, ?e] ?n"] p3 by simp
  from demo_take [OF this] have "demo_seen (?s [?e] ?d) [Missed False, Shown False, Shown False]" by simp
  from demo_take [OF this] have "demo_seen (?s [] ?d) [Missed False, Shown False, Shown False]" by simp
  from demo_frame [OF this] show ?thesis using seen_of_cases(4) [of ?e "?s [] ?d" "''a''"] p4 by auto
qed


text \<open>
  A gap that the consumer has taken already still counts: with a buffer of one, after a gap of a peer was taken and
  another peer's event fills the channel, an event of the first peer is missed and stays unannounced until its next one.
\<close>

lemma taken_gap_still_counts:
  assumes "is_gap g" "pv_PeerID g = a" "\<not> is_gap e" "pv_PeerID e = a" "\<not> is_gap f" "pv_PeerID f = b" "a \<noteq> b"
    "s1 = (publish_event g (sub_init 1))\<lparr>sb_ch := []\<rparr>" "s2 = (publish_event e (publish_event f s1))\<lparr>sb_ch := []\<rparr>"
  shows "seen_of e (publish_event f s1) = [Missed False] \<and> sb_ch (publish_event e (publish_event f s1)) = [f]
    \<and> peer_state a s2 = \<lparr>ep_dirty = False, ep_gapPending = True\<rparr>"
proof -
  let ?m = "[a \<mapsto> \<lparr>ep_dirty = False, ep_gapPending = True\<rparr>]"
  have s1: "s1 = \<lparr>sb_cap = 1, sb_ch = [], sb_peers = ?m\<rparr>"
    using publish_gap(1) [OF assms(1), of "sub_init 1"] assms(2,8) by (simp add: sub_init_def set_peer_state_def)
  have f: "publish_event f s1 = \<lparr>sb_cap = 1, sb_ch = [f], sb_peers = ?m\<rparr>"
    using publish_clean(1) [of f s1] assms(5-7) unfolding s1 by (auto simp: peer_state_def fun_upd_idem_iff)
  have e: "publish_event e (publish_event f s1) = \<lparr>sb_cap = 1, sb_ch = [f], sb_peers = ?m\<rparr>"
    using publish_clean(2) [of e "publish_event f s1"] assms(3,4) unfolding f by (simp add: peer_state_def set_peer_state_def)
  show ?thesis using seen_of_cases(1) [of e "publish_event f s1"] assms(3,9) e f by (simp add: peer_state_def)
qed

end
