(* ===== verification/Mesh_Peers.thy ===== *)
theory Mesh_Peers
  imports Mesh_Registry
begin

text \<open>
  The connections of a device (\<open>internal/mesh/mesh.go\<close>, \<open>superviseTunnel\<close> of \<open>tunnel.go\<close>): the table of current connections,
  the status that is shown for every peer, and the loops that dial a peer and keep its ssh transport. The
  sockets and the ssh process are input and output; what they report is an argument of the steps.
\<close>

section \<open>Connections and status\<close>

record Status =
  sx_PeerID :: string
  sx_Direction :: string
  sx_State :: string
  sx_ConnectedAt :: "time option"
  sx_LastSeen :: "time option"
  sx_LastSuccess :: "time option"
  sx_LastError :: string
  sx_NextRetryAt :: "time option"
  sx_Attempts :: int
  sx_ProbeState :: string
  sx_LastProbeAt :: "time option"
  sx_LastProbeSuccess :: "time option"
  sx_Protocol :: int
  sx_RoundTripMS :: int
  sx_Capabilities :: "string list"
  sx_TransportKind :: string
  sx_TransportState :: string
  sx_TransportAttempts :: int
  sx_TransportLastError :: string
  sx_TransportNextRetryAt :: "time option"

definition zero_status :: Status where
  "zero_status =
     \<lparr>sx_PeerID = [], sx_Direction = [], sx_State = [], sx_ConnectedAt = None, sx_LastSeen = None, sx_LastSuccess = None,
      sx_LastError = [], sx_NextRetryAt = None, sx_Attempts = 0, sx_ProbeState = [], sx_LastProbeAt = None,
      sx_LastProbeSuccess = None, sx_Protocol = 0, sx_RoundTripMS = 0, sx_Capabilities = [], sx_TransportKind = [],
      sx_TransportState = [], sx_TransportAttempts = 0, sx_TransportLastError = [], sx_TransportNextRetryAt = None\<rparr>"

text \<open>
  The part of a \<open>peerRuntime\<close> that identifies it: the pointer is a number, given out once. \<open>mn_conns\<close> are all runtimes
  made so far and \<open>mn_closed\<close> the pointers of those whose \<open>done\<close> is closed.
\<close>

record peer_conn =
  cn_ref :: nat
  cn_peerID :: string
  cn_redactions :: "string list"

record Manager =
  mn_started :: bool
  mn_cancelled :: bool
  mn_peers :: "string \<Rightarrow> peer_conn option"
  mn_status :: "string \<Rightarrow> Status option"
  mn_next :: nat
  mn_conns :: "peer_conn list"
  mn_closed :: "nat list"

definition New_manager :: Manager where
  "New_manager = \<lparr>mn_started = False, mn_cancelled = False, mn_peers = (\<lambda>_. None), mn_status = (\<lambda>_. None), mn_next = 0, mn_conns = [], mn_closed = []\<rparr>"

definition status_of :: "Manager \<Rightarrow> string \<Rightarrow> Status" where
  "status_of m ident = (case mn_status m ident of None \<Rightarrow> zero_status | Some s \<Rightarrow> s)"

definition set_status :: "string \<Rightarrow> Status \<Rightarrow> Manager \<Rightarrow> Manager" where
  "set_status ident s m = m\<lparr>mn_status := (mn_status m)(ident := Some s)\<rparr>"

definition updateStatus :: "string \<Rightarrow> (Status \<Rightarrow> Status) \<Rightarrow> Manager \<Rightarrow> Manager" where
  "updateStatus ident f m = set_status ident (f ((status_of m ident)\<lparr>sx_PeerID := ident\<rparr>)) m"

definition updateCurrent :: "peer_conn \<Rightarrow> (Status \<Rightarrow> Status) \<Rightarrow> Manager \<Rightarrow> Manager" where
  "updateCurrent p f m =
     (if mn_peers m (cn_peerID p) = Some p then set_status (cn_peerID p) (f (status_of m (cn_peerID p))) m else m)"

definition setError :: "string \<Rightarrow> string \<Rightarrow> Manager \<Rightarrow> Manager" where
  "setError ident msg = updateStatus ident (\<lambda>s. s\<lparr>sx_LastError := msg\<rparr>)"

definition outbound_status :: "Peer \<Rightarrow> Status" where
  "outbound_status peer =
     (let s = zero_status\<lparr>sx_PeerID := pr_ID peer, sx_Direction := ''outbound'', sx_State := ''disconnected''\<rparr> in
      if pr_SSHTunnel peer = None then s else s\<lparr>sx_TransportKind := ''ssh'', sx_TransportState := ''configured''\<rparr>)"

definition inbound_status :: "string \<Rightarrow> Status" where
  "inbound_status ident = zero_status\<lparr>sx_PeerID := ident, sx_Direction := ''inbound'', sx_State := ''disconnected''\<rparr>"

definition Start :: "Registry \<Rightarrow> Manager \<Rightarrow> Manager" where
  "Start r m =
     (if mn_started m then m
      else fold (\<lambda>a. set_status (fst a) (inbound_status (fst a))) (rg_Accept r)
             (fold (\<lambda>p. set_status (pr_ID p) (outbound_status p)) (rg_Peers r) (m\<lparr>mn_started := True\<rparr>)))"

definition close_conn :: "peer_conn \<Rightarrow> Manager \<Rightarrow> Manager" where
  "close_conn p m = m\<lparr>mn_closed := cn_ref p # mn_closed m\<rparr>"

definition activate :: "string \<Rightarrow> string \<Rightarrow> string list \<Rightarrow> string list \<Rightarrow> time \<Rightarrow> Manager \<Rightarrow> Manager \<times> peer_conn option" where
  "activate peerID direction capabilities redactions now m =
     (let p = \<lparr>cn_ref = mn_next m, cn_peerID = peerID, cn_redactions = redactions\<rparr> in
      if \<not> mn_started m then (m, None)
      else
        let old = mn_peers m peerID;
            prior = status_of m peerID;
            s = zero_status\<lparr>sx_PeerID := peerID, sx_Direction := direction, sx_State := ''connected'', sx_ConnectedAt := Some now,
                  sx_LastSeen := Some now, sx_LastSuccess := Some now, sx_Protocol := ProtocolVersion, sx_Capabilities := capabilities,
                  sx_ProbeState := sx_ProbeState prior, sx_LastProbeAt := sx_LastProbeAt prior, sx_LastProbeSuccess := sx_LastProbeSuccess prior,
                  sx_TransportKind := sx_TransportKind prior, sx_TransportState := sx_TransportState prior,
                  sx_TransportAttempts := sx_TransportAttempts prior, sx_TransportLastError := sx_TransportLastError prior,
                  sx_TransportNextRetryAt := sx_TransportNextRetryAt prior\<rparr>;
            m = set_status peerID s (m\<lparr>mn_peers := (mn_peers m)(peerID := Some p), mn_next := Suc (mn_next m), mn_conns := p # mn_conns m\<rparr>) in
        ((case old of None \<Rightarrow> m | Some q \<Rightarrow> close_conn q m), Some p))"

definition disconnect :: "peer_conn \<Rightarrow> bool \<Rightarrow> string option \<Rightarrow> Manager \<Rightarrow> Manager" where
  "disconnect p heartbeatTimeout err m =
     close_conn p
       (if mn_peers m (cn_peerID p) = Some p
        then set_status (cn_peerID p)
               ((status_of m (cn_peerID p))\<lparr>sx_State := (if heartbeatTimeout then ''dead'' else ''disconnected''),
                                            sx_LastError := sanitizeSecretsError err (cn_redactions p)\<rparr>)
               (m\<lparr>mn_peers := (mn_peers m)(cn_peerID p := None)\<rparr>)
        else m)"

definition heartbeat_text :: string where "heartbeat_text = ''peer heartbeat timed out''"

text \<open>One tick of \<open>heartbeat\<close> before its ping, and the bookkeeping of \<open>reader\<close> for a frame of the protocol version.\<close>

definition heartbeat :: "ParsedMeshConfig \<Rightarrow> time \<Rightarrow> peer_conn \<Rightarrow> Manager \<Rightarrow> Manager" where
  "heartbeat cfg now p m =
     (if mn_peers m (cn_peerID p) \<noteq> Some p then m
      else case sx_LastSeen (status_of m (cn_peerID p)) of
             None \<Rightarrow> disconnect p True (Some heartbeat_text) m
           | Some seen \<Rightarrow>
               if now - seen \<ge> pc_DeadAfter cfg then disconnect p True (Some heartbeat_text) m
               else if now - seen \<ge> pc_StaleAfter cfg then updateCurrent p (\<lambda>s. s\<lparr>sx_State := ''stale''\<rparr>) m
               else m)"

definition frame_seen :: "time \<Rightarrow> peer_conn \<Rightarrow> Manager \<Rightarrow> Manager" where
  "frame_seen now p = updateCurrent p (\<lambda>s. s\<lparr>sx_LastSeen := Some now, sx_LastSuccess := Some now, sx_State := ''connected''\<rparr>)"

definition pong_seen :: "int \<Rightarrow> peer_conn \<Rightarrow> Manager \<Rightarrow> Manager" where
  "pong_seen rtt p = updateCurrent p (\<lambda>s. s\<lparr>sx_RoundTripMS := rtt\<rparr>)"

definition Stop :: "Manager \<Rightarrow> Manager" where
  "Stop m =
     (if \<not> mn_started m then m
      else fold close_conn (filter (\<lambda>p. mn_peers m (cn_peerID p) = Some p) (mn_conns m)) (m\<lparr>mn_started := False, mn_cancelled := True\<rparr>))"

section \<open>The loops of an outbound peer\<close>

text \<open>
  The program points of \<open>connectLoop\<close> between two critical sections. What the network reports is the outcome: an error, or the
  capabilities negotiated; \<open>ended\<close> says that a wait ended because of the context.
\<close>

datatype dial_pc =
    DialTop | Probing | ProbeFailed string | Handshaking | DialFailed retryCause string | Waiting peer_conn time
  | Backing retryCause | Sleeping | DialEnded

record dialer =
  dl_pc :: dial_pc
  dl_attempt :: int

datatype dial_outcome = OutcomeError string | OutcomeOk "string list"

definition connectLoop_step ::
  "meshlib \<Rightarrow> ParsedMeshConfig \<Rightarrow> (int \<Rightarrow> int) \<Rightarrow> Peer \<Rightarrow> time \<Rightarrow> dial_outcome \<Rightarrow> dialer \<Rightarrow> Manager \<Rightarrow> dialer \<times> Manager" where
  "connectLoop_step lib cfg draw peer now res d m =
     (case dl_pc d of
        DialTop \<Rightarrow>
          if mn_cancelled m then (d\<lparr>dl_pc := DialEnded\<rparr>, m)
          else (d\<lparr>dl_pc := Probing\<rparr>,
                updateStatus (pr_ID peer) (\<lambda>s. s\<lparr>sx_State := ''connecting'', sx_ProbeState := ''probing'', sx_Attempts := dl_attempt d + 1, sx_NextRetryAt := None\<rparr>) m)
      | Probing \<Rightarrow>
          (case res of
             OutcomeError e \<Rightarrow> (d\<lparr>dl_pc := ProbeFailed e\<rparr>, updateStatus (pr_ID peer) (\<lambda>s. s\<lparr>sx_ProbeState := ''unreachable'', sx_LastProbeAt := Some now\<rparr>) m)
           | OutcomeOk _ \<Rightarrow> (d\<lparr>dl_pc := Handshaking\<rparr>,
               updateStatus (pr_ID peer) (\<lambda>s. s\<lparr>sx_State := ''connecting'', sx_ProbeState := ''reachable'', sx_LastProbeAt := Some now, sx_LastProbeSuccess := Some now\<rparr>) m))
      | ProbeFailed e \<Rightarrow>
          (d\<lparr>dl_pc := DialFailed retryAfterProbeFailure e\<rparr>, setError (pr_ID peer) (sanitizePeerError lib peer (Some (''reachability probe: '' @ e))) m)
      | Handshaking \<Rightarrow>
          (case res of
             OutcomeError e \<Rightarrow> (d\<lparr>dl_pc := DialFailed retryAfterHandshakeFailure e\<rparr>, m)
           | OutcomeOk negotiated \<Rightarrow>
               (case activate (pr_ID peer) ''outbound'' negotiated [pr_Token peer, ml_TokenHash lib (pr_Token peer)] now m of
                  (m, None) \<Rightarrow> (d\<lparr>dl_pc := DialEnded\<rparr>, m)
                | (m, Some p) \<Rightarrow> (d\<lparr>dl_pc := Waiting p now\<rparr>, m)))
      | DialFailed cause e \<Rightarrow> (d\<lparr>dl_pc := Backing cause\<rparr>, setError (pr_ID peer) (sanitizePeerError lib peer (Some e)) m)
      | Waiting p connectedAt \<Rightarrow>
          if mn_cancelled m then (d\<lparr>dl_pc := DialEnded\<rparr>, m)
          else if cn_ref p \<notin> set (mn_closed m) then (d, m)
          else (\<lparr>dl_pc = Backing retryAfterConnectionDrop, dl_attempt = (if now - connectedAt \<ge> pc_DeadAfter cfg then 0 else dl_attempt d)\<rparr>, m)
      | Backing cause \<Rightarrow>
          let attempt = dl_attempt d + 1; (lowest, highest) = retryBounds cfg cause in
          (case fullJitter draw attempt lowest highest of
             None \<Rightarrow> (d\<lparr>dl_pc := DialEnded\<rparr>, m)
           | Some delay \<Rightarrow>
               (\<lparr>dl_pc = Sleeping, dl_attempt = attempt\<rparr>,
                updateStatus (pr_ID peer) (\<lambda>s. s\<lparr>sx_State := ''disconnected'', sx_Attempts := attempt, sx_NextRetryAt := Some (now + delay)\<rparr>) m))
      | Sleeping \<Rightarrow> (d\<lparr>dl_pc := (if mn_cancelled m then DialEnded else DialTop)\<rparr>, m)
      | DialEnded \<Rightarrow> (d, m))"

datatype tunnel_pc = TunnelTop | Launching time | Started time | TunnelRunning time | TunnelFailed string | TunnelSleeping | TunnelEnded

record tunnel =
  tl_pc :: tunnel_pc
  tl_attempt :: int

definition superviseTunnel_step ::
  "meshlib \<Rightarrow> ParsedMeshConfig \<Rightarrow> (int \<Rightarrow> int) \<Rightarrow> Peer \<Rightarrow> time \<Rightarrow> string option \<Rightarrow> tunnel \<Rightarrow> Manager \<Rightarrow> tunnel \<times> Manager" where
  "superviseTunnel_step lib cfg draw peer now err d m =
     (case tl_pc d of
        TunnelTop \<Rightarrow>
          if mn_cancelled m then (d\<lparr>tl_pc := TunnelEnded\<rparr>, m)
          else (d\<lparr>tl_pc := Launching now\<rparr>,
                updateStatus (pr_ID peer) (\<lambda>s. s\<lparr>sx_TransportKind := ''ssh'', sx_TransportState := ''starting'', sx_TransportAttempts := tl_attempt d + 1, sx_TransportNextRetryAt := None\<rparr>) m)
      | Launching startedAt \<Rightarrow>
          (d\<lparr>tl_pc := (case err of None \<Rightarrow> Started startedAt | Some e \<Rightarrow> TunnelFailed e)\<rparr>, m)
      | Started startedAt \<Rightarrow>
          (d\<lparr>tl_pc := TunnelRunning startedAt\<rparr>, updateStatus (pr_ID peer) (\<lambda>s. s\<lparr>sx_TransportState := ''running'', sx_TransportLastError := []\<rparr>) m)
      | TunnelRunning startedAt \<Rightarrow>
          if mn_cancelled m then (d\<lparr>tl_pc := TunnelEnded\<rparr>, m)
          else (\<lparr>tl_pc = TunnelFailed (case err of None \<Rightarrow> ''ssh transport exited'' | Some e \<Rightarrow> e),
                 tl_attempt = (if now - startedAt \<ge> pc_DeadAfter cfg then 0 else tl_attempt d)\<rparr>, m)
      | TunnelFailed e \<Rightarrow>
          let attempt = tl_attempt d + 1; (lowest, highest) = retryBounds cfg retryAfterTransportFailure in
          (case fullJitter draw attempt lowest highest of
             None \<Rightarrow> (d\<lparr>tl_pc := TunnelEnded\<rparr>, m)
           | Some delay \<Rightarrow>
               (\<lparr>tl_pc = TunnelSleeping, tl_attempt = attempt\<rparr>,
                updateStatus (pr_ID peer) (\<lambda>s. s\<lparr>sx_TransportState := ''backoff'', sx_TransportAttempts := attempt,
                    sx_TransportLastError := sanitizePeerError lib peer (Some e), sx_TransportNextRetryAt := Some (now + delay)\<rparr>) m))
      | TunnelSleeping \<Rightarrow> (d\<lparr>tl_pc := (if mn_cancelled m then TunnelEnded else TunnelTop)\<rparr>, m)
      | TunnelEnded \<Rightarrow> (d, m))"

section \<open>Everything that happens to a manager\<close>

record mesh =
  ms_manager :: Manager
  ms_dial :: "string \<Rightarrow> dialer"
  ms_tunnel :: "string \<Rightarrow> tunnel"

definition mesh_init :: mesh where
  "mesh_init = \<lparr>ms_manager = New_manager, ms_dial = (\<lambda>_. \<lparr>dl_pc = DialTop, dl_attempt = 0\<rparr>), ms_tunnel = (\<lambda>_. \<lparr>tl_pc = TunnelTop, tl_attempt = 0\<rparr>)\<rparr>"

text \<open>A manager is started once: a reload makes a new one. The loops of the peers begin with it.\<close>

inductive mesh_step :: "meshlib \<Rightarrow> Registry \<Rightarrow> ParsedMeshConfig \<Rightarrow> (int \<Rightarrow> int) \<Rightarrow> mesh \<Rightarrow> mesh \<Rightarrow> bool"
  for lib r cfg draw where
  start: "\<not> mn_started (ms_manager w) \<Longrightarrow> \<not> mn_cancelled (ms_manager w) \<Longrightarrow> mesh_step lib r cfg draw w (w\<lparr>ms_manager := Start r (ms_manager w)\<rparr>)"
| stop: "mesh_step lib r cfg draw w (w\<lparr>ms_manager := Stop (ms_manager w)\<rparr>)"
| dial: "mn_started (ms_manager w) \<or> mn_cancelled (ms_manager w) \<Longrightarrow> peer \<in> set (rg_Peers r) \<Longrightarrow>
    connectLoop_step lib cfg draw peer now res (ms_dial w (pr_ID peer)) (ms_manager w) = (d, m) \<Longrightarrow>
    mesh_step lib r cfg draw w (w\<lparr>ms_manager := m, ms_dial := (ms_dial w)(pr_ID peer := d)\<rparr>)"
| tunnel: "mn_started (ms_manager w) \<or> mn_cancelled (ms_manager w) \<Longrightarrow> peer \<in> set (rg_Peers r) \<Longrightarrow> pr_SSHTunnel peer \<noteq> None \<Longrightarrow>
    superviseTunnel_step lib cfg draw peer now err (ms_tunnel w (pr_ID peer)) (ms_manager w) = (d, m) \<Longrightarrow>
    mesh_step lib r cfg draw w (w\<lparr>ms_manager := m, ms_tunnel := (ms_tunnel w)(pr_ID peer := d)\<rparr>)"
| upgraded: "mn_started (ms_manager w) \<or> mn_cancelled (ms_manager w) \<Longrightarrow>
    handleUpgrade lib r capabilities header frame = Accepted peerID welcome negotiated credential \<Longrightarrow>
    mesh_step lib r cfg draw w
      (w\<lparr>ms_manager := fst (activate peerID ''inbound'' negotiated [credential, ml_TokenHash lib credential] now (ms_manager w))\<rparr>)"
| rejected: "mn_started (ms_manager w) \<or> mn_cancelled (ms_manager w) \<Longrightarrow>
    handleUpgrade lib r capabilities header frame = HandshakeRejected peerID \<Longrightarrow>
    mesh_step lib r cfg draw w (w\<lparr>ms_manager := setError peerID ''mesh handshake rejected'' (ms_manager w)\<rparr>)"
| frame: "p \<in> set (mn_conns (ms_manager w)) \<Longrightarrow> mesh_step lib r cfg draw w (w\<lparr>ms_manager := frame_seen now p (ms_manager w)\<rparr>)"
| pong: "p \<in> set (mn_conns (ms_manager w)) \<Longrightarrow> mesh_step lib r cfg draw w (w\<lparr>ms_manager := pong_seen rtt p (ms_manager w)\<rparr>)"
| beat: "p \<in> set (mn_conns (ms_manager w)) \<Longrightarrow> mesh_step lib r cfg draw w (w\<lparr>ms_manager := heartbeat cfg now p (ms_manager w)\<rparr>)"
| drop: "p \<in> set (mn_conns (ms_manager w)) \<Longrightarrow> mesh_step lib r cfg draw w (w\<lparr>ms_manager := disconnect p False (Some e) (ms_manager w)\<rparr>)"

definition mesh_reach :: "meshlib \<Rightarrow> Registry \<Rightarrow> ParsedMeshConfig \<Rightarrow> (int \<Rightarrow> int) \<Rightarrow> mesh \<Rightarrow> bool" where
  "mesh_reach lib r cfg draw w \<longleftrightarrow> (mesh_step lib r cfg draw)\<^sup>*\<^sup>* mesh_init w"

section \<open>The status tells the truth\<close>

definition live :: "Status \<Rightarrow> bool" where
  "live s \<longleftrightarrow> sx_State s = ''connected'' \<or> sx_State s = ''stale''"

definition manager_inv :: "Manager \<Rightarrow> bool" where
  "manager_inv m \<longleftrightarrow>
     (\<forall>ident. live (status_of m ident) \<longleftrightarrow> mn_peers m ident \<noteq> None)
     \<and> (\<forall>ident p. mn_peers m ident = Some p \<longrightarrow> cn_peerID p = ident \<and> p \<in> set (mn_conns m) \<and> (cn_ref p \<in> set (mn_closed m) \<longrightarrow> mn_cancelled m))
     \<and> (\<forall>p \<in> set (mn_conns m). cn_ref p < mn_next m) \<and> (\<forall>n \<in> set (mn_closed m). n < mn_next m)
     \<and> inj_on cn_ref (set (mn_conns m))"

lemma status_of_set [simp]: "status_of (set_status ident s m) other = (if other = ident then s else status_of m other)"
  by (simp add: set_status_def status_of_def)

lemma status_of_keeps [simp]:
  "status_of (m\<lparr>mn_peers := x\<rparr>) = status_of m" "status_of (m\<lparr>mn_next := n\<rparr>) = status_of m" "status_of (m\<lparr>mn_conns := c\<rparr>) = status_of m"
  "status_of (m\<lparr>mn_started := b\<rparr>) = status_of m" "status_of (m\<lparr>mn_cancelled := b\<rparr>) = status_of m"
  by (simp_all add: status_of_def fun_eq_iff)

lemma set_status_keeps [simp]:
  "mn_peers (set_status ident s m) = mn_peers m" "mn_conns (set_status ident s m) = mn_conns m" "mn_closed (set_status ident s m) = mn_closed m"
  "mn_next (set_status ident s m) = mn_next m" "mn_cancelled (set_status ident s m) = mn_cancelled m" "mn_started (set_status ident s m) = mn_started m"
  by (simp_all add: set_status_def)

lemma close_conn_keeps [simp]:
  "mn_peers (close_conn p m) = mn_peers m" "mn_conns (close_conn p m) = mn_conns m" "mn_closed (close_conn p m) = cn_ref p # mn_closed m"
  "mn_next (close_conn p m) = mn_next m" "mn_cancelled (close_conn p m) = mn_cancelled m" "mn_started (close_conn p m) = mn_started m"
  "status_of (close_conn p m) = status_of m"
  by (simp_all add: close_conn_def status_of_def fun_eq_iff)

lemma updateStatus_keeps [simp]:
  "mn_peers (updateStatus ident f m) = mn_peers m" "mn_conns (updateStatus ident f m) = mn_conns m" "mn_closed (updateStatus ident f m) = mn_closed m"
  "mn_next (updateStatus ident f m) = mn_next m" "mn_cancelled (updateStatus ident f m) = mn_cancelled m" "mn_started (updateStatus ident f m) = mn_started m"
  "status_of (updateStatus ident f m) other = (if other = ident then f ((status_of m ident)\<lparr>sx_PeerID := ident\<rparr>) else status_of m other)"
  by (simp_all add: updateStatus_def)

lemma live_ext [simp]: "live (s\<lparr>sx_PeerID := ident\<rparr>) = live s"
  by (simp add: live_def)

lemma manager_invD:
  assumes "manager_inv m"
  shows "live (status_of m i) \<longleftrightarrow> mn_peers m i \<noteq> None"
    "mn_peers m i = Some q \<Longrightarrow> cn_peerID q = i" "mn_peers m i = Some q \<Longrightarrow> q \<in> set (mn_conns m)"
    "mn_peers m i = Some q \<Longrightarrow> cn_ref q \<in> set (mn_closed m) \<Longrightarrow> mn_cancelled m"
    "q \<in> set (mn_conns m) \<Longrightarrow> cn_ref q < mn_next m" "n \<in> set (mn_closed m) \<Longrightarrow> n < mn_next m"
    "q \<in> set (mn_conns m) \<Longrightarrow> q' \<in> set (mn_conns m) \<Longrightarrow> cn_ref q = cn_ref q' \<Longrightarrow> q = q'"
  using assms unfolding manager_inv_def inj_on_def by blast+

lemma manager_invI:
  assumes "\<And>i. live (status_of m i) \<longleftrightarrow> mn_peers m i \<noteq> None"
    "\<And>i q. mn_peers m i = Some q \<Longrightarrow> cn_peerID q = i \<and> q \<in> set (mn_conns m) \<and> (cn_ref q \<in> set (mn_closed m) \<longrightarrow> mn_cancelled m)"
    "\<And>q. q \<in> set (mn_conns m) \<Longrightarrow> cn_ref q < mn_next m" "\<And>n. n \<in> set (mn_closed m) \<Longrightarrow> n < mn_next m"
    "\<And>q q'. q \<in> set (mn_conns m) \<Longrightarrow> q' \<in> set (mn_conns m) \<Longrightarrow> cn_ref q = cn_ref q' \<Longrightarrow> q = q'"
  shows "manager_inv m"
  using assms unfolding manager_inv_def inj_on_def by blast

lemma updateStatus_inv:
  assumes "manager_inv m" "(\<forall>s. live (f s) = live s) \<or> mn_peers m ident = None \<and> (\<forall>s. \<not> live (f s))"
  shows "manager_inv (updateStatus ident f m)"
proof (rule manager_invI)
  have "live (f ((status_of m ident)\<lparr>sx_PeerID := ident\<rparr>)) = (mn_peers m ident \<noteq> None)"
  proof -
    let ?s = "(status_of m ident)\<lparr>sx_PeerID := ident\<rparr>"
    have "live (f ?s) = live ?s \<or> mn_peers m ident = None \<and> \<not> live (f ?s)" using assms(2) by blast
    then show ?thesis using manager_invD(1) [OF assms(1), of ident] by (simp only: live_ext) blast
  qed
  then show "live (status_of (updateStatus ident f m) i) \<longleftrightarrow> mn_peers (updateStatus ident f m) i \<noteq> None" for i
    using manager_invD(1) [OF assms(1), of i] by simp
qed (use manager_invD(2-) [OF assms(1)] in simp_all)

lemma updateCurrent_keeps [simp]:
  "mn_peers (updateCurrent p f m) = mn_peers m" "mn_conns (updateCurrent p f m) = mn_conns m" "mn_closed (updateCurrent p f m) = mn_closed m"
  "mn_next (updateCurrent p f m) = mn_next m" "mn_cancelled (updateCurrent p f m) = mn_cancelled m" "mn_started (updateCurrent p f m) = mn_started m"
  "status_of (updateCurrent p f m) i = (if i = cn_peerID p \<and> mn_peers m i = Some p then f (status_of m i) else status_of m i)"
  by (auto simp: updateCurrent_def)

lemma updateCurrent_inv:
  assumes "manager_inv m" "(\<forall>s. live (f s) = live s) \<or> (\<forall>s. live (f s))"
  shows "manager_inv (updateCurrent p f m)"
proof (rule manager_invI)
  show "live (status_of (updateCurrent p f m) i) \<longleftrightarrow> mn_peers (updateCurrent p f m) i \<noteq> None" for i
  proof -
    have "live (f (status_of m i)) = live (status_of m i) \<or> live (f (status_of m i))" using assms(2) by blast
    then show ?thesis using manager_invD(1) [OF assms(1), of i] by (simp only: updateCurrent_keeps split: if_split) blast
  qed
qed (use manager_invD(2-) [OF assms(1)] in simp_all)

lemma setError_inv: "manager_inv m \<Longrightarrow> manager_inv (setError ident msg m)"
  unfolding setError_def by (rule updateStatus_inv) (simp_all add: live_def)

lemma setError_peers [simp]: "mn_peers (setError ident msg m) = mn_peers m"
  by (simp add: setError_def)

lemma disconnect_keeps:
  "mn_peers (disconnect p t e m) = (if mn_peers m (cn_peerID p) = Some p then (mn_peers m)(cn_peerID p := None) else mn_peers m)"
  "mn_conns (disconnect p t e m) = mn_conns m" "mn_closed (disconnect p t e m) = cn_ref p # mn_closed m"
  "mn_next (disconnect p t e m) = mn_next m" "mn_cancelled (disconnect p t e m) = mn_cancelled m" "mn_started (disconnect p t e m) = mn_started m"
  "status_of (disconnect p t e m) i = (if i = cn_peerID p \<and> mn_peers m i = Some p
      then (status_of m i)\<lparr>sx_State := (if t then ''dead'' else ''disconnected''), sx_LastError := sanitizeSecretsError e (cn_redactions p)\<rparr>
      else status_of m i)"
  by (auto simp: disconnect_def)

lemma disconnect_inv:
  assumes "manager_inv m" "p \<in> set (mn_conns m)"
  shows "manager_inv (disconnect p t e m)"
proof (rule manager_invI)
  show "live (status_of (disconnect p t e m) i) \<longleftrightarrow> mn_peers (disconnect p t e m) i \<noteq> None" for i
    using manager_invD(1) [OF assms(1), of i] by (auto simp: disconnect_keeps live_def)
  show "cn_peerID q = i \<and> q \<in> set (mn_conns (disconnect p t e m)) \<and> (cn_ref q \<in> set (mn_closed (disconnect p t e m)) \<longrightarrow> mn_cancelled (disconnect p t e m))"
    if "mn_peers (disconnect p t e m) i = Some q" for i q
  proof -
    have q: "mn_peers m i = Some q" using that by (simp add: disconnect_keeps split: if_splits)
    have qp: "q \<noteq> p"
    proof
      assume "q = p"
      then show False using that q manager_invD(2) [OF assms(1) q] by (simp add: disconnect_keeps)
    qed
    have "cn_ref q \<noteq> cn_ref p" using qp manager_invD(7) [OF assms(1) manager_invD(3) [OF assms(1) q] assms(2)] by blast
    then show ?thesis using manager_invD(2,3,4) [OF assms(1) q] by (simp add: disconnect_keeps)
  qed
  show "n < mn_next (disconnect p t e m)" if "n \<in> set (mn_closed (disconnect p t e m))" for n
    using that manager_invD(5) [OF assms] manager_invD(6) [OF assms(1), of n] by (simp add: disconnect_keeps) blast
qed (use manager_invD(5,7) [OF assms(1)] in \<open>simp_all add: disconnect_keeps\<close>)

lemma activate_started:
  assumes "activate ident direction capabilities redactions now m = (m', Some p)"
  shows "mn_started m" "p = \<lparr>cn_ref = mn_next m, cn_peerID = ident, cn_redactions = redactions\<rparr>"
    "mn_peers m' = (mn_peers m)(ident := Some p)" "mn_conns m' = p # mn_conns m" "mn_next m' = Suc (mn_next m)"
    "mn_cancelled m' = mn_cancelled m" "mn_started m' = mn_started m"
    "mn_closed m' = (case mn_peers m ident of None \<Rightarrow> mn_closed m | Some q \<Rightarrow> cn_ref q # mn_closed m)"
    "status_of m' other = (if other = ident then status_of m' ident else status_of m other)"
    "sx_State (status_of m' ident) = ''connected''" "sx_LastError (status_of m' ident) = []"
    "sx_TransportLastError (status_of m' ident) = sx_TransportLastError (status_of m ident)"
  using assms unfolding activate_def Let_def
  by (auto split: if_splits option.splits simp: zero_status_def)

lemma activate_inv:
  assumes "manager_inv m" "activate ident direction capabilities redactions now m = (m', Some p)"
  shows "manager_inv m'"
proof -
  note a = activate_started [OF assms(2)]
  have p: "cn_ref p = mn_next m" "cn_peerID p = ident" using a(2) by simp_all
  note inv = manager_invD [OF assms(1)]
  have closed: "cn_ref p \<notin> set (mn_closed m')" "n \<in> set (mn_closed m') \<Longrightarrow> n < mn_next m" for n
    using inv(3,5,6) p(1) unfolding a(8) by (fastforce split: option.splits)+
  show ?thesis
  proof (rule manager_invI)
    show "live (status_of m' i) \<longleftrightarrow> mn_peers m' i \<noteq> None" for i
      using inv(1) [of i] a(3,10) a(9) [of i] by (auto simp: live_def)
    show "cn_peerID q = i \<and> q \<in> set (mn_conns m') \<and> (cn_ref q \<in> set (mn_closed m') \<longrightarrow> mn_cancelled m')" if q: "mn_peers m' i = Some q" for i q
    proof (cases "i = ident")
      case True
      then show ?thesis using q p closed(1) by (simp add: a(3,4))
    next
      case False
      then have mq: "mn_peers m i = Some q" using q by (simp add: a(3))
      have "cn_ref q \<noteq> cn_ref q'" if "mn_peers m ident = Some q'" for q'
        using inv(7) [OF inv(3) [OF mq] inv(3) [OF that]] inv(2) [OF mq] inv(2) [OF that] False by blast
      then show ?thesis using inv(2,3,4) [OF mq] by (auto simp: a(4,6,8) split: option.splits)
    qed
    show "n < mn_next m'" if "n \<in> set (mn_closed m')" for n using closed(2) [OF that] by (simp add: a(5))
    show "cn_ref q < mn_next m'" if "q \<in> set (mn_conns m')" for q using that inv(5) p(1) by (auto simp: a(4,5) less_SucI)
    show "q = q'" if two: "q \<in> set (mn_conns m')" "q' \<in> set (mn_conns m')" "cn_ref q = cn_ref q'" for q q'
    proof -
      consider "q = p" "q' = p" | "q = p" "q' \<in> set (mn_conns m)" | "q \<in> set (mn_conns m)" "q' = p" | "q \<in> set (mn_conns m)" "q' \<in> set (mn_conns m)"
        using two(1,2) unfolding a(4) by auto
      then show ?thesis
      proof cases
        case 2 then show ?thesis using inv(5) [OF 2(2)] p(1) two(3) by simp
      next
        case 3 then show ?thesis using inv(5) [OF 3(1)] p(1) two(3) by simp
      qed (use inv(7) two(3) in blast)+
    qed
  qed
qed

lemma fold_close_keeps [simp]:
  "mn_peers (fold close_conn ps m) = mn_peers m" "mn_conns (fold close_conn ps m) = mn_conns m" "mn_next (fold close_conn ps m) = mn_next m"
  "mn_cancelled (fold close_conn ps m) = mn_cancelled m" "mn_started (fold close_conn ps m) = mn_started m" "status_of (fold close_conn ps m) = status_of m"
  "set (mn_closed (fold close_conn ps m)) = cn_ref ` set ps \<union> set (mn_closed m)"
  by (induction ps arbitrary: m) auto

lemma Stop_keeps:
  "mn_peers (Stop m) = mn_peers m" "mn_conns (Stop m) = mn_conns m" "mn_next (Stop m) = mn_next m" "status_of (Stop m) = status_of m"
  "mn_cancelled (Stop m) = (mn_cancelled m \<or> mn_started m)" "mn_started (Stop m) = False"
  "n \<in> set (mn_closed (Stop m)) \<Longrightarrow> n \<in> set (mn_closed m) \<or> mn_started m \<and> (\<exists>q \<in> set (mn_conns m). n = cn_ref q)"
  by (simp_all add: Stop_def split: if_splits) blast

lemma Stop_inv:
  assumes "manager_inv m"
  shows "manager_inv (Stop m)"
proof (rule manager_invI)
  show "cn_peerID q = i \<and> q \<in> set (mn_conns (Stop m)) \<and> (cn_ref q \<in> set (mn_closed (Stop m)) \<longrightarrow> mn_cancelled (Stop m))"
    if "mn_peers (Stop m) i = Some q" for i q
    using that manager_invD(2,3,4) [OF assms] Stop_keeps(7) [of "cn_ref q" m] by (simp add: Stop_keeps(1-6)) blast
  show "n < mn_next (Stop m)" if "n \<in> set (mn_closed (Stop m))" for n
    using Stop_keeps(7) [OF that] manager_invD(5,6) [OF assms] by (auto simp: Stop_keeps(3))
qed (use manager_invD(1,5,7) [OF assms] in \<open>simp_all add: Stop_keeps(1-6)\<close>)

definition dial_ok :: "dialer \<Rightarrow> peer_conn option \<Rightarrow> bool" where
  "dial_ok d c \<longleftrightarrow> (case dl_pc d of Waiting p _ \<Rightarrow> c = None \<or> c = Some p | DialEnded \<Rightarrow> True | _ \<Rightarrow> c = None)"

definition mesh_inv :: "Registry \<Rightarrow> mesh \<Rightarrow> bool" where
  "mesh_inv r w \<longleftrightarrow>
     manager_inv (ms_manager w)
     \<and> (\<forall>peer \<in> set (rg_Peers r). dial_ok (ms_dial w (pr_ID peer)) (mn_peers (ms_manager w) (pr_ID peer)))
     \<and> (\<not> mn_started (ms_manager w) \<and> \<not> mn_cancelled (ms_manager w) \<longrightarrow> ms_manager w = New_manager)"

lemma peers_check_ok:
  "peers_check lib r seen ps = None \<Longrightarrow>
     distinct (map pr_ID ps) \<and> (\<forall>p \<in> set ps. pr_ID p \<notin> set seen \<and> map_of (rg_Accept r) (pr_ID p) = None)"
  by (induction lib r seen ps rule: peers_check.induct) (auto split: if_splits option.splits)

lemma updateStatus_down:
  assumes "manager_inv m" "mn_peers m ident = None" "\<And>s. \<not> live (f s)"
  shows "manager_inv (updateStatus ident f m)"
  by (rule updateStatus_inv [OF assms(1)]) (use assms(2,3) in blast)

lemma updateStatus_same:
  assumes "manager_inv m" "\<And>s. live (f s) = live s"
  shows "manager_inv (updateStatus ident f m)"
  by (rule updateStatus_inv [OF assms(1)]) (use assms(2) in blast)

lemma connectLoop_inv:
  assumes "manager_inv m" "dial_ok d (mn_peers m (pr_ID peer))"
    "connectLoop_step lib cfg draw peer now res d m = (d', m')"
  shows "manager_inv m' \<and> dial_ok d' (mn_peers m' (pr_ID peer)) \<and> (\<forall>i. i \<noteq> pr_ID peer \<longrightarrow> mn_peers m' i = mn_peers m i)
    \<and> mn_started m' = mn_started m \<and> mn_cancelled m' = mn_cancelled m"
proof (cases "dl_pc d")
  case DialTop
  then show ?thesis using assms by (auto simp: connectLoop_step_def dial_ok_def live_def intro!: updateStatus_down split: if_splits)
next
  case Probing
  show ?thesis
  proof (cases res)
    case (OutcomeError e)
    then show ?thesis using assms Probing by (auto simp: connectLoop_step_def dial_ok_def live_def intro!: updateStatus_same)
  next
    case (OutcomeOk negotiated)
    then show ?thesis using assms Probing by (auto simp: connectLoop_step_def dial_ok_def live_def intro!: updateStatus_down)
  qed
next
  case (ProbeFailed e)
  then show ?thesis using assms by (auto simp: connectLoop_step_def dial_ok_def setError_def live_def intro!: updateStatus_same)
next
  case Handshaking
  then have none: "mn_peers m (pr_ID peer) = None" using assms(2) by (simp add: dial_ok_def)
  show ?thesis
  proof (cases res)
    case (OutcomeError e)
    then show ?thesis using assms Handshaking by (auto simp: connectLoop_step_def dial_ok_def)
  next
    case (OutcomeOk negotiated)
    obtain m1 o1 where a: "activate (pr_ID peer) ''outbound'' negotiated [pr_Token peer, ml_TokenHash lib (pr_Token peer)] now m = (m1, o1)" by force
    show ?thesis
    proof (cases o1)
      case None
      then have "m1 = m" using a by (auto simp: activate_def Let_def split: if_splits)
      then show ?thesis using assms Handshaking OutcomeOk a None by (auto simp: connectLoop_step_def dial_ok_def)
    next
      case (Some p)
      note st = activate_started [OF a [unfolded Some]]
      have "d' = d\<lparr>dl_pc := Waiting p now\<rparr>" "m' = m1" using assms(3) Handshaking OutcomeOk a Some by (simp_all add: connectLoop_step_def)
      then show ?thesis using activate_inv [OF assms(1) a [unfolded Some]] by (simp add: dial_ok_def st(3,6,7))
    qed
  qed
next
  case (DialFailed cause e)
  then show ?thesis using assms by (auto simp: connectLoop_step_def dial_ok_def setError_def live_def intro!: updateStatus_same)
next
  case (Waiting p at0)
  show ?thesis
  proof (cases "\<not> mn_cancelled m \<and> cn_ref p \<in> set (mn_closed m)")
    case True
    have "mn_peers m (pr_ID peer) \<noteq> Some p" using manager_invD(4) [OF assms(1)] True by blast
    then have none: "mn_peers m (pr_ID peer) = None" using assms(2) Waiting by (simp add: dial_ok_def)
    show ?thesis using assms(1,3) Waiting True none by (auto simp: connectLoop_step_def dial_ok_def)
  next
    case False
    then show ?thesis using assms Waiting by (auto simp: connectLoop_step_def dial_ok_def split: if_splits)
  qed
next
  case (Backing cause)
  obtain lowest highest where b: "retryBounds cfg cause = (lowest, highest)" by force
  show ?thesis
    using assms Backing b by (auto simp: connectLoop_step_def dial_ok_def live_def Let_def intro!: updateStatus_down split: option.splits)
next
  case Sleeping
  then show ?thesis using assms by (auto simp: connectLoop_step_def dial_ok_def split: if_splits)
next
  case DialEnded
  then show ?thesis using assms by (auto simp: connectLoop_step_def dial_ok_def)
qed

lemma superviseTunnel_inv:
  assumes "manager_inv m" "superviseTunnel_step lib cfg draw peer now err d m = (d', m')"
  shows "manager_inv m' \<and> mn_peers m' = mn_peers m \<and> mn_started m' = mn_started m \<and> mn_cancelled m' = mn_cancelled m"
  using assms by (auto simp: superviseTunnel_step_def live_def Let_def intro!: updateStatus_same split: tunnel_pc.splits option.splits if_splits prod.splits)

lemma fold_status_keeps [simp]:
  "mn_peers (fold (\<lambda>x. set_status (k x) (f x)) xs m) = mn_peers m" "mn_conns (fold (\<lambda>x. set_status (k x) (f x)) xs m) = mn_conns m"
  "mn_closed (fold (\<lambda>x. set_status (k x) (f x)) xs m) = mn_closed m" "mn_next (fold (\<lambda>x. set_status (k x) (f x)) xs m) = mn_next m"
  "mn_cancelled (fold (\<lambda>x. set_status (k x) (f x)) xs m) = mn_cancelled m" "mn_started (fold (\<lambda>x. set_status (k x) (f x)) xs m) = mn_started m"
  by (induction xs arbitrary: m) simp_all

lemma fold_status_all:
  assumes "\<And>i. P i (status_of m i)" "\<And>x. P (k x) (f x)"
  shows "P i (status_of (fold (\<lambda>x. set_status (k x) (f x)) xs m) i)"
  using assms(1) by (induction xs arbitrary: m) (simp_all add: assms(2))

lemma Start_keeps:
  "mn_peers (Start r m) = mn_peers m" "mn_conns (Start r m) = mn_conns m" "mn_closed (Start r m) = mn_closed m" "mn_next (Start r m) = mn_next m"
  "mn_cancelled (Start r m) = mn_cancelled m" "mn_started (Start r m) = True"
  by (simp_all add: Start_def)

lemma Start_status:
  assumes "\<And>i. P i (status_of m i)" "\<And>p. P (pr_ID p) (outbound_status p)" "\<And>i. P i (inbound_status i)"
  shows "P i (status_of (Start r m) i)"
proof -
  have 1: "P j (status_of (fold (\<lambda>p. set_status (pr_ID p) (outbound_status p)) (rg_Peers r) (m\<lparr>mn_started := True\<rparr>)) j)" for j
    by (rule fold_status_all [of P]) (simp_all add: assms(1,2))
  have "P i (status_of (fold (\<lambda>a. set_status (fst a) (inbound_status (fst a))) (rg_Accept r)
      (fold (\<lambda>p. set_status (pr_ID p) (outbound_status p)) (rg_Peers r) (m\<lparr>mn_started := True\<rparr>))) i)"
    by (rule fold_status_all [of P]) (rule 1, rule assms(3))
  then show ?thesis using assms(1) by (simp add: Start_def)
qed

lemma zero_status_of [simp]: "status_of New_manager i = zero_status"
  by (simp add: status_of_def New_manager_def)

lemma Start_fresh_inv: "manager_inv (Start r New_manager)"
proof (rule manager_invI)
  have "\<not> live (status_of (Start r New_manager) i)" for i
    by (rule Start_status [of "\<lambda>_ s. \<not> live s"]) (simp_all add: New_manager_def live_def zero_status_def outbound_status_def inbound_status_def Let_def status_of_def)
  then show "live (status_of (Start r New_manager) i) \<longleftrightarrow> mn_peers (Start r New_manager) i \<noteq> None" for i
    by (simp add: Start_keeps New_manager_def)
qed (simp_all add: Start_keeps New_manager_def)

lemma heartbeat_cases:
  "heartbeat cfg now p m = m \<or> heartbeat cfg now p m = disconnect p True (Some heartbeat_text) m
   \<or> heartbeat cfg now p m = updateCurrent p (\<lambda>s. s\<lparr>sx_State := ''stale''\<rparr>) m"
  by (simp add: heartbeat_def split: option.split)

lemma disconnect_mesh_inv:
  assumes "mesh_inv r w" "p \<in> set (mn_conns (ms_manager w))"
  shows "mesh_inv r (w\<lparr>ms_manager := disconnect p t e (ms_manager w)\<rparr>)"
proof -
  have "dial_ok d None" if "dial_ok d (Some p)" for d using that by (auto simp: dial_ok_def split: dial_pc.splits)
  moreover have "mn_started (ms_manager w) \<or> mn_cancelled (ms_manager w)" using assms by (auto simp: mesh_inv_def New_manager_def)
  ultimately show ?thesis
    using assms disconnect_inv [of "ms_manager w" p t e] by (auto simp: mesh_inv_def disconnect_keeps)
qed

lemma current_mesh_inv:
  assumes "mesh_inv r w" "p \<in> set (mn_conns (ms_manager w))" "(\<forall>s. live (f s) = live s) \<or> (\<forall>s. live (f s))"
  shows "mesh_inv r (w\<lparr>ms_manager := updateCurrent p f (ms_manager w)\<rparr>)"
proof -
  have "mn_started (ms_manager w) \<or> mn_cancelled (ms_manager w)" using assms(1,2) by (auto simp: mesh_inv_def New_manager_def)
  then show ?thesis using assms(1) updateCurrent_inv [OF _ assms(3), of "ms_manager w" p] by (auto simp: mesh_inv_def)
qed

lemma upgrade_peer:
  assumes "handleUpgrade lib r capabilities header frame = Accepted peerID welcome negotiated credential"
  shows "authorize lib r header = Some (peerID, credential)"
  using assms by (auto simp: handleUpgrade_def Let_def split: option.splits prod.splits if_splits)

lemma authorized_accept: "authorize lib r header = Some (ident, token) \<Longrightarrow> (ident, ml_TokenHash lib token) \<in> set (rg_Accept r)"
  by (auto simp: authorize_def Let_def find_Some_iff split: if_splits) (metis nth_mem)

lemma mesh_step_inv:
  assumes "mesh_step lib r cfg draw w w'" "mesh_inv r w" "Registry_Validate lib r = None"
  shows "mesh_inv r w'"
  using assms(1)
proof cases
  case start
  have "ms_manager w = New_manager" using assms(2) start(2,3) by (simp add: mesh_inv_def)
  then show ?thesis using assms(2) start(1) Start_fresh_inv [of r] by (simp add: mesh_inv_def Start_keeps)
next
  case stop
  then show ?thesis using assms(2) Stop_inv [of "ms_manager w"] by (auto simp: mesh_inv_def Stop_keeps(1-6)) (auto simp: Stop_def New_manager_def)
next
  case (dial peer now res d m)
  have "dial_ok (ms_dial w (pr_ID peer)) (mn_peers (ms_manager w) (pr_ID peer))" "manager_inv (ms_manager w)" using assms(2) dial(3) by (simp_all add: mesh_inv_def)
  from connectLoop_inv [OF this(2,1) dial(4)] show ?thesis using assms(2) dial(1,2) by (auto simp: mesh_inv_def)
next
  case (tunnel peer now err d m)
  have "manager_inv (ms_manager w)" using assms(2) by (simp add: mesh_inv_def)
  from superviseTunnel_inv [OF this tunnel(5)] show ?thesis using assms(2) tunnel(1,2) by (auto simp: mesh_inv_def)
next
  case (upgraded capabilities hdr frm peerID wel negotiated credential now)
  have "map_of (rg_Accept r) peerID \<noteq> None"
    using authorized_accept [OF upgrade_peer [OF upgraded(3)]] by (metis map_of_eq_None_iff fst_conv imageI)
  then have other: "\<forall>peer \<in> set (rg_Peers r). pr_ID peer \<noteq> peerID" using peers_check_ok [OF registry_valid(2) [OF assms(3)]] by auto
  obtain m1 o1 where a: "activate peerID ''inbound'' negotiated [credential, ml_TokenHash lib credential] now (ms_manager w) = (m1, o1)" by force
  show ?thesis
  proof (cases o1)
    case None
    then have "m1 = ms_manager w" using a by (auto simp: activate_def Let_def split: if_splits)
    then show ?thesis using assms(2) upgraded(1) a by simp
  next
    case (Some p)
    note st = activate_started [OF a [unfolded Some]]
    have "manager_inv m1" by (rule activate_inv [OF _ a [unfolded Some]]) (use assms(2) in \<open>simp add: mesh_inv_def\<close>)
    then show ?thesis using assms(2) upgraded(1) a other st(1) by (auto simp: mesh_inv_def st(3,6,7))
  qed
next
  case (rejected capabilities hdr frm peerID)
  then show ?thesis using assms(2) setError_inv [of "ms_manager w"] by (auto simp: mesh_inv_def setError_def)
next
  case (frame p now)
  show ?thesis unfolding frame(1) frame_seen_def by (rule current_mesh_inv [OF assms(2) frame(2)]) (simp add: live_def)
next
  case (pong p rtt)
  show ?thesis unfolding pong(1) pong_seen_def by (rule current_mesh_inv [OF assms(2) pong(2)]) (simp add: live_def)
next
  case (beat p now)
  show ?thesis
    using heartbeat_cases [of cfg now p "ms_manager w"]
  proof (elim disjE)
    assume "heartbeat cfg now p (ms_manager w) = ms_manager w" then show ?thesis using assms(2) beat(1) by simp
  next
    assume "heartbeat cfg now p (ms_manager w) = disconnect p True (Some heartbeat_text) (ms_manager w)"
    then show ?thesis using disconnect_mesh_inv [OF assms(2) beat(2)] beat(1) by simp
  next
    assume h: "heartbeat cfg now p (ms_manager w) = updateCurrent p (\<lambda>s. s\<lparr>sx_State := ''stale''\<rparr>) (ms_manager w)"
    show ?thesis unfolding beat(1) h by (rule current_mesh_inv [OF assms(2) beat(2)]) (simp add: live_def)
  qed
next
  case (drop p e)
  then show ?thesis using disconnect_mesh_inv [OF assms(2) drop(2)] by simp
qed

lemma mesh_init_inv: "mesh_inv r mesh_init"
  by (auto simp: mesh_inv_def mesh_init_def dial_ok_def New_manager_def live_def status_of_def zero_status_def intro: manager_invI)

lemma mesh_reach_inv:
  assumes "mesh_reach lib r cfg draw w" "Registry_Validate lib r = None"
  shows "mesh_inv r w"
  using assms(1) unfolding mesh_reach_def
  by (induction rule: rtranclp_induct) (use mesh_init_inv mesh_step_inv assms(2) in blast)+

text \<open>
  C4. The status tells the truth: with a valid registry, under every interleaving of the peers' loops, handshakes, frames,
  heartbeats, failures and replaced connections, a peer is shown as connected or stale exactly while there is a
  current connection to it, and that connection is open unless the manager was stopped.
\<close>

theorem status_truthful:
  assumes "Registry_Validate lib r = None" "mesh_reach lib r cfg draw w"
  shows "(sx_State (status_of (ms_manager w) ident) \<in> {''connected'', ''stale''} \<longleftrightarrow> mn_peers (ms_manager w) ident \<noteq> None)
    \<and> (\<forall>p. mn_peers (ms_manager w) ident = Some p \<longrightarrow> cn_peerID p = ident \<and> (cn_ref p \<in> set (mn_closed (ms_manager w)) \<longrightarrow> mn_cancelled (ms_manager w)))"
proof -
  have "manager_inv (ms_manager w)" using mesh_reach_inv [OF assms(2,1)] by (simp add: mesh_inv_def)
  from manager_invD(1,2,4) [OF this] show ?thesis by (simp add: live_def)
qed

section \<open>No status shows a credential\<close>

text \<open>What must not be shown for a peer: the token that is presented to it and its hash, or the hash accepted from it and
  the token with that hash, where no other text has the same hash.\<close>

definition secret_of :: "meshlib \<Rightarrow> Registry \<Rightarrow> string \<Rightarrow> string \<Rightarrow> bool" where
  "secret_of lib r ident x \<longleftrightarrow>
     (\<exists>p \<in> set (rg_Peers r). pr_ID p = ident \<and> x \<in> {pr_Token p, ml_TokenHash lib (pr_Token p)})
     \<or> (\<exists>(i, h) \<in> set (rg_Accept r). i = ident \<and> (x = h \<or> ml_TokenHash lib x = h \<and> (\<forall>y. ml_TokenHash lib y = h \<longrightarrow> y = x)))"

definition clean_status :: "meshlib \<Rightarrow> Registry \<Rightarrow> string \<Rightarrow> Status \<Rightarrow> bool" where
  "clean_status lib r ident s \<longleftrightarrow>
     (\<forall>x. secret_of lib r ident x \<longrightarrow> credential_text x \<longrightarrow> \<not> contains (sx_LastError s) x \<and> \<not> contains (sx_TransportLastError s) x)"

definition clean_manager :: "meshlib \<Rightarrow> Registry \<Rightarrow> Manager \<Rightarrow> bool" where
  "clean_manager lib r m \<longleftrightarrow>
     (\<forall>ident. clean_status lib r ident (status_of m ident))
     \<and> (\<forall>p \<in> set (mn_conns m). \<forall>x. secret_of lib r (cn_peerID p) x \<longrightarrow> x \<in> set (cn_redactions p))"

lemma credential_nonempty [simp]: "\<not> credential_text []" "credential_text x \<Longrightarrow> x \<noteq> []"
  by (auto simp: credential_text_def)

lemma clean_zero: "sx_LastError s = [] \<Longrightarrow> sx_TransportLastError s = [] \<Longrightarrow> clean_status lib r ident s"
  by (simp add: clean_status_def)

lemma clean_set:
  assumes "clean_manager lib r m" "clean_status lib r ident s"
  shows "clean_manager lib r (set_status ident s m)"
  using assms by (simp add: clean_manager_def)

lemma clean_updateStatus:
  assumes "clean_manager lib r m" "clean_status lib r ident (status_of m ident) \<Longrightarrow> clean_status lib r ident (f ((status_of m ident)\<lparr>sx_PeerID := ident\<rparr>))"
  shows "clean_manager lib r (updateStatus ident f m)"
  using assms unfolding updateStatus_def by (intro clean_set) (simp_all add: clean_manager_def)

lemma clean_updateCurrent:
  assumes "clean_manager lib r m" "\<And>s. sx_LastError (f s) = sx_LastError s" "\<And>s. sx_TransportLastError (f s) = sx_TransportLastError s"
  shows "clean_manager lib r (updateCurrent p f m)"
  using assms by (simp add: clean_manager_def clean_status_def)

lemma clean_disconnect:
  assumes "clean_manager lib r m" "p \<in> set (mn_conns m)"
  shows "clean_manager lib r (disconnect p t e m)"
proof -
  have "\<not> contains (sanitizeSecretsError e (cn_redactions p)) x" if "secret_of lib r (cn_peerID p) x" "credential_text x" for x
    using assms that by (intro secrets_removed) (auto simp: clean_manager_def)
  then show ?thesis using assms(1) by (auto simp: clean_manager_def clean_status_def disconnect_keeps)
qed

lemma peer_secret:
  assumes "Registry_Validate lib r = None" "peer \<in> set (rg_Peers r)" "secret_of lib r (pr_ID peer) x"
  shows "x \<in> set [pr_Token peer, ml_TokenHash lib (pr_Token peer)]"
proof -
  note ok = peers_check_ok [OF registry_valid(2) [OF assms(1)]]
  have "p = peer" if "p \<in> set (rg_Peers r)" "pr_ID p = pr_ID peer" for p
    using ok that assms(2) by (auto simp: distinct_map inj_on_def)
  moreover have "(pr_ID peer, h) \<notin> set (rg_Accept r)" for h
    using ok assms(2) by (force simp: map_of_eq_None_iff image_iff)
  ultimately show ?thesis using assms(3) by (auto simp: secret_of_def)
qed

lemma peer_error_clean:
  assumes "Registry_Validate lib r = None" "peer \<in> set (rg_Peers r)" "secret_of lib r (pr_ID peer) x" "credential_text x"
  shows "\<not> contains (sanitizePeerError lib peer e) x"
  unfolding sanitizePeerError_def by (rule secrets_removed [OF peer_secret [OF assms(1-3)] assms(4)])

lemma clean_setError:
  assumes "clean_manager lib r m" "\<And>x. secret_of lib r ident x \<Longrightarrow> credential_text x \<Longrightarrow> \<not> contains msg x"
  shows "clean_manager lib r (setError ident msg m)"
  unfolding setError_def using assms by (intro clean_updateStatus) (auto simp: clean_status_def)

lemma clean_activate:
  assumes "clean_manager lib r m" "activate ident direction capabilities redactions now m = (m', o1)"
    "\<And>x. secret_of lib r ident x \<Longrightarrow> x \<in> set redactions"
  shows "clean_manager lib r m'"
proof (cases o1)
  case None
  then have "m' = m" using assms(2) by (auto simp: activate_def Let_def split: if_splits)
  then show ?thesis using assms(1) by simp
next
  case (Some p)
  note st = activate_started [OF assms(2) [unfolded Some]]
  have "clean_status lib r i (status_of m' i)" for i
  proof (cases "i = ident")
    case True
    have "clean_status lib r ident (status_of m ident)" using assms(1) by (simp add: clean_manager_def)
    then show ?thesis unfolding True clean_status_def st(11,12) by simp
  next
    case False
    then show ?thesis using st(9) [of i] assms(1) by (simp add: clean_manager_def)
  qed
  then show ?thesis using assms(1,3) st(2) by (simp add: clean_manager_def st(4))
qed

lemma connectLoop_clean:
  assumes "clean_manager lib r m" "Registry_Validate lib r = None" "peer \<in> set (rg_Peers r)"
    "connectLoop_step lib cfg draw peer now res d m = (d', m')"
  shows "clean_manager lib r m'"
proof (cases "dl_pc d")
  case (ProbeFailed e)
  then have "m' = setError (pr_ID peer) (sanitizePeerError lib peer (Some (''reachability probe: '' @ e))) m" using assms(4) by (simp add: connectLoop_step_def)
  then show ?thesis using clean_setError [OF assms(1)] peer_error_clean [OF assms(2,3)] by simp
next
  case (DialFailed cause e)
  then have "m' = setError (pr_ID peer) (sanitizePeerError lib peer (Some e)) m" using assms(4) by (simp add: connectLoop_step_def)
  then show ?thesis using clean_setError [OF assms(1)] peer_error_clean [OF assms(2,3)] by simp
next
  case Handshaking
  show ?thesis
  proof (cases res)
    case (OutcomeOk negotiated)
    obtain m1 o1 where a: "activate (pr_ID peer) ''outbound'' negotiated [pr_Token peer, ml_TokenHash lib (pr_Token peer)] now m = (m1, o1)" by force
    then have "m' = m1" using assms(4) Handshaking OutcomeOk by (simp add: connectLoop_step_def split: option.splits)
    then show ?thesis using clean_activate [OF assms(1) a] peer_secret [OF assms(2,3)] by simp
  qed (use assms Handshaking in \<open>simp add: connectLoop_step_def\<close>)
next
  case Probing
  then show ?thesis using assms
    by (auto simp: connectLoop_step_def clean_status_def intro!: clean_updateStatus split: dial_outcome.splits)
next
  case (Backing cause)
  obtain lowest highest where b: "retryBounds cfg cause = (lowest, highest)" by force
  show ?thesis using assms Backing b
    by (auto simp: connectLoop_step_def clean_status_def Let_def intro!: clean_updateStatus split: option.splits)
qed (use assms in \<open>auto simp: connectLoop_step_def clean_status_def intro!: clean_updateStatus split: if_splits\<close>)

lemma superviseTunnel_clean:
  assumes "clean_manager lib r m" "Registry_Validate lib r = None" "peer \<in> set (rg_Peers r)"
    "superviseTunnel_step lib cfg draw peer now err d m = (d', m')"
  shows "clean_manager lib r m'"
  using assms(1,4) peer_error_clean [OF assms(2,3)]
  by (auto simp: superviseTunnel_step_def clean_status_def Let_def intro!: clean_updateStatus split: tunnel_pc.splits option.splits if_splits prod.splits)

lemma rejected_text_clean:
  assumes "credential_text x"
  shows "\<not> contains ''mesh handshake rejected'' x"
proof
  assume "contains ''mesh handshake rejected'' x"
  then obtain a b where ab: "''mesh handshake rejected'' = a @ x @ b" unfolding contains_iff by blast
  have len: "10 \<le> length x" and space: "CHR '' '' \<notin> set x"
    using assms by (auto simp: credential_text_def list_all_iff char_class_defs byte_of_def)
  have al: "length a \<le> 13" using arg_cong [OF ab, of length] len by simp
  have "take 10 x = take 10 (drop (length a) ''mesh handshake rejected'')" using ab len by simp
  then have "CHR '' '' \<notin> set (take 10 (drop (length a) ''mesh handshake rejected''))" using space set_take_subset [of 10 x] by auto
  moreover have "CHR '' '' \<in> set (take 10 (drop n ''mesh handshake rejected''))" if "n \<le> 13" for n
  proof -
    have "list_all (\<lambda>n. CHR '' '' \<in> set (take 10 (drop n ''mesh handshake rejected''))) [0..<14]" by (simp add: upt_rec)
    then show ?thesis using that by (auto simp: list_all_iff)
  qed
  ultimately show False using al by blast
qed

lemma inbound_secret:
  assumes "distinct (map fst (rg_Accept r))" "Registry_Validate lib r = None"
    "(ident, ml_TokenHash lib credential) \<in> set (rg_Accept r)" "secret_of lib r ident x"
  shows "x \<in> set [credential, ml_TokenHash lib credential]"
proof -
  have "\<not> (\<exists>p \<in> set (rg_Peers r). pr_ID p = ident)"
    using peers_check_ok [OF registry_valid(2) [OF assms(2)]] assms(3) by (force simp: map_of_eq_None_iff image_iff)
  then obtain h where h: "(ident, h) \<in> set (rg_Accept r)" "x = h \<or> (\<forall>y. ml_TokenHash lib y = h \<longrightarrow> y = x)" using assms(4) by (auto simp: secret_of_def)
  have "h = ml_TokenHash lib credential" using assms(1,3) h(1) by (metis Pair_inject eq_key_imp_eq_value)
  then show ?thesis using h(2) by auto
qed

lemma mesh_step_clean:
  assumes "mesh_step lib r cfg draw w w'" "clean_manager lib r (ms_manager w)" "Registry_Validate lib r = None"
    "distinct (map fst (rg_Accept r))"
  shows "clean_manager lib r (ms_manager w')"
  using assms(1)
proof cases
  case start
  have "clean_status lib r i (status_of (Start r (ms_manager w)) i)" for i
    by (rule Start_status [of "clean_status lib r"])
      (use assms(2) in \<open>simp_all add: clean_manager_def clean_zero outbound_status_def inbound_status_def zero_status_def Let_def\<close>)
  then show ?thesis using assms(2) start(1) by (simp add: clean_manager_def Start_keeps)
next
  case stop
  then show ?thesis using assms(2) by (simp add: clean_manager_def Stop_keeps(1-6))
next
  case (dial peer now res d m)
  then show ?thesis using connectLoop_clean [OF assms(2,3) dial(3,4)] by simp
next
  case (tunnel peer now err d m)
  then show ?thesis using superviseTunnel_clean [OF assms(2,3) tunnel(3,5)] by simp
next
  case (upgraded capabilities hdr frm peerID wel negotiated credential now)
  note acc = authorized_accept [OF upgrade_peer [OF upgraded(3)]]
  have "clean_manager lib r (fst (activate peerID ''inbound'' negotiated [credential, ml_TokenHash lib credential] now (ms_manager w)))"
    by (rule clean_activate [OF assms(2) prod.collapse [symmetric]]) (rule inbound_secret [OF assms(4,3) acc])
  then show ?thesis using upgraded(1) by simp
next
  case (rejected capabilities hdr frm peerID)
  then show ?thesis using clean_setError [OF assms(2)] rejected_text_clean by simp
next
  case (frame p now)
  then show ?thesis using clean_updateCurrent [OF assms(2)] by (simp add: frame_seen_def)
next
  case (pong p rtt)
  then show ?thesis using clean_updateCurrent [OF assms(2)] by (simp add: pong_seen_def)
next
  case (beat p now)
  then show ?thesis
    using heartbeat_cases [of cfg now p "ms_manager w"] assms(2) clean_disconnect [OF assms(2) beat(2)] clean_updateCurrent [OF assms(2), of "sx_State_update (\<lambda>_. ''stale'')" p]
    by auto
next
  case (drop p e)
  then show ?thesis using clean_disconnect [OF assms(2) drop(2)] by simp
qed


section \<open>A run\<close>

definition demo_connected :: mesh where
  "demo_connected = mesh_init\<lparr>ms_manager := fst (activate ''laptop'' ''inbound'' [''events.v1''] [''token-of-laptop'', ''htoken-of-laptop''] 7 (Start demo_registry New_manager))\<rparr>"

lemma demo_connected_reach: "mesh_reach demo_meshlib demo_registry demo_parsed (\<lambda>_. 0) demo_connected"
proof -
  let ?w = "mesh_init\<lparr>ms_manager := Start demo_registry New_manager\<rparr>"
  have "mesh_step demo_meshlib demo_registry demo_parsed (\<lambda>_. 0) mesh_init ?w"
    using mesh_step.start [of mesh_init demo_meshlib demo_registry demo_parsed "\<lambda>_. 0"] by (simp add: mesh_init_def New_manager_def)
  moreover have "mesh_step demo_meshlib demo_registry demo_parsed (\<lambda>_. 0) ?w demo_connected"
    using mesh_step.upgraded [OF _ demo_upgrade, of ?w demo_parsed "\<lambda>_. 0" 7]
    by (simp add: Start_keeps demo_connected_def demo_meshlib_def)
  ultimately show ?thesis unfolding mesh_reach_def by auto
qed

theorem status_truthful_witness:
  "(sx_State (status_of (ms_manager demo_connected) ''laptop'') \<in> {''connected'', ''stale''} \<longleftrightarrow> mn_peers (ms_manager demo_connected) ''laptop'' \<noteq> None)"
  using status_truthful [OF demo_registry_valid demo_connected_reach, of "''laptop''"] by blast


end
