(* ===== verification/Mesh_Sync.thy ===== *)
theory Mesh_Sync
  imports Mesh_Paging Mesh_Docs
begin

text \<open>
  Bringing a peer's inventories into the local store (\<open>internal/daemon/mesh_application.go\<close>): \<open>commitRemoteSessions\<close>,
  \<open>RemoteSessionsList\<close>, \<open>RemoteArtifactsList\<close>, \<open>syncMeshPeerTopics\<close>, and the worker of \<open>scheduleMeshSync\<close> that runs them
  when something may have changed.

  The fetch of the pages is \<open>Mesh_Paging\<close>, the transactions are \<open>Mesh_Inventory\<close>. \<open>json.Marshal\<close> of a summary is the
  argument \<open>enc\<close>; the summaries of one inventory are all checked against one reading of the clock.
\<close>

section \<open>Committing\<close>

datatype sync_error =
    SyncPage page_error
  | SyncExport export_error
  | SyncState mesh_error
  | NoInventoryCursor
  | DuplicateScope string
  | UndeclaredScope string
  | NoDeclaredScopes
  | EncodeFailed
  | UnsupportedSyncTopic

fun declared_scopes :: "string list \<Rightarrow> string list \<Rightarrow> sync_error + string list" where
  "declared_scopes seen [] = Inr seen"
| "declared_scopes seen (scope # scopes) =
     (case Scope_Validate scope of
        Some e \<Rightarrow> Inl (SyncExport (ExportView e))
      | None \<Rightarrow> if scope \<in> set seen then Inl (DuplicateScope scope) else declared_scopes (seen @ [scope]) scopes)"

definition accept_session :: "(Summary \<Rightarrow> string option) \<Rightarrow> time \<Rightarrow> string list \<Rightarrow> Summary \<Rightarrow> sync_error + (Summary \<times> string)" where
  "accept_session enc now scopes summary =
     (case View_Locator_Validate (sv_Locator summary) of
        Some e \<Rightarrow> Inl (SyncExport (ExportView e))
      | None \<Rightarrow>
          if lc_ProfileScope (sv_Locator summary) \<notin> set scopes then Inl (UndeclaredScope (lc_ProfileScope (sv_Locator summary)))
          else (case meshAcceptSummary now summary of
                  Inl e \<Rightarrow> Inl (SyncExport e)
                | Inr clean \<Rightarrow> (case enc clean of None \<Rightarrow> Inl EncodeFailed | Some metadata \<Rightarrow> Inr (clean, metadata))))"

definition remote_locator :: "string \<Rightarrow> Summary \<Rightarrow> RemoteSessionLocator" where
  "remote_locator peer s =
     \<lparr>loc_SchemaVersion = SchemaVersion, loc_DeviceID = peer, loc_ProfileScope = lc_ProfileScope (sv_Locator s),
      loc_SessionID = lc_SessionID (sv_Locator s), loc_TransportBindingID = []\<rparr>"

fun upsert_sessions :: "golib \<Rightarrow> string \<Rightarrow> (Summary \<times> string) list \<Rightarrow> SessionInventorySnapshot \<Rightarrow> mesh_error + SessionInventorySnapshot" where
  "upsert_sessions g peer [] x = Inr x"
| "upsert_sessions g peer ((clean, metadata) # items) x =
     bind_res (SessionInventory_Upsert g x (remote_locator peer clean) metadata) (upsert_sessions g peer items)"

definition commitRemoteSessions ::
  "golib \<Rightarrow> (Summary \<Rightarrow> string option) \<Rightarrow> time \<Rightarrow> string \<Rightarrow> meshSessionsListResponse \<Rightarrow> store \<Rightarrow> store \<times> (sync_error + unit)" where
  "commitRemoteSessions g enc now peer response s =
     (if in_SourceEpoch response = [] \<or> in_SourceRevision response = 0 then (s, Inl NoInventoryCursor)
      else case declared_scopes [] (in_ProfileScopes response) of
        Inl e \<Rightarrow> (s, Inl e)
      | Inr scopes \<Rightarrow>
          if scopes = [] then (s, Inl NoDeclaredScopes)
          else case map_res (accept_session enc now scopes) (in_Items response) of
            Inl e \<Rightarrow> (s, Inl e)
          | Inr accepted \<Rightarrow>
              (case BeginSessionInventory g peer scopes (in_SourceEpoch response) (in_SourceRevision response) s of
                 (s, Inl e) \<Rightarrow> (s, Inl (SyncState e))
               | (s, Inr x) \<Rightarrow>
                   (case upsert_sessions g peer accepted x of
                      Inl e \<Rightarrow> (s, Inl (SyncState e))
                    | Inr x \<Rightarrow> (case SessionInventory_Commit g x s of
                                  (s, Inl e) \<Rightarrow> (s, Inl (SyncState e)) | (s, Inr _) \<Rightarrow> (s, Inr ())))))"

text \<open>
  \<open>RemoteSessionsList\<close> and \<open>RemoteArtifactsList\<close>: the peer is \<open>call\<close> with its own state. A store that changes while
  the pages are fetched is the caller's: the fetch does not touch the store.
\<close>

text \<open>What decoding leaves of a response.\<close>

definition decoded_inventory :: "meshSessionsListResponse \<Rightarrow> meshSessionsListResponse" where
  "decoded_inventory response = response\<lparr>in_Items := map wire_summary (in_Items response)\<rparr>"

definition RemoteSessionsList where
  "RemoteSessionsList g enc now call peer p s =
     (case fetch_sessions call p of
        (p, Inl e) \<Rightarrow> (p, s, Inl (SyncPage e))
      | (p, Inr response) \<Rightarrow>
          (case commitRemoteSessions g enc now peer (decoded_inventory response) s of
             (s, Inl e) \<Rightarrow> (p, s, Inl e)
           | (s, Inr _) \<Rightarrow> (p, s, map_sum SyncState id (ListRemoteSessions g peer [] s))))"

fun upsert_artifacts :: "golib \<Rightarrow> string \<Rightarrow> time \<Rightarrow> meshArtifactReference list \<Rightarrow> ArtifactInventorySnapshot \<Rightarrow> sync_error + ArtifactInventorySnapshot" where
  "upsert_artifacts g peer now [] x = Inr x"
| "upsert_artifacts g peer now (r # rs) x =
     (case meshArtifactEnvelopeFromReference g peer r now of
        Inl e \<Rightarrow> Inl (SyncExport e)
      | Inr artifact \<Rightarrow> (case ArtifactInventory_Upsert g x artifact of Inl e \<Rightarrow> Inl (SyncState e) | Inr x \<Rightarrow> upsert_artifacts g peer now rs x))"

definition commitRemoteArtifacts :: "golib \<Rightarrow> time \<Rightarrow> string \<Rightarrow> meshArtifactsListResponse \<Rightarrow> store \<Rightarrow> store \<times> (sync_error + unit)" where
  "commitRemoteArtifacts g now peer response s =
     (case BeginArtifactInventory g peer (in_SourceEpoch response) (in_SourceRevision response) s of
        (s, Inl e) \<Rightarrow> (s, Inl (SyncState e))
      | (s, Inr x) \<Rightarrow>
          (case upsert_artifacts g peer now (in_Items response) x of
             Inl e \<Rightarrow> (s, Inl e)
           | Inr x \<Rightarrow> (case ArtifactInventory_Commit g x s of (s, Inl e) \<Rightarrow> (s, Inl (SyncState e)) | (s, Inr _) \<Rightarrow> (s, Inr ()))))"

definition RemoteArtifactsList where
  "RemoteArtifactsList g now call peer kind p s =
     (case fetch_artifacts call p of
        (p, Inl e) \<Rightarrow> (p, s, Inl (SyncPage e))
      | (p, Inr response) \<Rightarrow>
          (case commitRemoteArtifacts g now peer response s of
             (s, Inl e) \<Rightarrow> (p, s, Inl e)
           | (s, Inr _) \<Rightarrow> (p, s, map_sum SyncState id (ListArtifactsForOrigin g peer kind s))))"

section \<open>Synchronizing topics\<close>

definition syncMeshSessions where
  "syncMeshSessions g enc now call peer epoch markSyncing p s =
     (case (if markSyncing then MarkSessionSyncing g peer (''pending-'' @ epoch) s else (s, Inr ())) of
        (s, Inl e) \<Rightarrow> (p, s, Inl (SyncState e))
      | (s, Inr _) \<Rightarrow> RemoteSessionsList g enc now call peer p s)"

definition syncMeshArtifacts where
  "syncMeshArtifacts g now call peer epoch markSyncing p s =
     (case (if markSyncing then MarkArtifactSyncing g peer (''pending-'' @ epoch) s else (s, Inr ())) of
        (s, Inl e) \<Rightarrow> (p, s, Inl (SyncState e))
      | (s, Inr _) \<Rightarrow> RemoteArtifactsList g now call peer NoKind p s)"

fun sync_each where
  "sync_each sessions artifacts [] out p s = (p, s, Inr out)"
| "sync_each sessions artifacts (t # ts) out p s =
     (if t = meshTopicSessions then
        (case sessions p s of (p, s, Inl e) \<Rightarrow> (p, s, Inl e) | (p, s, Inr projections) \<Rightarrow> sync_each sessions artifacts ts projections p s)
      else if t = meshTopicArtifacts then
        (case artifacts p s of (p, s, Inl e) \<Rightarrow> (p, s, Inl e) | (p, s, Inr _) \<Rightarrow> sync_each sessions artifacts ts out p s)
      else (p, s, Inl UnsupportedSyncTopic))"

definition syncMeshPeerTopics where
  "syncMeshPeerTopics g enc now scall acall peer epoch topics p s =
     (case validateMeshTopics topics of
        Inl e \<Rightarrow> (p, s, Inl (SyncExport e))
      | Inr topics \<Rightarrow>
          (case (if length topics > 1 then MarkPeerSyncing g peer (''pending-'' @ epoch) s else (s, Inr ())) of
             (s, Inl e) \<Rightarrow> (p, s, Inl (SyncState e))
           | (s, Inr _) \<Rightarrow>
               let markEach = (length topics \<le> 1) in
               sync_each (syncMeshSessions g enc now scall peer epoch markEach) (syncMeshArtifacts g now acall peer epoch markEach) topics [] p s))"

section \<open>The store mirrors the peer\<close>

lemma session_key_inj:
  assumes "session_key l = session_key m" "char_of (0 :: nat) \<notin> set (loc_ProfileScope l)" "char_of (0 :: nat) \<notin> set (loc_ProfileScope m)"
  shows "loc_ProfileScope l = loc_ProfileScope m \<and> loc_SessionID l = loc_SessionID m"
  using first_sep [of "loc_ProfileScope l" "char_of (0 :: nat)" "loc_SessionID l" "loc_ProfileScope m" "loc_SessionID m"] assms
  by (simp add: session_key_def)

lemma scope_no_nul:
  assumes "Scope_Validate scope = None"
  shows "char_of (0 :: nat) \<notin> set scope"
proof (cases "scope = View_RootProfileScope")
  case True
  then show ?thesis by (simp add: View_RootProfileScope_def char_of_eq_iff byte_of_def)
next
  case False
  with assms obtain n where n: "ProfileName scope = Some n" by (auto simp: valid_scope)
  from profile_scope [OF n] have "scope = ''profile:'' @ n" .
  moreover have "profileNamePattern n" using n profile_name [of n] profile_scope [OF n] by (simp split: if_splits)
  then have "is_lower_char c \<or> is_digit c \<or> c \<in> set ''_-''" if "c \<in> set n" for c
    using that by (auto simp: profileNamePattern_def Let_def list_all_iff)
  from this [of "char_of (0 :: nat)"] have "char_of (0 :: nat) \<notin> set n"
    by (auto simp: is_lower_char_def is_digit_def byte_of_def char_of_eq_iff)
  ultimately show ?thesis by (simp add: char_of_eq_iff byte_of_def)
qed

definition pending_item :: "string \<Rightarrow> Summary \<times> string \<Rightarrow> string \<times> pendingProjection" where
  "pending_item peer i = (session_key (remote_locator peer (fst i)), \<lparr>pp_locator = remote_locator peer (fst i), pp_metadata = snd i\<rparr>)"

lemma upsert_sessions_ok:
  assumes "upsert_sessions g peer items x = Inr x'" "session_tx_typed g x"
  shows "session_tx_typed g x' \<and> si_deviceID x' = si_deviceID x \<and> si_epoch x' = si_epoch x \<and> si_revision x' = si_revision x \<and> si_closed x' = si_closed x
    \<and> (\<forall>k. k \<notin> (fst \<circ> pending_item peer) ` set items \<longrightarrow> map_of (si_pending x') k = map_of (si_pending x) k)
    \<and> (distinct (map (fst \<circ> pending_item peer) items) \<longrightarrow> (\<forall>i \<in> set items. map_of (si_pending x') (fst (pending_item peer i)) = Some (snd (pending_item peer i))))"
  using assms
proof (induction g peer items x rule: upsert_sessions.induct)
  case (1 g peer x)
  then show ?case by simp
next
  case (2 g peer clean metadata items x)
  from 2(2) obtain y where y: "SessionInventory_Upsert g x (remote_locator peer clean) metadata = Inr y" "upsert_sessions g peer items y = Inr x'" by auto
  have u: "y = x\<lparr>si_pending := AList.update (fst (pending_item peer (clean, metadata))) (snd (pending_item peer (clean, metadata))) (si_pending x)\<rparr>"
    using y(1) by (auto simp: SessionInventory_Upsert_def pending_item_def split: if_splits)
  note IH = 2(1) [OF y(2) upsert_typed [OF 2(3) y(1)]]
  show ?case using IH u by (auto simp: image_iff)
qed

lemma declared_scopes_ok:
  "declared_scopes seen scopes = Inr out \<Longrightarrow> list_all (\<lambda>sc. Scope_Validate sc = None) seen \<Longrightarrow> out = seen @ scopes \<and> list_all (\<lambda>sc. Scope_Validate sc = None) out"
  by (induction seen scopes rule: declared_scopes.induct) (auto split: option.splits if_splits)

lemma accept_session_ok:
  assumes "accept_session enc now scopes summary = Inr (clean, md)"
  shows "meshAcceptSummary now summary = Inr clean" "enc clean = Some md" "sv_Locator clean = sv_Locator summary" "Scope_Validate (lc_ProfileScope (sv_Locator summary)) = None"
proof -
  show a: "meshAcceptSummary now summary = Inr clean" "enc clean = Some md"
    using assms by (auto simp: accept_session_def split: option.splits if_splits sum.splits)
  have "sv_Locator s' = sv_Locator s" if "meshSanitizeSummary now s = Inr s'" for s s'
    using that by (auto simp: sanitize_Inr clean_summary_def)
  with a(1) show "sv_Locator clean = sv_Locator summary" by (fastforce simp: meshAcceptSummary_def)
  show "Scope_Validate (lc_ProfileScope (sv_Locator summary)) = None"
    using assms by (auto simp: accept_session_def View_Locator_Validate_def split: option.splits if_splits)
qed

text \<open>What a successful commit did, step by step.\<close>

lemma commit_remote_ok:
  assumes "commitRemoteSessions g enc now peer response s = (s', Inr ())"
  obtains accepted s1 x0 x where "map_res (accept_session enc now (in_ProfileScopes response)) (in_Items response) = Inr accepted"
    "BeginSessionInventory g peer (in_ProfileScopes response) (in_SourceEpoch response) (in_SourceRevision response) s = (s1, Inr x0)"
    "upsert_sessions g peer accepted x0 = Inr x" "commitSessionInventory g x s1 = (s', Inr ())"
proof -
  from assms obtain scopes accepted s1 x0 x x' where c: "declared_scopes [] (in_ProfileScopes response) = Inr scopes"
    "map_res (accept_session enc now scopes) (in_Items response) = Inr accepted"
    "BeginSessionInventory g peer scopes (in_SourceEpoch response) (in_SourceRevision response) s = (s1, Inr x0)"
    "upsert_sessions g peer accepted x0 = Inr x" "SessionInventory_Commit g x s1 = (s', Inr x')"
    by (auto simp: commitRemoteSessions_def split: if_splits sum.splits prod.splits)
  moreover have "scopes = in_ProfileScopes response" using declared_scopes_ok [OF c(1)] by simp
  moreover have "commitSessionInventory g x s1 = (s', Inr ())"
    using c(5) by (auto simp: SessionInventory_Commit_def seq_op_eq_Inr fail_op_def split: if_splits)
  ultimately show thesis using that by blast
qed

lemma begin_fields:
  assumes "BeginSessionInventory g peer scopes epoch revision s = (s', Inr x)"
  shows "si_deviceID x = peer \<and> si_epoch x = epoch \<and> si_revision x = revision \<and> si_closed x = False \<and> si_pending x = []"
  using assms by (auto simp: BeginSessionInventory_def seq_op_eq_Inr bind_op_eq_Inr)

lemma map_res_all2: "map_res f xs = Inr ys \<Longrightarrow> list_all2 (\<lambda>x y. f x = Inr y) xs ys"
  by (induction xs arbitrary: ys) auto

text \<open>Distinct locators are filed under distinct keys.\<close>

lemma accepted_keys:
  assumes "list_all2 (\<lambda>s i. accept_session enc now scopes s = Inr i) ss items"
  shows "map (fst \<circ> pending_item peer) items = map (\<lambda>s. session_key (remote_locator peer s)) ss"
  using assms by (induction rule: list_all2_induct) (auto simp: pending_item_def remote_locator_def dest: accept_session_ok(3))

lemma locator_keys_distinct:
  assumes "list_all2 (\<lambda>s i. accept_session enc now scopes s = Inr i) ss items" "distinct (map sv_Locator ss)"
  shows "distinct (map (\<lambda>s. session_key (remote_locator peer s)) ss)"
proof -
  have valid: "View_Locator_Validate (sv_Locator s) = None" if "s \<in> set ss" for s
    using that assms(1) by (auto simp: list_all2_conv_all_nth in_set_conv_nth accept_session_def split: option.splits)
  have "s = t" if "s \<in> set ss" "t \<in> set ss" "session_key (remote_locator peer s) = session_key (remote_locator peer t)" for s t
  proof -
    note v = valid [OF that(1)] valid [OF that(2)]
    have "Scope_Validate (lc_ProfileScope (sv_Locator s)) = None" "Scope_Validate (lc_ProfileScope (sv_Locator t)) = None"
      using v by (simp_all add: View_Locator_Validate_def)
    then have "lc_ProfileScope (sv_Locator s) = lc_ProfileScope (sv_Locator t) \<and> lc_SessionID (sv_Locator s) = lc_SessionID (sv_Locator t)"
      using session_key_inj [OF that(3)] scope_no_nul by (simp add: remote_locator_def)
    then have "sv_Locator s = sv_Locator t" using locator_eq [OF v] by simp
    with assms(2) that(1,2) show ?thesis by (auto simp: distinct_map inj_on_def)
  qed
  with assms(2) show ?thesis by (auto simp: distinct_map inj_on_def)
qed

text \<open>A commit leaves no other session of the device fresh.\<close>

lemma effective_fresh: "rp_Freshness (effectiveSessionProjection q peer) = FreshnessFresh \<Longrightarrow> rp_Freshness q = FreshnessFresh"
  by (auto simp: effectiveSessionProjection_def setEffectiveSessionFreshness_def Let_def split: option.splits prod.splits if_splits Freshness.splits)

lemma commit_only_fresh:
  assumes "session_tx_ok x" "commitSessionInventory g x s = (s', Inr ())" "GetRemoteSession g l s' = Inr p"
    "loc_DeviceID l = si_deviceID x" "rp_Freshness p = FreshnessFresh"
  shows "\<exists>(k, item) \<in> set (si_pending x). EqualIdentity (pp_locator item) l"
proof (rule commit_session_ok [OF assms(1,2)])
  fix existing peer fresh gone
  assume list: "listRemoteSessionsLocked g s (si_deviceID x) [] = Inr existing"
    and fresh: "fresh = map (fresh_projection (si_epoch x) (si_revision x) (st_now s)) (pending_items (si_pending x))"
    and gone: "gone = map (gone_projection (si_epoch x) (si_revision x) (st_now s))
       (filter (\<lambda>p. identityKey (rp_Locator p) \<notin> (identityKey \<circ> pp_locator \<circ> snd) ` set (si_pending x)) existing)"
    and files: "\<forall>path. map_of (st_sessions s') path =
       (case written_to gone path of Some p \<Rightarrow> Some (File (projection_stored p))
        | None \<Rightarrow> (case written_to fresh path of Some p \<Rightarrow> Some (File (projection_stored p))
                   | None \<Rightarrow> map_of (st_sessions s) path))"
  obtain path q pr where q: "remoteSessionPath l = Inr path" "readJSONFile (st_sessions s') path = Inr q"
      "EqualIdentity (rp_Locator q) l" "p = effectiveSessionProjection q pr"
    using assms(3) by (auto simp: GetRemoteSession_def getRemoteSessionLocked_def split: if_splits)
  have qf: "rp_Freshness q = FreshnessFresh" using effective_fresh assms(5) q(4) by simp
  have items: "set (pending_items (si_pending x)) = snd ` set (si_pending x)" using assms(1) by (simp add: session_tx_ok_def pending_items_set)
  have doc: "map_of (st_sessions s') path = Some (File q)" using q(2) by (auto simp: readJSONFile_def split: option.splits fnode.splits)
  show ?thesis
  proof (cases "written_to gone path")
    case (Some p')
    with files doc have "q = projection_stored p'" by simp
    moreover have "rp_Freshness p' = FreshnessGone" using written_to_Some [OF Some] gone by (auto simp: gone_projection_def)
    ultimately show ?thesis using qf by (simp add: projection_stored_def)
  next
    case ng: None
    show ?thesis
    proof (cases "written_to fresh path")
      case (Some p')
      with files doc ng have "q = projection_stored p'" by simp
      moreover obtain item where "item \<in> snd ` set (si_pending x)" "p' = fresh_projection (si_epoch x) (si_revision x) (st_now s) item"
        using written_to_Some [OF Some] fresh items by auto
      ultimately show ?thesis using q(3) by (force simp: projection_stored_def fresh_projection_def)
    next
      case None
      with files doc ng have old: "map_of (st_sessions s) path = Some (File q)" by simp
      then have rd: "readJSONFile (st_sessions s) path = Inr q" by (simp add: readJSONFile_def)
      have dev: "loc_DeviceID (rp_Locator q) = si_deviceID x" using q(3) assms(4) by (simp add: EqualIdentity_def)
      note l = listed_session [OF list rd dev]
      show ?thesis
      proof (cases "identityKey (rp_Locator q) \<in> (identityKey \<circ> pp_locator \<circ> snd) ` set (si_pending x)")
        case True
        then obtain k item where i: "(k, item) \<in> set (si_pending x)" "identityKey (rp_Locator q) = identityKey (pp_locator item)" by auto
        have v: "Locator_Validate (rp_Locator q) = None" using l by (simp add: Projection_Validate_def)
        note w = session_tx_okD(1) [OF assms(1) i(1)]
        have "loc_SchemaVersion (rp_Locator q) = loc_SchemaVersion (pp_locator item)" using v w by (simp add: Locator_Validate_def)
        with identityKey_inj [OF v w i(2)] q(3) have "EqualIdentity (pp_locator item) l" by (simp add: EqualIdentity_def)
        with i(1) show ?thesis by blast
      next
        case False
        then have "gone_projection (si_epoch x) (si_revision x) (st_now s) q \<in> set gone" using l gone by simp
        from bspec [OF ng [unfolded written_to_None] this] l show ?thesis by (simp only: gone_identity simp_thms)
      qed
    qed
  qed
qed


definition demo_response :: meshSessionsListResponse where
  "demo_response = \<lparr>in_SourceEpoch = ''e'', in_SourceRevision = 2, in_ProfileScopes = [''root''], in_Items = [peer_summary []], in_NextCursor = []\<rparr>"

definition empty_store :: store where
  "empty_store = \<lparr>st_sessions = [], st_bindings = [], st_artifacts = [], st_remote_artifacts = [], st_peers = [],
     st_now = 5, st_watchers = [], st_nextWatcherID = 0, st_changeSeq = 0, st_faults = []\<rparr>"

definition syncing_peer :: PeerState where
  "syncing_peer = (new_peer ''d'')\<lparr>ps_Freshness := FreshnessSyncing, ps_SourceEpoch := ''e'', ps_UpdatedAt := 5, ps_SessionFreshness := FreshnessSyncing,
     ps_SessionFreshnessChangedAt := 5\<rparr>"

definition syncing_store :: store where
  "syncing_store = empty_store\<lparr>st_peers := [([''peers'', ''d.json''], File syncing_peer)], st_changeSeq := 1\<rparr>"

definition demo_x :: "(string \<times> pendingProjection) list \<Rightarrow> SessionInventorySnapshot" where
  "demo_x pending = \<lparr>si_deviceID = ''d'', si_epoch = ''e'', si_revision = 2, si_scopes = [''root''], si_closed = False, si_pending = pending\<rparr>"

lemma syncing_peer_ok: "Peer_Validate syncing_peer = None"
  by (simp add: syncing_peer_def new_peer_def Peer_Validate_def SchemaVersion_def validateID_def Freshness_Validate_def
      validateInventoryFreshness_def maxDesiredTopics_def)

lemma mirror_begin: "BeginSessionInventory demo_golib ''d'' [''root''] ''e'' 2 empty_store = (syncing_store, Inr (demo_x []))"
proof -
  have l: "lookup_peer empty_store ''d'' = Inr None" by (simp add: lookup_peer_def getPeerLocked_def readJSONFile_def empty_store_def)
  have i: "initializeLegacyTopicFreshness (new_peer ''d'') = new_peer ''d''"
    by (simp add: initializeLegacyTopicFreshness_def new_peer_def)
  have p: "recomputePeerFreshness ((new_peer ''d'')\<lparr>ps_SourceEpoch := ''e'', ps_UpdatedAt := 5, ps_SessionFreshness := FreshnessSyncing,
     ps_SessionFreshnessChangedAt := 5\<rparr>) = syncing_peer"
    by (simp add: recomputePeerFreshness_def new_peer_def syncing_peer_def)
  have dev: "ps_DeviceID syncing_peer = ''d''" by (simp add: syncing_peer_def new_peer_def)
  have w: "writePeerLocked syncing_peer empty_store = (empty_store\<lparr>st_peers := [([''peers'', ''d.json''], File syncing_peer)]\<rparr>, Inr ())"
    by (simp add: writePeerLocked_def syncing_peer_ok dev seq_op_def bind_op_def check_op_def lift_op_def writeJSONLocked_def next_fault_def empty_store_def)
  have n: "st_now empty_store = 5" "st_sessions empty_store = []" by (simp_all add: empty_store_def)
  have list: "listRemoteSessionsLocked demo_golib empty_store ''d'' [] = Inr []" by (simp add: listRemoteSessionsLocked_def collectJSONFiles_def n)
  have m: "markSessionInventorySyncingLocked demo_golib ''d'' ''e'' empty_store = (syncing_store, Inr ())"
    unfolding markSessionInventorySyncingLocked_def markPeerInventoriesSyncingLocked_def
    by (simp add: bind_op_def seq_op_def get_op_def read_op_def n list mark_sessions_def ret_op_def l peer_or_new_def i p w mod_op_def publishLocked_def)
      (simp add: empty_store_def syncing_store_def)
  show ?thesis
    by (simp add: BeginSessionInventory_def validateID_def positive_revision_def ProfileScope_Validate_def RootProfileScope_def
        seq_op_def bind_op_def check_op_def lift_op_def read_op_def validateSessionInventoryCursorLocked_def l m ret_op_def demo_x_def)
qed

definition demo_item :: pendingProjection where
  "demo_item = \<lparr>pp_locator = remote_locator ''d'' (peer_summary []), pp_metadata = ''{}''\<rparr>"

lemma demo_remote: "Locator_Validate (remote_locator ''d'' (peer_summary [])) = None" "loc_DeviceID (remote_locator ''d'' (peer_summary [])) = ''d''"
    "loc_ProfileScope (remote_locator ''d'' (peer_summary [])) = ''root''"
  by (simp_all add: Locator_Validate_def remote_locator_def peer_summary_def SchemaVersion_def validateID_def ProfileScope_Validate_def RootProfileScope_def
      safeID_def id_shape_def char_class_defs byte_of_def)

lemma demo_upsert:
  "upsert_sessions demo_golib ''d'' [(peer_summary [], ''{}'')] (demo_x []) = Inr (demo_x [(session_key (pp_locator demo_item), demo_item)])"
  by (simp add: SessionInventory_Upsert_def demo_x_def demo_remote demo_item_def)

lemma demo_store_commit: "\<exists>s'. commitSessionInventory demo_golib (demo_x [(session_key (pp_locator demo_item), demo_item)]) syncing_store = (s', Inr ())"
proof -
  let ?x = "demo_x [(session_key (pp_locator demo_item), demo_item)]"
  have st: "st_sessions syncing_store = []" "st_now syncing_store = 5" "st_peers syncing_store = [([''peers'', ''d.json''], File syncing_peer)]" "st_faults syncing_store = []"
    by (simp_all add: syncing_store_def empty_store_def)
  have dev: "ps_DeviceID syncing_peer = ''d''" by (simp add: syncing_peer_def new_peer_def)
  have l: "lookup_peer syncing_store ''d'' = Inr (Some syncing_peer)"
    by (simp add: lookup_peer_def getPeerLocked_def readJSONFile_def st syncing_peer_ok dev)
  have list: "listRemoteSessionsLocked demo_golib syncing_store ''d'' [] = Inr []" by (simp add: listRemoteSessionsLocked_def collectJSONFiles_def st)
  have gate: "validateSessionInventoryCursorLocked ''d'' ''e'' 2 syncing_store = Inr ()"
    by (simp add: validateSessionInventoryCursorLocked_def l) (simp add: syncing_peer_def new_peer_def)
  define peer where "peer = committed_peer ?x 5 [] syncing_peer"
  have p: "Peer_Validate peer = None" "ps_DeviceID peer = ''d''"
    unfolding peer_def
    by (simp_all add: committed_peer_def all_scopes_def demo_x_def syncing_peer_def new_peer_def Let_def recomputePeerFreshness_def Peer_Validate_def
        SchemaVersion_def validateID_def Freshness_Validate_def validateInventoryFreshness_def maxDesiredTopics_def ProfileScope_Validate_def RootProfileScope_def
        Cursor_Validate_def)
  obtain path where path: "remoteSessionPath (pp_locator demo_item) = Inr path" using valid_session_path demo_remote(1) unfolding demo_item_def by auto
  have v: "Projection_Validate demo_golib (fresh_projection ''e'' 2 5 demo_item) = None"
    by (simp add: Projection_Validate_def fresh_projection_def SchemaVersion_def demo_item_def demo_remote validateID_def Freshness_Validate_def)
  have "snd (write_session_batch demo_golib ?x syncing_peer [] 5 syncing_store) = Inr ()"
    unfolding write_session_batch_def Let_def peer_def [symmetric]
    using p v path
    by (simp add: demo_x_def pending_items_def write_present_def write_gone_def writeRemoteSessionLocked_def writeJSONLocked_def next_fault_def seq_op_def bind_op_def
        publishLocked_def writePeerLocked_def st fresh_projection_def check_op_def lift_op_def mod_op_def ret_op_def Let_def)
  then show ?thesis
    by (simp add: commitSessionInventory_def seq_op_def bind_op_def read_op_def get_op_def demo_x_def gate l list peer_or_new_def st prod_eq_iff)
qed

lemma demo_mirror: "\<exists>s'. commitRemoteSessions demo_golib (\<lambda>_. Some ''{}'') year_2000 ''d'' demo_response empty_store = (s', Inr ())"
proof -
  have "meshSanitizeSummary year_2000 (peer_summary []) = Inr (peer_summary [])" by (rule demo_sanitize) simp_all
  then have m: "meshAcceptSummary year_2000 (peer_summary []) = Inr (peer_summary [])"
    by (simp add: meshAcceptSummary_def peer_summary_def accept_cwd_def has_prefix_def)
  have "View_Locator_Validate (sv_Locator (peer_summary [])) = None" using sanitize_accepted [OF \<open>meshSanitizeSummary year_2000 (peer_summary []) = Inr (peer_summary [])\<close>] by (simp add: accepted_summary_def)
  then have "accept_session (\<lambda>_. Some ''{}'') year_2000 [''root''] (peer_summary []) = Inr (peer_summary [], ''{}'')"
    by (simp add: accept_session_def m) (simp add: peer_summary_def)
  moreover have "declared_scopes [] [''root''] = Inr [''root'']" by (simp add: Scope_Validate_def View_RootProfileScope_def)
  ultimately show ?thesis
    using demo_store_commit demo_upsert
    by (auto simp: commitRemoteSessions_def demo_response_def mirror_begin SessionInventory_Commit_def seq_op_def ret_op_def demo_x_def)
qed


section \<open>The worker of a peer\<close>

text \<open>
  One slot of \<open>app.syncing\<close> and the goroutine that \<open>scheduleMeshSync\<close> starts for it. Every step is a critical section or
  a read of the code, so the steps of other goroutines come between any two of them. The last three fields are for the
  proof only: the requests so far, how many of them came before the last pass began, and whether the last worker ended
  because it saw no runtime or no topic.
\<close>

record meshSyncState =
  ss_dirty :: bool
  ss_resubscribe :: bool

datatype worker_pc = NoWorker | LoopTop | ReadTopics | Fetching "string list" | Fetched "string list" | Resubscribing "string list" | Settling | GivingUp

record sync_worker =
  sw_slot :: "meshSyncState option"
  sw_pc :: worker_pc
  sw_running :: bool
  sw_topics :: "string list"
  sw_edges :: nat
  sw_covered :: nat
  sw_quit :: bool

definition scheduleMeshSync :: "bool \<Rightarrow> sync_worker \<Rightarrow> sync_worker" where
  "scheduleMeshSync resubscribe s =
     (if \<not> sw_running s then s
      else case sw_slot s of
        Some state \<Rightarrow> s\<lparr>sw_slot := Some \<lparr>ss_dirty = True, ss_resubscribe = ss_resubscribe state \<or> resubscribe\<rparr>, sw_edges := Suc (sw_edges s)\<rparr>
      | None \<Rightarrow> s\<lparr>sw_slot := Some \<lparr>ss_dirty = False, ss_resubscribe = resubscribe\<rparr>, sw_pc := LoopTop, sw_edges := Suc (sw_edges s), sw_quit := False\<rparr>)"

definition finishMeshSync :: "sync_worker \<Rightarrow> sync_worker" where
  "finishMeshSync s = s\<lparr>sw_slot := None, sw_pc := NoWorker\<rparr>"

definition retryDirtyMeshSync :: "bool \<Rightarrow> sync_worker \<Rightarrow> sync_worker" where
  "retryDirtyMeshSync preserveResubscribe s =
     (case sw_slot s of
        None \<Rightarrow> s\<lparr>sw_pc := NoWorker\<rparr>
      | Some state \<Rightarrow>
          if ss_dirty state
          then s\<lparr>sw_slot := Some \<lparr>ss_dirty = False, ss_resubscribe = ss_resubscribe state \<or> preserveResubscribe\<rparr>, sw_pc := LoopTop\<rparr>
          else finishMeshSync s)"

text \<open>One step of the goroutine; \<open>ok\<close> is the outcome of the synchronisation or the subscription.\<close>

definition worker_step :: "bool \<Rightarrow> sync_worker \<Rightarrow> sync_worker" where
  "worker_step ok s =
     (case sw_pc s of
        NoWorker \<Rightarrow> s
      | LoopTop \<Rightarrow> if sw_running s then s\<lparr>sw_pc := ReadTopics\<rparr> else s\<lparr>sw_pc := GivingUp\<rparr>
      | ReadTopics \<Rightarrow> if sw_topics s = [] then s\<lparr>sw_pc := GivingUp\<rparr>
                       else s\<lparr>sw_pc := Fetching (sw_topics s), sw_covered := sw_edges s\<rparr>
      | Fetching topics \<Rightarrow> if ok then s\<lparr>sw_pc := Fetched topics\<rparr> else retryDirtyMeshSync False s
      | Fetched topics \<Rightarrow>
          (case sw_slot s of
             None \<Rightarrow> s\<lparr>sw_pc := Settling\<rparr>
           | Some state \<Rightarrow> s\<lparr>sw_slot := Some (state\<lparr>ss_resubscribe := False\<rparr>),
                              sw_pc := (if ss_resubscribe state then Resubscribing topics else Settling)\<rparr>)
      | Resubscribing topics \<Rightarrow> if ok then s\<lparr>sw_pc := Settling\<rparr> else retryDirtyMeshSync True s
      | Settling \<Rightarrow>
          (case sw_slot s of
             Some state \<Rightarrow> if ss_dirty state then s\<lparr>sw_slot := Some (state\<lparr>ss_dirty := False\<rparr>), sw_pc := LoopTop\<rparr> else finishMeshSync s
           | None \<Rightarrow> finishMeshSync s)
      | GivingUp \<Rightarrow> (finishMeshSync s)\<lparr>sw_quit := True\<rparr>)"

text \<open>What can happen: a request, a step of the worker, a change of the desired topics, and the end and begin of the runtime,
  which begins anew only after its workers ended.\<close>

inductive sync_step :: "sync_worker \<Rightarrow> sync_worker \<Rightarrow> bool" where
  request: "sync_step s (scheduleMeshSync resubscribe s)"
| work: "sync_step s (worker_step ok s)"
| topics: "sync_step s (s\<lparr>sw_topics := ts\<rparr>)"
| stop: "sync_step s (s\<lparr>sw_running := False\<rparr>)"
| start: "sw_pc s = NoWorker \<Longrightarrow> sync_step s (s\<lparr>sw_running := True\<rparr>)"

definition sync_init :: sync_worker where
  "sync_init = \<lparr>sw_slot = None, sw_pc = NoWorker, sw_running = False, sw_topics = [], sw_edges = 0, sw_covered = 0, sw_quit = False\<rparr>"

definition sync_reach :: "sync_worker \<Rightarrow> bool" where
  "sync_reach s \<longleftrightarrow> sync_step\<^sup>*\<^sup>* sync_init s"

definition sync_inv :: "sync_worker \<Rightarrow> bool" where
  "sync_inv s \<longleftrightarrow>
     (sw_slot s = None \<longleftrightarrow> sw_pc s = NoWorker) \<and> sw_covered s \<le> sw_edges s
     \<and> (sw_covered s < sw_edges s \<longrightarrow>
          sw_pc s \<in> {LoopTop, ReadTopics, GivingUp} \<or> (\<exists>state. sw_slot s = Some state \<and> ss_dirty state) \<or> sw_pc s = NoWorker \<and> sw_quit s)"

lemma inv_request: "sync_inv s \<Longrightarrow> sync_inv (scheduleMeshSync r s)"
  by (cases "sw_slot s") (auto simp: sync_inv_def scheduleMeshSync_def)

lemma inv_work: "sync_inv s \<Longrightarrow> sync_inv (worker_step ok s)"
  by (cases "sw_pc s"; cases "sw_slot s") (auto simp: sync_inv_def worker_step_def retryDirtyMeshSync_def finishMeshSync_def)

lemma inv_reach:
  assumes "sync_reach s"
  shows "sync_inv s"
  using assms unfolding sync_reach_def
proof (induction rule: rtranclp_induct)
  case base
  then show ?case by (simp add: sync_inv_def sync_init_def)
next
  case (step s t)
  from step(2) show ?case
  proof cases
    case (request r)
    show ?thesis unfolding request by (rule inv_request [OF step(3)])
  next
    case (work ok)
    show ?thesis unfolding work by (rule inv_work [OF step(3)])
  next
    case (topics ts)
    show ?thesis unfolding topics using step(3) by (simp add: sync_inv_def)
  next
    case stop
    show ?thesis unfolding stop using step(3) by (simp add: sync_inv_def)
  next
    case start
    show ?thesis unfolding start(1) using step(3) by (simp add: sync_inv_def)
  qed
qed

lemma reach_step: "sync_reach s \<Longrightarrow> sync_step s t \<Longrightarrow> sync_reach t"
  unfolding sync_reach_def by (rule rtranclp.rtrancl_into_rtrancl)

lemma reach_work: "sync_reach s \<Longrightarrow> sync_reach (fold worker_step outcomes s)"
proof (induction outcomes arbitrary: s)
  case (Cons ok outcomes)
  from Cons.IH [OF reach_step [OF Cons.prems sync_step.work]] show ?case by simp
qed simp

lemma reach_running: "sync_reach (sync_init\<lparr>sw_running := True\<rparr>)"
proof -
  have "sync_reach sync_init" unfolding sync_reach_def by (rule rtranclp.rtrancl_refl)
  moreover have "sw_pc sync_init = NoWorker" by (simp add: sync_init_def)
  ultimately show ?thesis by (rule reach_step [OF _ sync_step.start])
qed


fun pc_rank :: "worker_pc \<Rightarrow> nat" where
  "pc_rank NoWorker = 0"
| "pc_rank GivingUp = 1"
| "pc_rank Settling = 1"
| "pc_rank (Resubscribing _) = 2"
| "pc_rank (Fetched _) = 3"
| "pc_rank (Fetching _) = 4"
| "pc_rank ReadTopics = 5"
| "pc_rank LoopTop = 6"

definition sync_rank :: "sync_worker \<Rightarrow> nat" where
  "sync_rank s = pc_rank (sw_pc s) + (case sw_slot s of None \<Rightarrow> 0 | Some state \<Rightarrow> if ss_dirty state then 6 else 0)"

lemma rank_decreases:
  assumes "sync_inv s" "sw_pc s \<noteq> NoWorker"
  shows "sync_rank (worker_step ok s) < sync_rank s"
proof -
  obtain state where slot: "sw_slot s = Some state" using assms by (auto simp: sync_inv_def)
  then show ?thesis using assms(2)
    by (cases "sw_pc s") (simp_all add: sync_rank_def worker_step_def retryDirtyMeshSync_def finishMeshSync_def)
qed

lemma worker_rank: "sync_inv s \<Longrightarrow> sync_rank s \<le> length outcomes \<Longrightarrow> sw_pc (fold worker_step outcomes s) = NoWorker"
proof (induction outcomes arbitrary: s)
  case Nil
  then show ?case by (cases "sw_pc s") (auto simp: sync_rank_def)
next
  case (Cons ok outcomes)
  show ?case
  proof (cases "sw_pc s = NoWorker")
    case True
    then have "worker_step ok s = s" "sync_rank s = 0" using Cons.prems(1) by (simp_all add: worker_step_def sync_rank_def sync_inv_def)
    with Cons show ?thesis by simp
  next
    case False
    with rank_decreases [OF Cons.prems(1), of ok] Cons.prems have "sync_rank (worker_step ok s) \<le> length outcomes" by simp
    with Cons.IH [OF inv_work [OF Cons.prems(1)]] show ?thesis by simp
  qed
qed

text \<open>
  C39. A worker does not spin: from any state, whatever its synchronisations and subscriptions return, it ends within twelve
  of its steps if no new request comes.
\<close>

theorem sync_worker_ends:
  assumes "sync_reach s" "12 \<le> length outcomes"
  shows "sw_pc (fold worker_step outcomes s) = NoWorker"
proof (rule worker_rank [OF inv_reach [OF assms(1)]])
  have "pc_rank pc \<le> 6" for pc by (cases pc) auto
  from this [of "sw_pc s"] assms(2) show "sync_rank s \<le> length outcomes" by (auto simp: sync_rank_def split: option.split intro: le_trans)
qed


theorem sync_worker_ends_witness: "sw_pc (fold worker_step (replicate 12 True) sync_init) = NoWorker"
  using sync_worker_ends [of sync_init "replicate 12 True"] by (simp add: sync_reach_def)

text \<open>
  The exception is real: a worker that has read an empty list of topics drops the mark of a request that comes before it
  gives up its slot, so a change that a peer announces right after the operator subscribed waits for the periodic pass.
\<close>

theorem sync_request_dropped:
  "\<exists>s. sync_reach s \<and> sw_pc s = NoWorker \<and> sw_running s \<and> sw_topics s \<noteq> [] \<and> sw_covered s < sw_edges s"
proof -
  let ?a = "sync_init\<lparr>sw_running := True\<rparr>"
  let ?b = "scheduleMeshSync False ?a"
  let ?c = "worker_step True (worker_step True ?b)"
  let ?d = "?c\<lparr>sw_topics := [''sessions'']\<rparr>"
  let ?e = "worker_step True (scheduleMeshSync False ?d)"
  have "sync_reach ?b" by (rule reach_step [OF reach_running sync_step.request])
  then have "sync_reach ?c" by (intro reach_step [OF reach_step [OF _ sync_step.work] sync_step.work])
  then have "sync_reach ?e" by (intro reach_step [OF reach_step [OF reach_step [OF _ sync_step.topics] sync_step.request] sync_step.work])
  moreover have "sw_pc ?e = NoWorker \<and> sw_running ?e \<and> sw_topics ?e \<noteq> [] \<and> sw_covered ?e < sw_edges ?e"
    by (simp add: sync_init_def scheduleMeshSync_def worker_step_def finishMeshSync_def)
  ultimately show ?thesis by blast
qed

end
