(* ===== verification/Mesh_Subs.thy ===== *)
theory Mesh_Subs
  imports Mesh_Events Mesh_Peers Mesh_Sync
begin

text \<open>
  Subscriptions of the daemon (\<open>internal/daemon/mesh_application.go\<close>): which peers receive events from this device, the topics
  this device wants from others and their durable record, the pass that follows the connections, and the table of
  methods a peer can call. A mutex section is one function; the statuses that the manager reports and the answers of
  remote calls are arguments.
\<close>

section \<open>Subscriptions of peers\<close>

record meshPeerSubscription =
  mp_connectedAt :: time
  mp_topics :: "string list"
  mp_needsGap :: bool

record mesh_app =
  ma_subs :: "string \<Rightarrow> meshPeerSubscription option"
  ma_outbound :: "string \<Rightarrow> meshPeerSubscription option"
  ma_store :: store

datatype sub_error = Topics export_error | NotConnected | StoreFailed mesh_error | MeshDisabled | CallFailed | ChangedTopics

definition meshConnectedAt :: "Status list \<Rightarrow> string \<Rightarrow> time option" where
  "meshConnectedAt statuses peer =
     (case List.find (\<lambda>s. sx_PeerID s = peer \<and> sx_State s = ''connected'' \<and> sx_ConnectedAt s \<noteq> None) statuses of
        None \<Rightarrow> None
      | Some s \<Rightarrow> sx_ConnectedAt s)"

definition replacePeerSubscription :: "Status list \<Rightarrow> string \<Rightarrow> string list \<Rightarrow> mesh_app \<Rightarrow> mesh_app \<times> sub_error option" where
  "replacePeerSubscription statuses peer topics app =
     (case meshConnectedAt statuses peer of
        None \<Rightarrow> (app, Some NotConnected)
      | Some connectedAt \<Rightarrow>
          (app\<lparr>ma_subs := (ma_subs app)(peer :=
             (if topics = [] then None else Some \<lparr>mp_connectedAt = connectedAt, mp_topics = remdups topics, mp_needsGap = False\<rparr>))\<rparr>, None))"

definition clearPeerSubscription :: "string \<Rightarrow> mesh_app \<Rightarrow> mesh_app" where
  "clearPeerSubscription peer app = app\<lparr>ma_subs := (ma_subs app)(peer := None)\<rparr>"

definition clearSubscriptionUnlessConnection :: "string \<Rightarrow> time \<Rightarrow> mesh_app \<Rightarrow> mesh_app" where
  "clearSubscriptionUnlessConnection peer connectedAt app =
     (case ma_subs app peer of
        Some current \<Rightarrow> if mp_connectedAt current \<noteq> connectedAt then clearPeerSubscription peer app else app
      | None \<Rightarrow> app)"

definition subscribedToAny :: "meshPeerSubscription \<Rightarrow> string list \<Rightarrow> bool" where
  "subscribedToAny subscription topics = list_ex (\<lambda>t. t \<in> set (mp_topics subscription)) topics"

definition stopRuntime :: "mesh_app \<Rightarrow> mesh_app" where
  "stopRuntime app = app\<lparr>ma_subs := (\<lambda>_. None)\<rparr>"

text \<open>The handlers of \<open>events.subscribe\<close> and \<open>events.unsubscribe\<close>.\<close>

definition events_subscribe :: "Status list \<Rightarrow> Principal \<Rightarrow> string list \<Rightarrow> mesh_app \<Rightarrow> mesh_app \<times> (sub_error + string list)" where
  "events_subscribe statuses who topics app =
     (case validateMeshTopics topics of
        Inl e \<Rightarrow> (app, Inl (Topics e))
      | Inr topics \<Rightarrow>
          (case authorizeMeshTopics who topics of
             Some e \<Rightarrow> (app, Inl (Topics e))
           | None \<Rightarrow>
               (case replacePeerSubscription statuses (pr_PeerID who) topics app of
                  (app, Some e) \<Rightarrow> (app, Inl e)
                | (app, None) \<Rightarrow> (app, Inr topics))))"

definition events_unsubscribe :: "Principal \<Rightarrow> mesh_app \<Rightarrow> mesh_app \<times> (sub_error + string list)" where
  "events_unsubscribe who app = (clearPeerSubscription (pr_PeerID who) app, Inr [])"

section \<open>Forwarding\<close>

definition markMeshGap :: "string \<Rightarrow> time \<Rightarrow> mesh_app \<Rightarrow> mesh_app" where
  "markMeshGap peer connectedAt app =
     (case ma_subs app peer of
        Some subscription \<Rightarrow>
          if mp_connectedAt subscription = connectedAt
          then app\<lparr>ma_subs := (ma_subs app)(peer \<mapsto> subscription\<lparr>mp_needsGap := True\<rparr>)\<rparr> else app
      | None \<Rightarrow> app)"

text \<open>
  One iteration of \<open>sendMeshEventToTopics\<close>, for a peer and its subscription in the snapshot, and one of \<open>retryMeshGaps\<close>, for a peer and
  the connection it had when a gap was found to be owed. The last component tells whether the event was accepted.
\<close>

definition send_one ::
  "event_codec \<Rightarrow> Registry \<Rightarrow> Status list \<Rightarrow> string list \<Rightarrow> MeshEvent \<Rightarrow> string \<Rightarrow> meshPeerSubscription \<Rightarrow> mesh_app \<Rightarrow> links \<Rightarrow> mesh_app \<times> links \<times> bool" where
  "send_one ec r statuses topics event peer subscription app ls =
     (if meshConnectedAt statuses peer \<noteq> Some (mp_connectedAt subscription) \<or> \<not> subscribedToAny subscription topics then (app, ls, False)
      else case SendEvent ec r peer event ls of
        (ls', None) \<Rightarrow> (app, ls', True)
      | (ls', Some (Queue Backpressure)) \<Rightarrow> (markMeshGap peer (mp_connectedAt subscription) app, ls', False)
      | (ls', Some _) \<Rightarrow> (app, ls', False))"

definition gap_event :: MeshEvent where
  "gap_event = \<lparr>vt_Name = ''events.gap'', vt_Data = ''{\"reason\":\"sender_backpressure\"}''\<rparr>"

definition retry_one :: "event_codec \<Rightarrow> Registry \<Rightarrow> Status list \<Rightarrow> string \<Rightarrow> time \<Rightarrow> mesh_app \<Rightarrow> links \<Rightarrow> mesh_app \<times> links \<times> bool" where
  "retry_one ec r statuses peer expectedConnection app ls =
     (if meshConnectedAt statuses peer \<noteq> Some expectedConnection then (app, ls, False)
      else case SendEvent ec r peer gap_event ls of
        (ls', Some _) \<Rightarrow> (app, ls', False)
      | (ls', None) \<Rightarrow>
          ((case ma_subs app peer of
              Some subscription \<Rightarrow>
                if mp_connectedAt subscription = expectedConnection
                then app\<lparr>ma_subs := (ma_subs app)(peer \<mapsto> subscription\<lparr>mp_needsGap := False\<rparr>)\<rparr> else app
            | None \<Rightarrow> app), ls', True))"

section \<open>Desired topics\<close>

definition desiredMeshTopics :: "string \<Rightarrow> mesh_app \<Rightarrow> string list" where
  "desiredMeshTopics peer app = (case ma_outbound app peer of None \<Rightarrow> [] | Some subscription \<Rightarrow> sort (mp_topics subscription))"

definition meshSubscriptionNeedsRestore :: "Status list \<Rightarrow> string \<Rightarrow> mesh_app \<Rightarrow> bool" where
  "meshSubscriptionNeedsRestore statuses peer app =
     (case meshConnectedAt statuses peer of
        None \<Rightarrow> False
      | Some connectedAt \<Rightarrow> (case ma_outbound app peer of None \<Rightarrow> False | Some subscription \<Rightarrow> mp_connectedAt subscription \<noteq> connectedAt))"

definition outbound_entry :: "time \<Rightarrow> string list \<Rightarrow> meshPeerSubscription option" where
  "outbound_entry connectedAt topics =
     (if topics = [] then None else Some \<lparr>mp_connectedAt = connectedAt, mp_topics = remdups topics, mp_needsGap = False\<rparr>)"

definition setDesiredMeshTopics :: "string \<Rightarrow> string list \<Rightarrow> time \<Rightarrow> mesh_app \<Rightarrow> mesh_app \<times> sub_error option" where
  "setDesiredMeshTopics peer topics connectedAt app =
     (case SetDesiredTopics peer topics (ma_store app) of
        (s, Inl e) \<Rightarrow> (app\<lparr>ma_store := s\<rparr>, Some (StoreFailed e))
      | (s, Inr _) \<Rightarrow> (app\<lparr>ma_store := s, ma_outbound := (ma_outbound app)(peer := outbound_entry connectedAt topics)\<rparr>, None))"

definition sameTopicSet :: "string list \<Rightarrow> string list \<Rightarrow> bool" where
  "sameTopicSet left right \<longleftrightarrow> length left = length right \<and> list_all (\<lambda>t. t \<in> set right) left"

definition restoreDesiredMeshPeer :: "string \<Rightarrow> mesh_app \<Rightarrow> mesh_app \<times> sub_error option" where
  "restoreDesiredMeshPeer peer app =
     (case (case DesiredTopics peer (ma_store app) of Inl ErrNotFound \<Rightarrow> Inr [] | res \<Rightarrow> res) of
        Inl e \<Rightarrow> (app, Some (StoreFailed e))
      | Inr topics \<Rightarrow>
          (case validateMeshTopics topics of
             Inl e \<Rightarrow> (app, Some (Topics e))
           | Inr topics \<Rightarrow>
               let connectedAt = (case ma_outbound app peer of
                     Some active \<Rightarrow> if sameTopicSet (mp_topics active) (remdups topics) then mp_connectedAt active else 0
                   | None \<Rightarrow> 0)
               in (app\<lparr>ma_outbound := (ma_outbound app)(peer := outbound_entry connectedAt topics)\<rparr>, None)))"

text \<open>\<open>statuses\<close> is \<open>None\<close> when the mesh is disabled; \<open>call\<close> is the answer of the remote call.\<close>

definition SubscribeMeshPeer ::
  "Status list option \<Rightarrow> sub_error + string list \<Rightarrow> string \<Rightarrow> string list \<Rightarrow> mesh_app \<Rightarrow> mesh_app \<times> (sub_error + string list)" where
  "SubscribeMeshPeer statuses call peer topics app =
     (case validateMeshTopics topics of
        Inl e \<Rightarrow> (app, Inl (Topics e))
      | Inr topics \<Rightarrow>
          (case setDesiredMeshTopics peer topics 0 app of
             (app, Some e) \<Rightarrow> (app, Inl e)
           | (app, None) \<Rightarrow>
               (case statuses of
                  None \<Rightarrow> (app, Inl MeshDisabled)
                | Some sts \<Rightarrow>
                    (case call of
                       Inl e \<Rightarrow> (app, Inl e)
                     | Inr response \<Rightarrow>
                         (case validateMeshTopics response of
                            Inl e \<Rightarrow> (app, Inl (Topics e))
                          | Inr accepted \<Rightarrow>
                              if topics \<noteq> accepted then (app, Inl ChangedTopics)
                              else (case meshConnectedAt sts peer of
                                 None \<Rightarrow> (app, Inl NotConnected)
                               | Some connectedAt \<Rightarrow>
                                   (case setDesiredMeshTopics peer accepted connectedAt app of
                                      (app, Some e) \<Rightarrow> (app, Inl e)
                                    | (app, None) \<Rightarrow> (app, Inr accepted))))))))"

definition UnsubscribeMeshPeer :: "Status list option \<Rightarrow> sub_error + string list \<Rightarrow> string \<Rightarrow> mesh_app \<Rightarrow> mesh_app \<times> sub_error option" where
  "UnsubscribeMeshPeer statuses call peer app =
     (case setDesiredMeshTopics peer [] 0 app of
        (app, Some e) \<Rightarrow> (app, Some e)
      | (app, None) \<Rightarrow>
          (case statuses of
             None \<Rightarrow> (app, Some MeshDisabled)
           | Some _ \<Rightarrow> (app, case call of Inl e \<Rightarrow> Some e | Inr _ \<Rightarrow> None)))"

section \<open>Following the connections\<close>

text \<open>
  \<open>reconcileMeshStatuses\<close>. \<open>known\<close> gives the connection a peer had at the last pass, 0 when it had none; the last component are the
  peers for which a synchronisation with a new subscription is scheduled. Errors of the store are only logged.
\<close>

definition reconcile_status ::
  "golib \<Rightarrow> Status \<Rightarrow> mesh_app \<times> (string \<times> time) list \<times> string list \<Rightarrow> mesh_app \<times> (string \<times> time) list \<times> string list" where
  "reconcile_status g status w =
     (case w of (app, known, scheduled) \<Rightarrow>
        let peer = sx_PeerID status in
        (case (if sx_State status = ''connected'' then sx_ConnectedAt status else None) of
           Some connectedAt \<Rightarrow>
             let app = fst (restoreDesiredMeshPeer peer app) in
             if map_of known peer \<noteq> Some connectedAt
             then (clearSubscriptionUnlessConnection peer connectedAt app, AList.update peer connectedAt known, scheduled @ [peer])
             else (app, known, scheduled)
         | None \<Rightarrow>
             if map_of known peer \<noteq> Some 0
             then let app = clearPeerSubscription peer app in
               (app\<lparr>ma_store := fst (MarkPeerDisconnected g peer (ma_store app))\<rparr>, AList.update peer 0 known, scheduled)
             else (app, known, scheduled)))"

definition forget_peer :: "golib \<Rightarrow> string \<times> time \<Rightarrow> mesh_app \<Rightarrow> mesh_app" where
  "forget_peer g item app =
     (let app = clearPeerSubscription (fst item) app in
      if snd item \<noteq> 0 then app\<lparr>ma_store := fst (MarkPeerDisconnected g (fst item) (ma_store app))\<rparr> else app)"

definition reconcileMeshStatuses ::
  "golib \<Rightarrow> Status list \<Rightarrow> (string \<times> time) list \<Rightarrow> mesh_app \<Rightarrow> mesh_app \<times> (string \<times> time) list \<times> string list" where
  "reconcileMeshStatuses g statuses known app =
     (case fold (reconcile_status g) statuses (app, known, []) of (app, known, scheduled) \<Rightarrow>
        let seen = (\<lambda>(peer, _). peer \<in> sx_PeerID ` set statuses) in
        (fold (forget_peer g) (filter (\<lambda>e. \<not> seen e) known) app, filter seen known, scheduled))"

section \<open>Who receives events\<close>

text \<open>
  Everything that touches the subscriptions, in any order. A snapshot that \<open>sendMeshEventToTopics\<close> has taken and a debt that
  \<open>retryMeshGaps\<close> has read stay usable later, with whatever statuses and connections there are then; \<open>su_sent\<close> records the
  events that were accepted for a peer and the topics they were about.
\<close>

record subs_world =
  su_app :: mesh_app
  su_snapshots :: "(string list \<times> MeshEvent \<times> (string \<Rightarrow> meshPeerSubscription option)) list"
  su_owed :: "(string \<times> meshPeerSubscription) list"
  su_sent :: "(string \<times> string list \<times> MeshEvent) list"

inductive subs_step :: "event_codec \<Rightarrow> Registry \<Rightarrow> golib \<Rightarrow> subs_world \<Rightarrow> subs_world \<Rightarrow> bool" for ec r g where
  subscribe: "subs_step ec r g w (w\<lparr>su_app := fst (events_subscribe statuses (principalFor r peer) topics (su_app w))\<rparr>)"
| unsubscribe: "subs_step ec r g w (w\<lparr>su_app := fst (events_unsubscribe (principalFor r peer) (su_app w))\<rparr>)"
| forward: "subs_step ec r g w (w\<lparr>su_snapshots := (topics, event, ma_subs (su_app w)) # su_snapshots w\<rparr>)"
| deliver: "(topics, event, snapshot) \<in> set (su_snapshots w) \<Longrightarrow> snapshot peer = Some subscription \<Longrightarrow>
    send_one ec r statuses topics event peer subscription (su_app w) ls = (app', ls', accepted) \<Longrightarrow>
    subs_step ec r g w (w\<lparr>su_app := app', su_sent := (if accepted then [(peer, topics, event)] else []) @ su_sent w\<rparr>)"
| mark: "subs_step ec r g w (w\<lparr>su_app := markMeshGap peer connectedAt (su_app w)\<rparr>)"
| owe: "ma_subs (su_app w) peer = Some subscription \<Longrightarrow> mp_needsGap subscription \<Longrightarrow>
    subs_step ec r g w (w\<lparr>su_owed := (peer, subscription) # su_owed w\<rparr>)"
| retry: "(peer, subscription) \<in> set (su_owed w) \<Longrightarrow>
    retry_one ec r statuses peer (mp_connectedAt subscription) (su_app w) ls = (app', ls', accepted) \<Longrightarrow>
    subs_step ec r g w (w\<lparr>su_app := app', su_sent := (if accepted then [(peer, mp_topics subscription, gap_event)] else []) @ su_sent w\<rparr>)"
| reconcile: "subs_step ec r g w (w\<lparr>su_app := fst (reconcileMeshStatuses g statuses known (su_app w))\<rparr>)"
| stop: "subs_step ec r g w (w\<lparr>su_app := stopRuntime (su_app w)\<rparr>)"
| desire: "subs_step ec r g w (w\<lparr>su_app := fst (SubscribeMeshPeer sts call peer topics (su_app w))\<rparr>)"
| cancel: "subs_step ec r g w (w\<lparr>su_app := fst (UnsubscribeMeshPeer sts call peer (su_app w))\<rparr>)"

definition subs_init :: "store \<Rightarrow> subs_world" where
  "subs_init s = \<lparr>su_app = \<lparr>ma_subs = (\<lambda>_. None), ma_outbound = (\<lambda>_. None), ma_store = s\<rparr>, su_snapshots = [], su_owed = [], su_sent = []\<rparr>"

definition subs_reach :: "event_codec \<Rightarrow> Registry \<Rightarrow> golib \<Rightarrow> store \<Rightarrow> subs_world \<Rightarrow> bool" where
  "subs_reach ec r g s = (subs_step ec r g)\<^sup>*\<^sup>* (subs_init s)"

definition granted :: "Registry \<Rightarrow> string \<Rightarrow> string \<Rightarrow> bool" where
  "granted r peer t \<longleftrightarrow> (\<exists>scope. topic_scope t = Some scope \<and> HasScope (principalFor r peer) scope)"

definition granted_sub :: "Registry \<Rightarrow> string \<Rightarrow> meshPeerSubscription \<Rightarrow> bool" where
  "granted_sub r peer sub \<longleftrightarrow> mp_topics sub \<noteq> [] \<and> (\<forall>t \<in> set (mp_topics sub). granted r peer t)"

definition granted_subs :: "Registry \<Rightarrow> (string \<Rightarrow> meshPeerSubscription option) \<Rightarrow> bool" where
  "granted_subs r subs \<longleftrightarrow> (\<forall>peer sub. subs peer = Some sub \<longrightarrow> granted_sub r peer sub)"

definition subs_inv :: "Registry \<Rightarrow> subs_world \<Rightarrow> bool" where
  "subs_inv r w \<longleftrightarrow> granted_subs r (ma_subs (su_app w)) \<and> (\<forall>(_, _, snapshot) \<in> set (su_snapshots w). granted_subs r snapshot)
     \<and> (\<forall>(peer, sub) \<in> set (su_owed w). granted_sub r peer sub)
     \<and> (\<forall>(peer, topics, event) \<in> set (su_sent w). HasScope (principalFor r peer) ScopeEventsRead \<and> (\<exists>t \<in> set topics. granted r peer t))"

lemma principal_peer [simp]: "pr_PeerID (principalFor r peer) = peer"
  by (simp add: principalFor_def)

lemma granted_subs_upd: "granted_subs r subs \<Longrightarrow> (\<And>sub. new = Some sub \<Longrightarrow> granted_sub r peer sub) \<Longrightarrow> granted_subs r (subs(peer := new))"
  by (auto simp: granted_subs_def)

lemma subscribe_granted:
  assumes "granted_subs r (ma_subs app)"
  shows "granted_subs r (ma_subs (fst (events_subscribe statuses (principalFor r peer) topics app)))"
proof -
  have "granted r peer t" if "authorizeMeshTopics (principalFor r peer) ts = None" "t \<in> set ts" for ts t
    using that by (auto simp: authorizeMeshTopics_def first_err_None granted_def fail_if_def split: option.splits if_splits)
  then show ?thesis using assms
    by (auto simp: events_subscribe_def replacePeerSubscription_def granted_sub_def split: sum.split option.split intro!: granted_subs_upd)
qed

lemma clear_granted [simp]: "granted_subs r (ma_subs app) \<Longrightarrow> granted_subs r (ma_subs (clearPeerSubscription peer app))"
  by (auto simp: clearPeerSubscription_def intro!: granted_subs_upd)

lemma clear_unless_granted [simp]: "granted_subs r (ma_subs app) \<Longrightarrow> granted_subs r (ma_subs (clearSubscriptionUnlessConnection peer connectedAt app))"
  by (simp add: clearSubscriptionUnlessConnection_def split: option.split)

lemma mark_granted [simp]: "granted_subs r (ma_subs app) \<Longrightarrow> granted_subs r (ma_subs (markMeshGap peer connectedAt app))"
  unfolding markMeshGap_def by (auto split: option.split intro!: granted_subs_upd) (auto simp: granted_subs_def granted_sub_def)

lemma set_desired_subs [simp]: "ma_subs (fst (setDesiredMeshTopics peer topics connectedAt app)) = ma_subs app"
  by (simp add: setDesiredMeshTopics_def split: prod.split sum.split)

lemma restore_subs [simp]: "ma_subs (fst (restoreDesiredMeshPeer peer app)) = ma_subs app"
  by (simp add: restoreDesiredMeshPeer_def Let_def split: sum.split mesh_error.split)

lemma set_desired_keeps: "setDesiredMeshTopics peer topics connectedAt app = (app', e) \<Longrightarrow> ma_subs app' = ma_subs app"
  using set_desired_subs [of peer topics connectedAt app] by simp

lemma unsubscribe_subs [simp]: "ma_subs (fst (UnsubscribeMeshPeer sts call peer app)) = ma_subs app"
  by (auto simp: UnsubscribeMeshPeer_def split: prod.split option.split dest: set_desired_keeps)

lemma subscribe_subs [simp]: "ma_subs (fst (SubscribeMeshPeer sts call peer topics app)) = ma_subs app"
  unfolding SubscribeMeshPeer_def by (auto split: sum.split prod.split option.split dest!: set_desired_keeps)

lemma reconcile_status_granted:
  "granted_subs r (ma_subs (fst w)) \<Longrightarrow> granted_subs r (ma_subs (fst (reconcile_status g status w)))"
  by (cases w) (simp add: reconcile_status_def Let_def split: option.split)

lemma forget_granted: "granted_subs r (ma_subs app) \<Longrightarrow> granted_subs r (ma_subs (forget_peer g item app))"
  by (simp add: forget_peer_def Let_def)

lemma reconcile_granted:
  assumes "granted_subs r (ma_subs app)"
  shows "granted_subs r (ma_subs (fst (reconcileMeshStatuses g statuses known app)))"
proof -
  have 1: "granted_subs r (ma_subs (fst (fold (reconcile_status g) sts w)))" if "granted_subs r (ma_subs (fst w))" for sts w
    using that by (induction sts arbitrary: w) (simp_all add: reconcile_status_granted)
  have 2: "granted_subs r (ma_subs (fold (forget_peer g) items a))" if "granted_subs r (ma_subs a)" for items a
    using that by (induction items arbitrary: a) (simp_all add: forget_granted)
  obtain a known' scheduled where f: "fold (reconcile_status g) statuses (app, known, []) = (a, known', scheduled)" by (metis prod_cases3)
  have "granted_subs r (ma_subs a)" using 1 [of "(app, known, [])" statuses] assms f by simp
  then show ?thesis using 2 by (simp add: reconcileMeshStatuses_def Let_def f)
qed

lemma accepted_scope: "SendEvent ec r peer event ls = (ls', None) \<Longrightarrow> HasScope (principalFor r peer) ScopeEventsRead"
  by (auto simp: SendEvent_def split: option.splits if_splits prod.splits)

lemma send_one_granted:
  assumes "send_one ec r statuses topics event peer sub app ls = (app', ls', accepted)" "granted_subs r (ma_subs app)" "granted_sub r peer sub"
  shows "granted_subs r (ma_subs app')" "accepted \<Longrightarrow> HasScope (principalFor r peer) ScopeEventsRead \<and> (\<exists>t \<in> set topics. granted r peer t)"
  using assms accepted_scope [of ec r peer event ls ls']
  by (auto simp: send_one_def subscribedToAny_def list_ex_iff granted_sub_def split: if_splits prod.splits option.splits send_error.splits call_error.splits)

lemma retry_one_granted:
  assumes "retry_one ec r statuses peer (mp_connectedAt sub) app ls = (app', ls', accepted)" "granted_subs r (ma_subs app)" "granted_sub r peer sub"
  shows "granted_subs r (ma_subs app')" "accepted \<Longrightarrow> HasScope (principalFor r peer) ScopeEventsRead \<and> (\<exists>t \<in> set (mp_topics sub). granted r peer t)"
proof -
  have "granted_subs r ((ma_subs app)(peer \<mapsto> s\<lparr>mp_needsGap := False\<rparr>))" if "ma_subs app peer = Some s" for s
    using assms(2) that by (intro granted_subs_upd) (auto simp: granted_subs_def granted_sub_def)
  then show "granted_subs r (ma_subs app')"
    using assms(1,2) by (auto simp: retry_one_def split: if_splits prod.splits option.splits)
  have "\<exists>t \<in> set (mp_topics sub). granted r peer t" using assms(3) by (cases "mp_topics sub") (auto simp: granted_sub_def)
  then show "accepted \<Longrightarrow> HasScope (principalFor r peer) ScopeEventsRead \<and> (\<exists>t \<in> set (mp_topics sub). granted r peer t)"
    using assms(1) accepted_scope [of ec r peer gap_event ls ls'] by (auto simp: retry_one_def split: if_splits prod.splits option.splits)
qed

lemma subs_inv_step:
  assumes "subs_step ec r g w w'" "subs_inv r w"
  shows "subs_inv r w'"
  using assms(1)
proof cases
  case (deliver topics event snapshot peer sub statuses ls app' ls' accepted)
  have "granted_sub r peer sub" using assms(2) deliver(2,3) by (fastforce simp: subs_inv_def granted_subs_def)
  note send_one_granted [OF deliver(4) _ this]
  then show ?thesis using assms(2) deliver(1) by (auto simp: subs_inv_def)
next
  case (retry peer sub statuses ls app' ls' accepted)
  have "granted_sub r peer sub" using assms(2) retry(2) by (fastforce simp: subs_inv_def)
  note retry_one_granted [OF retry(3) _ this]
  then show ?thesis using assms(2) retry(1) by (auto simp: subs_inv_def)
next
  case (owe peer sub)
  then show ?thesis using assms(2) by (auto simp: subs_inv_def granted_subs_def)
qed (use assms(2) in \<open>auto simp: subs_inv_def subscribe_granted reconcile_granted events_unsubscribe_def stopRuntime_def granted_subs_def [of _ "\<lambda>_. None"]\<close>)

text \<open>
  C9. Events go only to peers that may read them: in every order of subscriptions, forwarding, retries, reconnections and
  status passes, with stale snapshots of the subscriptions included, an event accepted for a peer is about a topic
  whose read scope the registry grants that peer, beside the scope for events.
\<close>

theorem event_only_to_granted:
  assumes "subs_reach ec r g s w" "(peer, topics, event) \<in> set (su_sent w)"
  shows "HasScope (principalFor r peer) ScopeEventsRead \<and> (\<exists>t \<in> set topics. \<exists>scope. topic_scope t = Some scope \<and> HasScope (principalFor r peer) scope)"
proof -
  have "subs_inv r w" using assms(1) unfolding subs_reach_def
  proof (induction rule: rtranclp_induct)
    case base show ?case by (simp add: subs_inv_def subs_init_def granted_subs_def)
  next
    case (step u v) then show ?case using subs_inv_step by blast
  qed
  then show ?thesis using assms(2) by (auto simp: subs_inv_def granted_def)
qed

section \<open>What the operator wants\<close>

lemma valid_topics:
  assumes "validateMeshTopics topics = Inr ts"
  shows "ts = sorted_list_of_set (set topics)" "validateMeshTopics ts = Inr ts" "sort (remdups ts) = ts"
proof -
  have v: "validateMeshTopics xs = Inr r \<longleftrightarrow> set xs \<subseteq> {meshTopicSessions, meshTopicArtifacts} \<and> r = sorted_list_of_set (set xs)" for xs r
    using topics_from_ok [of "[]" xs r] by (simp add: validateMeshTopics_def)
  show t: "ts = sorted_list_of_set (set topics)" using assms v by blast
  have "set ts = set topics" "sorted ts" "distinct ts" using t by simp_all
  then show "validateMeshTopics ts = Inr ts" "sort (remdups ts) = ts"
    using assms v t by (simp_all add: sorted_sort_id distinct_remdups_id)
qed

text \<open>The state after the topics of a peer were recorded: the store reads them again, and the entry agrees.\<close>

definition intends :: "string \<Rightarrow> string list \<Rightarrow> mesh_app \<Rightarrow> bool" where
  "intends peer ts app \<longleftrightarrow>
     (case DesiredTopics peer (ma_store app) of Inl ErrNotFound \<Rightarrow> ts = [] | Inl _ \<Rightarrow> False | Inr xs \<Rightarrow> xs = ts)
     \<and> desiredMeshTopics peer app = ts \<and> SetDesiredTopics peer ts (ma_store app) = (ma_store app, Inr ())"

lemma stored_topics:
  assumes "SetDesiredTopics dev ts s = (s', Inr ())" "sorted_list_of_set (set ts) = ts"
  shows "(case DesiredTopics dev s' of Inl ErrNotFound \<Rightarrow> ts = [] | Inl _ \<Rightarrow> False | Inr xs \<Rightarrow> xs = ts) \<and> SetDesiredTopics dev ts s' = (s', Inr ())"
proof (cases "ts \<noteq> [] \<or> lookup_peer s dev \<noteq> Inr None")
  case True
  from desired_topics_roundtrip [OF assms(1) this] assms(2) show ?thesis by simp
next
  case False
  then have l: "lookup_peer s dev = Inr None" and [simp]: "ts = []" by simp_all
  then have g: "getPeerLocked s dev = Inl ErrNotFound" by (auto simp: lookup_peer_def split: sum.splits mesh_error.splits)
  have i: "validateID ''device_id'' dev = None" using assms(1) by (auto simp: SetDesiredTopics_def seq_op_eq_Inr)
  have "SetDesiredTopics dev ts s = (s, Inr ())"
    using l i by (simp add: SetDesiredTopics_def seq_op_def bind_op_def check_op_def lift_op_def read_op_def ret_op_def Let_def)
  then have "s' = s" using assms(1) by simp
  then show ?thesis using g i assms(1) by (simp add: DesiredTopics_def)
qed

lemma set_desired_intends:
  assumes "setDesiredMeshTopics peer ts connectedAt app = (app', None)" "sorted_list_of_set (set ts) = ts" "sort (remdups ts) = ts"
  shows "intends peer ts app'"
proof -
  obtain s where s: "SetDesiredTopics peer ts (ma_store app) = (s, Inr ())"
    "app' = app\<lparr>ma_store := s, ma_outbound := (ma_outbound app)(peer := outbound_entry connectedAt ts)\<rparr>"
    using assms(1) by (auto simp: setDesiredMeshTopics_def split: prod.splits sum.splits)
  show ?thesis using stored_topics [OF s(1) assms(2)] assms(3) unfolding intends_def s(2)
    by (simp add: desiredMeshTopics_def outbound_entry_def)
qed

lemma set_desired_again:
  assumes "intends peer ts app"
  shows "\<exists>app'. setDesiredMeshTopics peer ts connectedAt app = (app', None)"
  using assms by (simp add: intends_def setDesiredMeshTopics_def)

lemma restore_intends:
  assumes "intends peer ts app" "validateMeshTopics ts = Inr ts" "sort (remdups ts) = ts"
  shows "\<exists>app'. restoreDesiredMeshPeer peer app = (app', None) \<and> intends peer ts app'"
proof -
  have "(case DesiredTopics peer (ma_store app) of Inl ErrNotFound \<Rightarrow> Inr [] | res \<Rightarrow> res) = Inr ts"
    using assms(1) by (auto simp: intends_def split: sum.splits mesh_error.splits)
  then show ?thesis using assms by (simp add: restoreDesiredMeshPeer_def Let_def intends_def desiredMeshTopics_def outbound_entry_def)
qed

lemma subscribe_intends:
  assumes "validateMeshTopics topics = Inr ts" "snd (SetDesiredTopics peer ts (ma_store app)) = Inr ()"
  shows "intends peer ts (fst (SubscribeMeshPeer sts call peer topics app))"
proof -
  note v = valid_topics [OF assms(1)]
  have s: "sorted_list_of_set (set ts) = ts" using v(1) by simp
  obtain app1 where a: "setDesiredMeshTopics peer ts 0 app = (app1, None)"
    using assms(2) by (cases "SetDesiredTopics peer ts (ma_store app)") (auto simp: setDesiredMeshTopics_def)
  note i = set_desired_intends [OF a s v(3)]
  obtain app2 where b: "setDesiredMeshTopics peer ts connectedAt app1 = (app2 connectedAt, None)" for connectedAt
    using set_desired_again [OF i] by metis
  note j = set_desired_intends [OF b s v(3)]
  show ?thesis using i j by (auto simp: SubscribeMeshPeer_def assms(1) a b split: option.split sum.split)
qed

lemma unsubscribe_intends:
  assumes "snd (SetDesiredTopics peer [] (ma_store app)) = Inr ()"
  shows "intends peer [] (fst (UnsubscribeMeshPeer sts call peer app))"
proof -
  obtain app1 where a: "setDesiredMeshTopics peer [] 0 app = (app1, None)"
    using assms by (cases "SetDesiredTopics peer [] (ma_store app)") (auto simp: setDesiredMeshTopics_def)
  from set_desired_intends [OF this] show ?thesis by (simp add: UnsubscribeMeshPeer_def a split: option.split)
qed


text \<open>
  The worker that restores a subscription uses the topics it read before its fetch: an operator's cancellation in
  between is undone, in the store too, when it subscribes again.
\<close>

theorem cancelled_subscription_returns:
  assumes "snd (SetDesiredTopics peer [] (ma_store app)) = Inr ()" "app1 = fst (UnsubscribeMeshPeer sts call peer app)"
    "validateMeshTopics topics = Inr ts" "snd (SetDesiredTopics peer ts (ma_store app1)) = Inr ()"
  shows "(\<exists>w. sync_reach w \<and> sw_topics w = desiredMeshTopics peer app1 \<and> sw_pc w = Resubscribing [''sessions''])
    \<and> desiredMeshTopics peer app1 = [] \<and> desiredMeshTopics peer (fst (SubscribeMeshPeer sts' call' peer topics app1)) = ts"
proof -
  have none: "desiredMeshTopics peer app1 = []" using unsubscribe_intends [OF assms(1)] assms(2) by (simp add: intends_def)
  have again: "desiredMeshTopics peer (fst (SubscribeMeshPeer sts' call' peer topics app1)) = ts"
    using subscribe_intends [OF assms(3,4)] by (simp add: intends_def)
  let ?a = "sync_init\<lparr>sw_running := True\<rparr>\<lparr>sw_topics := [''sessions'']\<rparr>" let ?b = "scheduleMeshSync True ?a"
  let ?c = "worker_step True (worker_step True ?b)" let ?d = "?c\<lparr>sw_topics := []\<rparr>" let ?e = "worker_step True (worker_step True ?d)"
  have step: "sync_reach u \<Longrightarrow> sync_step u v \<Longrightarrow> sync_reach v" for u v
    unfolding sync_reach_def by (rule rtranclp.rtrancl_into_rtrancl)
  have "sync_reach (sync_init\<lparr>sw_running := True\<rparr>)"
    by (rule step [OF _ sync_step.start]) (simp_all add: sync_reach_def sync_init_def)
  then have "sync_reach ?b" by (intro step [OF step [OF _ sync_step.topics] sync_step.request])
  then have "sync_reach ?c" by (intro step [OF step [OF _ sync_step.work] sync_step.work])
  then have "sync_reach ?e" by (intro step [OF step [OF step [OF _ sync_step.topics] sync_step.work] sync_step.work])
  moreover have "sw_topics ?e = []" "sw_pc ?e = Resubscribing [''sessions'']"
    by (simp_all add: sync_init_def scheduleMeshSync_def worker_step_def)
  ultimately show ?thesis using none again by metis
qed


section \<open>Runs\<close>

definition demo_granted :: Registry where
  "demo_granted = demo_registry\<lparr>rg_Grants := [(''laptop'', [''events.read'', ''sessions.read''])]\<rparr>"

definition demo_status :: Status where
  "demo_status = zero_status\<lparr>sx_PeerID := ''laptop'', sx_State := ''connected'', sx_ConnectedAt := Some 7\<rparr>"

definition demo_change :: MeshEvent where
  "demo_change = \<lparr>vt_Name = ''sessions.changed'', vt_Data = []\<rparr>"

definition demo_links :: links where
  "demo_links = [''laptop'' \<mapsto> ([''events.v1''], event_init 1)]"

lemma demo_granted_scopes: "HasScope (principalFor demo_granted ''laptop'') x \<longleftrightarrow> x \<in> {''events.read'', ''sessions.read''}"
  by (auto simp: HasScope_def principalFor_def demo_granted_def list_ex_iff)

lemma demo_connected_at [simp]: "meshConnectedAt [demo_status] ''laptop'' = Some 7"
  by (simp add: meshConnectedAt_def demo_status_def zero_status_def)

lemma demo_subscribe: "ma_subs (fst (events_subscribe [demo_status] (principalFor demo_granted ''laptop'') [''sessions''] app)) ''laptop''
    = Some \<lparr>mp_connectedAt = 7, mp_topics = [''sessions''], mp_needsGap = False\<rparr>"
proof -
  have "validateMeshTopics [''sessions''] = Inr [''sessions'']" by (simp add: validateMeshTopics_def meshTopicSessions_def)
  moreover have "authorizeMeshTopics (principalFor demo_granted ''laptop'') [''sessions''] = None"
    by (simp add: authorizeMeshTopics_def topic_scope_def meshTopicSessions_def ScopeSessionsRead_def demo_granted_scopes)
  ultimately show ?thesis by (simp add: events_subscribe_def replacePeerSubscription_def)
qed

lemma demo_send: "snd (SendEvent demo_events demo_granted ''laptop'' demo_change demo_links) = None"
  by (simp add: SendEvent_def demo_links_def demo_change_def CapabilityEventsV1_def ScopeEventsRead_def demo_granted_scopes event_run
      MaxApplicationPayload_def safeMethod_def id_shape_def char_class_defs byte_of_def)

lemma demo_sent: "\<exists>w. subs_reach demo_events demo_granted demo_golib empty_store w \<and> (''laptop'', [''sessions''], demo_change) \<in> set (su_sent w)"
proof -
  let ?sub = "\<lparr>mp_connectedAt = 7, mp_topics = [''sessions''], mp_needsGap = False\<rparr>"
  let ?w0 = "subs_init empty_store"
  let ?w1 = "?w0\<lparr>su_app := fst (events_subscribe [demo_status] (principalFor demo_granted ''laptop'') [''sessions''] (su_app ?w0))\<rparr>"
  let ?w2 = "?w1\<lparr>su_snapshots := ([''sessions''], demo_change, ma_subs (su_app ?w1)) # su_snapshots ?w1\<rparr>"
  obtain app' ls' ok where s: "send_one demo_events demo_granted [demo_status] [''sessions''] demo_change ''laptop'' ?sub (su_app ?w2) demo_links = (app', ls', ok)"
    by (metis prod_cases3)
  then have ok using demo_send by (auto simp: send_one_def subscribedToAny_def split: prod.splits)
  let ?w3 = "?w2\<lparr>su_app := app', su_sent := (if ok then [(''laptop'', [''sessions''], demo_change)] else []) @ su_sent ?w2\<rparr>"
  have "subs_step demo_events demo_granted demo_golib ?w0 ?w1" by (rule subs_step.subscribe)
  moreover have "subs_step demo_events demo_granted demo_golib ?w1 ?w2" by (rule subs_step.forward)
  moreover have "subs_step demo_events demo_granted demo_golib ?w2 ?w3"
    by (rule subs_step.deliver [where snapshot = "ma_subs (su_app ?w1)", OF _ _ s]) (simp_all add: demo_subscribe)
  ultimately have "subs_reach demo_events demo_granted demo_golib empty_store ?w3"
    unfolding subs_reach_def by (meson rtranclp.rtrancl_into_rtrancl rtranclp.rtrancl_refl)
  moreover have "(''laptop'', [''sessions''], demo_change) \<in> set (su_sent ?w3)" using \<open>ok\<close> by simp
  ultimately show ?thesis by blast
qed

theorem event_only_to_granted_witness:
  "\<exists>w. subs_reach demo_events demo_granted demo_golib empty_store w \<and> (''laptop'', [''sessions''], demo_change) \<in> set (su_sent w)
     \<and> HasScope (principalFor demo_granted ''laptop'') ScopeEventsRead"
proof -
  obtain w where w: "subs_reach demo_events demo_granted demo_golib empty_store w" "(''laptop'', [''sessions''], demo_change) \<in> set (su_sent w)"
    using demo_sent by blast
  from event_only_to_granted [OF this] w show ?thesis by blast
qed

definition demo_app :: mesh_app where
  "demo_app = \<lparr>ma_subs = (\<lambda>_. None), ma_outbound = (\<lambda>_. None), ma_store = demo_store []\<rparr>"

lemma demo_desire: "snd (SetDesiredTopics ''d'' [''sessions''] (demo_store [])) = Inr ()"
proof -
  have safe: "safeID ''sessions''" by (simp add: safeID_def id_shape_def char_class_defs byte_of_def)
  define peer where "peer = demo_peer\<lparr>ps_DesiredTopics := [''sessions'']\<rparr>"
  have p: "Peer_Validate peer = None" "ps_DeviceID peer = ''d''"
    by (simp_all add: peer_def demo_peer_eval safe)
  show ?thesis
    by (simp add: safe SetDesiredTopics_def seq_op_def bind_op_def validateID_def maxDesiredTopics_def Let_def
        peer_def [symmetric] writePeerLocked_def p writeJSONLocked_def next_fault_def) (simp add: demo_store_def)
qed


section \<open>The methods of the daemon\<close>

text \<open>\<open>meshMethodSpecs\<close>, and their registration; \<open>handlers\<close> is the table of handlers by method.\<close>

definition meshMethodSpecs :: "MethodSpec list" where
  "meshMethodSpecs =
     [\<lparr>sp_Name = ''sessions.list'', sp_Capability = ''sessions.read.v1'', sp_RequiredScope = ''sessions.read''\<rparr>,
      \<lparr>sp_Name = ''sessions.get'', sp_Capability = ''sessions.read.v1'', sp_RequiredScope = ''sessions.read''\<rparr>,
      \<lparr>sp_Name = ''artifacts.list'', sp_Capability = ''artifacts.read.v1'', sp_RequiredScope = ''artifacts.read''\<rparr>,
      \<lparr>sp_Name = ''artifacts.get'', sp_Capability = ''artifacts.read.v1'', sp_RequiredScope = ''artifacts.read''\<rparr>,
      \<lparr>sp_Name = ''events.subscribe'', sp_Capability = ''events.v1'', sp_RequiredScope = ''events.read''\<rparr>,
      \<lparr>sp_Name = ''events.unsubscribe'', sp_Capability = ''events.v1'', sp_RequiredScope = ''events.read''\<rparr>,
      \<lparr>sp_Name = ''handoffs.prepare'', sp_Capability = ''handoffs.v1'', sp_RequiredScope = ''handoffs.prepare''\<rparr>,
      \<lparr>sp_Name = ''handoffs.status'', sp_Capability = ''handoffs.v1'', sp_RequiredScope = ''handoffs.prepare''\<rparr>,
      \<lparr>sp_Name = ''handoffs.launch'', sp_Capability = ''handoffs.v1'', sp_RequiredScope = ''handoffs.launch''\<rparr>,
      \<lparr>sp_Name = ''handoffs.verify'', sp_Capability = ''handoffs.v1'', sp_RequiredScope = ''handoffs.launch''\<rparr>]"

fun register_specs :: "(string \<Rightarrow> 'h) \<Rightarrow> MethodSpec list \<Rightarrow> 'h methods \<Rightarrow> 'h methods \<times> method_error option" where
  "register_specs handlers [] ms = (ms, None)"
| "register_specs handlers (spec # specs) ms =
     (case RegisterHandler spec (Some (handlers (sp_Name spec))) ms of
        (ms, Some e) \<Rightarrow> (ms, Some e)
      | (ms, None) \<Rightarrow> register_specs handlers specs ms)"

definition registerMeshApplication :: "(string \<Rightarrow> 'h) \<Rightarrow> 'h methods \<Rightarrow> 'h methods \<times> method_error option" where
  "registerMeshApplication handlers ms = register_specs handlers meshMethodSpecs ms"

lemma register_specs_ok:
  assumes "distinct (map sp_Name specs)" "\<forall>spec \<in> set specs. validateMethodSpec spec True = None \<and> ms (sp_Name spec) = None"
  shows "register_specs handlers specs ms = ((\<lambda>m. case List.find (\<lambda>spec. sp_Name spec = m) specs of None \<Rightarrow> ms m | Some spec \<Rightarrow> Some (spec, Some (handlers m))), None)"
  using assms
proof (induction specs arbitrary: ms)
  case (Cons spec specs)
  have "RegisterHandler spec (Some (handlers (sp_Name spec))) ms = (ms(sp_Name spec \<mapsto> (spec, Some (handlers (sp_Name spec)))), None)"
    using Cons(3) by (simp add: RegisterHandler_def)
  moreover have none: "List.find (\<lambda>s. sp_Name s = sp_Name spec) specs = None" using Cons(2) by (auto simp: find_None_iff image_iff)
  moreover have "\<forall>s \<in> set specs. sp_Name s \<noteq> sp_Name spec" using Cons(2) by (auto simp: image_iff)
  ultimately show ?case using Cons by (auto simp: fun_eq_iff split: option.split)
qed simp

lemma specs_valid: "list_all (\<lambda>spec. validateMethodSpec spec True = None) meshMethodSpecs"
  by (simp add: meshMethodSpecs_def validateMethodSpec_def safeMethod_def safeScope_def id_shape_def char_class_defs byte_of_def)

lemma specs_distinct: "distinct (map sp_Name meshMethodSpecs)"
  by (simp add: meshMethodSpecs_def)


definition demo_table :: "unit methods" where
  "demo_table = fst (registerMeshApplication (\<lambda>_. ()) (\<lambda>_. None))"

lemma demo_table_subscribe: "demo_table ''events.subscribe'' = Some (\<lparr>sp_Name = ''events.subscribe'', sp_Capability = ''events.v1'', sp_RequiredScope = ''events.read''\<rparr>, Some ())"
  using register_specs_ok [OF specs_distinct, of "\<lambda>_. None" "\<lambda>_. ()"] specs_valid
  by (simp add: demo_table_def registerMeshApplication_def list_all_iff) (simp add: meshMethodSpecs_def)


end
