(* ===== verification/Spec2Isabelle.thy ===== *)
theory Spec2Isabelle
  imports Session Hooks Profile Health Delivery Mesh_Bindings Handoff_Runs Screenstitch Mesh_Subs
begin

text \<open>
  \<^bold>\<open>arcmux: sessions, hooks, health, prompt delivery, mesh and handoff\<close>

  arcmux is a daemon that runs coding agents in terminal panes. A \<^emph>\<open>session\<close> (\<open>internal/session\<close>) is the
  daemon's record of one agent. The agent's hooks write a \<^emph>\<open>session document\<close> (\<open>internal/hooks\<close>), which the
  \<^emph>\<open>health monitor\<close> (\<open>internal/health\<close>) reads beside the screen to decide whether the agent works, is idle or
  stuck; a \<^emph>\<open>profile\<close> (\<open>internal/profile\<close>) sets its parameters. A prompt is given to an agent by the \<^emph>\<open>delivery
  controller\<close> (\<open>internal/delivery\<close>), which asks a cascade of judges whether it was taken. Screen captures
  are merged into a transcript (\<open>internal/screenstitch\<close>) and sessions are summarised for display
  (\<open>internal/sessionview\<close>). Daemons on several devices are connected as peers (\<open>internal/mesh\<close>) and exchange
  inventories of their sessions and artifacts (\<open>internal/daemon/mesh_application.go\<close>); what one knows of the others is
  the \<^emph>\<open>mesh state\<close> (\<open>internal/meshstate\<close>). Work
  moves between devices as a \<^emph>\<open>handoff\<close> (\<open>internal/handoff\<close>): an immutable manifest with a durable record on
  each side. Operator text in it passes the \<^emph>\<open>credential screen\<close> (\<open>internal/safetext\<close>).

  \<^bold>\<open>Theories\<close>

  \<^item> \<open>Go_Prelude\<close>: Go's errors as sums, operations as state transformers with their combinators, strings and
    UTF-8 (\<open>runes_of\<close>, \<open>to_valid_utf8\<close>), white space, paths, association-list directories (\<open>fnode\<close>), and the
    \<open>ascii_eval\<close> rules that evaluate text functions on literals.
  \<^item> \<open>Session\<close> (\<open>state.go\<close>): the record \<open>Session\<close>, every setter, the turn-anchor invariant of every reachable
    session, and that a private session stays private.
  \<^item> \<open>Hooks\<close> (\<open>sessionstate.go\<close>, \<open>history_binding.go\<close>): a directory of documents behind a file lock; each writer is
    a read-modify-write with faults. The locale \<open>revision_writer\<close> is interpreted for all five writers, and
    \<open>provenance_view\<close> for the two kinds of provenance that only one writer may issue.
  \<^item> \<open>Profile\<close> (\<open>profile.go\<close>): the built-in tables and their consistency.
  \<^item> \<open>Health\<close> (\<open>monitor.go\<close>): \<open>Check\<close>, \<open>tick\<close> and the loop \<open>Run\<close> over a list of observed environments; its
    transition table, the hook and screen verdicts, bounds on nudges and on the event channel.
  \<^item> \<open>Delivery\<close> (\<open>judge*.go\<close>, \<open>controller.go\<close>): the judges as a datatype with \<open>Assess\<close>, the locale
    \<open>delivery_judge\<close> interpreted for every cascade the factory builds, and \<open>EnsureIngested\<close> with fuel:
    \<open>delivery_terminates\<close> gives the number of rounds after which it has returned, and
    \<open>delivery_blocked_forever\<close> when no number is enough. Confidence values are exact rationals of the float64 literals.
  \<^item> \<open>Mesh_Json\<close>, \<open>Mesh_Types\<close> (\<open>types.go\<close>): the JSON reader used for metadata, the entities and their validators.
  \<^item> \<open>Mesh_View\<close> (\<open>session_inventory.go\<close>, \<open>artifact_inventory.go\<close>): the freshness a read reports. The locale
    \<open>inventory_view\<close>, extended by \<open>gated_view\<close>, is interpreted for sessions and for artifacts.
  \<^item> \<open>Mesh_Store\<close> (\<open>store.go\<close>): the store as a record of five directories, a clock, watchers and the outcome of
    coming writes (\<open>st_faults\<close>); every operation with its guards and notifications.
  \<^item> \<open>Mesh_Inventory\<close>, \<open>Mesh_Commit\<close>: the three inventory transactions. A commit is a sequence of single-file
    writes of which the peer document is the last; the theorems show that readers see it whole or not at all,
    what a commit makes fresh and gone, and that an old revision is refused.
  \<^item> \<open>Mesh_Docs\<close>: the locale \<open>document_map\<close> (put and get refine a finite map), interpreted for peers and artifacts,
    and the operations that mark a peer as syncing or disconnected.
  \<^item> \<open>Mesh_Bindings\<close>: surface bindings and the notification streams of watchers.
  \<^item> \<open>Safetext\<close> (\<open>credentials.go\<close>): the patterns as regular expressions; the matcher decides their language.
  \<^item> \<open>Handoff_Manifest\<close> (\<open>manifest.go\<close>), \<open>Handoff_Store\<close> (\<open>record.go\<close>, \<open>store.go\<close>): the manifest, the two state
    machines and the store, whose writes may fail before or after the file is replaced.
  \<^item> \<open>Handoff_Runs\<close>: sequences of calls. The locale \<open>record_writer\<close>, interpreted for the source and the target side,
    gives how records evolve and how their contents trace back to calls.
  \<^item> \<open>Screenstitch\<close> (\<open>screenstitch.go\<close>): the merger of captures; every visible line is logged once.
  \<^item> \<open>Session_View\<close> (\<open>sessionview.go\<close>, \<open>session_catalog.go\<close>): summaries of sessions, the screen of current work and the
    catalog, whose list and lookup agree.
  \<^item> \<open>Mesh_Export\<close>, \<open>Mesh_Paging\<close>, \<open>Mesh_Sync\<close> (\<open>mesh_application.go\<close>): what is sent to a peer and accepted from one, as
    a noninterference and a safety theorem; inventories served in pages from bounded caches that expire, and
    fetched whole or not at all; their commit to the mesh state; the worker that synchronises, as a step relation
    whose theorems say which requests it cannot lose and that it ends.
  \<^item> \<open>Mesh_Registry\<close> (\<open>registry.go\<close>, \<open>tunnel.go\<close>, parts of \<open>mesh.go\<close> and \<open>config.go\<close>): the registry of peers and tokens and
    its validation, the mesh configuration, ssh arguments, the redaction of secrets in errors, retry delays,
    authorisation and the handshake.
  \<^item> \<open>Mesh_Peers\<close> (\<open>mesh.go\<close>, \<open>tunnel.go\<close>): the manager and its goroutines (dial loops, tunnel supervisors, readers,
    heartbeats, upgrades) as steps that interleave in any order; the status of a peer is true to its connection
    and never shows a credential.
  \<^item> \<open>Mesh_Rpc\<close> (\<open>rpc.go\<close>, \<open>mesh.go\<close>): calls, handlers, cancellations and pings of a connection, again as interleaved
    critical sections.
  \<^item> \<open>Mesh_Events\<close> (\<open>rpc.go\<close>, \<open>mesh.go\<close>): the event queue of a connection with its writer, and the subscribers of received
    events; a lost event is followed by a gap, with the exact exceptions.
  \<^item> \<open>Mesh_Subs\<close> (\<open>mesh_application.go\<close>): the subscriptions of peers, forwarding, the durable record of what the operator
    wants, the pass that follows the connections, and the table of methods. Events reach only peers with the
    scopes for them, and a method starts only under its own scope.

  \<^bold>\<open>Conventions\<close>

  A Go error is the left side of a sum; an operation under a mutex is one step \<open>'s \<Rightarrow> 's \<times> (error + 'a)\<close>. Times are
  integers with 0 as the zero time (with a UTC flag in handoff, whose validators test the location), durations are
  nanoseconds. Counters that can wrap are words: \<open>u64\<close> revisions and sequence numbers, 32-bit attempts. Strings
  are byte lists. A file holds a decoded value, or is undecodable, too open or not regular; writing applies
  what \<open>encoding/json\<close> does to the text of the fields (the \<open>stored\<close> functions). A clone is the value itself.

  \<^bold>\<open>Parameters\<close>

  Code outside the sources is an argument: \<open>lo\<close> (lower-casing of non-ASCII runes), \<open>golib\<close> (the same and
  URL parsing), \<open>hlib\<close> (the JSON text of a manifest, SHA-256), \<open>meshlib\<close> (addresses, durations and token hashes), \<open>codec\<close> and \<open>event_codec\<close>
  (the JSON text of calls and events), the answers of the judging service, and what a tick or
  a delivery round observes of the screen and the clock. No theorem assumes which functions they are.

  \<^bold>\<open>Not modelled\<close>

  Crashes in the middle of a write, other than as its three outcomes; directory creation and permissions, other
  than as a fault; concurrent processes on the same files, which the code excludes by locks. Sockets, ssh and agent
  processes appear as the outcomes a step observes. Of the daemon (\<open>internal/daemon\<close>) the start and supervision of
  agents, the outbox and the HTTP and gRPC front ends; the capture of repositories and histories
  (\<open>internal/handoff\<close> apart from the above), which is file copying and git; the manager's SQL store, the terminal back
  ends, the hook installers, the reading of configuration files, the commands and the generated protocol code:
  they are mostly input and output around the components above.
\<close>

end
